(* ===== verification/Prelude.thy ===== *)
theory Prelude
  imports Complex_Main
begin

text \<open>
  Shared vocabulary of the development: Python exceptions as values, Python strings and
  dictionaries, and the generic lemmas the component theories use.

  Strings. A Python \<open>str\<close> is a HOL \<open>string\<close> holding its UTF-8 bytes, so that the em dashes
  of the prompt constants can be written. The character operations (\<open>strip\<close>, \<open>lower\<close>,
  regular-expression classes) are those of Python on ASCII text; bytes above 127 are never
  spaces, never letters and are left alone by \<open>lower\<close>. \<open>py_len\<close> and \<open>py_take\<close> count code
  points, as Python does. \<open>bytes\<close> objects are strings too.

  Dictionaries. A Python \<open>dict\<close> iterates in insertion order, so it is an association list with
  distinct keys (\<open>dict_ok\<close>); \<open>dict_set\<close> overwrites in place or appends.

  Floats are rationals: the program compares, multiplies by powers of two and takes minima
  and maxima of finite floats, all exact; NaN and infinities are outside the model.
\<close>

section \<open>Collections of rewrite rules\<close>

named_theorems text_simps \<open>string helpers, for evaluation of concrete texts\<close>
named_theorems dict_simps \<open>association-list dictionaries\<close>
named_theorems step_simps \<open>unfolding of single operations on the world\<close>

section \<open>Exceptions and results\<close>

datatype py_exn =
    ValueError string
  | FreeFormRejected string    \<comment> \<open>\<open>FreeFormRejectedError\<close>, a subclass of \<open>ValueError\<close>\<close>
  | KeyError string
  | RuntimeError string
  | DecimalError string        \<comment> \<open>\<open>decimal.InvalidOperation\<close>, \<open>decimal.DivisionByZero\<close>\<close>
  | HTTPException int string   \<comment> \<open>FastAPI: status and detail\<close>
  | OtherError string          \<comment> \<open>any other \<open>Exception\<close>\<close>

type_synonym 'a result = "py_exn + 'a"

fun is_value_error :: "py_exn \<Rightarrow> bool" where
  "is_value_error (ValueError _) = True"
| "is_value_error (FreeFormRejected _) = True"
| "is_value_error _ = False"

definition bind_res :: "'a result \<Rightarrow> ('a \<Rightarrow> 'b result) \<Rightarrow> 'b result" where
  "bind_res r f = (case r of Inl e \<Rightarrow> Inl e | Inr x \<Rightarrow> f x)"

lemma bind_res_simps [simp]:
  "bind_res (Inl e) f = Inl e" "bind_res (Inr x) f = f x"
  by (simp_all add: bind_res_def)

lemma bind_res_Inr_iff: "bind_res r f = Inr y \<longleftrightarrow> (\<exists>x. r = Inr x \<and> f x = Inr y)"
  by (cases r) auto

fun map_res :: "('a \<Rightarrow> 'b result) \<Rightarrow> 'a list \<Rightarrow> 'b list result" where
  "map_res f [] = Inr []"
| "map_res f (x # xs) =
     bind_res (f x) (\<lambda>y. bind_res (map_res f xs) (\<lambda>ys. Inr (y # ys)))"

lemma map_res_Inr_iff:
  "map_res f xs = Inr ys \<longleftrightarrow> list_all2 (\<lambda>x y. f x = Inr y) xs ys"
proof (induction xs arbitrary: ys)
  case Nil
  then show ?case by auto
next
  case (Cons x xs)
  then show ?case
    by (cases ys) (auto simp: bind_res_Inr_iff)
qed

lemma map_res_total:
  "(\<And>x. x \<in> set xs \<Longrightarrow> \<exists>y. f x = Inr y) \<Longrightarrow> \<exists>ys. map_res f xs = Inr ys"
proof (induction xs)
  case (Cons x xs)
  then obtain y ys where "f x = Inr y" "map_res f xs = Inr ys" by fastforce
  then show ?case by simp
qed simp

section \<open>Characters and strings\<close>

type_synonym bytes = string

definition code :: "char \<Rightarrow> nat" where
  "code c = of_char c"

definition is_space :: "char \<Rightarrow> bool" where
  "is_space c = (let k = code c in (9 \<le> k \<and> k \<le> 13) \<or> (28 \<le> k \<and> k \<le> 32))"

definition is_upper :: "char \<Rightarrow> bool" where
  "is_upper c = (65 \<le> code c \<and> code c \<le> 90)"

definition is_lower :: "char \<Rightarrow> bool" where
  "is_lower c = (97 \<le> code c \<and> code c \<le> 122)"

definition is_digit :: "char \<Rightarrow> bool" where
  "is_digit c = (48 \<le> code c \<and> code c \<le> 57)"

definition is_word :: "char \<Rightarrow> bool" where
  "is_word c = (is_lower c \<or> is_upper c \<or> is_digit c \<or> c = CHR ''_'')"

definition lower_char :: "char \<Rightarrow> char" where
  "lower_char c = (if is_upper c then char_of (code c + 32) else c)"

definition lower :: "string \<Rightarrow> string" where
  "lower s = map lower_char s"

definition lstrip :: "string \<Rightarrow> string" where
  "lstrip s = dropWhile is_space s"

definition rstrip :: "string \<Rightarrow> string" where
  "rstrip s = rev (dropWhile is_space (rev s))"

definition strip :: "string \<Rightarrow> string" where
  "strip s = rstrip (lstrip s)"

definition rstrip_char :: "char \<Rightarrow> string \<Rightarrow> string" where
  "rstrip_char c s = rev (dropWhile (\<lambda>x. x = c) (rev s))"

fun join :: "string \<Rightarrow> string list \<Rightarrow> string" where
  "join sep [] = []"
| "join sep [x] = x"
| "join sep (x # y # ys) = x @ sep @ join sep (y # ys)"

fun is_prefix :: "string \<Rightarrow> string \<Rightarrow> bool" where
  "is_prefix [] s = True"
| "is_prefix (c # p) [] = False"
| "is_prefix (c # p) (d # s) = (c = d \<and> is_prefix p s)"

fun contains :: "string \<Rightarrow> string \<Rightarrow> bool" where   \<comment> \<open>Python's \<open>p in s\<close>\<close>
  "contains p [] = (p = [])"
| "contains p (c # s) = (is_prefix p (c # s) \<or> contains p s)"

fun split_ws_aux :: "string \<Rightarrow> string \<Rightarrow> string list" where
  "split_ws_aux acc [] = (if acc = [] then [] else [rev acc])"
| "split_ws_aux acc (c # s) =
     (if is_space c then (if acc = [] then split_ws_aux [] s else rev acc # split_ws_aux [] s)
      else split_ws_aux (c # acc) s)"

definition split_ws :: "string \<Rightarrow> string list" where   \<comment> \<open>Python's \<open>s.split()\<close>\<close>
  "split_ws s = split_ws_aux [] s"

text \<open>Code points: a UTF-8 continuation byte (\<open>10xxxxxx\<close>) does not start one.\<close>

definition is_cont :: "char \<Rightarrow> bool" where
  "is_cont c = (128 \<le> code c \<and> code c \<le> 191)"

definition py_len :: "string \<Rightarrow> int" where
  "py_len s = int (length (filter (\<lambda>c. \<not> is_cont c) s))"

fun py_take :: "nat \<Rightarrow> string \<Rightarrow> string" where   \<comment> \<open>Python's \<open>s[:n]\<close>\<close>
  "py_take n [] = []"
| "py_take n (c # s) =
     (if is_cont c then c # py_take n s
      else case n of 0 \<Rightarrow> [] | Suc m \<Rightarrow> c # py_take m s)"

fun show_nat :: "nat \<Rightarrow> string" where
  "show_nat n = (if n < 10 then [char_of (48 + n)]
                 else show_nat (n div 10) @ [char_of (48 + n mod 10)])"

declare show_nat.simps [simp del]

definition show_int :: "int \<Rightarrow> string" where
  "show_int i = (if i < 0 then CHR ''-'' # show_nat (nat (- i)) else show_nat (nat i))"

text \<open>The em dash of the prompt constants, in UTF-8.\<close>

definition em_dash :: string where
  "em_dash = [char_of (226::nat), char_of (128::nat), char_of (148::nat)]"

lemma code_char_of [simp]: "n < 256 \<Longrightarrow> code (char_of n) = n"
  by (simp add: code_def)

lemma length_lower [simp]: "length (lower s) = length s"
  by (simp add: lower_def)

lemma lower_append [simp]: "lower (s @ t) = lower s @ lower t"
  by (simp add: lower_def)

lemma lower_Nil_iff [simp]: "lower s = [] \<longleftrightarrow> s = []"
  by (simp add: lower_def)

lemma lower_char_idem: "lower_char (lower_char c) = lower_char c"
  by (auto simp: lower_char_def is_upper_def)

lemma lower_idem [simp]: "lower (lower s) = lower s"
  by (simp add: lower_def lower_char_idem)

lemma is_prefix_iff: "is_prefix p s \<longleftrightarrow> (\<exists>t. s = p @ t)"
  by (induction p s rule: is_prefix.induct) auto

lemma contains_iff: "contains p s \<longleftrightarrow> (\<exists>a b. s = a @ p @ b)"
proof (induction s)
  case Nil
  then show ?case by auto
next
  case (Cons c s)
  show ?case
  proof
    assume "contains p (c # s)"
    then consider "is_prefix p (c # s)" | "contains p s" by auto
    then show "\<exists>a b. c # s = a @ p @ b"
    proof cases
      case 1
      then obtain t where "c # s = [] @ p @ t" by (auto simp: is_prefix_iff)
      then show ?thesis by blast
    next
      case 2
      then obtain a b where "c # s = (c # a) @ p @ b" using Cons.IH by auto
      then show ?thesis by blast
    qed
  next
    assume "\<exists>a b. c # s = a @ p @ b"
    then obtain a b where eq: "c # s = a @ p @ b" by blast
    show "contains p (c # s)"
    proof (cases a)
      case Nil
      with eq have "is_prefix p (c # s)" by (auto simp: is_prefix_iff)
      then show ?thesis by simp
    next
      case (Cons x a')
      with eq have "s = a' @ p @ b" by simp
      then have "contains p s" using Cons.IH by blast
      then show ?thesis by simp
    qed
  qed
qed

lemma contains_append: "contains p (a @ p @ b)"
  by (auto simp: contains_iff)

lemma contains_in_append: "contains p s \<or> contains p t \<Longrightarrow> contains p (s @ t)"
  by (metis append.assoc contains_iff)

lemma strip_Nil [simp]: "strip [] = []"
  by (simp add: strip_def lstrip_def rstrip_def)

lemma rstrip_Nil_iff: "rstrip s = [] \<longleftrightarrow> list_all is_space s"
  by (auto simp: rstrip_def list_all_iff dropWhile_eq_Nil_conv)

lemma strip_eq_Nil_iff: "strip s = [] \<longleftrightarrow> list_all is_space s"
proof -
  have "list_all is_space (dropWhile is_space s) \<longleftrightarrow> list_all is_space s"
    by (metis append.right_neutral dropWhile_eq_Nil_conv list_all_append list_all_iff
        takeWhile_dropWhile_id set_takeWhileD)
  then show ?thesis by (simp add: strip_def rstrip_Nil_iff lstrip_def)
qed

lemma join_cons: "xs \<noteq> [] \<Longrightarrow> join sep (x # xs) = x @ sep @ join sep xs"
  by (cases xs) auto

lemma contains_join: "x \<in> set xs \<Longrightarrow> contains x (join sep xs)"
proof (induction xs)
  case Nil
  then show ?case by simp
next
  case (Cons y ys)
  show ?case
  proof (cases "ys = []")
    case True
    with Cons.prems show ?thesis using contains_append [of x "[]" "[]"] by simp
  next
    case False
    have "contains x (y @ sep @ join sep ys)"
    proof (cases "x = y")
      case True
      then show ?thesis using contains_append [of x "[]"] by simp
    next
      case False
      with Cons have "contains x (join sep ys)" by simp
      then show ?thesis by (simp add: contains_in_append)
    qed
    with False show ?thesis by (simp add: join_cons)
  qed
qed

section \<open>Decimal numerals\<close>

lemma char_of_digit_inj:
  "m < 10 \<Longrightarrow> n < 10 \<Longrightarrow> char_of (48 + m) = (char_of (48 + n) :: char) \<Longrightarrow> m = (n::nat)"
  by (drule arg_cong [where f = code]) simp

lemma show_nat_ne [simp]: "show_nat n \<noteq> []"
  by (subst show_nat.simps) simp

lemma show_nat_inj: "show_nat m = show_nat n \<Longrightarrow> m = n"
proof (induction m arbitrary: n rule: less_induct)
  case (less m)
  note eq = less.prems
  show ?case
  proof (cases "m < 10")
    case True
    then have one: "show_nat n = [char_of (48 + m)]"
      using eq by (simp add: show_nat.simps [of m])
    have "n < 10"
      using one by (cases "n < 10") (auto simp: show_nat.simps [of n])
    with one True show ?thesis
      by (auto simp: show_nat.simps [of n] dest: char_of_digit_inj)
  next
    case False
    have "\<not> n < 10"
    proof
      assume "n < 10"
      then have "show_nat m = [char_of (48 + n)]" using eq by (simp add: show_nat.simps [of n])
      with False show False by (simp add: show_nat.simps [of m])
    qed
    with False eq have heads: "show_nat (m div 10) = show_nat (n div 10)"
      and last: "char_of (48 + m mod 10) = (char_of (48 + n mod 10) :: char)"
      by (simp_all add: show_nat.simps [of m] show_nat.simps [of n])
    have "m div 10 = n div 10" using False heads by (intro less.IH) simp_all
    moreover have "m mod 10 = n mod 10" using last by (rule char_of_digit_inj [rotated 2]) simp_all
    ultimately show ?thesis by (metis div_mult_mod_eq)
  qed
qed

text \<open>\<open>int(s)\<close> on a string of ASCII digits, and its inverse direction.\<close>

fun digits_val :: "nat \<Rightarrow> string \<Rightarrow> nat option" where
  "digits_val acc [] = Some acc"
| "digits_val acc (c # s) =
     (if is_digit c then digits_val (acc * 10 + (code c - 48)) s else None)"

definition parse_nat :: "string \<Rightarrow> nat option" where
  "parse_nat s = (if s = [] then None else digits_val 0 s)"

definition parse_int :: "string \<Rightarrow> int option" where
  "parse_int s =
     (case s of
        [] \<Rightarrow> None
      | c # t \<Rightarrow> if c = CHR ''-'' then map_option (\<lambda>n. - int n) (parse_nat t)
                 else map_option int (parse_nat s))"

lemma digits_val_snoc:
  "digits_val a (xs @ [c]) =
     (case digits_val a xs of None \<Rightarrow> None
      | Some v \<Rightarrow> if is_digit c then Some (v * 10 + (code c - 48)) else None)"
  by (induction xs arbitrary: a) (auto split: option.splits)

lemma is_digit_char_of: "(m::nat) < 10 \<Longrightarrow> is_digit (char_of (48 + m))"
  by (simp add: is_digit_def)

lemma digits_val_show_nat: "digits_val 0 (show_nat n) = Some n"
proof (induction n rule: less_induct)
  case (less n)
  show ?case
  proof (cases "n < 10")
    case True
    then show ?thesis by (simp add: show_nat.simps [of n] is_digit_char_of)
  next
    case False
    then have "digits_val 0 (show_nat (n div 10)) = Some (n div 10)" by (intro less.IH) simp
    with False show ?thesis
      by (simp add: show_nat.simps [of n] digits_val_snoc is_digit_char_of)
  qed
qed

lemma parse_nat_show_nat [simp]: "parse_nat (show_nat n) = Some n"
  by (simp add: parse_nat_def digits_val_show_nat)

lemma digits_val_Some_digits: "digits_val a s = Some v \<Longrightarrow> list_all is_digit s"
  by (induction s arbitrary: a) (auto split: if_splits)

lemma show_nat_digits: "list_all is_digit (show_nat n)"
  by (rule digits_val_Some_digits [OF digits_val_show_nat])

lemma parse_int_show_int [simp]: "parse_int (show_int i) = Some i"
proof (cases "i < 0")
  case True
  then show ?thesis by (simp add: parse_int_def show_int_def)
next
  case False
  obtain c t where ct: "show_nat (nat i) = c # t" by (cases "show_nat (nat i)") auto
  have "is_digit c" using show_nat_digits [of "nat i"] ct by simp
  then have "c \<noteq> CHR ''-''" by (auto simp: is_digit_def code_def)
  with False ct parse_nat_show_nat [of "nat i"] show ?thesis
    by (simp add: parse_int_def show_int_def)
qed

section \<open>Python text of values\<close>

text \<open>\<open>repr(s)\<close>: quotes, backslashes and control characters are escaped, the rest is printable.\<close>

definition repr_hex :: "nat \<Rightarrow> char" where
  "repr_hex n = (if n < 10 then char_of (48 + n) else char_of (87 + n))"

definition repr_char :: "char \<Rightarrow> char \<Rightarrow> string" where
  "repr_char q c =
     (let n = code c in
      if c = q \<or> n = 92 then [char_of (92::nat), c]
      else if n = 9 then [char_of (92::nat), CHR ''t'']
      else if n = 10 then [char_of (92::nat), CHR ''n'']
      else if n = 13 then [char_of (92::nat), CHR ''r'']
      else if n < 32 \<or> n = 127
      then [char_of (92::nat), CHR ''x'', repr_hex (n div 16), repr_hex (n mod 16)]
      else [c])"

definition py_repr :: "string \<Rightarrow> string" where
  "py_repr s =
     (let single = char_of (39::nat); double = char_of (34::nat);
          q = (if single \<in> set s \<and> double \<notin> set s then double else single)
      in q # concat (map (repr_char q) s) @ [q])"

definition py_repr_list :: "string list \<Rightarrow> string" where   \<comment> \<open>\<open>repr\<close> of a list of strings\<close>
  "py_repr_list xs = ''['' @ join '', '' (map py_repr xs) @ '']''"

section \<open>Dictionaries\<close>

type_synonym ('k, 'v) dict = "('k \<times> 'v) list"

abbreviation dict_ok :: "('k, 'v) dict \<Rightarrow> bool" where
  "dict_ok d \<equiv> distinct (map fst d)"

abbreviation dict_get :: "('k, 'v) dict \<Rightarrow> 'k \<Rightarrow> 'v option" where
  "dict_get d k \<equiv> map_of d k"

definition dict_keys :: "('k, 'v) dict \<Rightarrow> 'k list" where
  "dict_keys d = map fst d"

fun dict_set :: "'k \<Rightarrow> 'v \<Rightarrow> ('k, 'v) dict \<Rightarrow> ('k, 'v) dict" where
  "dict_set k v [] = [(k, v)]"
| "dict_set k v ((k', v') # d) =
     (if k = k' then (k, v) # d else (k', v') # dict_set k v d)"

lemma dict_get_set [dict_simps]:
  "dict_get (dict_set k v d) k' = (if k' = k then Some v else dict_get d k')"
  by (induction k v d rule: dict_set.induct) auto

lemma dict_keys_set: "set (map fst (dict_set k v d)) = insert k (set (map fst d))"
  by (induction k v d rule: dict_set.induct) auto

lemma dict_ok_set [intro]: "dict_ok d \<Longrightarrow> dict_ok (dict_set k v d)"
proof (induction k v d rule: dict_set.induct)
  case (2 k v k' v' d)
  then show ?case by (auto simp: dict_keys_set simp del: set_map)
qed simp

section \<open>Lists\<close>

lemma find_Some_iff_mem: "List.find P xs = Some x \<Longrightarrow> x \<in> set xs \<and> P x"
  by (auto simp: find_Some_iff)

lemma sum_list_snoc: "sum_list (xs @ [x]) = sum_list xs + (x :: 'a :: comm_monoid_add)"
  by simp

end
