(* ===== verification/Money.thy ===== *)
theory Money
  imports Prelude
begin

text \<open>
  \<open>src/utils/money.py\<close>: USD amounts as exact rationals and their integer micro-dollar
  counterparts. Python's \<open>Decimal\<close> computes exactly on the amounts the program handles (at
  most 28 significant digits, the default context precision), which is the bound under which
  this model is exact; amounts of \<open>10\<^sup>2\<^sup>2\<close> USD and more, where \<open>quantize\<close> would raise, are
  outside it.
\<close>

type_synonym usd = rat

datatype rounding = ROUND_CEILING | ROUND_FLOOR | ROUND_HALF_UP | ROUND_HALF_EVEN

definition half_up :: "rat \<Rightarrow> int" where
  "half_up x = (if 0 \<le> x then \<lfloor>x + 1 / 2\<rfloor> else - \<lfloor>1 / 2 - x\<rfloor>)"

definition half_even :: "rat \<Rightarrow> int" where
  "half_even x =
     (let f = \<lfloor>x\<rfloor>; d = x - of_int f
      in if d < 1 / 2 then f else if 1 / 2 < d then f + 1 else if even f then f else f + 1)"

fun to_integral_value :: "rounding \<Rightarrow> rat \<Rightarrow> int" where
  "to_integral_value ROUND_CEILING x = \<lceil>x\<rceil>"
| "to_integral_value ROUND_FLOOR x = \<lfloor>x\<rfloor>"
| "to_integral_value ROUND_HALF_UP x = half_up x"
| "to_integral_value ROUND_HALF_EVEN x = half_even x"

definition micro_per_usd :: rat where
  "micro_per_usd = 1000000"

definition to_micro_with :: "rounding \<Rightarrow> usd \<Rightarrow> int" where
  "to_micro_with r usd = to_integral_value r (usd * micro_per_usd)"

definition to_micro :: "usd \<Rightarrow> int" where   \<comment> \<open>the default rounding\<close>
  "to_micro usd = to_micro_with ROUND_CEILING usd"

definition quantize6 :: "rounding \<Rightarrow> rat \<Rightarrow> usd" where
  "quantize6 r x = of_int (to_integral_value r (x * micro_per_usd)) / micro_per_usd"

definition from_micro :: "int \<Rightarrow> usd" where
  "from_micro micro = quantize6 ROUND_HALF_EVEN (of_int micro / micro_per_usd)"

definition parse_usd :: "rat \<Rightarrow> usd" where   \<comment> \<open>of the decimal \<open>Decimal(str(value))\<close>\<close>
  "parse_usd value = quantize6 ROUND_HALF_UP value"

section \<open>The micro grid\<close>

definition on_grid :: "usd \<Rightarrow> bool" where
  "on_grid x \<longleftrightarrow> (\<exists>m. x = of_int m / 1000000)"

lemma half_even_of_int [simp]: "half_even (of_int m) = m"
  by (simp add: half_even_def)

lemma half_up_of_int [simp]: "half_up (of_int m) = m"
  by (simp add: half_up_def) linarith

lemma to_integral_of_int [simp]: "to_integral_value r (of_int m) = m"
  by (cases r) simp_all

lemma from_micro_eq: "from_micro m = of_int m / 1000000"
  by (simp add: from_micro_def quantize6_def micro_per_usd_def)

lemma on_grid_from_micro [simp, intro]: "on_grid (from_micro m)"
  by (auto simp: on_grid_def from_micro_eq)

lemma on_grid_quantize6 [simp, intro]: "on_grid (quantize6 r x)"
  by (auto simp: on_grid_def quantize6_def micro_per_usd_def)

lemma to_micro_with_from_micro [simp]: "to_micro_with r (from_micro m) = m"
  by (simp add: to_micro_with_def from_micro_eq micro_per_usd_def)

lemma to_micro_from_micro [simp]: "to_micro (from_micro m) = m"
  by (simp add: to_micro_def)

lemma from_micro_to_micro: "on_grid x \<Longrightarrow> from_micro (to_micro x) = x"
  by (auto simp: on_grid_def simp flip: from_micro_eq)

lemma to_micro_ge: "x * 1000000 \<le> of_int (to_micro x)"
  by (simp add: to_micro_def to_micro_with_def micro_per_usd_def)

lemma to_micro_lt: "of_int (to_micro x) < x * 1000000 + 1"
  by (simp add: to_micro_def to_micro_with_def micro_per_usd_def) linarith

lemma to_micro_mono: "x \<le> y \<Longrightarrow> to_micro x \<le> to_micro y"
  by (simp add: to_micro_def to_micro_with_def micro_per_usd_def ceiling_mono)

lemma to_micro_nonneg: "0 \<le> x \<Longrightarrow> 0 \<le> to_micro x"
  using to_micro_mono [of 0 x] by (simp add: to_micro_def to_micro_with_def)

lemma to_micro_0 [simp]: "to_micro 0 = 0"
  by (simp add: to_micro_def to_micro_with_def)

lemma to_micro_le_0_iff: "to_micro x \<le> 0 \<longleftrightarrow> x \<le> 0"
  by (simp add: to_micro_def to_micro_with_def micro_per_usd_def ceiling_le_iff mult_le_0_iff)

lemma from_micro_0 [simp]: "from_micro 0 = 0"
  by (simp add: from_micro_eq)

lemma from_micro_add: "from_micro (a + b) = from_micro a + from_micro b"
  by (simp add: from_micro_eq add_divide_distrib)

lemma from_micro_le_iff [simp]: "from_micro a \<le> from_micro b \<longleftrightarrow> a \<le> b"
  by (simp add: from_micro_eq divide_le_cancel)

lemma to_micro_add_grid: "on_grid x \<Longrightarrow> to_micro (x + y) = to_micro x + to_micro y"
proof -
  assume "on_grid x"
  then obtain m where x: "x * 1000000 = of_int m" by (auto simp: on_grid_def)
  have "\<lceil>of_int m + y * 1000000\<rceil> = m + \<lceil>y * 1000000\<rceil>"
    by (simp only: add.commute [of "of_int m"] ceiling_add_of_int)
  with x show ?thesis
    by (simp add: to_micro_def to_micro_with_def micro_per_usd_def distrib_right)
qed

text \<open>\<open>parse_usd\<close> lands on the grid, at most half a micro-dollar away.\<close>

lemma half_up_close: "\<bar>of_int (half_up x) - x\<bar> \<le> 1 / 2"
proof (cases "0 \<le> x")
  case True
  have "of_int \<lfloor>x + 1 / 2\<rfloor> \<le> x + 1 / 2" "x + 1 / 2 < of_int \<lfloor>x + 1 / 2\<rfloor> + 1"
    by linarith+
  then have "of_int \<lfloor>x + 1 / 2\<rfloor> - x \<le> 1 / 2" "x - of_int \<lfloor>x + 1 / 2\<rfloor> \<le> 1 / 2"
    by linarith+
  then show ?thesis using True by (simp only: half_up_def if_True abs_le_iff) simp
next
  case False
  have "of_int \<lfloor>1 / 2 - x\<rfloor> \<le> 1 / 2 - x" "1 / 2 - x < of_int \<lfloor>1 / 2 - x\<rfloor> + 1"
    by linarith+
  then have "- of_int \<lfloor>1 / 2 - x\<rfloor> - x \<le> 1 / 2" "x + of_int \<lfloor>1 / 2 - x\<rfloor> \<le> 1 / 2"
    by linarith+
  then show ?thesis using False by (simp only: half_up_def if_False abs_le_iff) simp
qed

lemma parse_usd_close: "\<bar>parse_usd x - x\<bar> \<le> 1 / 2000000"
proof -
  have "\<bar>of_int (half_up (x * 1000000)) - x * 1000000\<bar> \<le> 1 / 2" by (rule half_up_close)
  then show ?thesis
    by (simp add: parse_usd_def quantize6_def micro_per_usd_def abs_le_iff field_simps)
qed

lemma parse_usd_grid [simp, intro]: "on_grid (parse_usd x)"
  by (simp add: parse_usd_def)

lemma half_even_mono: "x \<le> y \<Longrightarrow> half_even x \<le> half_even y"
proof -
  assume le: "x \<le> y"
  show ?thesis
  proof (cases "\<lfloor>x\<rfloor> = \<lfloor>y\<rfloor>")
    case True
    with le show ?thesis by (auto simp: half_even_def Let_def)
  next
    case False
    with le have "\<lfloor>x\<rfloor> < \<lfloor>y\<rfloor>" using floor_mono [OF le] by linarith
    moreover have "half_even x \<le> \<lfloor>x\<rfloor> + 1" "\<lfloor>y\<rfloor> \<le> half_even y"
      by (auto simp: half_even_def Let_def)
    ultimately show ?thesis by linarith
  qed
qed

lemma half_even_le_of_int: "x \<le> of_int k \<Longrightarrow> half_even x \<le> k"
  using half_even_mono [of x "of_int k"] by simp

end
