(* ===== verification/Regex.thy ===== *)
theory Regex
  imports Prelude
begin

text \<open>
  The regular expressions the program compiles with Python's \<open>re\<close>, as data, with the
  backtracking matcher of that engine: \<open>re_ends r st\<close> lists the states in which a match of
  \<open>r\<close> started in \<open>st\<close> can end, in the engine's order of preference (greedy repetitions,
  left alternatives first), so that the head of the list is the match Python returns. A state
  is the character before the position (if any) and the rest of the text, which is what the
  word boundary \<open>\b\<close> looks at. \<open>re_match\<close> is the declarative semantics, and
  \<open>re_ends_correct\<close> the refinement between the two.
\<close>

datatype cls = NotDot | Space | WordChar | LowerAZ | LowerDash | LowerDigit | OneOf string

fun in_cls :: "cls \<Rightarrow> char \<Rightarrow> bool" where
  "in_cls NotDot c = (c \<noteq> CHR ''.'')"
| "in_cls Space c = is_space c"
| "in_cls WordChar c = is_word c"
| "in_cls LowerAZ c = is_lower c"
| "in_cls LowerDash c = (is_lower c \<or> c = CHR ''-'')"
| "in_cls LowerDigit c = (is_lower c \<or> is_digit c)"
| "in_cls (OneOf cs) c = (c \<in> set cs)"

datatype re =
    Lit string
  | Cls cls
  | WordB
  | Seq re re
  | Alt re re
  | Rep re nat nat     \<comment> \<open>\<open>r{m,m+k}\<close>: \<open>m\<close> mandatory and \<open>k\<close> optional repetitions\<close>
  | Star re

type_synonym pos = "char option \<times> string"

fun word_before :: "pos \<Rightarrow> bool" where
  "word_before (None, s) = False"
| "word_before (Some c, s) = is_word c"

fun word_after :: "pos \<Rightarrow> bool" where
  "word_after (p, []) = False"
| "word_after (p, c # s) = is_word c"

fun eat_lit :: "string \<Rightarrow> pos \<Rightarrow> pos list" where
  "eat_lit [] st = [st]"
| "eat_lit (c # cs) (p, []) = []"
| "eat_lit (c # cs) (p, d # s) = (if c = d then eat_lit cs (Some d, s) else [])"

fun eat_cls :: "cls \<Rightarrow> pos \<Rightarrow> pos list" where
  "eat_cls k (p, []) = []"
| "eat_cls k (p, c # s) = (if in_cls k c then [(Some c, s)] else [])"

primrec rep_opt :: "nat \<Rightarrow> (pos \<Rightarrow> pos list) \<Rightarrow> pos \<Rightarrow> pos list" where
  "rep_opt 0 f st = [st]"
| "rep_opt (Suc k) f st = concat (map (rep_opt k f) (f st)) @ [st]"

primrec rep_min :: "nat \<Rightarrow> nat \<Rightarrow> (pos \<Rightarrow> pos list) \<Rightarrow> pos \<Rightarrow> pos list" where
  "rep_min 0 k f st = rep_opt k f st"
| "rep_min (Suc m) k f st = concat (map (rep_min m k f) (f st))"

primrec re_ends :: "re \<Rightarrow> pos \<Rightarrow> pos list" where
  "re_ends (Lit cs) st = eat_lit cs st"
| "re_ends (Cls k) st = eat_cls k st"
| "re_ends WordB st = (if word_before st = word_after st then [] else [st])"
| "re_ends (Seq r1 r2) st = concat (map (re_ends r2) (re_ends r1 st))"
| "re_ends (Alt r1 r2) st = re_ends r1 st @ re_ends r2 st"
| "re_ends (Rep r m k) st = rep_min m k (re_ends r) st"
| "re_ends (Star r) st = rep_opt (length (snd st)) (re_ends r) st"

text \<open>\<open>re.search\<close>: a match may start at any position.\<close>

fun search_from :: "re \<Rightarrow> char option \<Rightarrow> string \<Rightarrow> bool" where
  "search_from r p [] = (re_ends r (p, []) \<noteq> [])"
| "search_from r p (c # s) = (re_ends r (p, c # s) \<noteq> [] \<or> search_from r (Some c) s)"

definition search :: "re \<Rightarrow> string \<Rightarrow> bool" where
  "search r s = search_from r None s"

text \<open>
  \<open>re.findall\<close> and \<open>re.sub\<close>: leftmost matches, each taken in preference order, scanning on
  from its end. None of the program's patterns matches the empty text; a match that does not
  advance is treated as no match.
\<close>

definition first_end :: "re \<Rightarrow> pos \<Rightarrow> pos option" where
  "first_end r st =
     (case re_ends r st of [] \<Rightarrow> None
      | st' # _ \<Rightarrow> if length (snd st') < length (snd st) then Some st' else None)"

lemma first_end_shorter:
  "first_end r st = Some st' \<Longrightarrow> length (snd st') < length (snd st)"
  by (auto simp: first_end_def split: list.splits if_splits)

function scan :: "re \<Rightarrow> char option \<Rightarrow> string \<Rightarrow> (bool \<times> string) list" where
  "scan r p [] = []"
| "scan r p (c # s) =
     (case first_end r (p, c # s) of
        None \<Rightarrow> (False, [c]) # scan r (Some c) s
      | Some st' \<Rightarrow> (True, take (length (c # s) - length (snd st')) (c # s))
                      # scan r (fst st') (snd st'))"
  by pat_completeness auto
termination
proof (relation "measure (\<lambda>(r, p, s). length s)", goal_cases)
  case (3 r p c s st')
  then show ?case using first_end_shorter [of r "(p, c # s)" st'] by (simp add: split_beta)
qed auto

definition findall :: "re \<Rightarrow> string \<Rightarrow> string list" where
  "findall r s = map snd (filter fst (scan r None s))"

definition re_sub :: "re \<Rightarrow> (string \<Rightarrow> string) \<Rightarrow> string \<Rightarrow> string" where
  "re_sub r f s = concat (map (\<lambda>(m, t). if m then f t else t) (scan r None s))"

section \<open>Declarative semantics\<close>

inductive re_match :: "re \<Rightarrow> pos \<Rightarrow> pos \<Rightarrow> bool" where
  lit: "st' \<in> set (eat_lit cs st) \<Longrightarrow> re_match (Lit cs) st st'"
| cls: "in_cls k c \<Longrightarrow> re_match (Cls k) (p, c # s) (Some c, s)"
| wordb: "word_before st \<noteq> word_after st \<Longrightarrow> re_match WordB st st"
| seq: "re_match r1 st st1 \<Longrightarrow> re_match r2 st1 st' \<Longrightarrow> re_match (Seq r1 r2) st st'"
| alt1: "re_match r1 st st' \<Longrightarrow> re_match (Alt r1 r2) st st'"
| alt2: "re_match r2 st st' \<Longrightarrow> re_match (Alt r1 r2) st st'"
| rep0: "re_match (Rep r 0 k) st st"
| rep_more: "re_match r st st1 \<Longrightarrow> re_match (Rep r 0 k) st1 st'
    \<Longrightarrow> re_match (Rep r 0 (Suc k)) st st'"
| rep_must: "re_match r st st1 \<Longrightarrow> re_match (Rep r m k) st1 st'
    \<Longrightarrow> re_match (Rep r (Suc m) k) st st'"
| star0: "re_match (Star r) st st"
| star_more: "re_match r st st1 \<Longrightarrow> re_match (Star r) st1 st' \<Longrightarrow> re_match (Star r) st st'"

inductive_simps re_match_simps:
  "re_match (Lit cs) st st'"
  "re_match WordB st st'"
  "re_match (Seq r1 r2) st st'"
  "re_match (Alt r1 r2) st st'"
  "re_match (Rep r 0 0) st st'"
  "re_match (Rep r 0 (Suc k)) st st'"
  "re_match (Rep r (Suc m) k) st st'"

inductive_cases re_match_clsE: "re_match (Cls k) st st'"

lemma re_match_cls_iff: "re_match (Cls k) st st' \<longleftrightarrow> st' \<in> set (eat_cls k st)"
  by (cases "(k, st)" rule: eat_cls.cases) (auto elim!: re_match_clsE intro: re_match.cls)

text \<open>A match consumes a prefix of the rest of the text.\<close>

lemma eat_lit_shrinks: "st' \<in> set (eat_lit cs st) \<Longrightarrow> length (snd st') \<le> length (snd st)"
  by (induction cs st rule: eat_lit.induct) (auto split: if_splits)

lemma re_match_shrinks: "re_match r st st' \<Longrightarrow> length (snd st') \<le> length (snd st)"
  by (induction rule: re_match.induct) (auto dest: eat_lit_shrinks)

text \<open>
  A match that consumes nothing ends where it started, so it adds nothing to a repetition.
\<close>

lemma eat_lit_same:
  "st' \<in> set (eat_lit cs st) \<Longrightarrow> length (snd st') = length (snd st) \<Longrightarrow> st' = st"
proof (induction cs st rule: eat_lit.induct)
  case (3 c cs p d s)
  then show ?case by (auto split: if_splits dest: eat_lit_shrinks)
qed auto

lemma re_match_same:
  "re_match r st st' \<Longrightarrow> length (snd st') = length (snd st) \<Longrightarrow> st' = st"
proof (induction rule: re_match.induct)
  case (lit st' cs st)
  then show ?case by (rule eat_lit_same)
next
  case (cls k c p s)
  then show ?case by simp
next
  case (seq r1 st st1 r2 st')
  have "length (snd st1) \<le> length (snd st)" "length (snd st') \<le> length (snd st1)"
    using seq.hyps by (blast dest: re_match_shrinks)+
  with seq show ?case by simp
next
  case (rep_more r st st1 k st')
  have "length (snd st1) \<le> length (snd st)" "length (snd st') \<le> length (snd st1)"
    using rep_more.hyps by (blast dest: re_match_shrinks)+
  with rep_more show ?case by simp
next
  case (rep_must r st st1 m k st')
  have "length (snd st1) \<le> length (snd st)" "length (snd st') \<le> length (snd st1)"
    using rep_must.hyps by (blast dest: re_match_shrinks)+
  with rep_must show ?case by simp
next
  case (star_more r st st1 st')
  have "length (snd st1) \<le> length (snd st)" "length (snd st') \<le> length (snd st1)"
    using star_more.hyps by (blast dest: re_match_shrinks)+
  with star_more show ?case by simp
qed simp_all

section \<open>The matcher implements the semantics\<close>

lemma rep_opt_iff:
  assumes "\<And>st st'. st' \<in> set (f st) \<longleftrightarrow> re_match r st st'"
  shows "st' \<in> set (rep_opt k f st) \<longleftrightarrow> re_match (Rep r 0 k) st st'"
proof (induction k arbitrary: st)
  case 0
  then show ?case by (simp add: re_match_simps)
next
  case (Suc k)
  have "st' \<in> set (rep_opt (Suc k) f st)
      \<longleftrightarrow> st' = st \<or> (\<exists>st1. re_match r st st1 \<and> re_match (Rep r 0 k) st1 st')"
    using assms Suc by (simp del: split_paired_Ex) blast
  then show ?case by (simp add: re_match_simps)
qed

lemma rep_min_iff:
  assumes "\<And>st st'. st' \<in> set (f st) \<longleftrightarrow> re_match r st st'"
  shows "st' \<in> set (rep_min m k f st) \<longleftrightarrow> re_match (Rep r m k) st st'"
proof (induction m arbitrary: st)
  case 0
  then show ?case by (simp add: rep_opt_iff [OF assms])
next
  case (Suc m)
  have "st' \<in> set (rep_min (Suc m) k f st)
      \<longleftrightarrow> (\<exists>st1. re_match r st st1 \<and> re_match (Rep r m k) st1 st')"
    using assms Suc by (simp del: split_paired_Ex) blast
  then show ?case by (simp add: re_match_simps)
qed

lemma rep_imp_star: "re_match (Rep r 0 k) st st' \<Longrightarrow> re_match (Star r) st st'"
proof (induction k arbitrary: st)
  case 0
  then show ?case by (simp add: re_match_simps re_match.star0)
next
  case (Suc k)
  then show ?case by (simp only: re_match_simps) (metis re_match.star0 re_match.star_more)
qed

lemma star_imp_rep:
  assumes "re_match (Star r) st st'" and "length (snd st) \<le> k"
  shows "re_match (Rep r 0 k) st st'"
  using assms
proof (induction "Star r" st st' arbitrary: r k rule: re_match.induct)
  case (star0 r st)
  then show ?case by (auto intro: re_match.rep0)
next
  case (star_more r st st1 st')
  show ?case
  proof (cases "length (snd st1) = length (snd st)")
    case True
    with star_more.hyps(1) have "st1 = st" by (rule re_match_same)
    with star_more show ?thesis by simp
  next
    case False
    with star_more.hyps(1) have less: "length (snd st1) < length (snd st)"
      using re_match_shrinks by fastforce
    with star_more.prems obtain k' where k: "k = Suc k'" by (cases k) auto
    with less star_more.prems have "re_match (Rep r 0 k') st1 st'"
      by (intro star_more.hyps(4)) auto
    with star_more.hyps(1) k show ?thesis by (auto intro: re_match.rep_more)
  qed
qed

lemma re_ends_iff: "st' \<in> set (re_ends r st) \<longleftrightarrow> re_match r st st'"
proof (induction r arbitrary: st st')
  case (Cls k)
  then show ?case by (simp add: re_match_cls_iff)
next
  case (Seq r1 r2)
  have "st' \<in> set (re_ends (Seq r1 r2) st)
      \<longleftrightarrow> (\<exists>st1. re_match r1 st st1 \<and> re_match r2 st1 st')"
    using Seq by (simp del: split_paired_Ex) blast
  then show ?case by (simp add: re_match_simps)
next
  case (Rep r m k)
  then show ?case by (simp add: rep_min_iff)
next
  case (Star r)
  then have "st' \<in> set (re_ends (Star r) st) \<longleftrightarrow> re_match (Rep r 0 (length (snd st))) st st'"
    by (simp add: rep_opt_iff)
  then show ?case using rep_imp_star star_imp_rep by blast
qed (auto simp: re_match_simps)

lemma re_ends_Nil_iff: "re_ends r st \<noteq> [] \<longleftrightarrow> (\<exists>st'. re_match r st st')"
  using re_ends_iff by (metis empty_iff list.set(1) list.set_intros(1) neq_Nil_conv)

text \<open>The position reached after reading \<open>a\<close>.\<close>

definition last_char :: "char option \<Rightarrow> string \<Rightarrow> char option" where
  "last_char p a = (if a = [] then p else Some (last a))"

lemma last_char_simps [simp]:
  "last_char p [] = p" "last_char p (c # a) = last_char (Some c) a"
  by (simp_all add: last_char_def)

lemma search_from_iff:
  "search_from r p s \<longleftrightarrow> (\<exists>a b. s = a @ b \<and> re_ends r (last_char p a, b) \<noteq> [])"
proof (induction s arbitrary: p)
  case Nil
  then show ?case by simp
next
  case (Cons c s)
  show ?case (is "_ \<longleftrightarrow> (\<exists>a b. ?P a b)")
  proof
    assume "search_from r p (c # s)"
    then consider "re_ends r (p, c # s) \<noteq> []" | "search_from r (Some c) s" by auto
    then show "\<exists>a b. ?P a b"
    proof cases
      case 1
      then have "?P [] (c # s)" by simp
      then show ?thesis by blast
    next
      case 2
      then obtain a b where "s = a @ b" "re_ends r (last_char (Some c) a, b) \<noteq> []"
        using Cons.IH by blast
      then have "?P (c # a) b" by simp
      then show ?thesis by blast
    qed
  next
    assume "\<exists>a b. ?P a b"
    then obtain a b where ab: "?P a b" by blast
    show "search_from r p (c # s)"
    proof (cases a)
      case Nil
      with ab have "re_ends r (p, c # s) \<noteq> []" by simp
      then show ?thesis by simp
    next
      case (Cons x a')
      with ab have "s = a' @ b" "re_ends r (last_char (Some c) a', b) \<noteq> []" by simp_all
      then have "search_from r (Some c) s" using Cons.IH by blast
      then show ?thesis by simp
    qed
  qed
qed

lemma search_iff:
  "search r s \<longleftrightarrow> (\<exists>a b st'. s = a @ b \<and> re_match r (last_char None a, b) st')"
  by (simp add: search_def search_from_iff re_ends_Nil_iff del: split_paired_Ex)

text \<open>A match leaves a suffix of the text.\<close>

lemma eat_lit_suffix: "st' \<in> set (eat_lit cs st) \<Longrightarrow> \<exists>a. snd st = a @ snd st'"
proof (induction cs st rule: eat_lit.induct)
  case (3 c cs p d s)
  then show ?case by (auto split: if_splits intro: exI [of _ "d # _"])
qed auto

lemma re_match_suffix: "re_match r st st' \<Longrightarrow> \<exists>a. snd st = a @ snd st'"
proof (induction rule: re_match.induct)
  case (lit st' cs st)
  then show ?case by (rule eat_lit_suffix)
qed (simp_all, (metis append.assoc)+)

text \<open>\<open>findall\<close> and \<open>sub\<close> cut the text into pieces and lose none of it.\<close>

lemma scan_pieces: "concat (map snd (scan r p s)) = s"
proof (induction r p s rule: scan.induct)
  case (2 r p c s)
  show ?case
  proof (cases "first_end r (p, c # s)")
    case None
    with 2 show ?thesis by simp
  next
    case (Some st')
    then have "re_match r (p, c # s) st'"
      by (auto simp: first_end_def re_ends_iff [symmetric] split: list.splits if_splits)
    then have "\<exists>a. c # s = a @ snd st'" using re_match_suffix by fastforce
    then obtain a where a: "c # s = a @ snd st'" by blast
    then have "take (length (c # s) - length (snd st')) (c # s) = a" by simp
    moreover have "concat (map snd (scan r (fst st') (snd st'))) = snd st'"
      using 2(2) [OF Some] .
    moreover have "scan r p (c # s) = (True, take (length (c # s) - length (snd st')) (c # s))
        # scan r (fst st') (snd st')"
      using Some by simp
    ultimately show ?thesis using a by (simp only: list.map concat.simps snd_conv)
  qed
qed simp

text \<open>
  A cheap sufficient test for no match: \<open>must r\<close> are literals one of which occurs in every
  text \<open>r\<close> matches (\<open>None\<close> when there is no such list).
\<close>

primrec must :: "re \<Rightarrow> string list option" where
  "must (Lit w) = Some [w]"
| "must (Cls k) = None"
| "must WordB = None"
| "must (Seq r1 r2) = (case must r1 of Some ws \<Rightarrow> Some ws | None \<Rightarrow> must r2)"
| "must (Alt r1 r2) =
     (case must r1 of None \<Rightarrow> None
      | Some ws \<Rightarrow> (case must r2 of None \<Rightarrow> None | Some vs \<Rightarrow> Some (ws @ vs)))"
| "must (Rep r m k) = (if m = 0 then None else must r)"
| "must (Star r) = None"

lemma eat_lit_contains: "st' \<in> set (eat_lit cs st) \<Longrightarrow> is_prefix cs (snd st)"
  by (induction cs st rule: eat_lit.induct) (auto split: if_splits)

lemma contains_suffix: "contains w t \<Longrightarrow> contains w (a @ t)"
  by (simp add: contains_in_append)

lemma is_prefix_contains: "is_prefix w t \<Longrightarrow> contains w t"
  by (cases t; cases w) auto

lemma must_sound:
  "must r = Some ws \<Longrightarrow> re_match r st st' \<Longrightarrow> \<exists>w\<in>set ws. contains w (snd st)"
proof (induction r arbitrary: ws st st')
  case (Lit cs)
  then have "ws = [cs]" "is_prefix cs (snd st)"
    by (simp_all add: re_match_simps eat_lit_contains)
  then show ?case by (simp add: is_prefix_contains)
next
  case (Seq r1 r2)
  from Seq.prems(2) obtain st1 where m: "re_match r1 st st1" "re_match r2 st1 st'"
    by (auto simp: re_match_simps)
  obtain a where a: "snd st = a @ snd st1" using re_match_suffix [OF m(1)] by blast
  show ?case
  proof (cases "must r1")
    case (Some vs)
    with Seq.prems(1) show ?thesis using Seq.IH(1) [OF Some m(1)] by simp
  next
    case None
    with Seq.prems(1) have "must r2 = Some ws" by simp
    from Seq.IH(2) [OF this m(2)] show ?thesis unfolding a by (blast intro: contains_suffix)
  qed
next
  case (Alt r1 r2)
  from Alt.prems(1) obtain us vs where uv: "must r1 = Some us" "must r2 = Some vs" "ws = us @ vs"
    by (auto split: option.splits)
  from Alt.prems(2) consider "re_match r1 st st'" | "re_match r2 st st'" by (auto simp: re_match_simps)
  then show ?case
    using Alt.IH(1) [OF uv(1)] Alt.IH(2) [OF uv(2)] uv(3) by (metis Un_iff set_append)
next
  case (Rep r m k)
  then obtain m' where m': "m = Suc m'" "must r = Some ws" by (cases m) auto
  with Rep.prems(2) obtain st1 where "re_match r st st1" by (auto simp: re_match_simps)
  with Rep.IH m' show ?case by blast
qed simp_all

lemma search_must: "search r s \<Longrightarrow> must r = Some ws \<Longrightarrow> \<exists>w\<in>set ws. contains w s"
  unfolding search_iff by (metis contains_suffix must_sound snd_conv)

end
