(* ===== verification/Schemas.thy ===== *)
theory Schemas
  imports Money Regex
begin

text \<open>
  The data of the program, \<open>src/schemas/\<close>: closed vocabularies as datatypes, pydantic models
  as records (field names carry a short prefix, since HOL selectors are global), the event
  union as one datatype. The constant \<open>schema_v\<close> tags of the wire format and the two
  timestamps of the session, which no operation reads or writes, are left out. YAML scalars
  (\<open>object\<close> in \<open>Slot\<close> and \<open>Composition\<close>) are kept as the text \<open>str(o)\<close>, the only way the
  program reads them.
\<close>

section \<open>Closed vocabularies (\<open>schemas/enums.py\<close>)\<close>

datatype fsm_state =
    CREATED | FACE_CHECK | NEED_INPUT | PLANNING | AWAITING_APPROVAL | GENERATING
  | DONE | FAILED | CANCELLED

datatype verdict = PASSED | SOFT | BELOW_FLOOR

datatype risk_level = LOW | MEDIUM | HIGH

datatype paid_call_kind = GENERATION | SLOT_FILL | CLASSIFY | INVENTORY

datatype gate_reason =
    OK | NO_FACE | MULTIPLE_FACES | FACE_TOO_SMALL | LOW_RESOLUTION | BLURRY | OCCLUDED
  | POOR_LIGHTING | EXTREME_POSE

datatype failure_code =
    INPUT_REJECTED | NO_PRESET | SCENE_REJECTED | PLAN_REJECTED | BUDGET_EXHAUSTED
  | NO_DELIVERABLE | GENERATION_FAILED | REFERENCE_MISSING | WALL_CLOCK | CODE_CANCELLED
  | INTERNAL

text \<open>The bands are ordered: \<open>BELOW_FLOOR < SOFT < PASSED\<close>.\<close>

fun verdict_rank :: "verdict \<Rightarrow> nat" where
  "verdict_rank BELOW_FLOOR = 0"
| "verdict_rank SOFT = 1"
| "verdict_rank PASSED = 2"

lemma verdict_rank_inj: "verdict_rank a = verdict_rank b \<Longrightarrow> a = b"
  by (cases a; cases b) simp_all

instantiation verdict :: linorder
begin

definition less_eq_verdict :: "verdict \<Rightarrow> verdict \<Rightarrow> bool" where
  "less_eq_verdict a b = (verdict_rank a \<le> verdict_rank b)"

definition less_verdict :: "verdict \<Rightarrow> verdict \<Rightarrow> bool" where
  "less_verdict a b = (verdict_rank a < verdict_rank b)"

instance
  by intro_classes (auto simp: less_eq_verdict_def less_verdict_def dest: verdict_rank_inj)

end

text \<open>The wire values of the enumerations that travel as strings through the graph state.\<close>

fun fsm_value :: "fsm_state \<Rightarrow> string" where
  "fsm_value CREATED = ''created''"
| "fsm_value FACE_CHECK = ''face_check''"
| "fsm_value NEED_INPUT = ''need_input''"
| "fsm_value PLANNING = ''planning''"
| "fsm_value AWAITING_APPROVAL = ''awaiting_approval''"
| "fsm_value GENERATING = ''generating''"
| "fsm_value DONE = ''done''"
| "fsm_value FAILED = ''failed''"
| "fsm_value CANCELLED = ''cancelled''"

fun verdict_value :: "verdict \<Rightarrow> string" where
  "verdict_value PASSED = ''passed''"
| "verdict_value SOFT = ''soft''"
| "verdict_value BELOW_FLOOR = ''below_floor''"

fun gate_reason_value :: "gate_reason \<Rightarrow> string" where
  "gate_reason_value OK = ''ok''"
| "gate_reason_value NO_FACE = ''no_face''"
| "gate_reason_value MULTIPLE_FACES = ''multiple_faces''"
| "gate_reason_value FACE_TOO_SMALL = ''face_too_small''"
| "gate_reason_value LOW_RESOLUTION = ''low_resolution''"
| "gate_reason_value BLURRY = ''blurry''"
| "gate_reason_value OCCLUDED = ''occluded''"
| "gate_reason_value POOR_LIGHTING = ''poor_lighting''"
| "gate_reason_value EXTREME_POSE = ''extreme_pose''"

fun failure_code_value :: "failure_code \<Rightarrow> string" where
  "failure_code_value INPUT_REJECTED = ''input_rejected''"
| "failure_code_value NO_PRESET = ''no_preset''"
| "failure_code_value SCENE_REJECTED = ''scene_rejected''"
| "failure_code_value PLAN_REJECTED = ''plan_rejected''"
| "failure_code_value BUDGET_EXHAUSTED = ''budget_exhausted''"
| "failure_code_value NO_DELIVERABLE = ''no_deliverable''"
| "failure_code_value GENERATION_FAILED = ''generation_failed''"
| "failure_code_value REFERENCE_MISSING = ''reference_missing''"
| "failure_code_value WALL_CLOCK = ''wall_clock''"
| "failure_code_value CODE_CANCELLED = ''cancelled''"
| "failure_code_value INTERNAL = ''internal''"

text \<open>\<open>FailureCode(raw)\<close>, \<open>GateReason(raw)\<close>: parse a value, \<open>ValueError\<close> when unknown.\<close>

definition all_failure_codes :: "failure_code list" where
  "all_failure_codes =
     [INPUT_REJECTED, NO_PRESET, SCENE_REJECTED, PLAN_REJECTED, BUDGET_EXHAUSTED,
      NO_DELIVERABLE, GENERATION_FAILED, REFERENCE_MISSING, WALL_CLOCK, CODE_CANCELLED, INTERNAL]"

definition all_gate_reasons :: "gate_reason list" where
  "all_gate_reasons =
     [OK, NO_FACE, MULTIPLE_FACES, FACE_TOO_SMALL, LOW_RESOLUTION, BLURRY, OCCLUDED,
      POOR_LIGHTING, EXTREME_POSE]"

definition parse_failure_code :: "string \<Rightarrow> failure_code result" where
  "parse_failure_code raw =
     (case List.find (\<lambda>c. failure_code_value c = raw) all_failure_codes of
        None \<Rightarrow> Inl (ValueError raw) | Some c \<Rightarrow> Inr c)"

definition parse_gate_reason :: "string \<Rightarrow> gate_reason result" where
  "parse_gate_reason raw =
     (case List.find (\<lambda>c. gate_reason_value c = raw) all_gate_reasons of
        None \<Rightarrow> Inl (ValueError raw) | Some c \<Rightarrow> Inr c)"

lemma parse_failure_code_value [simp]: "parse_failure_code (failure_code_value c) = Inr c"
  by (cases c) (simp_all add: parse_failure_code_def all_failure_codes_def)

lemma parse_gate_reason_value [simp]: "parse_gate_reason (gate_reason_value c) = Inr c"
  by (cases c) (simp_all add: parse_gate_reason_def all_gate_reasons_def)

section \<open>Presets (\<open>schemas/presets.py\<close>)\<close>

datatype slot_policy = Locked | Default

record slot =
  sl_required :: bool
  sl_ask :: bool
  sl_default :: "string option"
  sl_enum :: "string list option"
  sl_policy :: slot_policy

record generation =
  gen_temperature :: rat
  gen_aspect_ratio :: string
  gen_face_media_resolution :: string
  gen_output_size :: string

record thresholds =
  th_similarity_threshold :: rat
  th_identity_floor :: rat
  th_K_max_retries :: int

record composition =
  co_id :: string
  co_label :: string
  co_preview_asset :: "string option"
  co_slot_overrides :: "(string, string) dict"

datatype preset_mode = Mode_generate | Mode_edit | Mode_both

record preset =
  pr_id :: string
  pr_version :: string
  pr_use_case :: "string list"      \<comment> \<open>\<open>applies_to.use_case\<close>\<close>
  pr_mode :: preset_mode
  pr_identity_instruction :: string
  pr_prompt_structure :: string
  pr_style_notes :: string
  pr_negative_prompt :: string
  pr_slots :: "(string, slot) dict"
  pr_generation :: generation
  pr_thresholds :: thresholds
  pr_compositions :: "composition list"
  pr_anchor_examples :: "string list"

text \<open>The two field validators: temperature range and semver.\<close>

definition temp_range :: "rat \<Rightarrow> rat result" where
  "temp_range v = (if 0 \<le> v \<and> v \<le> 2 then Inr v else Inl (ValueError ''temperature''))"

definition digits_re :: re where   \<comment> \<open>\<open>\d+\<close>\<close>
  "digits_re = Seq (Cls (OneOf ''0123456789'')) (Star (Cls (OneOf ''0123456789'')))"

definition semver_re :: re where   \<comment> \<open>\<open>\d+\.\d+\.\d+\<close>, anchored by the caller\<close>
  "semver_re = Seq digits_re (Seq (Lit ''.'') (Seq digits_re (Seq (Lit ''.'') digits_re)))"

definition semver :: "string \<Rightarrow> string result" where
  "semver v =
     (if list_ex (\<lambda>st. snd st = [] \<or> snd st = [char_of (10::nat)]) (re_ends semver_re (None, v))
      then Inr v else Inl (ValueError (''version '' @ py_repr v @ '' is not semver MAJOR.MINOR.PATCH'')))"

definition validate_preset :: "preset \<Rightarrow> preset result" where
  "validate_preset p =
     bind_res (temp_range (gen_temperature (pr_generation p))) (\<lambda>_.
     bind_res (semver (pr_version p)) (\<lambda>_. Inr p))"

section \<open>Brief and inventory (\<open>schemas/brief.py\<close>, \<open>schemas/inventory.py\<close>)\<close>

record change =
  ch_target :: string
  ch_instruction :: string

record brief_analysis =
  ba_use_case :: "string option"
  ba_preserve :: "string list"
  ba_changes :: "change list"
  ba_conflicts :: "string list"

record photo_inventory =
  inv_pose :: string
  inv_hands :: string
  inv_accessories :: "string list"
  inv_clothing :: string
  inv_hair :: string
  inv_facial_hair :: string
  inv_framing :: string
  inv_lighting :: string
  inv_background :: string

definition empty_inventory :: photo_inventory where
  "empty_inventory =
     \<lparr>inv_pose = [], inv_hands = [], inv_accessories = [], inv_clothing = [], inv_hair = [],
      inv_facial_hair = [], inv_framing = [], inv_lighting = [], inv_background = []\<rparr>"

definition inventory_is_empty :: "photo_inventory \<Rightarrow> bool" where
  "inventory_is_empty i \<longleftrightarrow>
     \<not> list_ex (\<lambda>b. b)
        [inv_pose i \<noteq> [], inv_hands i \<noteq> [], inv_accessories i \<noteq> [], inv_clothing i \<noteq> [],
         inv_hair i \<noteq> [], inv_facial_hair i \<noteq> [], inv_framing i \<noteq> [], inv_lighting i \<noteq> [],
         inv_background i \<noteq> []]"

lemma inventory_is_empty_iff: "inventory_is_empty i \<longleftrightarrow> i = empty_inventory"
  by (cases i) (auto simp: inventory_is_empty_def empty_inventory_def)

section \<open>Faces and sessions (\<open>schemas/state.py\<close>)\<close>

record frame_metrics =
  fm_face_count :: int
  fm_face_area_ratio :: rat
  fm_face_side :: rat
  fm_secondary_face_ratio :: rat
  fm_blur_var :: rat
  fm_yaw :: rat
  fm_pitch :: rat
  fm_roll :: rat
  fm_brightness :: rat
  fm_width :: int
  fm_height :: int

record convergence_stats =
  cv_attempts :: nat
  cv_best_similarity :: "rat option"
  cv_last_similarity :: "rat option"
  cv_improved_last :: "bool option"

definition fresh_convergence :: convergence_stats where
  "fresh_convergence =
     \<lparr>cv_attempts = 0, cv_best_similarity = None, cv_last_similarity = None,
      cv_improved_last = None\<rparr>"

record face_profile =
  fp_face_key :: string
  fp_embedding :: "rat list"
  fp_gate_verdict :: verdict
  fp_gate_reason :: gate_reason
  fp_metrics :: frame_metrics
  fp_convergence :: convergence_stats
  fp_photo_ref :: string
  fp_inventory :: "photo_inventory option"

record provider_usage =
  pu_prompt_tokens :: "int option"
  pu_completion_tokens :: "int option"
  pu_cost :: "usd option"

record paid_call_record =
  pc_kind :: paid_call_kind
  pc_cost :: usd
  pc_usage :: "provider_usage option"

record iteration =
  it_n :: nat
  it_step_n :: nat
  it_prompt_hash :: string
  it_prompt_text :: "string option"
  it_provider_request_id :: "string option"
  it_result_ref :: "string option"
  it_similarity :: "rat option"
  it_verdict :: "verdict option"
  it_charged :: bool
  it_cost :: usd
  it_usage :: "provider_usage option"
  it_risk_level :: "risk_level option"
  it_error :: "string option"

record composition_choice =
  cc_id :: string
  cc_label :: string
  cc_preview_asset :: "string option"

datatype step_status = Pending | Completed | Skipped

record edit_step =
  st_n :: nat
  st_title :: string
  st_instruction :: string
  st_targets :: "string list"
  st_applied :: string
  st_status :: step_status
  st_result_ref :: "string option"
  st_is_enhance :: bool

definition mk_step :: "nat \<Rightarrow> string \<Rightarrow> string \<Rightarrow> string list \<Rightarrow> edit_step" where
  "mk_step n title instruction targets =
     \<lparr>st_n = n, st_title = title, st_instruction = instruction, st_targets = targets,
      st_applied = [], st_status = Pending, st_result_ref = None, st_is_enhance = False\<rparr>"

lemma mk_step_simps [simp]:
  "st_n (mk_step n t i ts) = n" "st_title (mk_step n t i ts) = t"
  "st_instruction (mk_step n t i ts) = i" "st_targets (mk_step n t i ts) = ts"
  "st_applied (mk_step n t i ts) = []" "st_status (mk_step n t i ts) = Pending"
  "st_result_ref (mk_step n t i ts) = None" "st_is_enhance (mk_step n t i ts) = False"
  by (simp_all add: mk_step_def)

record plan =
  pl_summary :: string
  pl_compositions :: "composition_choice list"
  pl_selected_composition :: "string option"
  pl_planned_generations :: int
  pl_steps :: "edit_step list"

record cost_estimate =
  ce_generations :: int
  ce_budget_limit :: usd
  ce_per_generation_cost :: usd
  ce_llm_overhead_cost :: usd
  ce_total_cost :: usd
  ce_minimum_cost :: usd
  ce_note :: "string option"

record best_result =
  br_iteration_n :: nat
  br_result_ref :: string
  br_similarity :: rat
  br_verdict :: verdict
  br_risk_level :: risk_level

record session_state =
  ss_session_key :: string
  ss_face_key :: string
  ss_fsm_state :: fsm_state
  ss_preset_id :: "string option"
  ss_preset_version :: "string option"
  ss_library_version :: "string option"
  ss_brief_analysis :: "brief_analysis option"
  ss_slots :: "(string, string) dict"
  ss_plan :: "plan option"
  ss_cost_estimate :: "cost_estimate option"
  ss_approved :: bool
  ss_iterations :: "iteration list"
  ss_llm_calls :: "paid_call_record list"
  ss_thresholds :: "thresholds option"
  ss_best_result :: "best_result option"
  ss_budget_limit :: usd

definition new_session :: "string \<Rightarrow> string \<Rightarrow> usd \<Rightarrow> session_state" where
  "new_session session_key face_key limit =
     \<lparr>ss_session_key = session_key, ss_face_key = face_key, ss_fsm_state = CREATED,
      ss_preset_id = None, ss_preset_version = None, ss_library_version = None,
      ss_brief_analysis = None, ss_slots = [], ss_plan = None, ss_cost_estimate = None,
      ss_approved = False, ss_iterations = [], ss_llm_calls = [], ss_thresholds = None,
      ss_best_result = None, ss_budget_limit = limit\<rparr>"

definition cost_spent :: "session_state \<Rightarrow> usd" where
  "cost_spent s = sum_list (map it_cost (ss_iterations s)) + sum_list (map pc_cost (ss_llm_calls s))"

definition generations_spent :: "session_state \<Rightarrow> nat" where
  "generations_spent s = length (filter it_charged (ss_iterations s))"

section \<open>Stream events (\<open>schemas/events.py\<close>)\<close>

datatype event =
    StageEvent (se_stage: fsm_state)
  | NeedInputEvent (ni_slot: string) (ni_question: string) (ni_options: "string list option")
      (ni_default: "string option")
  | PlanEvent (pe_plan: plan)
  | CostEvent (coe_cost: cost_estimate)
  | StepStartedEvent (sse_n: nat) (sse_title: string) (sse_targets: "string list")
  | StepResultEvent (sre_n: nat) (sre_status: step_status) (sre_result_ref: "string option")
      (sre_similarity: "rat option")
  | IterationStartEvent (ise_n: nat)
  | IterationResultEvent (ire_n: nat) (ire_charged: bool) (ire_cost: usd)
      (ire_similarity: "rat option") (ire_verdict: "verdict option")
      (ire_risk_level: "risk_level option") (ire_result_ref: "string option")
      (ire_error: "string option") (ire_preset: "string option \<times> string option \<times> string option")
  | RetryEvent (re_n: nat) (re_reason: string) (re_previous_verdict: "verdict option")
  | ResultEvent (rse_best: best_result) (rse_iterations_used: nat) (rse_generations_spent: nat)
      (rse_cost_spent: usd) (rse_preset: "string option \<times> string option \<times> string option")
  | FailedEvent (fe_code: failure_code) (fe_reason: string) (fe_gate_reason: "gate_reason option")
      (fe_iterations_used: nat) (fe_generations_spent: nat) (fe_cost_spent: usd)
  | DoneEvent (de_steps_completed: nat) (de_steps_total: nat)

fun event_type :: "event \<Rightarrow> string" where
  "event_type (StageEvent _) = ''stage''"
| "event_type (NeedInputEvent _ _ _ _) = ''need_input''"
| "event_type (PlanEvent _) = ''plan''"
| "event_type (CostEvent _) = ''cost''"
| "event_type (StepStartedEvent _ _ _) = ''step_started''"
| "event_type (StepResultEvent _ _ _ _) = ''step_result''"
| "event_type (IterationStartEvent _) = ''iteration_start''"
| "event_type (IterationResultEvent _ _ _ _ _ _ _ _ _) = ''iteration_result''"
| "event_type (RetryEvent _ _ _) = ''retry''"
| "event_type (ResultEvent _ _ _ _ _) = ''result''"
| "event_type (FailedEvent _ _ _ _ _ _) = ''failed''"
| "event_type (DoneEvent _ _) = ''done''"

section \<open>Ledger lemmas\<close>

lemma cost_spent_append:
  "cost_spent (s\<lparr>ss_iterations := ss_iterations s @ its\<rparr>) = cost_spent s + sum_list (map it_cost its)"
  by (simp add: cost_spent_def)

lemma cost_spent_llm_append:
  "cost_spent (s\<lparr>ss_llm_calls := ss_llm_calls s @ cs\<rparr>) = cost_spent s + sum_list (map pc_cost cs)"
  by (simp add: cost_spent_def)

text \<open>\<open>charged\<close> stays equivalent to \<open>cost > 0\<close>, the record's own invariant.\<close>

definition iteration_ok :: "iteration \<Rightarrow> bool" where
  "iteration_ok it \<longleftrightarrow> (it_charged it \<longleftrightarrow> 0 < it_cost it)"

lemma generations_spent_positive:
  "list_all iteration_ok (ss_iterations s)
    \<Longrightarrow> generations_spent s = length (filter (\<lambda>it. 0 < it_cost it) (ss_iterations s))"
  unfolding generations_spent_def
  by (rule arg_cong [where f = length], rule filter_cong) (auto simp: list_all_iff iteration_ok_def)

end
