(* ===== verification/Store.thy ===== *)
theory Store
  imports Schemas
begin

text \<open>
  The state store: \<open>services/connectors/memory_store.py\<close> (dictionaries), the Redis store of
  \<open>services/connectors/redis_store.py\<close> over one string-to-bytes key space, and the three Lua
  scripts of \<open>utils/lua.py\<close>. The contracts of \<open>protocols/state_store.py\<close> that the services
  rely on are the locales \<open>budget_store\<close>, \<open>lock_store\<close> and \<open>idem_store\<close>; each is
  interpreted on both stores. Reads return values: the copy \<open>model_copy(deep=True)\<close> makes on
  \<open>put\<close> is the identity here, and \<open>get\<close> hands out a value, not the stored object. Expiry is
  not modelled (the in-memory store ignores TTLs); Redis numbers are exact integers, which Lua
  guarantees below \<open>2^53\<close> micro-USD.
\<close>

section \<open>The in-memory store\<close>

record store =
  ms_faces :: "string \<rightharpoonup> face_profile"
  ms_sessions :: "string \<rightharpoonup> session_state"
  ms_locks :: "string \<rightharpoonup> string"
  ms_idem :: "string \<rightharpoonup> bytes"
  ms_budget :: "string \<rightharpoonup> int"

definition empty_store :: store where
  "empty_store =
     \<lparr>ms_faces = Map.empty, ms_sessions = Map.empty, ms_locks = Map.empty, ms_idem = Map.empty,
      ms_budget = Map.empty\<rparr>"

definition get_face :: "string \<Rightarrow> store \<Rightarrow> face_profile option" where
  "get_face k s = ms_faces s k"

definition put_face :: "face_profile \<Rightarrow> store \<Rightarrow> store" where
  "put_face f s = s\<lparr>ms_faces := (ms_faces s)(fp_face_key f \<mapsto> f)\<rparr>"

definition get_session :: "string \<Rightarrow> store \<Rightarrow> session_state option" where
  "get_session k s = ms_sessions s k"

definition put_session :: "session_state \<Rightarrow> store \<Rightarrow> store" where
  "put_session x s = s\<lparr>ms_sessions := (ms_sessions s)(ss_session_key x \<mapsto> x)\<rparr>"

definition acquire_lock :: "string \<Rightarrow> string \<Rightarrow> store \<Rightarrow> bool \<times> store" where
  "acquire_lock k token s =
     (if ms_locks s k \<noteq> None then (False, s)
      else (True, s\<lparr>ms_locks := (ms_locks s)(k \<mapsto> token)\<rparr>))"

definition release_lock :: "string \<Rightarrow> string \<Rightarrow> store \<Rightarrow> bool \<times> store" where
  "release_lock k token s =
     (if ms_locks s k \<noteq> Some token then (False, s)
      else (True, s\<lparr>ms_locks := (ms_locks s)(k := None)\<rparr>))"

definition idem_get :: "string \<Rightarrow> store \<Rightarrow> bytes option" where
  "idem_get k s = ms_idem s k"

definition idem_put :: "string \<Rightarrow> bytes \<Rightarrow> store \<Rightarrow> bool \<times> store" where
  "idem_put k v s =
     (if ms_idem s k \<noteq> None then (False, s)
      else (True, s\<lparr>ms_idem := (ms_idem s)(k \<mapsto> v)\<rparr>))"

definition budget_used :: "string \<Rightarrow> store \<Rightarrow> int" where
  "budget_used k s = (case ms_budget s k of None \<Rightarrow> 0 | Some u \<Rightarrow> u)"

definition budget_reserve :: "string \<Rightarrow> int \<Rightarrow> int \<Rightarrow> store \<Rightarrow> bool \<times> store" where
  "budget_reserve k estimate_micro limit_micro s =
     (let used = budget_used k s
      in if limit_micro < used + estimate_micro then (False, s)
         else (True, s\<lparr>ms_budget := (ms_budget s)(k \<mapsto> used + estimate_micro)\<rparr>))"

definition budget_adjust :: "string \<Rightarrow> int \<Rightarrow> store \<Rightarrow> int \<times> store" where
  "budget_adjust k delta_micro s =
     (let new = max 0 (budget_used k s + delta_micro)
      in (new, s\<lparr>ms_budget := (ms_budget s)(k \<mapsto> new)\<rparr>))"

section \<open>Redis: one key space of byte strings\<close>

type_synonym redis = "string \<rightharpoonup> bytes"

definition redis_set :: "string \<Rightarrow> bytes \<Rightarrow> redis \<Rightarrow> redis" where   \<comment> \<open>\<open>SET k v\<close>\<close>
  "redis_set k v r = r(k \<mapsto> v)"

definition redis_set_nx :: "string \<Rightarrow> bytes \<Rightarrow> redis \<Rightarrow> bool \<times> redis" where   \<comment> \<open>\<open>SET k v NX\<close>\<close>
  "redis_set_nx k v r = (if r k = None then (True, r(k \<mapsto> v)) else (False, r))"

definition lua_number :: "bytes option \<Rightarrow> int result" where
  \<comment> \<open>\<open>tonumber(redis.call('GET', k) or '0')\<close>, an error when it is used and is not a number\<close>
  "lua_number v =
     (case v of
        None \<Rightarrow> Inr 0
      | Some raw \<Rightarrow>
          (case parse_int raw of
             None \<Rightarrow> Inl (OtherError ''ResponseError: attempt to perform arithmetic on a nil value'')
           | Some i \<Rightarrow> Inr i))"

text \<open>\<open>INCRBY\<close> reads the counter again; inside one script it is the value just read.\<close>

definition lua_budget_reserve :: "string \<Rightarrow> int \<Rightarrow> int \<Rightarrow> redis \<Rightarrow> (int \<times> redis) result" where
  "lua_budget_reserve k estimate limit r =
     bind_res (lua_number (r k)) (\<lambda>used.
       if limit < used + estimate then Inr (0, r)
       else Inr (1, redis_set k (show_int (used + estimate)) r))"

definition lua_budget_adjust :: "string \<Rightarrow> int \<Rightarrow> redis \<Rightarrow> (int \<times> redis) result" where
  "lua_budget_adjust k delta r =
     bind_res (lua_number (r k)) (\<lambda>u.
       let v = u + delta; v = (if v < 0 then 0 else v) in Inr (v, redis_set k (show_int v) r))"

definition lua_release_lock :: "string \<Rightarrow> string \<Rightarrow> redis \<Rightarrow> int \<times> redis" where
  "lua_release_lock k token r = (if r k = Some token then (1, r(k := None)) else (0, r))"

definition budget_key :: "string \<Rightarrow> string" where "budget_key k = ''budget:'' @ k"
definition lock_key :: "string \<Rightarrow> string" where "lock_key k = ''lock:'' @ k"
definition idemp_key :: "string \<Rightarrow> string" where "idemp_key k = ''idemp:'' @ k"
definition sess_key :: "string \<Rightarrow> string" where "sess_key k = ''sess:'' @ k"
definition face_key_of :: "string \<Rightarrow> string" where "face_key_of k = ''face:'' @ k"

text \<open>
  The pydantic codec is a parameter: \<open>dump\<close> is \<open>model_dump_json\<close>, \<open>load\<close> is
  \<open>model_validate_json\<close>.
\<close>

definition redis_get_face :: "(bytes \<Rightarrow> face_profile result) \<Rightarrow> string \<Rightarrow> redis \<Rightarrow> face_profile option result" where
  "redis_get_face load k r =
     (case r (face_key_of k) of None \<Rightarrow> Inr None
      | Some raw \<Rightarrow> bind_res (load raw) (\<lambda>f. Inr (Some f)))"

definition redis_put_face :: "(face_profile \<Rightarrow> bytes) \<Rightarrow> face_profile \<Rightarrow> redis \<Rightarrow> redis" where
  "redis_put_face dump f r = redis_set (face_key_of (fp_face_key f)) (dump f) r"

definition redis_get_session :: "(bytes \<Rightarrow> session_state result) \<Rightarrow> string \<Rightarrow> redis \<Rightarrow> session_state option result" where
  "redis_get_session load k r =
     (case r (sess_key k) of None \<Rightarrow> Inr None
      | Some raw \<Rightarrow> bind_res (load raw) (\<lambda>x. Inr (Some x)))"

definition redis_put_session :: "(session_state \<Rightarrow> bytes) \<Rightarrow> session_state \<Rightarrow> redis \<Rightarrow> redis" where
  "redis_put_session dump x r = redis_set (sess_key (ss_session_key x)) (dump x) r"

definition redis_acquire_lock :: "string \<Rightarrow> string \<Rightarrow> redis \<Rightarrow> bool \<times> redis" where
  "redis_acquire_lock k token r = redis_set_nx (lock_key k) token r"

definition redis_release_lock :: "string \<Rightarrow> string \<Rightarrow> redis \<Rightarrow> bool \<times> redis" where
  "redis_release_lock k token r =
     (case lua_release_lock (lock_key k) token r of (n, r') \<Rightarrow> (n \<noteq> 0, r'))"

definition redis_idem_get :: "string \<Rightarrow> redis \<Rightarrow> bytes option" where
  "redis_idem_get k r = r (idemp_key k)"

definition redis_idem_put :: "string \<Rightarrow> bytes \<Rightarrow> redis \<Rightarrow> bool \<times> redis" where
  "redis_idem_put k v r = redis_set_nx (idemp_key k) v r"

definition redis_budget_reserve :: "string \<Rightarrow> int \<Rightarrow> int \<Rightarrow> redis \<Rightarrow> (bool \<times> redis) result" where
  "redis_budget_reserve k estimate limit r =
     bind_res (lua_budget_reserve (budget_key k) estimate limit r) (\<lambda>(n, r'). Inr (n \<noteq> 0, r'))"

definition redis_budget_adjust :: "string \<Rightarrow> int \<Rightarrow> redis \<Rightarrow> (int \<times> redis) result" where
  "redis_budget_adjust k delta r = lua_budget_adjust (budget_key k) delta r"

lemmas redis_keys = budget_key_def lock_key_def idemp_key_def sess_key_def face_key_of_def

lemma redis_keys_inj [simp]:
  "budget_key j = budget_key k \<longleftrightarrow> j = k" "lock_key j = lock_key k \<longleftrightarrow> j = k"
  "idemp_key j = idemp_key k \<longleftrightarrow> j = k" "sess_key j = sess_key k \<longleftrightarrow> j = k"
  "face_key_of j = face_key_of k \<longleftrightarrow> j = k"
  by (simp_all add: redis_keys)

lemma redis_keys_disjoint [simp]:
  "budget_key j \<noteq> lock_key k" "budget_key j \<noteq> idemp_key k" "budget_key j \<noteq> sess_key k"
  "budget_key j \<noteq> face_key_of k" "lock_key j \<noteq> budget_key k" "lock_key j \<noteq> idemp_key k"
  "lock_key j \<noteq> sess_key k" "lock_key j \<noteq> face_key_of k" "idemp_key j \<noteq> budget_key k"
  "idemp_key j \<noteq> lock_key k" "idemp_key j \<noteq> sess_key k" "idemp_key j \<noteq> face_key_of k"
  "sess_key j \<noteq> budget_key k" "sess_key j \<noteq> lock_key k" "sess_key j \<noteq> idemp_key k"
  "sess_key j \<noteq> face_key_of k" "face_key_of j \<noteq> budget_key k" "face_key_of j \<noteq> lock_key k"
  "face_key_of j \<noteq> idemp_key k" "face_key_of j \<noteq> sess_key k"
  by (simp_all add: redis_keys)

section \<open>The contracts\<close>

text \<open>
  The budget contract. \<open>used\<close> observes a counter, \<open>ok\<close> is the store's invariant; a script that
  fails gives no new state, so the operations return an option.
\<close>

locale budget_store =
  fixes ok :: "'s \<Rightarrow> bool"
    and used :: "string \<Rightarrow> 's \<Rightarrow> int"
    and reserve :: "string \<Rightarrow> int \<Rightarrow> int \<Rightarrow> 's \<Rightarrow> (bool \<times> 's) option"
    and adjust :: "string \<Rightarrow> int \<Rightarrow> 's \<Rightarrow> (int \<times> 's) option"
  assumes reserve_returns:
      "ok s \<Longrightarrow> \<exists>b s'. reserve k e l s = Some (b, s') \<and> ok s' \<and> (b \<longleftrightarrow> used k s + e \<le> l)
         \<and> (\<forall>j. used j s' = (if b \<and> j = k then used k s + e else used j s))"
    and adjust_returns:
      "ok s \<Longrightarrow> \<exists>s'. adjust k d s = Some (max 0 (used k s + d), s') \<and> ok s'
         \<and> (\<forall>j. used j s' = (if j = k then max 0 (used k s + d) else used j s))"
begin

text \<open>A refund restores the counter a reservation found, and no other counter moves.\<close>

lemma reserve_refund:
  assumes "ok s" "0 \<le> used k s" "reserve k e l s = Some (True, s1)" "adjust k (- e) s1 = Some (n, s2)"
  shows "used j s2 = used j s"
proof -
  have s1: "ok s1" "used j s1 = (if j = k then used k s + e else used j s)" for j
    using reserve_returns [OF assms(1), of k e l] assms(3) by auto
  have "used j s2 = (if j = k then max 0 (used k s1 + - e) else used j s1)"
    using adjust_returns [OF s1(1), of k "- e"] assms(4) by auto
  then show ?thesis using assms(2) by (simp add: s1(2))
qed

text \<open>Of any sequence of reservations against one limit, none pushes the counter past it.\<close>

fun reserve_all :: "string \<Rightarrow> int \<Rightarrow> int list \<Rightarrow> 's \<Rightarrow> 's option" where
  "reserve_all k l [] s = Some s"
| "reserve_all k l (e # es) s =
     (case reserve k e l s of None \<Rightarrow> None | Some (b, s') \<Rightarrow> reserve_all k l es s')"

lemma reserve_all_le:
  assumes "ok s" "used k s \<le> l"
  shows "\<exists>s'. reserve_all k l es s = Some s' \<and> ok s' \<and> used k s' \<le> l"
  using assms
proof (induction es arbitrary: s)
  case (Cons e es)
  from reserve_returns [OF Cons.prems(1), of k e l] obtain b s' where
    s': "reserve k e l s = Some (b, s')" "ok s'" "b \<longleftrightarrow> used k s + e \<le> l"
      "used k s' = (if b then used k s + e else used k s)" by auto
  then have "used k s' \<le> l" using Cons.prems(2) by auto
  with Cons.IH s' show ?case by simp
qed auto

end

locale lock_store =
  fixes holder :: "string \<Rightarrow> 's \<Rightarrow> string option"
    and acquire :: "string \<Rightarrow> string \<Rightarrow> 's \<Rightarrow> bool \<times> 's"
    and release :: "string \<Rightarrow> string \<Rightarrow> 's \<Rightarrow> bool \<times> 's"
  assumes acquire_result: "fst (acquire k t s) \<longleftrightarrow> holder k s = None"
    and acquire_holder:
      "holder j (snd (acquire k t s)) = (if holder k s = None \<and> j = k then Some t else holder j s)"
    and release_result: "fst (release k t s) \<longleftrightarrow> holder k s = Some t"
    and release_holder:
      "holder j (snd (release k t s)) = (if holder k s = Some t \<and> j = k then None else holder j s)"
begin

text \<open>The token fence: a stale token never frees a lock somebody else took meanwhile.\<close>

lemma stale_release_harmless: "holder k s = Some u \<Longrightarrow> u \<noteq> t \<Longrightarrow> holder k (snd (release k t s)) = Some u"
  by (simp add: release_holder)

lemma acquire_exclusive: "fst (acquire k t s) \<Longrightarrow> \<not> fst (acquire k u (snd (acquire k t s)))"
  by (simp add: acquire_result acquire_holder)

lemma acquire_release: "fst (acquire k t s) \<Longrightarrow> holder j (snd (release k t (snd (acquire k t s)))) = holder j s"
  by (simp add: acquire_result acquire_holder release_holder)

end

locale idem_store =
  fixes get :: "string \<Rightarrow> 's \<Rightarrow> bytes option"
    and put :: "string \<Rightarrow> bytes \<Rightarrow> 's \<Rightarrow> bool \<times> 's"
  assumes put_result: "fst (put k v s) \<longleftrightarrow> get k s = None"
    and get_put: "get j (snd (put k v s)) = (if get k s = None \<and> j = k then Some v else get j s)"
begin

text \<open>First writer wins: a stored record never changes.\<close>

lemma stored_stable: "get k s = Some v \<Longrightarrow> get k (snd (put j w s)) = Some v"
  by (auto simp: get_put)

lemma put_observed: "\<exists>w. get k (snd (put k v s)) = Some w \<and> (fst (put k v s) \<longrightarrow> w = v)"
  by (cases "get k s") (auto simp: get_put put_result)

end

section \<open>Both stores satisfy them\<close>

interpretation mem_budget: budget_store "\<lambda>_. True" budget_used
    "\<lambda>k e l s. Some (budget_reserve k e l s)" "\<lambda>k d s. Some (budget_adjust k d s)"
  by unfold_locales
    (auto simp: budget_reserve_def budget_adjust_def budget_used_def Let_def)

interpretation mem_lock: lock_store "\<lambda>k s. ms_locks s k" acquire_lock release_lock
  by unfold_locales (auto simp: acquire_lock_def release_lock_def)

interpretation mem_idem: idem_store idem_get idem_put
  by unfold_locales (auto simp: idem_get_def idem_put_def)

definition redis_used :: "string \<Rightarrow> redis \<Rightarrow> int" where
  "redis_used k r = (case lua_number (r (budget_key k)) of Inl _ \<Rightarrow> 0 | Inr u \<Rightarrow> u)"

definition redis_ok :: "redis \<Rightarrow> bool" where   \<comment> \<open>every budget key holds a decimal number\<close>
  "redis_ok r \<longleftrightarrow> (\<forall>k. \<exists>u. lua_number (r (budget_key k)) = Inr u)"

definition res_opt :: "'a result \<Rightarrow> 'a option" where
  "res_opt x = (case x of Inl _ \<Rightarrow> None | Inr y \<Rightarrow> Some y)"

lemma lua_number_show [simp]: "lua_number (Some (show_int i)) = Inr i"
  by (simp add: lua_number_def)

lemma redis_reserve_eq:
  assumes "redis_ok r"
  shows "redis_budget_reserve k e l r =
    Inr (if l < redis_used k r + e then (False, r)
         else (True, r(budget_key k \<mapsto> show_int (redis_used k r + e))))"
proof -
  obtain u where u: "lua_number (r (budget_key k)) = Inr u" using assms by (auto simp: redis_ok_def)
  then show ?thesis
    by (simp add: redis_budget_reserve_def lua_budget_reserve_def redis_used_def redis_set_def)
qed

lemma redis_adjust_eq:
  assumes "redis_ok r"
  shows "redis_budget_adjust k d r =
    Inr (max 0 (redis_used k r + d), r(budget_key k \<mapsto> show_int (max 0 (redis_used k r + d))))"
proof -
  obtain u where u: "lua_number (r (budget_key k)) = Inr u" using assms by (auto simp: redis_ok_def)
  then show ?thesis
    by (simp add: redis_budget_adjust_def lua_budget_adjust_def redis_used_def redis_set_def
        max_def Let_def)
qed

lemma redis_ok_upd: "redis_ok r \<Longrightarrow> redis_ok (r(budget_key k \<mapsto> show_int i))"
  by (auto simp: redis_ok_def)

lemma redis_used_upd: "redis_used j (r(budget_key k \<mapsto> show_int i)) = (if j = k then i else redis_used j r)"
  by (simp add: redis_used_def)

interpretation redis_budget: budget_store redis_ok redis_used
    "\<lambda>k e l r. res_opt (redis_budget_reserve k e l r)" "\<lambda>k d r. res_opt (redis_budget_adjust k d r)"
  by unfold_locales
    (auto simp: redis_reserve_eq redis_adjust_eq res_opt_def redis_ok_upd redis_used_upd)

interpretation redis_lock: lock_store "\<lambda>k r. r (lock_key k)" redis_acquire_lock redis_release_lock
  by unfold_locales
    (auto simp: redis_acquire_lock_def redis_set_nx_def redis_release_lock_def lua_release_lock_def)

interpretation redis_idem: idem_store redis_idem_get redis_idem_put
  by unfold_locales (auto simp: redis_idem_get_def redis_idem_put_def redis_set_nx_def)

section \<open>The Redis store refines the in-memory one\<close>

text \<open>
  \<open>store_rel\<close> relates a Redis key space to the store it represents, given the codec.
\<close>

definition store_rel ::
  "(bytes \<Rightarrow> face_profile result) \<Rightarrow> (bytes \<Rightarrow> session_state result) \<Rightarrow> redis \<Rightarrow> store \<Rightarrow> bool" where
  "store_rel load_face load_session r s \<longleftrightarrow>
     (\<forall>k. redis_get_face load_face k r = Inr (get_face k s))
     \<and> (\<forall>k. redis_get_session load_session k r = Inr (get_session k s))
     \<and> (\<forall>k. r (lock_key k) = ms_locks s k)
     \<and> (\<forall>k. redis_idem_get k r = idem_get k s)
     \<and> (\<forall>k. lua_number (r (budget_key k)) = Inr (budget_used k s))"

lemma store_rel_ok: "store_rel lf ls r s \<Longrightarrow> redis_ok r"
  by (auto simp: store_rel_def redis_ok_def)

lemma store_rel_used: "store_rel lf ls r s \<Longrightarrow> redis_used k r = budget_used k s"
  by (simp add: store_rel_def redis_used_def)

lemmas rel_defs = store_rel_def redis_get_face_def redis_get_session_def redis_idem_get_def
  get_face_def get_session_def idem_get_def budget_used_def

lemma rel_put_face:
  "store_rel lf ls r s \<Longrightarrow> lf (df f) = Inr f \<Longrightarrow> store_rel lf ls (redis_put_face df f r) (put_face f s)"
  by (auto simp: rel_defs redis_put_face_def redis_set_def put_face_def)

lemma rel_put_session:
  "store_rel lf ls r s \<Longrightarrow> ls (ds x) = Inr x
    \<Longrightarrow> store_rel lf ls (redis_put_session ds x r) (put_session x s)"
  by (auto simp: rel_defs redis_put_session_def redis_set_def put_session_def)

lemma rel_acquire:
  "store_rel lf ls r s \<Longrightarrow> fst (redis_acquire_lock k t r) = fst (acquire_lock k t s)
    \<and> store_rel lf ls (snd (redis_acquire_lock k t r)) (snd (acquire_lock k t s))"
  by (auto simp: rel_defs redis_acquire_lock_def redis_set_nx_def acquire_lock_def)

lemma rel_release:
  "store_rel lf ls r s \<Longrightarrow> fst (redis_release_lock k t r) = fst (release_lock k t s)
    \<and> store_rel lf ls (snd (redis_release_lock k t r)) (snd (release_lock k t s))"
  by (auto simp: rel_defs redis_release_lock_def lua_release_lock_def release_lock_def)

lemma rel_idem_put:
  "store_rel lf ls r s \<Longrightarrow> fst (redis_idem_put k v r) = fst (idem_put k v s)
    \<and> store_rel lf ls (snd (redis_idem_put k v r)) (snd (idem_put k v s))"
  by (auto simp: rel_defs redis_idem_put_def redis_set_nx_def idem_put_def)

lemma rel_reserve:
  assumes "store_rel lf ls r s"
  shows "\<exists>r'. redis_budget_reserve k e l r = Inr (fst (budget_reserve k e l s), r')
    \<and> store_rel lf ls r' (snd (budget_reserve k e l s))"
  using assms
  by (auto simp: redis_reserve_eq [OF store_rel_ok [OF assms]] store_rel_used [OF assms]
      budget_reserve_def Let_def)
     (auto simp: rel_defs)

lemma rel_adjust:
  assumes "store_rel lf ls r s"
  shows "\<exists>r'. redis_budget_adjust k d r = Inr (fst (budget_adjust k d s), r')
    \<and> store_rel lf ls r' (snd (budget_adjust k d s))"
  using assms
  by (auto simp: redis_adjust_eq [OF store_rel_ok [OF assms]] store_rel_used [OF assms]
      budget_adjust_def Let_def)
     (auto simp: rel_defs)

section \<open>Frame facts\<close>

lemma put_session_frame [simp]:
  "get_face k (put_session x s) = get_face k s" "ms_locks (put_session x s) = ms_locks s"
  "idem_get k (put_session x s) = idem_get k s" "budget_used k (put_session x s) = budget_used k s"
  "get_session k (put_session x s) = (if k = ss_session_key x then Some x else get_session k s)"
  by (simp_all add: put_session_def get_face_def idem_get_def budget_used_def get_session_def)

lemma put_face_frame [simp]:
  "get_session k (put_face f s) = get_session k s" "ms_locks (put_face f s) = ms_locks s"
  "idem_get k (put_face f s) = idem_get k s" "budget_used k (put_face f s) = budget_used k s"
  "get_face k (put_face f s) = (if k = fp_face_key f then Some f else get_face k s)"
  by (simp_all add: put_face_def get_face_def idem_get_def budget_used_def get_session_def)

lemma budget_frame [simp]:
  "get_session k (snd (budget_reserve j e l s)) = get_session k s"
  "get_face k (snd (budget_reserve j e l s)) = get_face k s"
  "ms_locks (snd (budget_reserve j e l s)) = ms_locks s"
  "idem_get k (snd (budget_reserve j e l s)) = idem_get k s"
  "get_session k (snd (budget_adjust j d s)) = get_session k s"
  "get_face k (snd (budget_adjust j d s)) = get_face k s"
  "ms_locks (snd (budget_adjust j d s)) = ms_locks s"
  "idem_get k (snd (budget_adjust j d s)) = idem_get k s"
  by (simp_all add: budget_reserve_def budget_adjust_def get_face_def idem_get_def
      get_session_def Let_def)

end
