(* ===== verification/Pricing.thy ===== *)
theory Pricing
  imports Schemas "HOL-Library.List_Lexorder" "HOL-Library.Char_ord"
begin

text \<open>
  \<open>src/services/pricing.py\<close> and the startup assembly of the table in \<open>src/api/deps.py\<close>:
  the provider's rates, the forecast of one generation, the padded reservation the budget
  holds, and the flat reservations of the auxiliary calls. Dictionaries are association
  lists, a missing key is a \<open>KeyError\<close> value.
\<close>

record model_rate =
  mr_input_per_mtok :: usd
  mr_text_output_per_mtok :: usd
  mr_image_output_per_mtok :: usd

record pricing_table =
  pt_model_rates :: "(string, model_rate) dict"
  pt_image_output_tokens :: "(string, int) dict"
  pt_image_input_tokens :: "(string, int) dict"
  pt_chars_per_token :: int
  pt_reserve_safety_factor :: rat
  pt_flat_estimates :: "(paid_call_kind, usd) dict"

definition known_aux_rates :: "(string, model_rate) dict" where
  "known_aux_rates =
     [(''anthropic/claude-haiku-4.5'',
       \<lparr>mr_input_per_mtok = 1, mr_text_output_per_mtok = 5, mr_image_output_per_mtok = 0\<rparr>)]"

definition text_output_tokens :: int where
  "text_output_tokens = 8"

fun dict_update :: "('k, 'v) dict \<Rightarrow> ('k, 'v) dict \<Rightarrow> ('k, 'v) dict" where   \<comment> \<open>\<open>{**d, **e}\<close>\<close>
  "dict_update d [] = d"
| "dict_update d ((k, v) # e) = dict_update (dict_set k v d) e"

definition pricing_default :: "string \<Rightarrow> string \<Rightarrow> pricing_table" where
  "pricing_default generation_model lite_model =
     \<lparr>pt_model_rates =
        dict_update
          (dict_set lite_model
             \<lparr>mr_input_per_mtok = 1 / 4, mr_text_output_per_mtok = 3 / 2,
              mr_image_output_per_mtok = 0\<rparr>
             [(generation_model,
               \<lparr>mr_input_per_mtok = 1 / 2, mr_text_output_per_mtok = 3,
                mr_image_output_per_mtok = 60\<rparr>)])
          known_aux_rates,
      pt_image_output_tokens = [(''0.5K'', 747), (''1K'', 1120), (''2K'', 1680), (''4K'', 2520)],
      pt_image_input_tokens = [(''high'', 1120), (''medium'', 560), (''low'', 280), (''auto'', 1120)],
      pt_chars_per_token = 4,
      pt_reserve_safety_factor = 115 / 100,
      pt_flat_estimates = [(SLOT_FILL, 2 / 1000), (CLASSIFY, 2 / 1000), (INVENTORY, 5 / 1000)]\<rparr>"

definition rate_for :: "pricing_table \<Rightarrow> string \<Rightarrow> model_rate result" where
  "rate_for t model =
     (case dict_get (pt_model_rates t) model of
        None \<Rightarrow> Inl (ValueError (''no pricing for model '' @ py_repr model @ ''; known models: ''
               @ py_repr_list (sort (dict_keys (pt_model_rates t)))))
      | Some rate \<Rightarrow> Inr rate)"

definition lookup_key :: "(string, 'v) dict \<Rightarrow> string \<Rightarrow> 'v result" where   \<comment> \<open>\<open>d[k]\<close>\<close>
  "lookup_key d k = (case dict_get d k of None \<Rightarrow> Inl (KeyError k) | Some v \<Rightarrow> Inr v)"

definition ceil_div :: "int \<Rightarrow> int \<Rightarrow> int result" where   \<comment> \<open>\<open>-(-n // d)\<close>\<close>
  "ceil_div n d = (if d = 0 then Inl (OtherError ''ZeroDivisionError'') else Inr (- ((- n) div d)))"

definition predict_generation_cost ::
  "pricing_table \<Rightarrow> string \<Rightarrow> int \<Rightarrow> int \<Rightarrow> string \<Rightarrow> string option \<Rightarrow> usd result" where
  "predict_generation_cost t model prompt_chars reference_count output_size face_detail =
     bind_res (rate_for t model) (\<lambda>rate.
     bind_res (ceil_div prompt_chars (pt_chars_per_token t)) (\<lambda>prompt_tokens.
     bind_res (lookup_key (pt_image_input_tokens t) ''auto'') (\<lambda>auto_block.
     bind_res (case face_detail of None \<Rightarrow> Inr 0
               | Some d \<Rightarrow> lookup_key (pt_image_input_tokens t) d) (\<lambda>face_block.
     bind_res (lookup_key (pt_image_output_tokens t) output_size) (\<lambda>image_tokens.
       let input_tokens = prompt_tokens + reference_count * auto_block + face_block;
           cost_micro = of_int input_tokens * mr_input_per_mtok rate
             + of_int text_output_tokens * mr_text_output_per_mtok rate
             + of_int image_tokens * mr_image_output_per_mtok rate
       in Inr (quantize6 ROUND_HALF_EVEN (cost_micro / 1000000)))))))"

definition generation_reserve ::
  "pricing_table \<Rightarrow> string \<Rightarrow> int \<Rightarrow> int \<Rightarrow> string \<Rightarrow> string option \<Rightarrow> usd result" where
  "generation_reserve t model prompt_chars reference_count output_size face_detail =
     bind_res (predict_generation_cost t model prompt_chars reference_count output_size face_detail)
       (\<lambda>predicted. Inr (from_micro
          (to_micro_with ROUND_CEILING (predicted * pt_reserve_safety_factor t))))"

fun kind_repr :: "paid_call_kind \<Rightarrow> string" where   \<comment> \<open>\<open>repr\<close> of an enum member\<close>
  "kind_repr GENERATION = ''<PaidCallKind.GENERATION: '' @ py_repr ''generation'' @ ''>''"
| "kind_repr SLOT_FILL = ''<PaidCallKind.SLOT_FILL: '' @ py_repr ''slot_fill'' @ ''>''"
| "kind_repr CLASSIFY = ''<PaidCallKind.CLASSIFY: '' @ py_repr ''classify'' @ ''>''"
| "kind_repr INVENTORY = ''<PaidCallKind.INVENTORY: '' @ py_repr ''inventory'' @ ''>''"

definition flat_estimate :: "pricing_table \<Rightarrow> paid_call_kind \<Rightarrow> usd result" where
  "flat_estimate t kind =
     (case dict_get (pt_flat_estimates t) kind of
        None \<Rightarrow> Inl (ValueError (''no flat estimate for paid-call kind '' @ kind_repr kind))
      | Some e \<Rightarrow> Inr e)"

section \<open>Startup assembly (\<open>build_pricing\<close> in \<open>api/deps.py\<close>)\<close>

text \<open>
  The overrides are the parsed JSON object \<open>pricing_overrides_json\<close>: the fields it names
  replace the built-in ones.
\<close>

record pricing_overrides =
  po_model_rates :: "(string, model_rate) dict option"
  po_image_output_tokens :: "(string, int) dict option"
  po_image_input_tokens :: "(string, int) dict option"
  po_chars_per_token :: "int option"
  po_reserve_safety_factor :: "rat option"
  po_flat_estimates :: "(paid_call_kind, usd) dict option"

definition apply_overrides :: "pricing_overrides \<Rightarrow> pricing_table \<Rightarrow> pricing_table" where
  "apply_overrides ov t =
     \<lparr>pt_model_rates = (case po_model_rates ov of None \<Rightarrow> pt_model_rates t | Some x \<Rightarrow> x),
      pt_image_output_tokens =
        (case po_image_output_tokens ov of None \<Rightarrow> pt_image_output_tokens t | Some x \<Rightarrow> x),
      pt_image_input_tokens =
        (case po_image_input_tokens ov of None \<Rightarrow> pt_image_input_tokens t | Some x \<Rightarrow> x),
      pt_chars_per_token = (case po_chars_per_token ov of None \<Rightarrow> pt_chars_per_token t | Some x \<Rightarrow> x),
      pt_reserve_safety_factor =
        (case po_reserve_safety_factor ov of None \<Rightarrow> pt_reserve_safety_factor t | Some x \<Rightarrow> x),
      pt_flat_estimates = (case po_flat_estimates ov of None \<Rightarrow> pt_flat_estimates t | Some x \<Rightarrow> x)\<rparr>"

fun alias_stage_models :: "string \<Rightarrow> string list \<Rightarrow> pricing_table \<Rightarrow> pricing_table result" where
  "alias_stage_models lite [] t = Inr t"
| "alias_stage_models lite (m # ms) t =
     (if dict_get (pt_model_rates t) m = None
      then bind_res (rate_for t lite)
             (\<lambda>r. alias_stage_models lite ms (t\<lparr>pt_model_rates := dict_set m r (pt_model_rates t)\<rparr>))
      else alias_stage_models lite ms t)"

definition build_pricing ::
  "string \<Rightarrow> string \<Rightarrow> string list \<Rightarrow> pricing_overrides option \<Rightarrow> pricing_table result" where
  "build_pricing generation_model slot_filler_model stage_models overrides =
     bind_res
       (alias_stage_models slot_filler_model stage_models
          (case overrides of
             None \<Rightarrow> pricing_default generation_model slot_filler_model
           | Some ov \<Rightarrow> apply_overrides ov (pricing_default generation_model slot_filler_model)))
       (\<lambda>t. bind_res (rate_for t generation_model) (\<lambda>_.
            bind_res (rate_for t slot_filler_model) (\<lambda>_. Inr t)))"

section \<open>Lemmas\<close>

lemma ceil_div_bounds:
  assumes "ceil_div n d = Inr q" and "0 < d"
  shows "n \<le> q * d \<and> (q - 1) * d < n"
proof -
  have q: "q = - ((- n) div d)" using assms by (simp add: ceil_div_def)
  define k r where kr: "k = (- n) div d" "r = (- n) mod d"
  have "k * d + r = - n" unfolding kr by (rule div_mult_mod_eq)
  moreover have "0 \<le> r" "r < d" unfolding kr using assms(2) by simp_all
  ultimately show ?thesis unfolding q kr(1) [symmetric] by (simp add: left_diff_distrib)
qed

lemma ceil_div_mono:
  assumes "0 < d" "m \<le> n" "ceil_div m d = Inr p" "ceil_div n d = Inr q"
  shows "p \<le> q"
  using assms by (auto simp: ceil_div_def zdiv_mono1)

lemma quantize6_mono: "x \<le> y \<Longrightarrow> quantize6 ROUND_HALF_EVEN x \<le> quantize6 ROUND_HALF_EVEN y"
  by (simp add: quantize6_def micro_per_usd_def divide_le_cancel half_even_mono)

definition rates_nonneg :: "model_rate \<Rightarrow> bool" where
  "rates_nonneg r \<longleftrightarrow>
     0 \<le> mr_input_per_mtok r \<and> 0 \<le> mr_text_output_per_mtok r \<and> 0 \<le> mr_image_output_per_mtok r"

definition pricing_ok :: "pricing_table \<Rightarrow> bool" where
  "pricing_ok t \<longleftrightarrow>
     list_all (rates_nonneg \<circ> snd) (pt_model_rates t)
     \<and> list_all ((\<le>) 0 \<circ> snd) (pt_image_output_tokens t)
     \<and> list_all ((\<le>) 0 \<circ> snd) (pt_image_input_tokens t)
     \<and> 0 < pt_chars_per_token t \<and> 1 \<le> pt_reserve_safety_factor t
     \<and> list_all ((\<le>) 0 \<circ> snd) (pt_flat_estimates t)"

lemma dict_get_list_all: "list_all (P \<circ> snd) d \<Longrightarrow> dict_get d k = Some v \<Longrightarrow> P v"
  by (auto simp: list_all_iff dest!: map_of_SomeD)

lemma pricing_ok_rate: "pricing_ok t \<Longrightarrow> rate_for t m = Inr r \<Longrightarrow> rates_nonneg r"
  by (auto simp: pricing_ok_def rate_for_def split: option.splits dest: dict_get_list_all)

lemma list_all_dict_set: "P v \<Longrightarrow> list_all (P \<circ> snd) d \<Longrightarrow> list_all (P \<circ> snd) (dict_set k v d)"
  by (induction k v d rule: dict_set.induct) auto

lemma pricing_default_ok: "pricing_ok (pricing_default g l)"
  by (simp add: pricing_ok_def pricing_default_def known_aux_rates_def rates_nonneg_def)

lemma flat_estimate_nonneg: "pricing_ok t \<Longrightarrow> flat_estimate t k = Inr e \<Longrightarrow> 0 \<le> e"
  by (auto simp: pricing_ok_def flat_estimate_def split: option.splits dest: dict_get_list_all)

lemma lookup_key_nonneg: "list_all ((\<le>) (0::int) \<circ> snd) d \<Longrightarrow> lookup_key d k = Inr v \<Longrightarrow> 0 \<le> v"
  by (auto simp: lookup_key_def split: option.splits dest: dict_get_list_all)

lemma quantize6_nonneg: "0 \<le> x \<Longrightarrow> 0 \<le> quantize6 ROUND_HALF_EVEN x"
  using quantize6_mono [of 0 x] by (simp add: quantize6_def half_even_def)

lemma predict_nonneg:
  assumes ok: "pricing_ok t" and n: "0 \<le> prompt_chars" "0 \<le> reference_count"
    and p: "predict_generation_cost t model prompt_chars reference_count osize detail = Inr c"
  shows "0 \<le> c"
proof -
  from p obtain rate pt ab fb im where
    rate: "rate_for t model = Inr rate" and pt: "ceil_div prompt_chars (pt_chars_per_token t) = Inr pt"
    and ab: "lookup_key (pt_image_input_tokens t) ''auto'' = Inr ab"
    and fb: "(case detail of None \<Rightarrow> Inr 0 | Some d \<Rightarrow> lookup_key (pt_image_input_tokens t) d) = Inr fb"
    and im: "lookup_key (pt_image_output_tokens t) osize = Inr im"
    and c: "c = quantize6 ROUND_HALF_EVEN
      ((of_int (pt + reference_count * ab + fb) * mr_input_per_mtok rate
        + of_int text_output_tokens * mr_text_output_per_mtok rate
        + of_int im * mr_image_output_per_mtok rate) / 1000000)"
    by (auto simp: predict_generation_cost_def bind_res_Inr_iff Let_def)
  have "0 \<le> pt"
    using pt n(1) ok by (auto simp: ceil_div_def pricing_ok_def div_nonneg_neg_le0
        zdiv_mono1 [of "- prompt_chars" 0, simplified] split: if_splits)
  moreover have "0 \<le> ab" "0 \<le> im" "0 \<le> fb"
    using ok ab im fb by (auto simp: pricing_ok_def lookup_key_nonneg split: option.splits)
  moreover have "rates_nonneg rate" using ok rate by (rule pricing_ok_rate)
  ultimately show ?thesis
    unfolding c using n(2)
    by (intro quantize6_nonneg divide_nonneg_nonneg add_nonneg_nonneg mult_nonneg_nonneg)
       (auto simp: rates_nonneg_def text_output_tokens_def)
qed

text \<open>The reservation is on the micro grid and never below the forecast.\<close>

lemma reserve_on_grid: "generation_reserve t m p r s d = Inr e \<Longrightarrow> on_grid e"
  by (auto simp: generation_reserve_def bind_res_Inr_iff)

lemma reserve_ge_predict:
  assumes ok: "pricing_ok t" and n: "0 \<le> p" "0 \<le> r"
    and pr: "predict_generation_cost t m p r s d = Inr c"
    and re: "generation_reserve t m p r s d = Inr e"
  shows "c \<le> e"
proof -
  have e: "e = from_micro (to_micro (c * pt_reserve_safety_factor t))"
    using pr re by (simp add: generation_reserve_def to_micro_def)
  have "c * 1 \<le> c * pt_reserve_safety_factor t"
    using predict_nonneg [OF ok n pr] ok by (intro mult_left_mono) (auto simp: pricing_ok_def)
  also have "\<dots> \<le> e"
    using to_micro_ge [of "c * pt_reserve_safety_factor t"] by (simp add: e from_micro_eq)
  finally show ?thesis by simp
qed

lemma reserve_iff_predict:
  "(\<exists>e. generation_reserve t m p r s d = Inr e) \<longleftrightarrow> (\<exists>c. predict_generation_cost t m p r s d = Inr c)"
  by (auto simp: generation_reserve_def bind_res_Inr_iff)

text \<open>Startup aliasing makes every stage model priced, and keeps what was priced.\<close>

lemma alias_keeps:
  "alias_stage_models l ms t = Inr t' \<Longrightarrow> dict_get (pt_model_rates t) m = Some r
    \<Longrightarrow> dict_get (pt_model_rates t') m = Some r"
proof (induction l ms t rule: alias_stage_models.induct)
  case (2 lite m' ms t)
  show ?case
  proof (cases "dict_get (pt_model_rates t) m'")
    case None
    with 2(3) obtain x where "alias_stage_models lite ms
        (t\<lparr>pt_model_rates := dict_set m' x (pt_model_rates t)\<rparr>) = Inr t'"
      by (auto simp: bind_res_Inr_iff)
    moreover have "m \<noteq> m'" using None 2(4) by auto
    ultimately show ?thesis using None 2(4) by (intro 2(1)) (auto simp: dict_simps)
  next
    case (Some x)
    with 2 show ?thesis by simp
  qed
qed simp

lemma alias_covers:
  "alias_stage_models l ms t = Inr t' \<Longrightarrow> m \<in> set ms \<Longrightarrow> \<exists>r. rate_for t' m = Inr r"
proof (induction l ms t rule: alias_stage_models.induct)
  case (2 lite m' ms t)
  show ?case
  proof (cases "m = m'")
    case True
    show ?thesis
    proof (cases "dict_get (pt_model_rates t) m'")
      case None
      with 2(3) obtain r where "alias_stage_models lite ms
          (t\<lparr>pt_model_rates := dict_set m' r (pt_model_rates t)\<rparr>) = Inr t'"
        by (auto simp: bind_res_Inr_iff)
      then have "dict_get (pt_model_rates t') m' = Some r"
        by (rule alias_keeps) (simp add: dict_simps)
      with True show ?thesis by (simp add: rate_for_def)
    next
      case (Some x)
      with 2(3) have "alias_stage_models lite ms t = Inr t'" by simp
      with Some True show ?thesis by (simp add: rate_for_def alias_keeps)
    qed
  next
    case False
    with 2 show ?thesis by (auto simp: bind_res_Inr_iff split: if_splits)
  qed
qed simp

end
