(* ===== verification/Estimator.thy ===== *)
theory Estimator
  imports Pricing
begin

text \<open>
  \<open>src/services/estimator.py\<close>: the dollar forecast shown with the plan. A division by a zero
  reservation raises (\<open>decimal.DivisionByZero\<close>), a negative budget is a \<open>ValueError\<close>.
\<close>

definition slot_padding_chars :: int where
  "slot_padding_chars = 120"

definition nominal_prompt_chars :: "preset \<Rightarrow> int" where
  "nominal_prompt_chars p =
     py_len (pr_identity_instruction p) + py_len (pr_prompt_structure p)
     + py_len (pr_negative_prompt p) + slot_padding_chars"

record rates =
  ra_per_intermediate_cost :: usd
  ra_per_enhance_cost :: usd
  ra_per_intermediate_reserve :: usd
  ra_per_enhance_reserve :: usd
  ra_llm_overhead_cost :: usd
  ra_affordable :: int

definition truncate_div :: "rat \<Rightarrow> rat \<Rightarrow> int result" where   \<comment> \<open>\<open>int(a / b)\<close>\<close>
  "truncate_div a b =
     (if b = 0 then Inl (DecimalError ''DivisionByZero'')
      else Inr (if 0 \<le> a / b then \<lfloor>a / b\<rfloor> else \<lceil>a / b\<rceil>))"

definition price_pair ::
  "preset \<Rightarrow> pricing_table \<Rightarrow> string \<Rightarrow> string \<Rightarrow> (usd \<times> usd) result" where
  "price_pair p t model output_size =
     (let chars = nominal_prompt_chars p;
          detail = Some (gen_face_media_resolution (pr_generation p))
      in bind_res (predict_generation_cost t model chars 1 output_size detail) (\<lambda>cost.
         bind_res (generation_reserve t model chars 1 output_size detail) (\<lambda>reserve.
           Inr (cost, reserve))))"

definition estimate_rates ::
  "preset \<Rightarrow> usd \<Rightarrow> pricing_table \<Rightarrow> string \<Rightarrow> int \<Rightarrow> rates result" where
  "estimate_rates p budget_limit t model enhance_step_count =
     bind_res (price_pair p t model ''1K'') (\<lambda>(int_cost, int_reserve).
     bind_res (price_pair p t model ''4K'') (\<lambda>(enh_cost, enh_reserve).
     bind_res (flat_estimate t SLOT_FILL) (\<lambda>llm_overhead_cost.
       let spendable = budget_limit - llm_overhead_cost - of_int enhance_step_count * enh_reserve
       in bind_res (if 0 < spendable then truncate_div spendable int_reserve else Inr 0)
            (\<lambda>affordable_intermediate.
               Inr \<lparr>ra_per_intermediate_cost = int_cost, ra_per_enhance_cost = enh_cost,
                    ra_per_intermediate_reserve = int_reserve, ra_per_enhance_reserve = enh_reserve,
                    ra_llm_overhead_cost = llm_overhead_cost,
                    ra_affordable = affordable_intermediate + enhance_step_count\<rparr>))))"

definition warning_sign :: string where
  "warning_sign = [char_of (226::nat), char_of (154::nat), char_of (160::nat)]"

definition estimate_note :: "int \<Rightarrow> int \<Rightarrow> string" where
  "estimate_note affordable floor_steps =
     (if floor_steps \<le> affordable
      then ''sufficient '' @ em_dash @ '' up to '' @ show_int affordable
             @ '' generations with retries funded''
      else warning_sign @ '' budget covers ~'' @ show_int affordable @ '' of ''
             @ show_int floor_steps @ '' steps '' @ em_dash @ '' the rest ship partial'')"

definition estimate_cost ::
  "preset \<Rightarrow> usd \<Rightarrow> pricing_table \<Rightarrow> string \<Rightarrow> int \<Rightarrow> int \<Rightarrow> cost_estimate result" where
  "estimate_cost p budget_limit t model step_count enhance_step_count =
     (if budget_limit < 0 then Inl (ValueError ''budget_limit must be >= 0'')
      else bind_res (estimate_rates p budget_limit t model enhance_step_count) (\<lambda>ra.
        let floor_steps = max step_count 1;
            intermediate_count = max (step_count - enhance_step_count) 0;
            minimum_cost = ra_per_intermediate_cost ra * of_int intermediate_count
              + ra_per_enhance_cost ra * of_int enhance_step_count + ra_llm_overhead_cost ra
        in Inr \<lparr>ce_generations = floor_steps, ce_budget_limit = budget_limit,
                ce_per_generation_cost = ra_per_intermediate_cost ra,
                ce_llm_overhead_cost = ra_llm_overhead_cost ra,
                ce_total_cost = budget_limit, ce_minimum_cost = minimum_cost,
                ce_note = Some (estimate_note (ra_affordable ra) floor_steps)\<rparr>))"

section \<open>Lemmas\<close>

lemma py_len_nonneg [simp]: "0 \<le> py_len s"
  by (simp add: py_len_def)

lemma nominal_prompt_chars_pos: "0 < nominal_prompt_chars p"
  by (simp add: nominal_prompt_chars_def slot_padding_chars_def add_nonneg_pos)

lemma price_pair_bounds:
  assumes "pricing_ok t" and "price_pair p t m s = Inr (c, r)"
  shows "0 \<le> c \<and> c \<le> r \<and> on_grid r"
proof -
  let ?d = "Some (gen_face_media_resolution (pr_generation p))"
  from assms(2) have pr: "predict_generation_cost t m (nominal_prompt_chars p) 1 s ?d = Inr c"
    and re: "generation_reserve t m (nominal_prompt_chars p) 1 s ?d = Inr r"
    by (auto simp: price_pair_def bind_res_Inr_iff Let_def)
  have n: "0 \<le> nominal_prompt_chars p" using nominal_prompt_chars_pos [of p] by simp
  show ?thesis
    using predict_nonneg [OF assms(1) n _ pr] reserve_ge_predict [OF assms(1) n _ pr re]
      reserve_on_grid [OF re] by simp
qed

text \<open>
  What \<open>affordable\<close> means: with money left after the overhead and the enhance reservations,
  it is the largest number of 1K reservations that fit (plus the enhance steps).
\<close>

lemma estimate_rates_cases:
  assumes "estimate_rates p b t m e = Inr ra"
  obtains int_cost int_reserve enh_cost enh_reserve overhead k where
    "price_pair p t m ''1K'' = Inr (int_cost, int_reserve)"
    "price_pair p t m ''4K'' = Inr (enh_cost, enh_reserve)"
    "flat_estimate t SLOT_FILL = Inr overhead"
    "if 0 < b - overhead - of_int e * enh_reserve
     then truncate_div (b - overhead - of_int e * enh_reserve) int_reserve = Inr k else k = 0"
    "ra = \<lparr>ra_per_intermediate_cost = int_cost, ra_per_enhance_cost = enh_cost,
           ra_per_intermediate_reserve = int_reserve, ra_per_enhance_reserve = enh_reserve,
           ra_llm_overhead_cost = overhead, ra_affordable = k + e\<rparr>"
  using assms
  by (auto simp: estimate_rates_def bind_res_Inr_iff Let_def split: if_splits)

lemma truncate_div_bounds:
  assumes "truncate_div a b = Inr k" "0 < b" "0 < a"
  shows "0 \<le> k \<and> of_int k * b \<le> a \<and> a < of_int (k + 1) * b"
proof -
  have pos: "0 \<le> a / b" using assms by simp
  with assms have k: "k = \<lfloor>a / b\<rfloor>" by (simp add: truncate_div_def)
  have "of_int k \<le> a / b" "a / b < of_int k + 1" unfolding k by linarith+
  then have "of_int k * b \<le> a" "a < (of_int k + 1) * b"
    using assms(2) by (simp_all add: pos_le_divide_eq pos_divide_less_eq)
  then show ?thesis using assms(2) pos by (simp add: k)
qed

section \<open>The built-in table prices every preset\<close>

definition known_detail :: "preset \<Rightarrow> bool" where
  "known_detail p \<longleftrightarrow> gen_face_media_resolution (pr_generation p) \<in> set [''high'', ''medium'', ''low'', ''auto'']"

lemma default_rate:
  "\<exists>r. rate_for (pricing_default g l) g = Inr r \<and> rates_nonneg r \<and> 1 / 4 \<le> mr_input_per_mtok r"
  by (auto simp: rate_for_def pricing_default_def known_aux_rates_def rates_nonneg_def dict_simps
      split: option.splits if_splits)

lemma default_lookups:
  "lookup_key (pt_image_input_tokens (pricing_default g l)) ''auto'' = Inr 1120"
  "known_detail p \<Longrightarrow> \<exists>k\<ge>0. lookup_key (pt_image_input_tokens (pricing_default g l))
     (gen_face_media_resolution (pr_generation p)) = Inr k"
  "s \<in> set [''1K'', ''4K''] \<Longrightarrow> \<exists>k\<ge>0. lookup_key (pt_image_output_tokens (pricing_default g l)) s = Inr k"
  by (auto simp: lookup_key_def pricing_default_def known_detail_def)

lemma default_predict:
  assumes "known_detail p" "s \<in> set [''1K'', ''4K'']"
  shows "\<exists>c>0. predict_generation_cost (pricing_default g l) g (nominal_prompt_chars p) 1 s
    (Some (gen_face_media_resolution (pr_generation p))) = Inr c"
proof -
  let ?t = "pricing_default g l"
  obtain r where r: "rate_for ?t g = Inr r" "rates_nonneg r" "1 / 4 \<le> mr_input_per_mtok r"
    using default_rate by blast
  obtain f where f: "0 \<le> f" "lookup_key (pt_image_input_tokens ?t)
      (gen_face_media_resolution (pr_generation p)) = Inr f"
    using default_lookups(2) [OF assms(1)] by blast
  obtain im where im: "0 \<le> im" "lookup_key (pt_image_output_tokens ?t) s = Inr im"
    using default_lookups(3) [OF assms(2)] by blast
  obtain q where q: "ceil_div (nominal_prompt_chars p) (pt_chars_per_token ?t) = Inr q" "0 \<le> q"
    using ceil_div_bounds [of "nominal_prompt_chars p" 4] nominal_prompt_chars_pos [of p]
    by (fastforce simp: ceil_div_def pricing_default_def)
  define c where "c = of_int (q + 1120 + f) * mr_input_per_mtok r
    + of_int text_output_tokens * mr_text_output_per_mtok r + of_int im * mr_image_output_per_mtok r"
  have "(1120::rat) * (1 / 4) \<le> of_int (q + 1120 + f) * mr_input_per_mtok r"
    using r(3) q(2) f(1) by (intro mult_mono) simp_all
  then have "from_micro 280 \<le> c / 1000000"
    using r(2) im(1) by (simp add: c_def rates_nonneg_def text_output_tokens_def from_micro_eq
        add_increasing2)
  then have "from_micro 280 \<le> quantize6 ROUND_HALF_EVEN (c / 1000000)"
    using quantize6_mono [of "from_micro 280" "c / 1000000"] half_even_of_int [of 280]
    by (simp add: quantize6_def from_micro_eq micro_per_usd_def del: half_even_of_int)
  then have "0 < quantize6 ROUND_HALF_EVEN (c / 1000000)" by (simp add: from_micro_eq)
  then show ?thesis
    by (simp add: predict_generation_cost_def r(1) f(2) im(2) q(1) default_lookups(1) c_def)
qed

lemma default_price_pair:
  assumes "known_detail p" "s \<in> set [''1K'', ''4K'']"
  shows "\<exists>c r. price_pair p (pricing_default g l) g s = Inr (c, r) \<and> 0 < r"
proof -
  obtain c where c: "0 < c" "predict_generation_cost (pricing_default g l) g (nominal_prompt_chars p) 1 s
      (Some (gen_face_media_resolution (pr_generation p))) = Inr c"
    using default_predict [OF assms] by blast
  then obtain r where r: "generation_reserve (pricing_default g l) g (nominal_prompt_chars p) 1 s
      (Some (gen_face_media_resolution (pr_generation p))) = Inr r"
    using reserve_iff_predict by blast
  have pp: "price_pair p (pricing_default g l) g s = Inr (c, r)"
    by (simp add: price_pair_def c(2) r Let_def)
  with price_pair_bounds [OF pricing_default_ok pp] c(1) show ?thesis by auto
qed

lemma default_estimate:
  assumes "known_detail p" "0 \<le> b"
  shows "\<exists>cost. estimate_cost p b (pricing_default g l) g n e = Inr cost"
proof -
  obtain ci ri where i: "price_pair p (pricing_default g l) g ''1K'' = Inr (ci, ri)" "0 < ri"
    using default_price_pair [OF assms(1), of "''1K''" g l] by auto
  obtain ce re where e: "price_pair p (pricing_default g l) g ''4K'' = Inr (ce, re)"
    using default_price_pair [OF assms(1), of "''4K''" g l] by auto
  have o: "flat_estimate (pricing_default g l) SLOT_FILL = Inr (2 / 1000)"
    by (simp add: flat_estimate_def pricing_default_def)
  show ?thesis using assms(2) i(2)
    by (simp add: estimate_cost_def estimate_rates_def i(1) e o truncate_div_def Let_def)
qed

end
