(* ===== verification/Budget.thy ===== *)
theory Budget
  imports Store Estimator
begin

text \<open>
  \<open>services/budget.py\<close>: reservations against a session's micro-USD counter, settled to the
  real cost or cancelled, and the meter that hands them out; then the paid work of one session
  as a step relation over its counter, with the accounting invariant.
\<close>

record reservation =
  rv_session_key :: string
  rv_estimate :: usd
  rv_estimate_micro :: int
  rv_closed :: bool

record meter =
  me_pricing :: pricing_table
  me_session_key :: string
  me_limit_micro :: int

definition mk_reservation :: "string \<Rightarrow> usd \<Rightarrow> reservation" where
  "mk_reservation session_key estimate =
     \<lparr>rv_session_key = session_key, rv_estimate = estimate,
      rv_estimate_micro = to_micro estimate, rv_closed = False\<rparr>"

definition close_res :: "reservation \<Rightarrow> reservation result" where
  "close_res r =
     (if rv_closed r
      then Inl (RuntimeError ''budget reservation already settled or cancelled'')
      else Inr (r\<lparr>rv_closed := True\<rparr>))"

definition settle :: "usd option \<Rightarrow> reservation \<Rightarrow> store \<Rightarrow> usd result \<times> reservation \<times> store" where
  "settle actual_cost r s =
     (case close_res r of
        Inl e \<Rightarrow> (Inl e, r, s)
      | Inr r' \<Rightarrow>
          (case actual_cost of
             None \<Rightarrow> (Inr (rv_estimate r), r', s)
           | Some actual \<Rightarrow>
               (let delta = to_micro actual - rv_estimate_micro r
                in (Inr actual, r',
                    if delta \<noteq> 0 then snd (budget_adjust (rv_session_key r) delta s) else s))))"

definition cancel :: "reservation \<Rightarrow> store \<Rightarrow> unit result \<times> reservation \<times> store" where
  "cancel r s =
     (case close_res r of
        Inl e \<Rightarrow> (Inl e, r, s)
      | Inr r' \<Rightarrow>
          (Inr (), r', snd (budget_adjust (rv_session_key r) (- rv_estimate_micro r) s)))"

definition meter_of :: "pricing_table \<Rightarrow> string \<Rightarrow> usd \<Rightarrow> meter" where   \<comment> \<open>\<open>BudgetService.meter\<close>\<close>
  "meter_of pricing session_key limit =
     \<lparr>me_pricing = pricing, me_session_key = session_key, me_limit_micro = to_micro limit\<rparr>"

definition meter_reserve ::
  "meter \<Rightarrow> paid_call_kind \<Rightarrow> usd option \<Rightarrow> store \<Rightarrow> reservation option result \<times> store" where
  "meter_reserve m kind estimate s =
     (case (case estimate of Some e \<Rightarrow> Inr e | None \<Rightarrow> flat_estimate (me_pricing m) kind) of
        Inl e \<Rightarrow> (Inl e, s)
      | Inr amount \<Rightarrow>
          (case budget_reserve (me_session_key m) (to_micro amount) (me_limit_micro m) s of
             (reserved, s') \<Rightarrow>
               if reserved then (Inr (Some (mk_reservation (me_session_key m) amount)), s')
               else (Inr None, s')))"

section \<open>Single operations\<close>

lemma mk_reservation_simps [simp]:
  "rv_session_key (mk_reservation k e) = k" "rv_estimate (mk_reservation k e) = e"
  "rv_estimate_micro (mk_reservation k e) = to_micro e" "rv_closed (mk_reservation k e) = False"
  by (simp_all add: mk_reservation_def)

lemma budget_used_adjust:
  "budget_used j (snd (budget_adjust k d s)) = (if j = k then max 0 (budget_used k s + d) else budget_used j s)"
  using mem_budget.adjust_returns [where s = s and k = k and d = d] by auto

lemma budget_used_reserve:
  "budget_reserve k e l s = (b, s') \<Longrightarrow> (b \<longleftrightarrow> budget_used k s + e \<le> l)
     \<and> budget_used j s' = (if b \<and> j = k then budget_used k s + e else budget_used j s)"
  using mem_budget.reserve_returns [where s = s and k = k and e = e and l = l] by auto

text \<open>An open reservation settles to \<open>actual\<close>, or to its estimate when the bill is unknown.\<close>

lemma settle_open:
  assumes "\<not> rv_closed r"
  shows "fst (settle a r s) = Inr (case a of None \<Rightarrow> rv_estimate r | Some c \<Rightarrow> c)"
    and "rv_closed (fst (snd (settle a r s)))"
  using assms by (auto simp: settle_def close_res_def Let_def split: option.splits)

lemma settle_used:
  assumes "\<not> rv_closed r" "rv_estimate_micro r = to_micro (rv_estimate r)"
    and "rv_estimate_micro r \<le> budget_used (rv_session_key r) s" "\<forall>c. a = Some c \<longrightarrow> 0 \<le> c"
  shows "budget_used j (snd (snd (settle a r s))) =
    (if j = rv_session_key r
     then budget_used j s - rv_estimate_micro r
       + to_micro (case a of None \<Rightarrow> rv_estimate r | Some c \<Rightarrow> c)
     else budget_used j s)"
proof (cases a)
  case None
  with assms show ?thesis by (simp add: settle_def close_res_def)
next
  case (Some c)
  then have "0 \<le> to_micro c" using assms(4) by (simp add: to_micro_nonneg)
  with assms Some show ?thesis
    by (auto simp: settle_def close_res_def Let_def budget_used_adjust)
qed

lemma cancel_used:
  assumes "\<not> rv_closed r" "rv_estimate_micro r \<le> budget_used (rv_session_key r) s"
  shows "budget_used j (snd (snd (cancel r s))) =
    (if j = rv_session_key r then budget_used j s - rv_estimate_micro r else budget_used j s)"
  using assms by (simp add: cancel_def close_res_def budget_used_adjust)

text \<open>A closed reservation only raises: settling or cancelling twice moves no money.\<close>

lemma settle_closed: "rv_closed r \<Longrightarrow> (\<exists>e. settle a r s = (Inl (RuntimeError e), r, s))"
  by (simp add: settle_def close_res_def)

lemma cancel_closed: "rv_closed r \<Longrightarrow> (\<exists>e. cancel r s = (Inl (RuntimeError e), r, s))"
  by (simp add: cancel_def close_res_def)

lemma settle_keeps_key: "rv_session_key (fst (snd (settle a r s))) = rv_session_key r"
  by (auto simp: settle_def close_res_def Let_def split: option.splits)

lemma meter_reserve_cases:
  assumes "meter_reserve m kind est s = (res, s')"
  obtains (error) e where "res = Inl e" "s' = s"
  | (refused) amount where "res = Inr None" "s' = s"
      "me_limit_micro m < budget_used (me_session_key m) s + to_micro amount"
      "case est of Some e \<Rightarrow> amount = e | None \<Rightarrow> flat_estimate (me_pricing m) kind = Inr amount"
  | (held) amount where "res = Inr (Some (mk_reservation (me_session_key m) amount))"
      "budget_used (me_session_key m) s + to_micro amount \<le> me_limit_micro m"
      "s' = snd (budget_reserve (me_session_key m) (to_micro amount) (me_limit_micro m) s)"
      "budget_used (me_session_key m) s' = budget_used (me_session_key m) s + to_micro amount"
      "case est of Some e \<Rightarrow> amount = e | None \<Rightarrow> flat_estimate (me_pricing m) kind = Inr amount"
proof -
  define pick where "pick = (case est of Some e \<Rightarrow> Inr e | None \<Rightarrow> flat_estimate (me_pricing m) kind)"
  show ?thesis
  proof (cases pick)
    case (Inl e)
    with assms show ?thesis by (intro error) (auto simp: meter_reserve_def pick_def)
  next
    case (Inr amount)
    obtain b s1 where br: "budget_reserve (me_session_key m) (to_micro amount) (me_limit_micro m) s = (b, s1)"
      by fastforce
    have res: "res = (if b then Inr (Some (mk_reservation (me_session_key m) amount)) else Inr None)"
      "s' = s1"
      using assms Inr br by (auto simp: meter_reserve_def pick_def split: if_splits)
    have src: "case est of Some e \<Rightarrow> amount = e | None \<Rightarrow> flat_estimate (me_pricing m) kind = Inr amount"
      using Inr by (auto simp: pick_def split: option.splits)
    show ?thesis
    proof (cases b)
      case True
      then show ?thesis
        using res br src budget_used_reserve [OF br, of "me_session_key m"] by (intro held) auto
    next
      case False
      then have "s1 = s" using br by (auto simp: budget_reserve_def Let_def split: if_splits)
      with False show ?thesis
        using res src budget_used_reserve [OF br, of "me_session_key m"] by (intro refused) auto
    qed
  qed
qed

lemma meter_reserve_frame:
  assumes "meter_reserve m kind est s = (res, s')"
  shows "get_session k s' = get_session k s" "get_face k s' = get_face k s"
    "ms_locks s' = ms_locks s" "idem_get k s' = idem_get k s"
  using assms by (cases rule: meter_reserve_cases; simp)+

lemma settle_frame [simp]:
  "get_session k (snd (snd (settle a r s))) = get_session k s"
  "get_face k (snd (snd (settle a r s))) = get_face k s"
  "ms_locks (snd (snd (settle a r s))) = ms_locks s"
  "idem_get k (snd (snd (settle a r s))) = idem_get k s"
  by (auto simp: settle_def close_res_def Let_def split: option.splits)

lemma cancel_frame [simp]:
  "get_session k (snd (snd (cancel r s))) = get_session k s"
  "get_face k (snd (snd (cancel r s))) = get_face k s"
  "ms_locks (snd (snd (cancel r s))) = ms_locks s"
  "idem_get k (snd (snd (cancel r s))) = idem_get k s"
  by (auto simp: cancel_def close_res_def Let_def split: option.splits)

section \<open>Paid work on one session, in any interleaving\<close>

text \<open>
  Reservations of concurrent calls are taken and closed in any order; each store operation is
  atomic. \<open>ld_open\<close> are the held reservations, \<open>ld_settled\<close> the micro-USD settled so far and
  \<open>ld_over\<close> what bills exceeded their reservations by.
\<close>

record ledger =
  ld_store :: store
  ld_open :: "reservation list"
  ld_settled :: int
  ld_over :: int

fun drop_nth :: "nat \<Rightarrow> 'a list \<Rightarrow> 'a list" where
  "drop_nth i [] = []"
| "drop_nth 0 (x # xs) = xs"
| "drop_nth (Suc i) (x # xs) = x # drop_nth i xs"

inductive paid_step :: "meter \<Rightarrow> ledger \<Rightarrow> ledger \<Rightarrow> bool" for m where
  reserve: "meter_reserve m kind est s = (Inr (Some r), s') \<Longrightarrow> 0 \<le> rv_estimate r
    \<Longrightarrow> paid_step m \<lparr>ld_store = s, ld_open = rs, ld_settled = n, ld_over = v\<rparr>
          \<lparr>ld_store = s', ld_open = r # rs, ld_settled = n, ld_over = v\<rparr>"
| refuse: "meter_reserve m kind est s = (Inr None, s')
    \<Longrightarrow> paid_step m \<lparr>ld_store = s, ld_open = rs, ld_settled = n, ld_over = v\<rparr>
          \<lparr>ld_store = s', ld_open = rs, ld_settled = n, ld_over = v\<rparr>"
| settle: "i < length rs \<Longrightarrow> settle bill (rs ! i) s = (Inr cost, r', s') \<Longrightarrow> \<forall>c. bill = Some c \<longrightarrow> 0 \<le> c
    \<Longrightarrow> paid_step m \<lparr>ld_store = s, ld_open = rs, ld_settled = n, ld_over = v\<rparr>
          \<lparr>ld_store = s', ld_open = drop_nth i rs, ld_settled = n + to_micro cost,
           ld_over = v + max 0 (to_micro cost - rv_estimate_micro (rs ! i))\<rparr>"
| cancel: "i < length rs \<Longrightarrow> cancel (rs ! i) s = (Inr (), r', s')
    \<Longrightarrow> paid_step m \<lparr>ld_store = s, ld_open = rs, ld_settled = n, ld_over = v\<rparr>
          \<lparr>ld_store = s', ld_open = drop_nth i rs, ld_settled = n, ld_over = v\<rparr>"

inductive_cases paid_stepE: "paid_step m l l'"

definition held_ok :: "meter \<Rightarrow> reservation \<Rightarrow> bool" where
  "held_ok m r \<longleftrightarrow> \<not> rv_closed r \<and> rv_session_key r = me_session_key m
     \<and> rv_estimate_micro r = to_micro (rv_estimate r) \<and> 0 \<le> rv_estimate r"

definition ledger_inv :: "meter \<Rightarrow> ledger \<Rightarrow> bool" where
  "ledger_inv m l \<longleftrightarrow>
     list_all (held_ok m) (ld_open l) \<and> 0 \<le> ld_settled l \<and> 0 \<le> ld_over l
     \<and> budget_used (me_session_key m) (ld_store l)
         = ld_settled l + sum_list (map rv_estimate_micro (ld_open l))
     \<and> budget_used (me_session_key m) (ld_store l) \<le> me_limit_micro m + ld_over l"

lemma held_micro_nonneg: "held_ok m r \<Longrightarrow> 0 \<le> rv_estimate_micro r"
  by (simp add: held_ok_def to_micro_nonneg)

lemma sum_held_nonneg: "list_all (held_ok m) rs \<Longrightarrow> 0 \<le> sum_list (map rv_estimate_micro rs)"
  by (induction rs) (auto simp: held_micro_nonneg)

lemma drop_nth_facts:
  "i < length rs \<Longrightarrow> sum_list (map f rs) = (f (rs ! i) :: int) + sum_list (map f (drop_nth i rs))"
  "list_all P rs \<Longrightarrow> list_all P (drop_nth i rs)"
  by (induction i rs rule: drop_nth.induct) auto

lemma open_fits:
  assumes inv: "ledger_inv m \<lparr>ld_store = s, ld_open = rs, ld_settled = n, ld_over = v\<rparr>"
    and i: "i < length rs"
  shows "held_ok m (rs ! i)"
    and "rv_estimate_micro (rs ! i) \<le> budget_used (rv_session_key (rs ! i)) s"
proof -
  have all: "list_all (held_ok m) rs" using inv by (simp add: ledger_inv_def)
  with i show h: "held_ok m (rs ! i)" by (simp add: list_all_length)
  have "0 \<le> sum_list (map rv_estimate_micro (drop_nth i rs))"
    using drop_nth_facts(2) [OF all] by (rule sum_held_nonneg)
  then show "rv_estimate_micro (rs ! i) \<le> budget_used (rv_session_key (rs ! i)) s"
    using inv h drop_nth_facts(1) [OF i, of rv_estimate_micro]
    by (simp add: ledger_inv_def held_ok_def)
qed

lemma paid_step_inv: "paid_step m l l' \<Longrightarrow> ledger_inv m l \<Longrightarrow> ledger_inv m l'"
proof (induction rule: paid_step.induct)
  case (reserve kind est s r s' rs n v)
  from reserve(1) show ?case
  proof (cases rule: meter_reserve_cases)
    case (held amount)
    with reserve show ?thesis by (auto simp: ledger_inv_def held_ok_def)
  qed simp_all
next
  case (refuse kind est s s' rs n v)
  from refuse(1) have "s' = s" by (cases rule: meter_reserve_cases) simp_all
  with refuse show ?case by (simp add: ledger_inv_def)
next
  case (settle i rs bill s cost r' s' n v)
  note fit = open_fits [OF settle(4) settle(1)]
  have cost: "cost = (case bill of None \<Rightarrow> rv_estimate (rs ! i) | Some c \<Rightarrow> c)"
    using settle_open(1) [of "rs ! i" bill s] fit(1) settle(2) by (simp add: held_ok_def)
  have "0 \<le> cost" using fit(1) settle(3) unfolding cost by (auto simp: held_ok_def split: option.splits)
  then have "0 \<le> to_micro cost" by (rule to_micro_nonneg)
  moreover have "budget_used (me_session_key m) s' =
      budget_used (me_session_key m) s - rv_estimate_micro (rs ! i) + to_micro cost"
    using settle_used [of "rs ! i" s bill "me_session_key m"] fit settle(2,3) cost
    by (simp add: held_ok_def)
  ultimately show ?case
    using settle(4) drop_nth_facts(1) [OF settle(1), of rv_estimate_micro]
      drop_nth_facts(2) [of "held_ok m" rs i]
    by (auto simp: ledger_inv_def)
next
  case (cancel i rs s r' s' n v)
  note fit = open_fits [OF cancel(3) cancel(1)]
  have "budget_used (me_session_key m) s' = budget_used (me_session_key m) s - rv_estimate_micro (rs ! i)"
    using cancel_used [of "rs ! i" s "me_session_key m"] fit cancel(2) by (simp add: held_ok_def)
  then show ?case
    using cancel(3) drop_nth_facts(1) [OF cancel(1), of rv_estimate_micro]
      drop_nth_facts(2) [of "held_ok m" rs i] held_micro_nonneg [OF fit(1)]
    by (simp add: ledger_inv_def)
qed

lemma paid_steps_inv: "(paid_step m)\<^sup>*\<^sup>* l l' \<Longrightarrow> ledger_inv m l \<Longrightarrow> ledger_inv m l'"
  by (induction rule: rtranclp_induct) (auto intro: paid_step_inv)

definition fresh_ledger :: "store \<Rightarrow> ledger" where
  "fresh_ledger s = \<lparr>ld_store = s, ld_open = [], ld_settled = 0, ld_over = 0\<rparr>"

lemma fresh_ledger_inv:
  "budget_used (me_session_key m) s = 0 \<Longrightarrow> 0 \<le> me_limit_micro m \<Longrightarrow> ledger_inv m (fresh_ledger s)"
  by (simp add: ledger_inv_def fresh_ledger_def)

end
