(* ===== verification/World.thy ===== *)
theory World
  imports Budget
begin

text \<open>
  What the orchestration acts on. The process state the services share is the record \<open>world\<close>:
  the state store, one event stream per session, object storage, and the requests sent so far
  to the image provider and to the chat endpoint. The two external services are functions of
  those logs, so they may answer every call differently and nothing is assumed about them.

  An operation takes the world and returns its result, or the exception it raised, with the
  world it left behind: effects done before a \<open>raise\<close> stay done.

  The named tuples of \<open>src/protocols/\<close> are records here.
\<close>

section \<open>JSON values\<close>

datatype json =
    JNull
  | JBool bool
  | JInt int
  | JFloat rat
  | JStr string
  | JArr "json list"
  | JObj "(string \<times> json) list"

section \<open>Port data (\<open>src/protocols/\<close>)\<close>

record write_request =
  wq_instruction :: string
  wq_preserve :: "string list"
  wq_locked :: "(string, string) dict"
  wq_defaults :: "(string, string) dict"
  wq_style_notes :: string
  wq_template_body :: string
  wq_inventory :: "photo_inventory option"
  wq_applied :: "string list"

record writer_feedback =
  wf_similarity :: "rat option"
  wf_verdict :: "verdict option"
  wf_attempt :: "nat option"

record write_result =
  wt_body :: string
  wt_usage :: "provider_usage option"
  wt_cost :: usd

record slot_fill =
  sf_slots :: "(string, string) dict"
  sf_addendum :: string
  sf_usage :: "provider_usage option"
  sf_cost :: usd

record parse_outcome =
  po_analysis :: brief_analysis
  po_usage :: "provider_usage option"
  po_cost :: usd

record plan_outcome =
  pn_steps :: "edit_step list"
  pn_usage :: "provider_usage option"
  pn_cost :: usd

record inventory_outcome =
  io_inventory :: photo_inventory
  io_usage :: "provider_usage option"
  io_cost :: usd

record generated_image =
  gi_image_bytes :: bytes
  gi_provider_request_id :: string
  gi_usage :: "provider_usage option"

datatype gen_outcome =
    Generated generated_image
  | Refused string "provider_usage option"   \<comment> \<open>\<open>GenerationRefusedError\<close>\<close>
  | Gen_Failed string                        \<comment> \<open>any other exception\<close>

record gen_request =
  gq_prompt :: string
  gq_params :: generation
  gq_reference_images :: "bytes list"
  gq_face_crop :: "bytes option"

section \<open>The world and its operations\<close>

record world =
  w_store :: store
  w_streams :: "string \<Rightarrow> event list"
  w_objects :: "string \<rightharpoonup> bytes"
  w_gen_log :: "gen_request list"
  w_llm_log :: "json list"

type_synonym 'a op = "world \<Rightarrow> 'a result \<times> world"

definition ret :: "'a \<Rightarrow> 'a op" where
  "ret x w = (Inr x, w)"

definition raise_op :: "py_exn \<Rightarrow> 'a op" where
  "raise_op e w = (Inl e, w)"

definition lift_res :: "'a result \<Rightarrow> 'a op" where
  "lift_res r w = (r, w)"

definition obind :: "'a op \<Rightarrow> ('a \<Rightarrow> 'b op) \<Rightarrow> 'b op" where
  "obind m f w = (case m w of (Inl e, w') \<Rightarrow> (Inl e, w') | (Inr x, w') \<Rightarrow> f x w')"

definition try_op :: "'a op \<Rightarrow> (py_exn \<Rightarrow> 'a op) \<Rightarrow> 'a op" where   \<comment> \<open>\<open>try: m except e: h(e)\<close>\<close>
  "try_op m h w = (case m w of (Inl e, w') \<Rightarrow> h e w' | (Inr x, w') \<Rightarrow> (Inr x, w'))"

definition op_get_session :: "string \<Rightarrow> session_state option op" where
  "op_get_session k w = (Inr (get_session k (w_store w)), w)"

definition op_put_session :: "session_state \<Rightarrow> unit op" where
  "op_put_session s w = (Inr (), w\<lparr>w_store := put_session s (w_store w)\<rparr>)"

definition op_get_face :: "string \<Rightarrow> face_profile option op" where
  "op_get_face k w = (Inr (get_face k (w_store w)), w)"

definition op_put_face :: "face_profile \<Rightarrow> unit op" where
  "op_put_face f w = (Inr (), w\<lparr>w_store := put_face f (w_store w)\<rparr>)"

definition op_reserve :: "meter \<Rightarrow> paid_call_kind \<Rightarrow> usd option \<Rightarrow> reservation option op" where
  "op_reserve m kind est w =
     (case meter_reserve m kind est (w_store w) of (r, s) \<Rightarrow> (r, w\<lparr>w_store := s\<rparr>))"

definition op_settle :: "usd option \<Rightarrow> reservation \<Rightarrow> usd op" where
  "op_settle c r w = (case settle c r (w_store w) of (x, _, s) \<Rightarrow> (x, w\<lparr>w_store := s\<rparr>))"

definition op_cancel :: "reservation \<Rightarrow> unit op" where
  "op_cancel r w = (case cancel r (w_store w) of (x, _, s) \<Rightarrow> (x, w\<lparr>w_store := s\<rparr>))"

definition publish :: "string \<Rightarrow> event \<Rightarrow> unit op" where
  "publish k e w = (Inr (), w\<lparr>w_streams := (w_streams w)(k := w_streams w k @ [e])\<rparr>)"

definition storage_put :: "string \<Rightarrow> bytes \<Rightarrow> string op" where
  "storage_put k data w = (Inr k, w\<lparr>w_objects := (w_objects w)(k \<mapsto> data)\<rparr>)"

definition storage_get :: "string \<Rightarrow> bytes op" where
  "storage_get k w =
     (case w_objects w k of None \<Rightarrow> (Inl (KeyError k), w) | Some d \<Rightarrow> (Inr d, w))"

section \<open>Rules\<close>

lemma ret_simp [simp]: "ret x w = (Inr x, w)" by (simp add: ret_def)
lemma raise_simp [simp]: "raise_op e w = (Inl e, w)" by (simp add: raise_op_def)
lemma lift_res_simp [simp]: "lift_res r w = (r, w)" by (simp add: lift_res_def)

lemma obind_simps [simp]:
  "m w = (Inl e, w') \<Longrightarrow> obind m f w = (Inl e, w')"
  "m w = (Inr x, w') \<Longrightarrow> obind m f w = f x w'"
  by (simp_all add: obind_def)

lemma obind_ret [simp]: "obind (ret x) f = f x"
  by (rule ext) simp

lemma obind_Inr:
  "obind m f w = (Inr y, w'') \<longleftrightarrow> (\<exists>x w'. m w = (Inr x, w') \<and> f x w' = (Inr y, w''))"
  by (auto simp: obind_def split: prod.splits sum.splits)

lemma obind_Inl:
  "obind m f w = (Inl e, w'') \<longleftrightarrow>
     m w = (Inl e, w'') \<or> (\<exists>x w'. m w = (Inr x, w') \<and> f x w' = (Inl e, w''))"
  by (auto simp: obind_def split: prod.splits sum.splits)

lemma try_op_simps [simp]:
  "m w = (Inl e, w') \<Longrightarrow> try_op m h w = h e w'"
  "m w = (Inr x, w') \<Longrightarrow> try_op m h w = (Inr x, w')"
  by (simp_all add: try_op_def)

lemmas op_defs [step_simps] =
  op_get_session_def op_put_session_def op_get_face_def op_put_face_def publish_def storage_put_def

text \<open>
  An invariant an operation keeps, whether it returns or raises; composition keeps it.
\<close>

definition keeps :: "(world \<Rightarrow> bool) \<Rightarrow> 'a op \<Rightarrow> bool" where
  "keeps P m \<longleftrightarrow> (\<forall>w. P w \<longrightarrow> P (snd (m w)))"

named_theorems keeps_intros \<open>operations that keep an invariant\<close>

lemma keepsD: "keeps P m \<Longrightarrow> P w \<Longrightarrow> m w = (r, w') \<Longrightarrow> P w'"
  by (metis keeps_def snd_conv)

lemma keeps_ret [keeps_intros]: "keeps P (ret x)"
  by (simp add: keeps_def)

lemma keeps_raise [keeps_intros]: "keeps P (raise_op e)"
  by (simp add: keeps_def)

lemma keeps_lift [keeps_intros]: "keeps P (lift_res r)"
  by (simp add: keeps_def)

lemma keeps_obind [keeps_intros]: "keeps P m \<Longrightarrow> (\<And>x. keeps P (f x)) \<Longrightarrow> keeps P (obind m f)"
  by (simp add: keeps_def obind_def split: prod.splits sum.splits) (metis snd_conv)

lemma keeps_try [keeps_intros]: "keeps P m \<Longrightarrow> (\<And>e. keeps P (h e)) \<Longrightarrow> keeps P (try_op m h)"
  by (simp add: keeps_def try_op_def split: prod.splits sum.splits) (metis snd_conv)

lemma keeps_if [keeps_intros]: "keeps P a \<Longrightarrow> keeps P b \<Longrightarrow> keeps P (if c then a else b)"
  by simp

lemma keeps_option [keeps_intros]:
  "keeps P a \<Longrightarrow> (\<And>x. keeps P (b x)) \<Longrightarrow> keeps P (case z of None \<Rightarrow> a | Some x \<Rightarrow> b x)"
  by (simp split: option.splits)

lemma keeps_sum [keeps_intros]:
  "(\<And>x. keeps P (a x)) \<Longrightarrow> (\<And>x. keeps P (b x)) \<Longrightarrow> keeps P (case z of Inl x \<Rightarrow> a x | Inr x \<Rightarrow> b x)"
  by (simp split: sum.splits)

section \<open>Budget operations on the world\<close>

definition used :: "string \<Rightarrow> world \<Rightarrow> int" where
  "used k w = budget_used k (w_store w)"

lemma used_simps [simp]:
  "used k (w\<lparr>w_streams := x\<rparr>) = used k w" "used k (w\<lparr>w_objects := y\<rparr>) = used k w"
  "used k (w\<lparr>w_gen_log := g\<rparr>) = used k w" "used k (w\<lparr>w_llm_log := l\<rparr>) = used k w"
  "used k (w\<lparr>w_store := put_session s (w_store w)\<rparr>) = used k w"
  "used k (w\<lparr>w_store := put_face f (w_store w)\<rparr>) = used k w"
  by (simp_all add: used_def)

lemma op_reserve_cases:
  assumes "op_reserve m kind est w = (res, w')"
  obtains (error) e where "res = Inl e" "w' = w"
  | (refused) amount where "res = Inr None" "w' = w"
      "me_limit_micro m < used (me_session_key m) w + to_micro amount"
      "case est of Some e \<Rightarrow> amount = e | None \<Rightarrow> flat_estimate (me_pricing m) kind = Inr amount"
  | (held) amount s where "res = Inr (Some (mk_reservation (me_session_key m) amount))"
      "used (me_session_key m) w + to_micro amount \<le> me_limit_micro m"
      "w' = w\<lparr>w_store := s\<rparr>"
      "s = snd (budget_reserve (me_session_key m) (to_micro amount) (me_limit_micro m) (w_store w))"
      "used (me_session_key m) w' = used (me_session_key m) w + to_micro amount"
      "case est of Some e \<Rightarrow> amount = e | None \<Rightarrow> flat_estimate (me_pricing m) kind = Inr amount"
proof -
  obtain r s where mr: "meter_reserve m kind est (w_store w) = (r, s)" by fastforce
  with assms have eq: "res = r" "w' = w\<lparr>w_store := s\<rparr>" by (simp_all add: op_reserve_def)
  from mr show ?thesis
  proof (cases rule: meter_reserve_cases)
    case (error e)
    with eq show ?thesis by (intro that(1)) simp_all
  next
    case (refused amount)
    with eq show ?thesis by (intro that(2)) (simp_all add: used_def)
  next
    case (held amount)
    with eq show ?thesis by (intro that(3)) (simp_all add: used_def)
  qed
qed

section \<open>Calls that only spend\<close>

definition usage_cost :: "provider_usage option \<Rightarrow> usd option" where
  "usage_cost usage = (case usage of None \<Rightarrow> None | Some u \<Rightarrow> pu_cost u)"

definition quiet :: "string \<Rightarrow> world \<Rightarrow> world \<Rightarrow> bool" where
  \<comment> \<open>nothing moved but the budget counter of \<open>k\<close> and the chat log\<close>
  "quiet k w w' \<longleftrightarrow>
     ms_faces (w_store w') = ms_faces (w_store w) \<and> ms_sessions (w_store w') = ms_sessions (w_store w)
     \<and> ms_locks (w_store w') = ms_locks (w_store w) \<and> ms_idem (w_store w') = ms_idem (w_store w)
     \<and> w_streams w' = w_streams w \<and> w_objects w' = w_objects w \<and> w_gen_log w' = w_gen_log w
     \<and> (\<forall>j. j \<noteq> k \<longrightarrow> used j w' = used j w)"

definition charged :: "bool \<Rightarrow> string \<Rightarrow> usd \<Rightarrow> world \<Rightarrow> world \<Rightarrow> bool" where
  \<comment> \<open>\<open>h\<close>: no price and no bill is negative\<close>
  "charged h k cost w w' \<longleftrightarrow>
     (h \<longrightarrow> 0 \<le> cost \<and> (0 \<le> used k w \<longrightarrow> used k w' = used k w + to_micro cost))"

lemma quiet_refl [simp]: "quiet k w w"
  by (simp add: quiet_def)

lemma quiet_trans: "quiet k w w1 \<Longrightarrow> quiet k w1 w2 \<Longrightarrow> quiet k w w2"
  by (simp add: quiet_def)

lemma charged_zero [simp]: "charged h k 0 w w"
  by (simp add: charged_def to_micro_def to_micro_with_def)

lemma budget_adjust_fields [simp]:
  "ms_faces (snd (budget_adjust k d s)) = ms_faces s" "ms_sessions (snd (budget_adjust k d s)) = ms_sessions s"
  "ms_locks (snd (budget_adjust k d s)) = ms_locks s" "ms_idem (snd (budget_adjust k d s)) = ms_idem s"
  by (simp_all add: budget_adjust_def Let_def)

lemma quiet_reserve: "op_reserve m kind est w = (x, w') \<Longrightarrow> quiet (me_session_key m) w w'"
  by (auto simp: op_reserve_def meter_reserve_def budget_reserve_def quiet_def used_def budget_used_def Let_def
      split: prod.splits sum.splits if_splits option.splits)

lemma quiet_settle: "op_settle a r w = (x, w') \<Longrightarrow> quiet (rv_session_key r) w w'"
  by (auto simp: op_settle_def settle_def close_res_def quiet_def used_def budget_used_adjust Let_def
      split: prod.splits sum.splits if_splits option.splits)

lemma quiet_cancel: "op_cancel r w = (x, w') \<Longrightarrow> quiet (rv_session_key r) w w'"
  by (auto simp: op_cancel_def cancel_def close_res_def quiet_def used_def budget_used_adjust Let_def
      split: prod.splits sum.splits if_splits option.splits)

end
