(* ===== verification/Llm_Client.thy ===== *)
theory Llm_Client
  imports World
begin

text \<open>
  The transport under every OpenRouter connector: \<open>utils/retry.py\<close>,
  \<open>services/connectors/openrouter_client.py\<close>, \<open>services/connectors/image_parts.py\<close>, and the
  reserve, call, settle-or-refund discipline the five chat connectors share (\<open>paid_call\<close>).
  What the endpoint answers is a parameter; \<open>json.loads\<close> and \<open>json.dumps\<close> are the parameters
  \<open>ll_loads\<close> and \<open>ll_dumps\<close>. \<open>base64\<close> is modelled, for the data URIs.
\<close>

section \<open>Base64 (standard library)\<close>

definition b64_alphabet :: string where
  "b64_alphabet = ''ABCDEFGHIJKLMNOPQRSTUVWXYZabcdefghijklmnopqrstuvwxyz0123456789+/''"

definition b64_char :: "nat \<Rightarrow> char" where
  "b64_char n = b64_alphabet ! n"

definition b64_index :: "char \<Rightarrow> nat option" where
  "b64_index c = map_option fst (List.find (\<lambda>(_, d). d = c) (enumerate 0 b64_alphabet))"

fun b64encode :: "bytes \<Rightarrow> string" where
  "b64encode [] = []"
| "b64encode [a] =
     [b64_char (code a div 4), b64_char (code a mod 4 * 16), CHR ''='', CHR ''='']"
| "b64encode [a, b] =
     [b64_char (code a div 4), b64_char (code a mod 4 * 16 + code b div 16),
      b64_char (code b mod 16 * 4), CHR ''='']"
| "b64encode (a # b # c # rest) =
     b64_char (code a div 4) # b64_char (code a mod 4 * 16 + code b div 16)
     # b64_char (code b mod 16 * 4 + code c div 64) # b64_char (code c mod 64) # b64encode rest"

definition b64_byte1 :: "nat \<Rightarrow> nat \<Rightarrow> char" where
  "b64_byte1 i j = char_of (i * 4 + j div 16)"

definition b64_byte2 :: "nat \<Rightarrow> nat \<Rightarrow> char" where
  "b64_byte2 j k = char_of (j mod 16 * 16 + k div 4)"

definition b64_byte3 :: "nat \<Rightarrow> nat \<Rightarrow> char" where
  "b64_byte3 k l = char_of (k mod 4 * 64 + l)"

fun b64decode :: "string \<Rightarrow> bytes option" where   \<comment> \<open>\<open>b64decode(s, validate=True)\<close>; \<open>None\<close>: \<open>binascii.Error\<close>\<close>
  "b64decode [] = Some []"
| "b64decode (w # x # y # z # rest) =
     (case (b64_index w, b64_index x) of
        (Some i, Some j) \<Rightarrow>
          if y = CHR ''='' then
            (if z = CHR ''='' \<and> rest = [] then Some [b64_byte1 i j] else None)
          else (case b64_index y of
            None \<Rightarrow> None
          | Some k \<Rightarrow>
              if z = CHR ''='' then
                (if rest = [] then Some [b64_byte1 i j, b64_byte2 j k] else None)
              else (case (b64_index z, b64decode rest) of
                (Some l, Some tail) \<Rightarrow> Some (b64_byte1 i j # b64_byte2 j k # b64_byte3 k l # tail)
              | _ \<Rightarrow> None))
      | _ \<Rightarrow> None)"
| "b64decode _ = None"

section \<open>Image parts\<close>

definition png_magic :: bytes where
  "png_magic = [CHR 0x89, CHR ''P'', CHR ''N'', CHR ''G'', CHR 0x0D, CHR 0x0A, CHR 0x1A, CHR 0x0A]"

definition jpeg_magic :: bytes where
  "jpeg_magic = [CHR 0xFF, CHR 0xD8, CHR 0xFF]"

definition magic_mime :: "(bytes \<times> string) list" where
  "magic_mime = [(png_magic, ''image/png''), (jpeg_magic, ''image/jpeg'')]"

definition sniff_mime :: "bytes \<Rightarrow> string" where
  "sniff_mime img =
     (if take 4 img = ''RIFF'' \<and> take 4 (drop 8 img) = ''WEBP'' then ''image/webp''
      else case List.find (\<lambda>(magic, _). take (length magic) img = magic) magic_mime of
             Some (_, mime) \<Rightarrow> mime
           | None \<Rightarrow> ''image/jpeg'')"

definition data_url :: "bytes \<Rightarrow> string" where
  "data_url img = ''data:'' @ sniff_mime img @ '';base64,'' @ b64encode img"

definition image_part :: "bytes \<Rightarrow> string option \<Rightarrow> json" where
  "image_part img detail =
     JObj [(''type'', JStr ''image_url''),
           (''image_url'', JObj ((''url'', JStr (data_url img))
              # (case detail of None \<Rightarrow> [] | Some d \<Rightarrow> [(''detail'', JStr d)])))]"

section \<open>Retry\<close>

datatype upstream_exn =
    TransientUpstream string "int option"
  | UpstreamRequest string int
  | TransportError string                     \<comment> \<open>\<open>httpx.TransportError\<close>\<close>
  | OtherExn py_exn

fun is_transient :: "upstream_exn \<Rightarrow> bool" where
  "is_transient (TransientUpstream _ _) = True"
| "is_transient (TransportError _) = True"
| "is_transient _ = False"

text \<open>
  tenacity's loop: the function is called at least once, a failure that the predicate rejects or
  that comes with the last attempt is re-raised.
\<close>

fun with_transient_retry ::
  "nat \<Rightarrow> ('s \<Rightarrow> (upstream_exn + 'a) \<times> 's) \<Rightarrow> 's \<Rightarrow> (upstream_exn + 'a) \<times> 's" where
  "with_transient_retry 0 fn s = fn s"
| "with_transient_retry (Suc n) fn s =
     (case fn s of
        (Inl e, s') \<Rightarrow>
          if is_transient e \<and> 0 < n then with_transient_retry n fn s' else (Inl e, s')
      | (Inr x, s') \<Rightarrow> (Inr x, s'))"

section \<open>The client\<close>

datatype http_answer =
    Answered int "json result" string     \<comment> \<open>status, \<open>response.json()\<close>, \<open>response.text\<close>\<close>
  | Unreached string

record llm =
  ll_model :: string
  ll_attempts :: nat
  ll_post :: "json list \<Rightarrow> json \<Rightarrow> http_answer"   \<comment> \<open>of the requests sent before and this one\<close>
  ll_dumps :: "json \<Rightarrow> string"
  ll_loads :: "string \<Rightarrow> json result"

definition read_answer :: "http_answer \<Rightarrow> upstream_exn + json" where   \<comment> \<open>\<open>_once\<close>\<close>
  "read_answer a =
     (case a of
        Unreached detail \<Rightarrow> Inl (TransportError detail)
      | Answered status body txt \<Rightarrow>
          if status = 429 \<or> 500 \<le> status
          then Inl (TransientUpstream (''openrouter answered '' @ show_int status) (Some status))
          else if 400 \<le> status
          then Inl (UpstreamRequest (''openrouter rejected the request: '' @ show_int status @ '' '' @ txt)
                      status)
          else (case body of Inl e \<Rightarrow> Inl (OtherExn e) | Inr b \<Rightarrow> Inr b))"

definition post_once :: "llm \<Rightarrow> json \<Rightarrow> world \<Rightarrow> (upstream_exn + json) \<times> world" where
  "post_once c payload w =
     (read_answer (ll_post c (w_llm_log w) payload), w\<lparr>w_llm_log := w_llm_log w @ [payload]\<rparr>)"

fun as_py_exn :: "upstream_exn \<Rightarrow> py_exn" where
  "as_py_exn (TransientUpstream m _) = OtherError m"
| "as_py_exn (UpstreamRequest m _) = OtherError m"
| "as_py_exn (TransportError m) = OtherError m"
| "as_py_exn (OtherExn e) = e"

definition chat_completion :: "llm \<Rightarrow> json \<Rightarrow> json op" where
  "chat_completion c payload w =
     (case with_transient_retry (ll_attempts c) (post_once c payload) w of
        (Inl e, w') \<Rightarrow> (Inl (as_py_exn e), w')
      | (Inr b, w') \<Rightarrow> (Inr b, w'))"

section \<open>Reading a body\<close>

definition json_item :: "string \<Rightarrow> json \<Rightarrow> json result" where   \<comment> \<open>\<open>j[k]\<close> with a string key\<close>
  "json_item k j =
     (case j of
        JObj d \<Rightarrow> (case dict_get d k of None \<Rightarrow> Inl (KeyError k) | Some v \<Rightarrow> Inr v)
      | _ \<Rightarrow> Inl (OtherError ''TypeError''))"

definition json_first :: "json \<Rightarrow> json result" where   \<comment> \<open>\<open>j[0]\<close>\<close>
  "json_first j =
     (case j of
        JArr (x # _) \<Rightarrow> Inr x
      | JArr [] \<Rightarrow> Inl (OtherError ''IndexError'')
      | JStr (c # _) \<Rightarrow> Inr (JStr [c])
      | JStr [] \<Rightarrow> Inl (OtherError ''IndexError'')
      | JObj _ \<Rightarrow> Inl (KeyError ''0'')
      | _ \<Rightarrow> Inl (OtherError ''TypeError''))"

definition json_lookup :: "string \<Rightarrow> json \<Rightarrow> json option result" where   \<comment> \<open>\<open>j.get(k)\<close>\<close>
  "json_lookup k j =
     (case j of JObj d \<Rightarrow> Inr (dict_get d k) | _ \<Rightarrow> Inl (OtherError ''AttributeError''))"

definition message_content :: "llm \<Rightarrow> json \<Rightarrow> json result" where
  \<comment> \<open>\<open>json.loads(body["choices"][0]["message"]["content"])\<close>\<close>
  "message_content c body =
     bind_res (json_item ''choices'' body) (\<lambda>choices.
     bind_res (json_first choices) (\<lambda>choice.
     bind_res (json_item ''message'' choice) (\<lambda>message.
     bind_res (json_item ''content'' message) (\<lambda>content.
       case content of JStr s \<Rightarrow> ll_loads c s | _ \<Rightarrow> Inl (OtherError ''TypeError'')))))"

subsection \<open>Usage\<close>

definition all_digits :: "string \<Rightarrow> bool" where
  "all_digits s = list_all is_digit s"

definition digits_num :: "string \<Rightarrow> int" where
  "digits_num s = foldl (\<lambda>a c. a * 10 + int (code c) - 48) 0 s"

definition split_at :: "(char \<Rightarrow> bool) \<Rightarrow> string \<Rightarrow> string \<times> string option" where
  "split_at p s = (takeWhile (\<lambda>c. \<not> p c) s,
     case dropWhile (\<lambda>c. \<not> p c) s of [] \<Rightarrow> None | _ # t \<Rightarrow> Some t)"

definition strip_sign :: "string \<Rightarrow> int \<times> string" where
  "strip_sign s =
     (case s of [] \<Rightarrow> (1, []) | c # t \<Rightarrow> if c = CHR ''-'' then (- 1, t) else if c = CHR ''+'' then (1, t) else (1, s))"

definition decimal_of :: "string \<Rightarrow> rat result" where   \<comment> \<open>\<open>Decimal(s)\<close>, finite values only\<close>
  "decimal_of s0 =
     (let s = filter (\<lambda>c. c \<noteq> CHR ''_'') (strip s0);
          (sgn, s1) = strip_sign s;
          (mant, ex) = split_at (\<lambda>c. c = CHR ''e'' \<or> c = CHR ''E'') s1;
          (ip, fp) = split_at (\<lambda>c. c = CHR ''.'') mant;
          frac = (case fp of None \<Rightarrow> [] | Some f \<Rightarrow> f);
          (esgn, eds) = (case ex of None \<Rightarrow> (1, ''0'') | Some e \<Rightarrow> strip_sign e)
      in if ip @ frac \<noteq> [] \<and> all_digits ip \<and> all_digits frac \<and> eds \<noteq> [] \<and> all_digits eds
         then Inr (of_int sgn * of_int (digits_num (ip @ frac)) / 10 ^ length frac
                   * (if 0 \<le> esgn then 10 ^ nat (digits_num eds) else 1 / 10 ^ nat (digits_num eds)))
         else Inl (DecimalError ''not a decimal''))"

definition json_cost :: "json option \<Rightarrow> usd option result" where
  "json_cost raw =
     (case raw of
        Some (JInt i) \<Rightarrow> Inr (Some (parse_usd (of_int i)))
      | Some (JFloat f) \<Rightarrow> Inr (Some (parse_usd f))
      | Some (JStr s) \<Rightarrow> bind_res (decimal_of s) (\<lambda>v. Inr (Some (parse_usd v)))
      | Some (JBool _) \<Rightarrow> Inl (DecimalError ''not a decimal'')
      | _ \<Rightarrow> Inr None)"

definition json_int :: "json option \<Rightarrow> int option" where   \<comment> \<open>a \<open>bool\<close> is an \<open>int\<close>\<close>
  "json_int raw =
     (case raw of Some (JInt i) \<Rightarrow> Some i | Some (JBool b) \<Rightarrow> Some (if b then 1 else 0) | _ \<Rightarrow> None)"

definition parse_usage :: "json \<Rightarrow> provider_usage option result" where
  "parse_usage body =
     bind_res (json_lookup ''usage'' body) (\<lambda>usage.
       case usage of
         Some (JObj u) \<Rightarrow>
           bind_res (json_cost (dict_get u ''cost'')) (\<lambda>c.
             Inr (Some \<lparr>pu_prompt_tokens = json_int (dict_get u ''prompt_tokens''),
                        pu_completion_tokens = json_int (dict_get u ''completion_tokens''),
                        pu_cost = c\<rparr>))
       | _ \<Rightarrow> Inr None)"

section \<open>Reserve, call, settle or refund\<close>

definition reserve_slot :: "meter option \<Rightarrow> paid_call_kind \<Rightarrow> reservation option op" where
  "reserve_slot m kind = (case m of None \<Rightarrow> ret None | Some mt \<Rightarrow> op_reserve mt kind None)"

definition refund :: "reservation option \<Rightarrow> unit op" where
  "refund r = (case r of None \<Rightarrow> ret () | Some rv \<Rightarrow> op_cancel rv)"

definition paid_call ::
  "llm \<Rightarrow> meter option \<Rightarrow> paid_call_kind \<Rightarrow> json \<Rightarrow> (json \<Rightarrow> 'a result)
     \<Rightarrow> ('a \<Rightarrow> provider_usage option \<Rightarrow> usd \<Rightarrow> 'b) \<Rightarrow> 'b result \<Rightarrow> 'b op" where
  "paid_call c m kind payload parse build fallback =
     obind (reserve_slot m kind) (\<lambda>r.
       if m \<noteq> None \<and> r = None then lift_res fallback
       else try_op
         (obind (chat_completion c payload) (\<lambda>body.
          obind (lift_res (parse body)) (\<lambda>x.
          obind (lift_res (parse_usage body)) (\<lambda>usage.
            case r of
              None \<Rightarrow> ret (build x None 0)
            | Some rv \<Rightarrow> obind (op_settle (usage_cost usage) rv) (\<lambda>cost. ret (build x usage cost))))))
         (\<lambda>_. obind (refund r) (\<lambda>_. lift_res fallback)))"

definition chat_payload :: "llm \<Rightarrow> json \<Rightarrow> json \<Rightarrow> rat \<Rightarrow> string \<Rightarrow> json \<Rightarrow> json" where
  "chat_payload c system user temperature schema_name schema =
     JObj [(''model'', JStr (ll_model c)),
           (''messages'', JArr [JObj [(''role'', JStr ''system''), (''content'', system)],
                               JObj [(''role'', JStr ''user''), (''content'', user)]]),
           (''temperature'', JFloat temperature),
           (''response_format'', JObj [(''type'', JStr ''json_schema''),
              (''json_schema'', JObj [(''name'', JStr schema_name), (''strict'', JBool True),
                                     (''schema'', schema)])])]"

section \<open>Lemmas\<close>

subsection \<open>Base64\<close>

lemma b64_index_char: "n < 64 \<Longrightarrow> b64_index (b64_char n) = Some n \<and> b64_char n \<noteq> CHR ''=''"
proof -
  have "list_all (\<lambda>n. b64_index (b64_char n) = Some n \<and> b64_char n \<noteq> CHR ''='') [0..<64]"
    by code_simp
  then show "n < 64 \<Longrightarrow> ?thesis" by (simp add: list_all_iff)
qed

lemma b64_index_simps [simp]:
  "n < 64 \<Longrightarrow> b64_index (b64_char n) = Some n" "n < 64 \<Longrightarrow> b64_char n \<noteq> CHR ''=''"
  by (simp_all add: b64_index_char)

lemma char_of_code [simp]: "char_of (code c) = c"
  by (simp add: code_def)

lemma code_less: "code c < 256"
  by (simp add: code_def)

lemma b64_bounds [simp]:
  "code a div 4 < 64" "code a mod 4 * 16 + code b div 16 < 64" "code b mod 16 * 4 + code c div 64 < 64"
  "code a mod 4 * 16 < 64" "code b mod 16 * 4 < 64" "code c mod 64 < 64"
proof -
  have m: "code a mod 4 \<le> 3" "code b mod 16 \<le> 15" "code b div 16 < 16" "code c div 64 < 4"
    using code_less [of b] code_less [of c] by (simp_all add: less_mult_imp_div_less less_Suc_eq_le [symmetric])
  then show "code a mod 4 * 16 + code b div 16 < 64" "code b mod 16 * 4 + code c div 64 < 64"
    "code a mod 4 * 16 < 64" "code b mod 16 * 4 < 64"
    by linarith+
qed (use code_less [of a] in \<open>simp_all add: less_mult_imp_div_less\<close>)

lemma high_low: "y < 16 \<Longrightarrow> (x * 16 + y) div 16 = (x::nat)" "y < 16 \<Longrightarrow> (x * 16 + y) mod 16 = y"
  "y < 4 \<Longrightarrow> (x * 4 + y) div 4 = x" "y < 4 \<Longrightarrow> (x * 4 + y) mod 4 = y"
  by simp_all

lemma b64_joins [simp]:
  "b64_byte1 (code a div 4) (code a mod 4 * 16 + code b div 16) = a"
  "b64_byte2 (code a mod 4 * 16 + code b div 16) (code b mod 16 * 4 + code c div 64) = b"
  "b64_byte3 (code b mod 16 * 4 + code c div 64) (code c mod 64) = c"
  "b64_byte1 (code a div 4) (code a mod 4 * 16) = a"
  "b64_byte2 (code a mod 4 * 16 + code b div 16) (code b mod 16 * 4) = b"
proof -
  have q: "code b div 16 < 16" "code c div 64 < 4" using code_less by (simp_all add: less_mult_imp_div_less)
  show
    "b64_byte1 (code a div 4) (code a mod 4 * 16 + code b div 16) = a"
    "b64_byte2 (code a mod 4 * 16 + code b div 16) (code b mod 16 * 4 + code c div 64) = b"
    "b64_byte3 (code b mod 16 * 4 + code c div 64) (code c mod 64) = c"
    "b64_byte2 (code a mod 4 * 16 + code b div 16) (code b mod 16 * 4) = b"
    unfolding b64_byte1_def b64_byte2_def b64_byte3_def by (simp_all only: high_low q) simp_all
  show "b64_byte1 (code a div 4) (code a mod 4 * 16) = a" by (simp add: b64_byte1_def)
qed

lemma b64_roundtrip: "b64decode (b64encode s) = Some s"
  by (induction s rule: b64encode.induct) simp_all

text \<open>The decoder is strict: whole groups of four characters of the alphabet, padding included.\<close>

lemma b64_index_in: "b64_index c = Some i \<Longrightarrow> c \<in> set b64_alphabet"
  unfolding b64_index_def by (force simp: find_Some_iff nth_enumerate_eq intro: nth_mem)

lemma b64decode_strict:
  "b64decode s = Some x \<Longrightarrow> length s mod 4 = 0 \<and> set s \<subseteq> set b64_alphabet \<union> {CHR ''=''}"
proof (induction s arbitrary: x rule: b64decode.induct)
  case (2 w x y z rest)
  have add4: "Suc (Suc (Suc (Suc n))) mod 4 = n mod 4" for n :: nat by presburger
  from 2 show ?case
    by (auto simp: add4 dest: b64_index_in split: option.splits if_splits)
qed simp_all

subsection \<open>Retry\<close>

text \<open>
  What a chat request does: the same payload, sent once more after every transient failure and
  never after anything else, at most \<open>ll_attempts\<close> times.
\<close>

lemma retry_spec:
  assumes "with_transient_retry n (post_once c p) w = (x, w')"
  shows "\<exists>k. k < max 1 n \<and> w' = w\<lparr>w_llm_log := w_llm_log w @ replicate (Suc k) p\<rparr>
    \<and> x = read_answer (ll_post c (w_llm_log w @ replicate k p) p)
    \<and> (\<forall>j<k. \<exists>e. read_answer (ll_post c (w_llm_log w @ replicate j p) p) = Inl e \<and> is_transient e)
    \<and> (\<forall>e. x = Inl e \<longrightarrow> is_transient e \<longrightarrow> Suc k = max 1 n)"
  using assms
proof (induction n arbitrary: w)
  case 0
  then show ?case by (intro exI [of _ 0]) (auto simp: post_once_def)
next
  case (Suc n)
  let ?r = "read_answer (ll_post c (w_llm_log w) p)"
  let ?w1 = "w\<lparr>w_llm_log := w_llm_log w @ [p]\<rparr>"
  show ?case
  proof (cases "\<exists>e. ?r = Inl e \<and> is_transient e \<and> 0 < n")
    case False
    with Suc.prems show ?thesis
      by (intro exI [of _ 0]) (auto simp: post_once_def split: sum.splits if_splits)
  next
    case True
    then obtain e where e: "?r = Inl e" "is_transient e" "0 < n" by blast
    with Suc.prems have "with_transient_retry n (post_once c p) ?w1 = (x, w')"
      by (simp add: post_once_def [of c p w])
    from Suc.IH [OF this] obtain k where k: "k < max 1 n"
      "w' = w\<lparr>w_llm_log := w_llm_log w @ p # replicate (Suc k) p\<rparr>"
      "x = read_answer (ll_post c (w_llm_log w @ p # replicate k p) p)"
      "\<forall>j<k. \<exists>e. read_answer (ll_post c (w_llm_log w @ p # replicate j p) p) = Inl e \<and> is_transient e"
      "\<forall>e. x = Inl e \<longrightarrow> is_transient e \<longrightarrow> Suc k = max 1 n" by auto
    have "\<exists>e. read_answer (ll_post c (w_llm_log w @ replicate j p) p) = Inl e \<and> is_transient e"
      if "j < Suc k" for j
      using that k(4) e by (cases j) auto
    with k e show ?thesis by (intro exI [of _ "Suc k"]) auto
  qed
qed

lemma chat_completion_spec:
  assumes "chat_completion c p w = (x, w')"
  obtains k where "k < max 1 (ll_attempts c)"
    "w' = w\<lparr>w_llm_log := w_llm_log w @ replicate (Suc k) p\<rparr>"
    "\<And>b. x = Inr b \<Longrightarrow> read_answer (ll_post c (w_llm_log w @ replicate k p) p) = Inr b"
proof -
  obtain y v where y: "with_transient_retry (ll_attempts c) (post_once c p) w = (y, v)" by fastforce
  with assms have v: "v = w'" "\<And>b. x = Inr b \<Longrightarrow> y = Inr b"
    by (auto simp: chat_completion_def split: sum.splits)
  from retry_spec [OF y] obtain k where "k < max 1 (ll_attempts c)"
    "v = w\<lparr>w_llm_log := w_llm_log w @ replicate (Suc k) p\<rparr>"
    "y = read_answer (ll_post c (w_llm_log w @ replicate k p) p)" by blast
  with v show thesis by (intro that) auto
qed

lemma quiet_chat: "chat_completion c p w = (x, w') \<Longrightarrow> quiet k w w'"
  by (erule chat_completion_spec) (simp add: quiet_def)

lemma used_chat: "chat_completion c p w = (x, w') \<Longrightarrow> used k w' = used k w"
  by (erule chat_completion_spec) simp

subsection \<open>The paid call\<close>

definition llm_honest :: "llm \<Rightarrow> meter \<Rightarrow> bool" where
  \<comment> \<open>no price of the table and no bill of the endpoint is negative\<close>
  "llm_honest c m \<longleftrightarrow>
     pricing_ok (me_pricing m)
     \<and> (\<forall>log p b u x. read_answer (ll_post c log p) = Inr b \<longrightarrow> parse_usage b = Inr u
          \<longrightarrow> usage_cost u = Some x \<longrightarrow> 0 \<le> x)"

lemma paid_call_no_meter:
  assumes "paid_call c None kind payload parse build fallback w = (y, w')"
  shows "quiet k w w'"
proof -
  obtain b w1 where ch: "chat_completion c payload w = (b, w1)" by fastforce
  have "w' = w1"
    using assms ch
    by (auto simp: paid_call_def reserve_slot_def refund_def obind_def try_op_def bind_res_def split: sum.splits)
  with quiet_chat [OF ch] show ?thesis by simp
qed

lemma paid_call_cases:
  assumes run: "paid_call c (Some m) kind payload parse build fallback w = (y, w')"
  obtains (no_price) e where "y = Inl e" "w' = w" "flat_estimate (me_pricing m) kind = Inl e"
  | (refused) "y = fallback" "w' = w"
  | (paid) est b x u w1 k where
      "flat_estimate (me_pricing m) kind = Inr est"
      "read_answer (ll_post c (w_llm_log w @ replicate k payload) payload) = Inr b"
      "parse b = Inr x" "parse_usage b = Inr u"
      "y = Inr (build x u (case usage_cost u of None \<Rightarrow> est | Some a \<Rightarrow> a))"
      "used (me_session_key m) w1 = used (me_session_key m) w + to_micro est"
      "quiet (me_session_key m) w w1"
      "op_settle (usage_cost u) (mk_reservation (me_session_key m) est) w1
        = (Inr (case usage_cost u of None \<Rightarrow> est | Some a \<Rightarrow> a), w')"
  | (degraded) est w1 where
      "flat_estimate (me_pricing m) kind = Inr est" "y = fallback"
      "used (me_session_key m) w1 = used (me_session_key m) w + to_micro est"
      "quiet (me_session_key m) w w1"
      "op_cancel (mk_reservation (me_session_key m) est) w1 = (Inr (), w')"
proof -
  obtain rr w0 where rs: "op_reserve m kind None w = (rr, w0)" by fastforce
  from rs show thesis
  proof (cases rule: op_reserve_cases)
    case (error e)
    with run rs show thesis
      by (intro no_price) (auto simp: paid_call_def reserve_slot_def obind_def op_reserve_def meter_reserve_def
          split: sum.splits prod.splits if_splits)
  next
    case refused
    with run rs show thesis by (intro that(2)) (auto simp: paid_call_def reserve_slot_def obind_def)
  next
    case (held est s)
    let ?r = "mk_reservation (me_session_key m) est"
    obtain b w1 where ch: "chat_completion c payload w0 = (b, w1)" by fastforce
    have fe: "flat_estimate (me_pricing m) kind = Inr est" using held(6) by simp
    have q: "quiet (me_session_key m) w w1" using quiet_trans [OF quiet_reserve [OF rs] quiet_chat [OF ch]] .
    have u: "used (me_session_key m) w1 = used (me_session_key m) w + to_micro est"
      using held(5) used_chat [OF ch] by simp
    have log: "w_llm_log w0 = w_llm_log w" using held(3) by simp
    obtain v w2 where cn: "op_cancel ?r w1 = (v, w2)" by fastforce
    have v: "v = Inr ()" using cn by (auto simp: op_cancel_def cancel_def close_res_def mk_reservation_def)
    have deg: thesis if "y = fallback" "w' = w2" using degraded [OF fe that(1) u q] cn v that(2) by simp
    show thesis
    proof (cases b)
      case (Inl e)
      with run rs held(1) ch cn v show thesis
        by (intro deg) (auto simp: paid_call_def reserve_slot_def refund_def obind_def)
    next
      case (Inr body)
      obtain k where body: "read_answer (ll_post c (w_llm_log w @ replicate k payload) payload) = Inr body"
        using chat_completion_spec [OF ch] Inr log by metis
      show thesis
      proof (cases "parse body")
        case (Inl e)
        with run rs held(1) ch Inr cn v show thesis
          by (intro deg) (auto simp: paid_call_def reserve_slot_def refund_def obind_def)
      next
        case px: (Inr x)
        show thesis
        proof (cases "parse_usage body")
          case (Inl e)
          with run rs held(1) ch Inr px cn v show thesis
            by (intro deg) (auto simp: paid_call_def reserve_slot_def refund_def obind_def)
        next
          case pu: (Inr us)
          obtain sc w3 where st: "op_settle (usage_cost us) ?r w1 = (sc, w3)" by fastforce
          have sc: "sc = Inr (case usage_cost us of None \<Rightarrow> est | Some a \<Rightarrow> a)"
            using st by (auto simp: op_settle_def settle_def close_res_def mk_reservation_def Let_def
                split: option.splits prod.splits)
          from run rs held(1) ch Inr px pu st sc
          have "y = Inr (build x us (case usage_cost us of None \<Rightarrow> est | Some a \<Rightarrow> a))" "w' = w3"
            by (auto simp: paid_call_def reserve_slot_def obind_def)
          with paid [OF fe body px pu _ u q] st sc show thesis by simp
        qed
      qed
    qed
  qed
qed

text \<open>A paid call moves nothing but its session's counter, and that by the cost it reports.\<close>

lemma paid_call_quiet:
  assumes "paid_call c (Some m) kind payload parse build fallback w = (y, w')"
  shows "quiet (me_session_key m) w w'"
  using assms
proof (cases rule: paid_call_cases)
  case (paid est b x u w1 k)
  then show ?thesis using quiet_trans [OF paid(7)] quiet_settle [OF paid(8)] by simp
next
  case (degraded est w1)
  then show ?thesis using quiet_trans [OF degraded(4)] quiet_cancel [OF degraded(5)] by simp
qed simp_all

lemma paid_call_charged:
  assumes run: "paid_call c (Some m) kind payload parse build fallback w = (Inr y, w')"
    and cost: "\<And>x u a. cost_of (build x u a) = a"
    and free: "\<And>z. fallback = Inr z \<Longrightarrow> cost_of z = 0"
  shows "charged (llm_honest c m) (me_session_key m) (cost_of y) w w'"
  using run
proof (cases rule: paid_call_cases)
  case refused
  with free [of y] show ?thesis by simp
next
  case (paid est b x u w1 k)
  let ?r = "mk_reservation (me_session_key m) est" and ?a = "case usage_cost u of None \<Rightarrow> est | Some a \<Rightarrow> a"
  have y: "cost_of y = ?a" using paid(5) cost by simp
  have w': "w' = w1\<lparr>w_store := snd (snd (settle (usage_cost u) ?r (w_store w1)))\<rparr>"
    using paid(8) by (auto simp: op_settle_def split: prod.splits)
  show ?thesis
    unfolding charged_def y
  proof (intro impI conjI)
    assume h: "llm_honest c m"
    have est: "0 \<le> est" using h paid(1) flat_estimate_nonneg by (auto simp: llm_honest_def)
    have bill: "\<forall>a. usage_cost u = Some a \<longrightarrow> 0 \<le> a" using h paid(2,4) by (fastforce simp: llm_honest_def)
    then show "0 \<le> ?a" using est by (simp split: option.splits)
    assume "0 \<le> used (me_session_key m) w"
    then have "to_micro est \<le> used (me_session_key m) w1" using paid(6) by simp
    then show "used (me_session_key m) w' = used (me_session_key m) w + to_micro ?a"
      using settle_used [of ?r "w_store w1" "usage_cost u" "me_session_key m"] bill paid(6)
      by (simp add: w' used_def split: option.splits)
  qed
next
  case (degraded est w1)
  have w': "w' = w1\<lparr>w_store := snd (snd (cancel (mk_reservation (me_session_key m) est) (w_store w1)))\<rparr>"
    using degraded(5) by (auto simp: op_cancel_def split: prod.splits)
  show ?thesis
    using degraded(2,3) free [of y] cancel_used [of "mk_reservation (me_session_key m) est" "w_store w1" "me_session_key m"]
    by (simp add: charged_def w' used_def)
qed simp

text \<open>It never fails where its fallback does not, once the kind is priced.\<close>

lemma paid_call_total:
  assumes "paid_call c m kind payload parse build (Inr z) w = (y, w')"
    and "\<And>mt. m = Some mt \<Longrightarrow> \<exists>e. flat_estimate (me_pricing mt) kind = Inr e"
  obtains v where "y = Inr v" "v = z \<or> (\<exists>body x u a. parse body = Inr x \<and> v = build x u a)"
proof (cases m)
  case None
  obtain b w1 where ch: "chat_completion c payload w = (b, w1)" by fastforce
  have "\<exists>v. y = Inr v \<and> (v = z \<or> (\<exists>body x u a. parse body = Inr x \<and> v = build x u a))"
  proof (cases b)
    case (Inl e)
    with assms(1) None ch show ?thesis by (auto simp: paid_call_def reserve_slot_def refund_def obind_def)
  next
    case (Inr body)
    show ?thesis
    proof (cases "(\<exists>x. parse body = Inr x) \<and> (\<exists>us. parse_usage body = Inr us)")
      case True
      then obtain x us where px: "parse body = Inr x" "parse_usage body = Inr us" by blast
      with assms(1) None ch Inr have "y = Inr (build x None 0)"
        by (auto simp: paid_call_def reserve_slot_def obind_def)
      with px show ?thesis by blast
    next
      case False
      with assms(1) None ch Inr have "y = Inr z"
        by (cases "parse body"; cases "parse_usage body")
          (auto simp: paid_call_def reserve_slot_def refund_def obind_def)
      then show ?thesis by blast
    qed
  qed
  then show thesis using that by blast
next
  case (Some mt)
  from assms(1) [unfolded Some] show thesis
  proof (cases rule: paid_call_cases)
    case (no_price e)
    with assms(2) [OF Some] show thesis by auto
  next
    case (paid est b x u w1 k)
    then show thesis by (intro that) blast+
  qed (auto intro: that)
qed

text \<open>A value it returns is the fallback's or was built from a parsed body.\<close>

lemma paid_call_result:
  assumes "paid_call c m kind payload parse build fallback w = (Inr v, w')"
  shows "fallback = Inr v \<or> (\<exists>body x u a. parse body = Inr x \<and> v = build x u a)"
proof (cases m)
  case None
  obtain b w1 where ch: "chat_completion c payload w = (b, w1)" by fastforce
  show ?thesis
  proof (cases "\<exists>body x us. b = Inr body \<and> parse body = Inr x \<and> parse_usage body = Inr us")
    case True
    then obtain body x us where px: "b = Inr body" "parse body = Inr x" "parse_usage body = Inr us" by blast
    with assms None ch have "v = build x None 0" by (auto simp: paid_call_def reserve_slot_def obind_def)
    with px show ?thesis by blast
  next
    case False
    then have "obind (chat_completion c payload) (\<lambda>body. obind (lift_res (parse body)) (\<lambda>x.
        obind (lift_res (parse_usage body)) (\<lambda>usage. ret (build x None 0)))) w \<noteq> (Inr v', w2)" for v' w2
      using ch by (auto simp: obind_Inr)
    with assms None show ?thesis
      by (auto simp: paid_call_def reserve_slot_def refund_def obind_def try_op_def split: prod.splits sum.splits)
  qed
next
  case (Some mt)
  from assms [unfolded Some] show ?thesis
  proof (cases rule: paid_call_cases)
    case (paid est b x u w1 k)
    then show ?thesis by blast
  qed auto
qed

end
