(* ===== verification/Sha256.thy ===== *)
theory Sha256
  imports Prelude "HOL-Library.Word"
begin

text \<open>
  \<open>hashlib.sha256(text.encode("utf-8")).hexdigest()\<close> (FIPS 180-4), the prompt hash of
  \<open>src/services/prompt_builder.py\<close>. Strings already are UTF-8 bytes.
\<close>

unbundle bit_operations_syntax

type_synonym w32 = "32 word"

definition rotr :: "nat \<Rightarrow> w32 \<Rightarrow> w32" where
  "rotr n x = drop_bit n x OR push_bit (32 - n) x"

definition sha_k :: "w32 list" where
  "sha_k =
    [1116352408, 1899447441, 3049323471, 3921009573, 961987163, 1508970993, 2453635748, 2870763221,
     3624381080, 310598401, 607225278, 1426881987, 1925078388, 2162078206, 2614888103, 3248222580,
     3835390401, 4022224774, 264347078, 604807628, 770255983, 1249150122, 1555081692, 1996064986,
     2554220882, 2821834349, 2952996808, 3210313671, 3336571891, 3584528711, 113926993, 338241895,
     666307205, 773529912, 1294757372, 1396182291, 1695183700, 1986661051, 2177026350, 2456956037,
     2730485921, 2820302411, 3259730800, 3345764771, 3516065817, 3600352804, 4094571909, 275423344,
     430227734, 506948616, 659060556, 883997877, 958139571, 1322822218, 1537002063, 1747873779,
     1955562222, 2024104815, 2227730452, 2361852424, 2428436474, 2756734187, 3204031479, 3329325298]"

definition sha_init :: "w32 list" where
  "sha_init = [1779033703, 3144134277, 1013904242, 2773480762,
               1359893119, 2600822924, 528734635, 1541459225]"

text \<open>The message schedule, newest word first.\<close>

fun schedule :: "nat \<Rightarrow> w32 list \<Rightarrow> w32 list" where
  "schedule 0 ws = ws"
| "schedule (Suc n) ws =
     (let w2 = ws ! 1; w7 = ws ! 6; w15 = ws ! 14; w16 = ws ! 15;
          s0 = rotr 7 w15 XOR rotr 18 w15 XOR drop_bit 3 w15;
          s1 = rotr 17 w2 XOR rotr 19 w2 XOR drop_bit 10 w2
      in schedule n ((s1 + w7 + s0 + w16) # ws))"

fun sha_round :: "w32 list \<Rightarrow> w32 \<times> w32 \<Rightarrow> w32 list" where
  "sha_round [a, b, c, d, e, f, g, h] (k, w) =
     (let s1 = rotr 6 e XOR rotr 11 e XOR rotr 25 e;
          ch = (e AND f) XOR (NOT e AND g);
          t1 = h + s1 + ch + k + w;
          s0 = rotr 2 a XOR rotr 13 a XOR rotr 22 a;
          mj = (a AND b) XOR (a AND c) XOR (b AND c)
      in [t1 + (s0 + mj), a, b, c, d + t1, e, f, g])"
| "sha_round st _ = st"

definition be_word :: "string \<Rightarrow> w32" where
  "be_word bs = foldl (\<lambda>acc c. push_bit 8 acc + of_nat (code c)) 0 bs"

fun chunks :: "nat \<Rightarrow> nat \<Rightarrow> 'a list \<Rightarrow> 'a list list" where
  "chunks 0 n xs = []"
| "chunks (Suc k) n xs = take n xs # chunks k n (drop n xs)"

definition compress :: "w32 list \<Rightarrow> string \<Rightarrow> w32 list" where
  "compress st block =
     (let ws = rev (schedule 48 (rev (map be_word (chunks 16 4 block))))
      in map2 (+) st (foldl sha_round st (zip sha_k ws)))"

definition be_bytes :: "nat \<Rightarrow> nat \<Rightarrow> string" where
  "be_bytes k n = map (\<lambda>i. char_of (n div 256 ^ (k - 1 - i) mod 256)) [0..<k]"

definition sha_pad :: "string \<Rightarrow> string" where
  "sha_pad s =
     s @ char_of (128::nat) # replicate ((119 - length s mod 64) mod 64) (char_of (0::nat))
       @ be_bytes 8 (8 * length s)"

definition hex_digit :: "nat \<Rightarrow> char" where
  "hex_digit n = (if n < 10 then char_of (48 + n) else char_of (87 + n))"

definition hex8 :: "w32 \<Rightarrow> string" where
  "hex8 w = map (\<lambda>i. hex_digit (unat w div 16 ^ (7 - i) mod 16)) [0..<8]"

definition sha256_hex :: "string \<Rightarrow> string" where
  "sha256_hex s =
     (let m = sha_pad s
      in concat (map hex8 (foldl compress sha_init (chunks (length m div 64) 64 m))))"

text \<open>The padded message is a whole number of blocks, and the digest has 64 hex digits.\<close>

lemma sha_pad_blocks: "64 dvd length (sha_pad s)"
proof -
  define q l where ql: "q = length s div 64" "l = length s mod 64"
  have len: "length s = 64 * q + l" by (simp add: ql)
  have pad: "length (sha_pad s) = length s + 9 + (119 - l) mod 64"
    by (simp add: sha_pad_def be_bytes_def ql)
  have "64 dvd l + 9 + (119 - l) mod 64"
  proof (cases "l \<le> 55")
    case True
    then have "(119 - l) mod 64 = 55 - l" by (subst mod_if) simp
    with True show ?thesis by simp
  next
    case False
    moreover have "l < 64" by (simp add: ql)
    ultimately have "l + 9 + (119 - l) mod 64 = 64 * 2" by simp
    then show ?thesis by (metis dvd_triv_left)
  qed
  then have "64 dvd 64 * q + (l + 9 + (119 - l) mod 64)" by (rule dvd_add [OF dvd_triv_left])
  then show ?thesis by (simp add: pad len add.assoc)
qed

lemma length_compress: "length st = 8 \<Longrightarrow> length (compress st b) = 8"
proof -
  assume st: "length st = 8"
  have "length (foldl sha_round st kw) = 8" for kw
    using st
  proof (induction kw arbitrary: st)
    case (Cons x kw)
    have "length (sha_round st x) = 8"
      using Cons.prems by (cases "(st, x)" rule: sha_round.cases) (auto simp: Let_def)
    then show ?case using Cons.IH by simp
  qed simp
  with st show ?thesis by (simp add: compress_def Let_def)
qed

lemma length_sha256_hex: "length (sha256_hex s) = 64"
proof -
  have "length (foldl compress st bs) = 8" if "length st = 8" for st bs
    using that by (induction bs arbitrary: st) (simp_all add: length_compress)
  moreover have "length (concat (map hex8 ws)) = 8 * length ws" for ws
    by (induction ws) (simp_all add: hex8_def)
  ultimately show ?thesis
    by (simp add: sha256_hex_def Let_def sha_init_def)
qed

end
