(* ===== verification/Prompt_Builder.thy ===== *)
theory Prompt_Builder
  imports Schemas Sha256 Regex "HOL-Library.List_Lexorder" "HOL-Library.Char_ord"
begin

text \<open>
  \<open>services/prompt_builder.py\<close>: assembly of the generation prompt around the frozen blocks of
  a preset. The injection guards and the token pattern are regular expressions of theory
  \<open>Regex\<close>; the hash is \<open>sha256_hex\<close>. A set of Python strings is a list here wherever only
  membership is used. On text outside ASCII the counted gaps \<open>{0,n}\<close> of the guards count
  bytes, and \<open>\b\<close> and \<open>lower\<close> see only ASCII letters.
\<close>

section \<open>Constants\<close>

definition exclusion_prefix :: string where
  "exclusion_prefix =
     ''Strictly avoid: ''"

definition lock_prefix :: string where
  "lock_prefix =
     ''These must hold exactly, overriding any conflicting detail above: ''"

definition generic_person_lock :: string where
  "generic_person_lock =
     ''the person ''
     @ em_dash
     @ '' entire face, every facial feature, expression, eyes, nose, mouth, jaw, skin ''
     @ ''texture and skin tone, hair, body, and head angle''"

definition locked_prefix :: string where
  "locked_prefix =
     ''LOCKED ''
     @ em_dash
     @ '' the following must be copied exactly from the provided image, unchanged: ''"

definition locked_suffix :: string where
  "locked_suffix =
     '' Do NOT regenerate, repaint, smooth, retouch, denoise or beautify any locked part ''
     @ em_dash
     @ '' copy it pixel-for-pixel from the input image. Treat the person as untouchable. Do ''
     @ ''NOT reorient the face, head, or gaze ''
     @ em_dash
     @ '' preserve the exact head yaw, pitch, and roll from the reference. Never normalize ''
     @ ''or correct the head position toward a more frontal view. Do NOT resize the head, ''
     @ ''narrow the shoulders, or alter the head-to-shoulder width ratio ''
     @ em_dash
     @ '' preserve the exact body proportions and shoulder span from the reference image. ''
     @ ''Exception: if the step changes the background or ambient lighting, natural rim ''
     @ ''light or color spill from the new light source may fall on the subject's hair ''
     @ ''outline, shoulders and clothing edges ''
     @ em_dash
     @ '' that is physics, not a change to the person.''"

definition only_change_prefix :: string where
  "only_change_prefix =
     ''The ONLY change allowed in this edit is: ''"

definition texture_block_head :: string where
  "texture_block_head =
     ''Keep the face at the exact original sharpness, grain and raw skin texture ''
     @ em_dash
     @ '' no plastic or waxy skin, no airbrushing, no blur on the face. ''"

definition texture_block_tail :: string where
  "texture_block_tail =
     '' and keep shadows, reflections and grain consistent with the rest of the photo.''"

definition applied_suffix :: string where
  "applied_suffix =
     '' (already final ''
     @ em_dash
     @ '' keep it exactly)''"

definition texture_block :: "string option \<Rightarrow> string" where
  "texture_block lighting =
     texture_block_head
     @ (case lighting of
          None \<Rightarrow> ''Where the change meets the scene, match the existing light direction''
        | Some l \<Rightarrow>
            if strip l \<noteq> [] then ''Where the change meets the scene, match the '' @ strip l
            else ''Where the change meets the scene, match the existing light direction'')
     @ texture_block_tail"

datatype inv_field = Pose | Framing | Hands | Clothing | Hair | Facial_Hair | Lighting | Background

fun field_value :: "photo_inventory \<Rightarrow> inv_field \<Rightarrow> string" where   \<comment> \<open>\<open>getattr(inventory, field)\<close>\<close>
  "field_value i Pose = inv_pose i"
| "field_value i Framing = inv_framing i"
| "field_value i Hands = inv_hands i"
| "field_value i Clothing = inv_clothing i"
| "field_value i Hair = inv_hair i"
| "field_value i Facial_Hair = inv_facial_hair i"
| "field_value i Lighting = inv_lighting i"
| "field_value i Background = inv_background i"

definition field_labels :: "(inv_field \<times> string) list" where
  "field_labels =
     [(Pose, ''the pose''), (Framing, ''the framing''), (Hands, ''the hands''),
      (Clothing, ''the clothing''), (Hair, ''the hair''), (Facial_Hair, ''the facial hair''),
      (Lighting, ''the lighting''), (Background, ''the background'')]"

fun field_regions :: "inv_field \<Rightarrow> string list" where
  "field_regions Background = [''background'', ''backdrop'', ''setting'', ''scene'', ''wall'']"
| "field_regions Lighting = [''lighting'', ''light'', ''grade'', ''tone'', ''color'', ''colour'']"
| "field_regions Clothing =
     [''clothing'', ''clothes'', ''shirt'', ''t-shirt'', ''tshirt'', ''outfit'', ''attire'',
      ''garment'', ''top'', ''jacket'', ''dress'', ''suit'']"
| "field_regions Hair = [''hair'', ''hairstyle'', ''haircut'']"
| "field_regions Framing = [''framing'', ''crop'', ''zoom'']"
| "field_regions _ = []"

definition accessory_stopwords :: "string list" where
  "accessory_stopwords =
     [''the'', ''a'', ''an'', ''in'', ''on'', ''with'', ''and'', ''or'', ''of'', ''to'', ''at'',
      ''his'', ''her'', ''their'', ''left'', ''right'', ''hand'', ''ear'', ''ears'', ''wrist'',
      ''neck'', ''head'', ''finger'', ''new'', ''existing'', ''white'', ''black'', ''beige'',
      ''blue'', ''red'', ''green'', ''grey'', ''gray'', ''brown'', ''pink'', ''yellow'',
      ''orange'', ''purple'', ''golden'', ''gold'', ''silver'', ''dark'', ''light'', ''navy'']"

section \<open>Patterns\<close>

fun words :: "string list \<Rightarrow> re" where
  "words [] = Cls (OneOf [])"
| "words [w] = Lit w"
| "words (w # v # ws) = Alt (Lit w) (words (v # ws))"

definition bounded :: "re \<Rightarrow> re" where   \<comment> \<open>\<open>\br\b\<close>\<close>
  "bounded r = Seq WordB (Seq r WordB)"

definition gap :: "nat \<Rightarrow> re" where   \<comment> \<open>\<open>[^.]{0,n}\<close>\<close>
  "gap n = Rep (Cls NotDot) 0 n"

definition apostrophe_s :: "string \<Rightarrow> re" where   \<comment> \<open>\<open>w'?s?\<close>\<close>
  "apostrophe_s w =
     Seq (Lit w) (Seq (Rep (Cls (OneOf [char_of (39::nat)])) 0 1) (Rep (Lit ''s'') 0 1))"

definition placeholder :: re where   \<comment> \<open>\<open>\{(\w+)\}\<close>\<close>
  "placeholder =
     Seq (Lit ''{'') (Seq (Cls WordChar) (Seq (Star (Cls WordChar)) (Lit ''}'')))"

definition token :: re where   \<comment> \<open>\<open>[a-z][a-z-]{2,}\<close>\<close>
  "token = Seq (Cls LowerAZ) (Seq (Rep (Cls LowerDash) 2 0) (Star (Cls LowerDash)))"

definition override_words :: "string list" where
  "override_words =
     [''ignore'', ''disregard'', ''forget'', ''override'', ''overrule'', ''bypass'', ''skip'',
      ''cancel'', ''remove'', ''delete'', ''drop'']"

definition instruction_words :: "string list" where
  "instruction_words =
     [''instruction'', ''instructions'', ''prompt'', ''prompts'', ''rule'', ''rules'',
      ''directive'', ''directives'', ''guideline'', ''guidelines'', ''constraint'',
      ''constraints'', ''context'', ''wording'', ''everything'', ''above'', ''previous'',
      ''prior'', ''system'']"

definition edit_words :: re where
  "edit_words =
     Alt (words [''change'', ''alter'', ''swap'', ''switch'', ''replace'', ''modify'', ''edit'',
                 ''morph'', ''reshape'', ''remove'', ''delete'', ''drop'', ''disable'',
                 ''beautify'', ''slim''])
       (Alt (Seq (Lit ''de'') (Seq (Rep (Lit ''-'') 0 1) (Lit ''age'')))
            (words [''fix'', ''improve'', ''enhance'']))"

definition identity_words :: "string list" where
  "identity_words =
     [''face'', ''facial'', ''identity'', ''likeness'', ''features'', ''jaw'', ''jawline'',
      ''nose'', ''eyes'', ''lips'', ''skin tone'', ''complexion'', ''appearance'']"

definition other_words :: re where
  "other_words =
     Alt (words [''different'', ''another'', ''other'', ''new''])
       (Alt (apostrophe_s ''someone else'')
          (Alt (apostrophe_s ''somebody else'') (Lit ''a different'')))"

definition injection_patterns :: "re list" where
  "injection_patterns =
     [Seq (bounded (words override_words)) (Seq (gap 40) (bounded (words instruction_words))),
      Seq (bounded (words [''ignore'', ''disregard'', ''forget'']))
        (Seq (gap 20) (bounded (words [''above'', ''previous'', ''prior'', ''earlier'']))),
      Seq (bounded (Lit ''new''))
        (Seq (gap 20)
           (bounded (words [''instruction'', ''instructions'', ''prompt'', ''prompts'', ''rules'']))),
      bounded (Seq (Lit ''system'') (Seq (Cls Space) (Seq (Star (Cls Space)) (Lit ''prompt'')))),
      Seq (bounded edit_words) (Seq (gap 40) (bounded (words identity_words))),
      Seq (bounded other_words)
        (Seq (gap 20)
           (bounded (words [''face'', ''person'', ''identity'', ''man'', ''woman'', ''guy'',
                            ''girl'', ''people'', ''individual'']))),
      Seq (bounded (words [''look like'', ''turn me into'', ''make me look like'', ''become'']))
        (Seq (gap 30) (bounded (words [''someone'', ''else'', ''a different'', ''another'']))),
      bounded (Alt (Seq (Lit ''identity'') (Seq (Cls (OneOf ''_ '')) (Lit ''instruction'')))
        (Alt (Seq (Lit ''prompt'') (Seq (Cls (OneOf ''_ '')) (Lit ''structure'')))
             (Seq (Lit ''negative'') (Seq (Cls (OneOf ''_ '')) (Lit ''prompt'')))))]"

definition is_injection :: "string \<Rightarrow> bool" where
  "is_injection s = (let lowered = lower s in list_ex (\<lambda>p. search p lowered) injection_patterns)"

definition content_tokens :: "string \<Rightarrow> string list" where
  "content_tokens s = filter (\<lambda>t. t \<notin> set accessory_stopwords) (findall token (lower s))"

section \<open>Operations\<close>

record built_prompt =
  bp_text :: string
  bp_hash :: string
  bp_params :: generation

definition mk_prompt :: "preset \<Rightarrow> string list \<Rightarrow> built_prompt" where
  \<comment> \<open>the common tail: join the parts, hash, pass the knobs through\<close>
  "mk_prompt p parts =
     (let txt = join [char_of (10::nat), char_of (10::nat)] parts
      in \<lparr>bp_text = txt, bp_hash = sha256_hex txt, bp_params = pr_generation p\<rparr>)"

definition reject_injection :: "preset \<Rightarrow> string \<Rightarrow> string \<Rightarrow> unit result" where
  "reject_injection p name value =
     (if list_ex (\<lambda>q. search q (lower value)) injection_patterns
      then Inl (FreeFormRejected (''preset '' @ py_repr (pr_id p) @ '': slot '' @ py_repr name
             @ '' free-form text rejected '' @ em_dash @ '' it reads as an instruction to alter identity''
             @ '' or override the prompt; describe only the scene'')) else Inr ())"

definition reject_body_injection :: "preset \<Rightarrow> string \<Rightarrow> unit result" where
  "reject_body_injection p body =
     (if list_ex (\<lambda>q. search q (lower body)) injection_patterns
      then Inl (FreeFormRejected (''preset '' @ py_repr (pr_id p) @ '': composed body rejected '' @ em_dash
             @ '' it reads as an instruction to alter identity or override the prompt'')) else Inr ())"

definition placeholder_names :: "string \<Rightarrow> string list" where   \<comment> \<open>\<open>_PLACEHOLDER.findall\<close>: group 1\<close>
  "placeholder_names s = map (\<lambda>m. butlast (tl m)) (findall placeholder s)"

fun check_slot_values :: "preset \<Rightarrow> bool \<Rightarrow> (string, string) dict \<Rightarrow> unit result" where
  "check_slot_values p sanitize [] = Inr ()"
| "check_slot_values p sanitize ((name, value) # rest) =
     (case dict_get (pr_slots p) name of
        None \<Rightarrow> Inl (KeyError name)
      | Some sl \<Rightarrow>
          bind_res
            (case sl_enum sl of
               None \<Rightarrow> if sanitize then reject_injection p name value else Inr ()
             | Some options \<Rightarrow>
                 if value \<notin> set options
                 then Inl (ValueError (''preset '' @ py_repr (pr_id p) @ '': slot '' @ py_repr name @ '' value ''
                             @ py_repr value @ '' is not in its vocabulary''))
                 else Inr ())
            (\<lambda>_. check_slot_values p sanitize rest))"

definition validate_slots :: "preset \<Rightarrow> (string, string) dict \<Rightarrow> bool \<Rightarrow> unit result" where
  "validate_slots p slots sanitize_freeform =
     (let unknown = filter (\<lambda>n. n \<notin> set (dict_keys (pr_slots p))) (dict_keys slots);
          missing = filter (\<lambda>n. n \<notin> set (dict_keys slots)) (placeholder_names (pr_prompt_structure p)) in
      if unknown \<noteq> []
      then Inl (ValueError (''preset '' @ py_repr (pr_id p) @ '': unknown slots '' @ py_repr_list (sort (remdups unknown))))
      else if missing \<noteq> []
      then Inl (ValueError (''preset '' @ py_repr (pr_id p) @ '': missing values for slots ''
             @ py_repr_list (sort (remdups missing))))
      else check_slot_values p sanitize_freeform slots)"

definition lookup_slot :: "(string, string) dict \<Rightarrow> string \<Rightarrow> string result" where
  "lookup_slot slots name =
     (case dict_get slots name of None \<Rightarrow> Inl (KeyError name) | Some v \<Rightarrow> Inr v)"

fun subst_piece :: "(string, string) dict \<Rightarrow> bool \<times> string \<Rightarrow> string result" where
  "subst_piece slots (False, t) = Inr t"
| "subst_piece slots (True, t) = lookup_slot slots (butlast (tl t))"

definition substitute :: "(string, string) dict \<Rightarrow> string \<Rightarrow> string result" where
  \<comment> \<open>\<open>_PLACEHOLDER.sub(lambda m: slots[m.group(1)], structure)\<close>\<close>
  "substitute slots structure =
     bind_res (map_res (subst_piece slots) (scan placeholder None structure)) (\<lambda>ts. Inr (concat ts))"

definition exclusion :: "preset \<Rightarrow> string" where
  "exclusion p = exclusion_prefix @ pr_negative_prompt p"

definition build_prompt :: "preset \<Rightarrow> (string, string) dict \<Rightarrow> string \<Rightarrow> built_prompt result" where
  "build_prompt p slots addendum =
     bind_res (validate_slots p slots True) (\<lambda>_.
     bind_res (substitute slots (pr_prompt_structure p)) (\<lambda>structure.
       Inr (mk_prompt p
              ([pr_identity_instruction p, structure]
               @ (if strip addendum \<noteq> [] then [strip addendum] else [])
               @ [exclusion p]))))"

definition fill_template :: "preset \<Rightarrow> (string, string) dict \<Rightarrow> string \<Rightarrow> string result" where
  "fill_template p slots addendum =
     bind_res (validate_slots p slots False) (\<lambda>_.
     bind_res (substitute slots (pr_prompt_structure p)) (\<lambda>structure.
       Inr (if strip addendum \<noteq> []
            then structure @ [char_of (10::nat), char_of (10::nat)] @ strip addendum
            else structure)))"

definition lock_clause :: "(string, string) dict \<Rightarrow> string list" where   \<comment> \<open>\<open>if locks: parts.append(...)\<close>\<close>
  "lock_clause locks =
     (if locks = [] then []
      else [lock_prefix
            @ join ''; '' (map (\<lambda>(name, value). name @ '' '' @ em_dash @ '' '' @ value)
                             (sort_key fst locks))
            @ ''.''])"

definition assemble_prompt :: "preset \<Rightarrow> string \<Rightarrow> (string, string) dict \<Rightarrow> built_prompt result" where
  "assemble_prompt p body locks =
     bind_res (reject_body_injection p body) (\<lambda>_.
       Inr (mk_prompt p
              ([pr_identity_instruction p, strip body] @ lock_clause locks @ [exclusion p])))"

definition edit_lock_items ::
  "photo_inventory option \<Rightarrow> string list \<Rightarrow> string list \<Rightarrow> string list \<Rightarrow> string \<Rightarrow> string list" where
  "edit_lock_items inventory preserve applied edited_targets edited_text =
     (let target_tokens = map (\<lambda>t. lower (strip t)) (filter (\<lambda>t. strip t \<noteq> []) edited_targets);
          edited = (\<lambda>field. list_ex (\<lambda>t. t \<in> set (field_regions field)) target_tokens);
          unlock_tokens = content_tokens edited_text @ content_tokens (join '' '' edited_targets);
          from_inventory =
            (case inventory of
               None \<Rightarrow> []
             | Some ph \<Rightarrow>
                 concat (map (\<lambda>(field, label).
                     if edited field then []
                     else let value = strip (field_value ph field)
                          in if value \<noteq> [] then [label @ '': '' @ value] else [])
                   field_labels)
                 @ filter (\<lambda>a. \<not> list_ex (\<lambda>t. t \<in> set unlock_tokens) (content_tokens a))
                     (inv_accessories ph));
          items = [generic_person_lock] @ from_inventory
            @ map strip (filter (\<lambda>q. strip q \<noteq> []) preserve)
            @ map (\<lambda>a. strip a @ applied_suffix) (filter (\<lambda>a. strip a \<noteq> []) applied)
      in filter (\<lambda>item. \<not> is_injection item) items)"

definition locked_block :: "string list \<Rightarrow> string" where
  "locked_block items = locked_prefix @ join ''; '' items @ ''.'' @ locked_suffix"

definition assemble_edit_prompt ::
  "preset \<Rightarrow> string \<Rightarrow> string \<Rightarrow> string list \<Rightarrow> (string, string) dict \<Rightarrow> string option
     \<Rightarrow> built_prompt result" where
  "assemble_edit_prompt p body only_change lock_items locks lighting =
     (let change = strip only_change in
      if is_injection change then Inl (FreeFormRejected (''preset '' @ py_repr (pr_id p) @ '': step instruction rejected '' @ em_dash
        @ '' it reads as an instruction to alter identity or override the prompt''))
      else bind_res (reject_body_injection p body) (\<lambda>_.
        let items = (if lock_items = [] then [generic_person_lock] else lock_items)
        in Inr (mk_prompt p
             ([pr_identity_instruction p,
               locked_block items,
               only_change_prefix @ rstrip_char CHR ''.'' change @ ''.'',
               strip body,
               texture_block lighting]
              @ lock_clause locks @ [exclusion p]))))"

section \<open>Lemmas\<close>

lemma validate_slots_Inr:
  "validate_slots p slots sanitize = Inr () \<longleftrightarrow>
     (\<forall>n\<in>set (dict_keys slots). n \<in> set (dict_keys (pr_slots p)))
     \<and> (\<forall>n\<in>set (placeholder_names (pr_prompt_structure p)). n \<in> set (dict_keys slots))
     \<and> check_slot_values p sanitize slots = Inr ()"
  by (auto simp: validate_slots_def Let_def filter_empty_conv)

lemma reject_body_iff: "reject_body_injection p body = Inr u \<longleftrightarrow> \<not> is_injection body"
  by (simp add: reject_body_injection_def is_injection_def Let_def)

lemma reject_body_error: "is_injection body \<Longrightarrow> \<exists>m. reject_body_injection p body = Inl (FreeFormRejected m)"
  by (simp add: reject_body_injection_def is_injection_def Let_def)

lemma mk_prompt_simps [simp]:
  "bp_text (mk_prompt p parts) = join [char_of (10::nat), char_of (10::nat)] parts"
  "bp_hash (mk_prompt p parts) = sha256_hex (bp_text (mk_prompt p parts))"
  "bp_params (mk_prompt p parts) = pr_generation p"
  by (simp_all add: mk_prompt_def Let_def)

text \<open>Every part of a prompt is in its text, letter for letter.\<close>

lemma mk_prompt_part: "x \<in> set parts \<Longrightarrow> contains x (bp_text (mk_prompt p parts))"
  by (simp add: contains_join)

lemma assemble_prompt_Inr:
  "assemble_prompt p body locks = Inr b \<longleftrightarrow>
     \<not> is_injection body
     \<and> b = mk_prompt p ([pr_identity_instruction p, strip body] @ lock_clause locks @ [exclusion p])"
  by (auto simp: assemble_prompt_def bind_res_Inr_iff reject_body_iff)

lemma assemble_edit_Inr:
  "assemble_edit_prompt p body change items locks lighting = Inr b \<longleftrightarrow>
     \<not> is_injection (strip change) \<and> \<not> is_injection body
     \<and> b = mk_prompt p
          ([pr_identity_instruction p,
            locked_block (if items = [] then [generic_person_lock] else items),
            only_change_prefix @ rstrip_char CHR ''.'' (strip change) @ ''.'',
            strip body, texture_block lighting]
           @ lock_clause locks @ [exclusion p])"
  by (auto simp: assemble_edit_prompt_def bind_res_Inr_iff reject_body_iff Let_def)

lemma assemble_edit_errors:
  "assemble_edit_prompt p body change items locks lighting = Inl e
    \<Longrightarrow> (\<exists>m. e = FreeFormRejected m) \<and> (is_injection (strip change) \<or> is_injection body)"
  by (auto simp: assemble_edit_prompt_def reject_body_injection_def is_injection_def Let_def
      split: if_splits)

lemma assemble_prompt_errors:
  "assemble_prompt p body locks = Inl e \<Longrightarrow> (\<exists>m. e = FreeFormRejected m) \<and> is_injection body"
  by (auto simp: assemble_prompt_def reject_body_injection_def is_injection_def split: if_splits)

text \<open>The placeholders a validated structure asks for are all substituted.\<close>

lemma check_slot_values_ok:
  "check_slot_values p san slots = Inr () \<Longrightarrow> (n, v) \<in> set slots
    \<Longrightarrow> \<exists>sl. dict_get (pr_slots p) n = Some sl
          \<and> (case sl_enum sl of None \<Rightarrow> san \<longrightarrow> \<not> is_injection v | Some opts \<Rightarrow> v \<in> set opts)"
proof (induction p san slots rule: check_slot_values.induct)
  case (2 p san name val rest)
  from 2(2) obtain sl where sl: "dict_get (pr_slots p) name = Some sl"
    and here: "case sl_enum sl of None \<Rightarrow> san \<longrightarrow> \<not> is_injection val | Some opts \<Rightarrow> val \<in> set opts"
    and rest: "check_slot_values p san rest = Inr ()"
    by (auto simp: bind_res_Inr_iff reject_injection_def is_injection_def Let_def
        split: option.splits if_splits)
  show ?case
  proof (cases "(n, v) = (name, val)")
    case True
    with sl here show ?thesis by auto
  next
    case False
    with 2(3) have "(n, v) \<in> set rest" by auto
    with 2(1) [OF sl] rest show ?thesis by auto
  qed
qed simp

lemma substitute_total:
  assumes "list_all (\<lambda>n. dict_get slots n \<noteq> None) (placeholder_names s)"
  shows "\<exists>t. substitute slots s = Inr t"
proof -
  have "\<exists>y. subst_piece slots x = Inr y" if "x \<in> set (scan placeholder None s)" for x
  proof (cases x)
    case (Pair m t)
    show ?thesis
    proof (cases m)
      case True
      with Pair that have "t \<in> set (findall placeholder s)" by (force simp: findall_def)
      with assms have "dict_get slots (butlast (tl t)) \<noteq> None"
        by (simp add: placeholder_names_def list_all_iff)
      with Pair True show ?thesis by (auto simp: lookup_slot_def)
    qed (use Pair in simp)
  qed
  then obtain ts where "map_res (subst_piece slots) (scan placeholder None s) = Inr ts"
    using map_res_total by blast
  then show ?thesis by (simp add: substitute_def)
qed

lemma fill_template_total:
  assumes "validate_slots p slots False = Inr ()"
  shows "\<exists>t. fill_template p slots addendum = Inr t"
proof -
  have "list_all (\<lambda>n. dict_get slots n \<noteq> None) (placeholder_names (pr_prompt_structure p))"
    using assms
    by (auto simp: validate_slots_Inr list_all_iff dict_keys_def map_of_eq_None_iff)
  then obtain t where "substitute slots (pr_prompt_structure p) = Inr t"
    using substitute_total by blast
  with assms show ?thesis by (auto simp: fill_template_def)
qed

text \<open>A text none of whose substrings is a guard's key word passes the guards.\<close>

definition key_free :: "string \<Rightarrow> bool" where
  "key_free l \<longleftrightarrow>
     list_all (\<lambda>p. case must p of None \<Rightarrow> False | Some ws \<Rightarrow> \<not> list_ex (\<lambda>w. contains w l) ws)
       injection_patterns"

definition harmless :: "string \<Rightarrow> bool" where
  "harmless s \<longleftrightarrow> key_free (lower s)"

lemma harmless_safe: "harmless s \<Longrightarrow> \<not> is_injection s"
proof
  assume h: "harmless s" and "is_injection s"
  then obtain p where p: "p \<in> set injection_patterns" "search p (lower s)"
    by (auto simp: is_injection_def Let_def list_ex_iff)
  with h obtain ws where "must p = Some ws" "\<forall>w\<in>set ws. \<not> contains w (lower s)"
    by (auto simp: harmless_def key_free_def list_all_iff list_ex_iff split: option.splits)
  with search_must [OF p(2)] show False by blast
qed

lemma generic_person_lock_safe: "\<not> is_injection generic_person_lock"
  by (rule harmless_safe) code_simp

lemma edit_lock_items_head:
  "\<exists>rest. edit_lock_items ph pre app tgt txt = generic_person_lock # rest"
  by (simp add: edit_lock_items_def Let_def generic_person_lock_safe)

lemma edit_lock_items_safe: "x \<in> set (edit_lock_items ph pre app tgt txt) \<Longrightarrow> \<not> is_injection x"
  unfolding edit_lock_items_def Let_def set_filter mem_Collect_eq by (erule conjunct2)

end
