(* ===== verification/Fallbacks.thy ===== *)
theory Fallbacks
  imports World Prompt_Builder
begin

text \<open>
  The deterministic halves of the LLM ports: \<open>services/planner.py\<close>, \<open>services/slot_filler.py\<close>,
  \<open>services/brief_parser.py\<close>, \<open>services/prompt_writer.py\<close>, \<open>services/inventory.py\<close>. They make no
  calls and touch no state, so they are plain functions here. What every slot filler promises
  is the locale \<open>slot_filler_contract\<close> of \<open>Llm_Ports\<close>.
\<close>

section \<open>Planner\<close>

definition scene_vocabulary :: "string list" where
  "scene_vocabulary =
     [''background'', ''backdrop'', ''setting'', ''scene'', ''environment'', ''lighting'',
      ''light'', ''grade'', ''color'', ''colour'', ''tone'']"

definition accessory_vocabulary :: "string list" where
  "accessory_vocabulary =
     [''accessory'', ''accessories'', ''glasses'', ''sunglasses'', ''earring'', ''earrings'',
      ''earbud'', ''headset'', ''hat'', ''cap'', ''mic'', ''microphone'', ''jewelry'',
      ''jewellery'', ''necklace'', ''headphones'']"

definition region_rank :: "(string list \<times> nat) list" where
  "region_rank = [(scene_vocabulary, 0), (accessory_vocabulary, 2)]"

definition default_rank :: nat where
  "default_rank = 1"

definition change_rank :: "change \<Rightarrow> nat" where   \<comment> \<open>\<open>_rank\<close>\<close>
  "change_rank c =
     (let tokens = split_ws (map (\<lambda>x. if x = CHR ''_'' then CHR '' '' else x) (lower (ch_target c)))
      in case List.find (\<lambda>(vocabulary, _). list_ex (\<lambda>t. t \<in> set vocabulary) tokens) region_rank of
           None \<Rightarrow> default_rank | Some (_, r) \<Rightarrow> r)"

definition number_steps :: "change list \<Rightarrow> edit_step list" where
  "number_steps cs =
     map (\<lambda>(i, c). mk_step i (ch_target c) (ch_instruction c) [ch_target c])
       (zip [1..<Suc (length cs)] cs)"

definition deterministic_steps :: "brief_analysis \<Rightarrow> edit_step list" where
  "deterministic_steps a = number_steps (sort_key change_rank (ba_changes a))"

definition deterministic_plan :: "brief_analysis \<Rightarrow> plan_outcome" where
  "deterministic_plan a = \<lparr>pn_steps = deterministic_steps a, pn_usage = None, pn_cost = 0\<rparr>"

section \<open>Slot filler\<close>

definition slot_stopwords :: "string list" where
  "slot_stopwords =
     [''a'', ''an'', ''and'', ''for'', ''i'', ''in'', ''is'', ''it'', ''me'', ''my'', ''need'',
      ''of'', ''on'', ''or'', ''photo'', ''picture'', ''the'', ''to'', ''want'', ''with'']"

definition word_re :: re where   \<comment> \<open>\<open>[a-z0-9]+\<close>\<close>
  "word_re = Seq (Cls LowerDigit) (Star (Cls LowerDigit))"

definition slot_tokens :: "string \<Rightarrow> string list" where   \<comment> \<open>a set: duplicates removed\<close>
  "slot_tokens s = remdups (filter (\<lambda>w. w \<notin> set slot_stopwords) (findall word_re (lower s)))"

definition overlap :: "string \<Rightarrow> string list \<Rightarrow> nat" where
  "overlap option answer_tokens =
     length (filter (\<lambda>t. t \<in> set answer_tokens) (slot_tokens option))"

fun best_option :: "string list \<Rightarrow> string list \<Rightarrow> string option \<Rightarrow> nat \<Rightarrow> string option" where
  "best_option answer_tokens [] best best_score = best"
| "best_option answer_tokens (opt # opts) best best_score =
     (if best_score < overlap opt answer_tokens
      then best_option answer_tokens opts (Some opt) (overlap opt answer_tokens)
      else best_option answer_tokens opts best best_score)"

definition match_option :: "string \<Rightarrow> string list \<Rightarrow> string option" where
  "match_option answer options = best_option (slot_tokens answer) options None 0"

definition truthy_enum :: "slot \<Rightarrow> string list" where   \<comment> \<open>\<open>if slot.enum\<close>: \<open>None\<close> and \<open>[]\<close> are false\<close>
  "truthy_enum s = (case sl_enum s of None \<Rightarrow> [] | Some opts \<Rightarrow> opts)"

definition slot_value :: "slot \<Rightarrow> string option \<Rightarrow> string option" where
  "slot_value s user_answer =
     (case user_answer of
        None \<Rightarrow> sl_default s
      | Some ans \<Rightarrow>
          if sl_ask s
          then if truthy_enum s \<noteq> []
               then (case match_option ans (truthy_enum s) of
                       None \<Rightarrow> sl_default s
                     | Some m \<Rightarrow> if m = [] then sl_default s else Some m)
               else Some ans
          else sl_default s)"

fun fill_slots :: "string \<Rightarrow> (string, slot) dict \<Rightarrow> string option \<Rightarrow> (string, string) dict \<Rightarrow> (string, string) dict result" where
  "fill_slots preset_id [] user_answer acc = Inr acc"
| "fill_slots preset_id ((name, s) # rest) user_answer acc =
     (case slot_value s user_answer of
        None \<Rightarrow> Inl (ValueError (''slot '' @ py_repr name @ '' of preset '' @ py_repr preset_id
                      @ '' has no default and no match''))
      | Some v \<Rightarrow> fill_slots preset_id rest user_answer (dict_set name v acc))"

definition default_fill :: "preset \<Rightarrow> string option \<Rightarrow> slot_fill result" where
  "default_fill p user_answer =
     bind_res (fill_slots (pr_id p) (pr_slots p) user_answer []) (\<lambda>slots.
       Inr \<lparr>sf_slots = slots, sf_addendum = [], sf_usage = None, sf_cost = 0\<rparr>)"

fun overlay :: "(string, string) dict \<Rightarrow> (string, string) dict \<Rightarrow> (string, string) dict" where
  "overlay merged [] = merged"
| "overlay merged ((name, value) # rest) = overlay (dict_set name value merged) rest"

definition apply_composition ::
  "preset \<Rightarrow> (string, string) dict \<Rightarrow> string \<Rightarrow> (string, string) dict result" where
  "apply_composition p slots composition_id =
     (case List.find (\<lambda>c. co_id c = composition_id) (pr_compositions p) of
        None \<Rightarrow> Inl (ValueError (''preset '' @ py_repr (pr_id p) @ '' has no composition '' @ py_repr composition_id))
      | Some c \<Rightarrow> Inr (overlay slots (co_slot_overrides c)))"

section \<open>Brief parser, prompt writer, inventory\<close>

definition scene_target :: string where
  "scene_target = ''scene''"

definition deterministic_analysis :: "string \<Rightarrow> brief_analysis" where
  "deterministic_analysis brief =
     \<lparr>ba_use_case = None, ba_preserve = [],
      ba_changes =
        (if strip brief \<noteq> [] then [\<lparr>ch_target = scene_target, ch_instruction = strip brief\<rparr>] else []),
      ba_conflicts = []\<rparr>"

definition deterministic_parse :: "string \<Rightarrow> parse_outcome" where
  "deterministic_parse brief = \<lparr>po_analysis = deterministic_analysis brief, po_usage = None, po_cost = 0\<rparr>"

definition identity_emphasis :: string where
  "identity_emphasis =
     ''Critical: render the exact same person as in the reference photo '' @ em_dash
     @ '' identical facial geometry, eyes, nose, lips, jawline, skin tone and texture. ''
     @ ''A faithful, recognizable likeness matters more than any stylistic choice.''"

definition emphasize :: "string \<Rightarrow> string" where
  "emphasize body =
     (if contains identity_emphasis body then body
      else strip body @ [char_of (10::nat), char_of (10::nat)] @ identity_emphasis)"

definition deterministic_compose :: "write_request \<Rightarrow> write_result" where
  "deterministic_compose r = \<lparr>wt_body = wq_template_body r, wt_usage = None, wt_cost = 0\<rparr>"

definition deterministic_revise :: "string \<Rightarrow> write_result" where
  "deterministic_revise prev_body = \<lparr>wt_body = emphasize prev_body, wt_usage = None, wt_cost = 0\<rparr>"

definition empty_extract :: "bytes \<Rightarrow> inventory_outcome" where
  "empty_extract img = \<lparr>io_inventory = empty_inventory, io_usage = None, io_cost = 0\<rparr>"

section \<open>Lemmas\<close>

subsection \<open>Planner\<close>

lemma number_steps_nth:
  "i < length cs \<Longrightarrow> number_steps cs ! i =
     mk_step (Suc i) (ch_target (cs ! i)) (ch_instruction (cs ! i)) [ch_target (cs ! i)]"
  by (simp add: number_steps_def del: upt_Suc)

lemma length_number_steps [simp]: "length (number_steps cs) = length cs"
  by (simp add: number_steps_def del: upt_Suc)

lemma number_steps_ns: "map st_n (number_steps cs) = [1..<Suc (length cs)]"
  by (rule nth_equalityI) (simp_all add: number_steps_nth del: upt_Suc)

lemma number_steps_targets: "map st_targets (number_steps cs) = map (\<lambda>c. [ch_target c]) cs"
  by (rule nth_equalityI) (simp_all add: number_steps_nth)

lemma number_steps_instructions: "map st_instruction (number_steps cs) = map ch_instruction cs"
  by (rule nth_equalityI) (simp_all add: number_steps_nth)

lemma length_deterministic_steps [simp]: "length (deterministic_steps a) = length (ba_changes a)"
  by (simp add: deterministic_steps_def)

lemma change_rank_le: "change_rank c \<le> 2"
  by (auto simp: change_rank_def region_rank_def default_rank_def Let_def split: option.splits
      dest!: find_Some_iff_mem)

text \<open>The order is by rank, and within a rank the brief's own order.\<close>

lemma steps_by_rank:
  "map st_instruction (filter (\<lambda>s. change_rank \<lparr>ch_target = st_title s, ch_instruction = []\<rparr> = r)
     (deterministic_steps a))
   = map ch_instruction (filter (\<lambda>c. change_rank c = r) (ba_changes a))"
proof -
  have rank_only: "change_rank \<lparr>ch_target = ch_target c, ch_instruction = []\<rparr> = change_rank c" for c
    by (simp add: change_rank_def)
  have flt: "map st_instruction (filter (\<lambda>s. P (st_title s)) (number_steps cs))
      = map ch_instruction (filter (\<lambda>c. P (ch_target c)) cs)" for P cs
  proof -
    have "map (\<lambda>s. (st_title s, st_instruction s)) (number_steps cs)
        = map (\<lambda>c. (ch_target c, ch_instruction c)) cs"
      by (rule nth_equalityI) (simp_all add: number_steps_nth)
    then have "map snd (filter (P \<circ> fst) (map (\<lambda>s. (st_title s, st_instruction s)) (number_steps cs)))
        = map snd (filter (P \<circ> fst) (map (\<lambda>c. (ch_target c, ch_instruction c)) cs))"
      by simp
    then show ?thesis by (simp add: filter_map comp_def)
  qed
  show ?thesis
    unfolding deterministic_steps_def
    using flt [of "\<lambda>t. change_rank \<lparr>ch_target = t, ch_instruction = []\<rparr> = r"
        "sort_key change_rank (ba_changes a)"]
    by (simp add: rank_only sort_key_stable)
qed

subsection \<open>Slot filler\<close>

lemma best_option_in:
  "best_option ans opts best sc = Some v \<Longrightarrow> best = Some v \<or> v \<in> set opts"
  by (induction ans opts best sc rule: best_option.induct) (auto split: if_splits)

lemma match_option_in: "match_option answer opts = Some v \<Longrightarrow> v \<in> set opts"
  by (auto simp: match_option_def dest: best_option_in)

text \<open>The match has the largest overlap; ties keep the earlier option.\<close>

lemma best_option_max:
  "best_option ans opts best sc = Some v \<Longrightarrow> (\<forall>b. best = Some b \<longrightarrow> overlap b ans = sc)
    \<Longrightarrow> sc \<le> overlap v ans \<and> (\<forall>u\<in>set opts. overlap u ans \<le> overlap v ans)"
proof (induction ans opts best sc rule: best_option.induct)
  case (2 ans opt opts best sc)
  show ?case
  proof (cases "sc < overlap opt ans")
    case True
    with 2(3) have "best_option ans opts (Some opt) (overlap opt ans) = Some v" by simp
    from 2(1) [OF True this] True show ?thesis by simp
  next
    case False
    with 2(3) have "best_option ans opts best sc = Some v" by simp
    from 2(2) [OF False this 2(4)] False show ?thesis by simp
  qed
qed simp

lemma fill_slots_get:
  "fill_slots i ss ans acc = Inr d \<Longrightarrow> dict_ok ss
    \<Longrightarrow> dict_get d n = (case dict_get ss n of None \<Rightarrow> dict_get acc n | Some s \<Rightarrow> slot_value s ans)"
proof (induction i ss ans acc rule: fill_slots.induct)
  case (2 preset_id name s rest ans acc)
  from 2(2) obtain v where v: "slot_value s ans = Some v" "fill_slots preset_id rest ans (dict_set name v acc) = Inr d"
    by (auto split: option.splits)
  from 2(3) have rest: "dict_ok rest" "dict_get rest name = None"
    by (auto simp: map_of_eq_None_iff image_iff)
  show ?case
    using 2(1) [OF v(1) v(2) rest(1)] v(1) rest(2)
    by (auto simp: dict_simps split: option.splits)
qed simp

definition preset_wf :: "preset \<Rightarrow> bool" where
  \<comment> \<open>slot names are distinct and an enum slot's default is one of its options\<close>
  "preset_wf p \<longleftrightarrow>
     dict_ok (pr_slots p)
     \<and> list_all (\<lambda>(_, s). sl_enum s \<noteq> Some []
          \<and> (case (sl_enum s, sl_default s) of (Some opts, Some d) \<Rightarrow> d \<in> set opts | _ \<Rightarrow> True))
        (pr_slots p)"

definition fill_ok :: "preset \<Rightarrow> (string, string) dict \<Rightarrow> bool" where
  \<comment> \<open>a value for every slot of the preset and no other, enum slots within their vocabulary\<close>
  "fill_ok p d \<longleftrightarrow>
     (\<forall>n. dict_get d n \<noteq> None \<longleftrightarrow> dict_get (pr_slots p) n \<noteq> None)
     \<and> (\<forall>n v s opts. dict_get d n = Some v \<longrightarrow> dict_get (pr_slots p) n = Some s
          \<longrightarrow> sl_enum s = Some opts \<longrightarrow> v \<in> set opts)"

lemma preset_wf_slot:
  assumes "preset_wf p" "dict_get (pr_slots p) n = Some s"
  shows "sl_enum s \<noteq> Some []" and "sl_enum s = Some opts \<Longrightarrow> sl_default s = Some d \<Longrightarrow> d \<in> set opts"
  using assms by (auto simp: preset_wf_def list_all_iff dest!: map_of_SomeD)

lemma slot_value_in_enum:
  assumes "preset_wf p" "dict_get (pr_slots p) n = Some s" "slot_value s ans = Some v"
    "sl_enum s = Some opts"
  shows "v \<in> set opts"
  using assms(3,4) preset_wf_slot [OF assms(1,2)]
  by (auto simp: slot_value_def truthy_enum_def split: option.splits if_splits dest: match_option_in)

lemma fill_slots_values:
  "fill_slots i ss ans acc = Inr d \<Longrightarrow> \<forall>(n, s)\<in>set ss. slot_value s ans \<noteq> None"
  by (induction i ss ans acc rule: fill_slots.induct) (auto split: option.splits)

lemma default_fill_ok:
  assumes wf: "preset_wf p" and f: "default_fill p ans = Inr f"
  shows "fill_ok p (sf_slots f)"
proof -
  from f have fs: "fill_slots (pr_id p) (pr_slots p) ans [] = Inr (sf_slots f)"
    by (auto simp: default_fill_def bind_res_Inr_iff)
  have get: "dict_get (sf_slots f) n =
      (case dict_get (pr_slots p) n of None \<Rightarrow> None | Some s \<Rightarrow> slot_value s ans)" for n
    using fill_slots_get [OF fs] wf by (simp add: preset_wf_def split: option.splits)
  show ?thesis
    unfolding fill_ok_def
  proof (intro conjI allI impI)
    fix n
    show "dict_get (sf_slots f) n \<noteq> None \<longleftrightarrow> dict_get (pr_slots p) n \<noteq> None"
      using fill_slots_values [OF fs] by (auto simp: get split: option.splits dest: map_of_SomeD)
  next
    fix n v s opts
    assume "dict_get (sf_slots f) n = Some v" "dict_get (pr_slots p) n = Some s" "sl_enum s = Some opts"
    then show "v \<in> set opts" using slot_value_in_enum [OF wf] by (simp add: get)
  qed
qed

lemma check_slot_values_total:
  "(\<And>n v. (n, v) \<in> set d \<Longrightarrow> \<exists>s. dict_get (pr_slots p) n = Some s
      \<and> (\<forall>opts. sl_enum s = Some opts \<longrightarrow> v \<in> set opts))
    \<Longrightarrow> check_slot_values p False d = Inr ()"
proof (induction d)
  case (Cons x d)
  obtain n v where x: "x = (n, v)" by (cases x)
  from Cons.prems [of n v] x obtain s where
    "dict_get (pr_slots p) n = Some s" "\<forall>opts. sl_enum s = Some opts \<longrightarrow> v \<in> set opts" by auto
  with Cons x show ?case by (auto split: option.splits)
qed simp

text \<open>A contract-abiding fill of a preset whose placeholders are its slots always validates.\<close>

lemma fill_ok_validates:
  assumes ok: "fill_ok p d" "dict_ok d"
    and slots: "\<forall>n\<in>set (placeholder_names (pr_prompt_structure p)). dict_get (pr_slots p) n \<noteq> None"
  shows "validate_slots p d False = Inr ()"
proof -
  have "check_slot_values p False d = Inr ()"
  proof (rule check_slot_values_total)
    fix n v assume "(n, v) \<in> set d"
    then have "dict_get d n = Some v" using ok(2) by simp
    with ok(1) show "\<exists>s. dict_get (pr_slots p) n = Some s \<and> (\<forall>opts. sl_enum s = Some opts \<longrightarrow> v \<in> set opts)"
      by (fastforce simp: fill_ok_def)
  qed
  moreover have "n \<in> set (dict_keys (pr_slots p))" if "n \<in> set (dict_keys d)" for n
    using that ok(1) by (auto simp: fill_ok_def dict_keys_def map_of_eq_None_iff)
  moreover have "n \<in> set (dict_keys d)" if "n \<in> set (placeholder_names (pr_prompt_structure p))" for n
    using that slots ok(1) by (auto simp: fill_ok_def dict_keys_def map_of_eq_None_iff)
  ultimately show ?thesis by (simp add: validate_slots_Inr)
qed

subsection \<open>Prompt writer\<close>

lemma emphasize_contains: "contains identity_emphasis (emphasize body)"
proof (cases "contains identity_emphasis body")
  case False
  then have "emphasize body = (strip body @ [char_of (10::nat), char_of (10::nat)]) @ identity_emphasis @ []"
    by (simp add: emphasize_def)
  then show ?thesis by (simp only: contains_append)
qed (simp add: emphasize_def)

lemma emphasize_idem: "emphasize (emphasize body) = emphasize body"
  using emphasize_contains [of body] by (simp add: emphasize_def [of "emphasize body"])

end
