(* ===== verification/Facecheck.thy ===== *)
theory Facecheck
  imports Schemas
begin

text \<open>
  \<open>services/facecheck.py\<close>: the identity check of a generated frame. The embedder is a function
  from image bytes to a vector or an exception; numpy's \<open>linalg.norm\<close> and \<open>dot\<close> are the
  parameter \<open>np\<close>, and nothing is assumed about them.
\<close>

record numpy =
  np_norm :: "rat list \<Rightarrow> rat"
  np_dot :: "rat list \<Rightarrow> rat list \<Rightarrow> rat"

record check_result =
  fc_similarity :: rat
  fc_verdict :: verdict
  fc_risk_level :: risk_level

fun risk_by_verdict :: "verdict \<Rightarrow> risk_level" where
  "risk_by_verdict PASSED = LOW"
| "risk_by_verdict SOFT = MEDIUM"
| "risk_by_verdict BELOW_FLOOR = HIGH"

definition band :: "rat \<Rightarrow> thresholds \<Rightarrow> verdict" where
  "band similarity t =
     (if th_similarity_threshold t \<le> similarity then PASSED
      else if th_identity_floor t \<le> similarity then SOFT else BELOW_FLOOR)"

definition banded :: "rat \<Rightarrow> thresholds \<Rightarrow> check_result" where
  "banded similarity t =
     \<lparr>fc_similarity = similarity, fc_verdict = band similarity t,
      fc_risk_level = risk_by_verdict (band similarity t)\<rparr>"

definition clip :: "rat \<Rightarrow> rat \<Rightarrow> rat \<Rightarrow> rat" where   \<comment> \<open>\<open>np.clip(x, lo, hi)\<close>\<close>
  "clip x lo hi = min (max x lo) hi"

definition shape_text :: "rat list \<Rightarrow> string" where   \<comment> \<open>\<open>a.shape\<close> of a vector\<close>
  "shape_text a = ''('' @ show_nat (length a) @ '',)''"

definition cosine :: "numpy \<Rightarrow> rat list \<Rightarrow> rat list \<Rightarrow> rat result" where
  "cosine np a b =
     (if length a \<noteq> length b then Inl (ValueError (''embedding dimensions differ: '' @ shape_text a @ '' vs '' @ shape_text b))
      else let norm = np_norm np a * np_norm np b
           in if norm = 0 then Inl (ValueError ''cannot compare a zero-magnitude embedding'')
              else Inr (clip (np_dot np a b / norm) (- 1) 1))"

definition face_check ::
  "numpy \<Rightarrow> (bytes \<Rightarrow> rat list result) \<Rightarrow> rat list \<Rightarrow> bytes \<Rightarrow> thresholds \<Rightarrow> check_result result" where
  "face_check np embedder reference_embedding img t =
     (if reference_embedding = []
      then Inl (ValueError (''reference embedding is empty '' @ em_dash @ '' the face profile has no identity''))
      else (case embedder img of
              Inl e \<Rightarrow> if is_value_error e then Inr (banded 0 t) else Inl e
            | Inr candidate \<Rightarrow>
                bind_res (cosine np reference_embedding candidate) (\<lambda>s. Inr (banded s t))))"

section \<open>Lemmas\<close>

lemma banded_simps [simp]:
  "fc_similarity (banded s t) = s" "fc_verdict (banded s t) = band s t"
  "fc_risk_level (banded s t) = risk_by_verdict (band s t)"
  by (simp_all add: banded_def)

lemma band_iff:
  "band s t = PASSED \<longleftrightarrow> th_similarity_threshold t \<le> s"
  "band s t = SOFT \<longleftrightarrow> s < th_similarity_threshold t \<and> th_identity_floor t \<le> s"
  "band s t = BELOW_FLOOR \<longleftrightarrow> s < th_similarity_threshold t \<and> s < th_identity_floor t"
  by (auto simp: band_def)

lemma band_mono: "s \<le> s' \<Longrightarrow> band s t \<le> band s' t"
  by (auto simp: band_def less_eq_verdict_def)

lemma band_floor:
  "th_identity_floor t \<le> th_similarity_threshold t \<Longrightarrow> band s t \<noteq> BELOW_FLOOR \<longleftrightarrow> th_identity_floor t \<le> s"
  by (auto simp: band_def)

lemma clip_bounds: "lo \<le> hi \<Longrightarrow> lo \<le> clip x lo hi \<and> clip x lo hi \<le> hi"
  by (auto simp: clip_def)

lemma face_check_banded:
  assumes "face_check np embedder ref img t = Inr r"
  shows "\<exists>s. r = banded s t \<and> - 1 \<le> s \<and> s \<le> 1"
proof (cases "embedder img")
  case (Inl e)
  with assms have "r = banded 0 t" by (auto simp: face_check_def split: if_splits)
  then show ?thesis by (intro exI [of _ 0]) simp
next
  case (Inr c)
  with assms obtain s where "cosine np ref c = Inr s" "r = banded s t"
    by (auto simp: face_check_def bind_res_Inr_iff split: if_splits)
  then show ?thesis
    using clip_bounds [of "- 1" 1] by (auto simp: cosine_def Let_def split: if_splits)
qed

text \<open>A frame without a face is a failed attempt, not an error.\<close>

lemma face_check_no_face:
  "ref \<noteq> [] \<Longrightarrow> embedder img = Inl e \<Longrightarrow> is_value_error e \<Longrightarrow> face_check np embedder ref img t = Inr (banded 0 t)"
  by (simp add: face_check_def)

end
