(* ===== verification/Quality_Gate.thy ===== *)
theory Quality_Gate
  imports Schemas
begin

text \<open>
  \<open>services/quality_gate.py\<close>: the banded threshold check on an input photo's metrics, and the
  thresholds as \<open>_gate_thresholds\<close> of \<open>api/deps.py\<close> assembles them from the settings.
\<close>

record gate_thresholds =
  gt_min_side :: int
  gt_max_secondary_face_ratio :: rat
  gt_min_face_side :: rat
  gt_floor_face_side :: rat
  gt_min_blur_var :: rat
  gt_floor_blur_var :: rat
  gt_min_brightness :: rat
  gt_max_brightness :: rat
  gt_floor_min_brightness :: rat
  gt_floor_max_brightness :: rat
  gt_risk_max_abs_yaw :: rat

record gate_result =
  gr_verdict :: verdict
  gr_reason :: gate_reason

definition hard_failure :: "gate_thresholds \<Rightarrow> frame_metrics \<Rightarrow> gate_reason option" where
  "hard_failure t m =
     (if fm_face_count m = 0 then Some NO_FACE
      else if 1 < fm_face_count m \<and> gt_max_secondary_face_ratio t < fm_secondary_face_ratio m
        then Some MULTIPLE_FACES
      else if min (fm_width m) (fm_height m) < gt_min_side t then Some LOW_RESOLUTION
      else if fm_face_side m < gt_floor_face_side t then Some FACE_TOO_SMALL
      else if fm_blur_var m < gt_floor_blur_var t then Some BLURRY
      else if \<not> (gt_floor_min_brightness t \<le> fm_brightness m
                  \<and> fm_brightness m \<le> gt_floor_max_brightness t)
        then Some POOR_LIGHTING
      else None)"

definition gate_risk :: "gate_thresholds \<Rightarrow> frame_metrics \<Rightarrow> gate_reason option" where
  "gate_risk t m =
     (if fm_face_side m < gt_min_face_side t then Some FACE_TOO_SMALL
      else if fm_blur_var m < gt_min_blur_var t then Some BLURRY
      else if \<not> (gt_min_brightness t \<le> fm_brightness m \<and> fm_brightness m \<le> gt_max_brightness t)
        then Some POOR_LIGHTING
      else if gt_risk_max_abs_yaw t < \<bar>fm_yaw m\<bar> then Some EXTREME_POSE
      else None)"

definition gate_evaluate :: "gate_thresholds \<Rightarrow> frame_metrics \<Rightarrow> gate_result" where
  "gate_evaluate t m =
     (case hard_failure t m of
        Some hard \<Rightarrow> \<lparr>gr_verdict = BELOW_FLOOR, gr_reason = hard\<rparr>
      | None \<Rightarrow>
          (case gate_risk t m of
             Some risk \<Rightarrow> \<lparr>gr_verdict = SOFT, gr_reason = risk\<rparr>
           | None \<Rightarrow> \<lparr>gr_verdict = PASSED, gr_reason = OK\<rparr>))"

text \<open>The settings' defaults (\<open>config.py\<close>), as \<open>_gate_thresholds\<close> passes them on.\<close>

definition default_gate :: gate_thresholds where
  "default_gate =
     \<lparr>gt_min_side = 512, gt_max_secondary_face_ratio = 1 / 4, gt_min_face_side = 128,
      gt_floor_face_side = 96, gt_min_blur_var = 60, gt_floor_blur_var = 8,
      gt_min_brightness = 50, gt_max_brightness = 230, gt_floor_min_brightness = 25,
      gt_floor_max_brightness = 245, gt_risk_max_abs_yaw = 60\<rparr>"

section \<open>Lemmas\<close>

lemma hard_failure_None_iff:
  "hard_failure t m = None \<longleftrightarrow>
     fm_face_count m \<noteq> 0
     \<and> (fm_face_count m \<le> 1 \<or> fm_secondary_face_ratio m \<le> gt_max_secondary_face_ratio t)
     \<and> gt_min_side t \<le> fm_width m \<and> gt_min_side t \<le> fm_height m
     \<and> gt_floor_face_side t \<le> fm_face_side m \<and> gt_floor_blur_var t \<le> fm_blur_var m
     \<and> gt_floor_min_brightness t \<le> fm_brightness m
     \<and> fm_brightness m \<le> gt_floor_max_brightness t"
  by (auto simp: hard_failure_def not_less)

lemma gate_risk_None_iff:
  "gate_risk t m = None \<longleftrightarrow>
     gt_min_face_side t \<le> fm_face_side m \<and> gt_min_blur_var t \<le> fm_blur_var m
     \<and> gt_min_brightness t \<le> fm_brightness m \<and> fm_brightness m \<le> gt_max_brightness t
     \<and> \<bar>fm_yaw m\<bar> \<le> gt_risk_max_abs_yaw t"
  by (auto simp: gate_risk_def not_less)

lemma gate_verdict_simps:
  "gr_verdict (gate_evaluate t m) = BELOW_FLOOR \<longleftrightarrow> hard_failure t m \<noteq> None"
  "gr_verdict (gate_evaluate t m) = SOFT \<longleftrightarrow> hard_failure t m = None \<and> gate_risk t m \<noteq> None"
  "gr_verdict (gate_evaluate t m) = PASSED \<longleftrightarrow> hard_failure t m = None \<and> gate_risk t m = None"
  by (auto simp: gate_evaluate_def split: option.splits)

lemma gate_reason_OK: "gr_reason (gate_evaluate t m) = OK \<longleftrightarrow> gr_verdict (gate_evaluate t m) = PASSED"
  by (auto simp: gate_evaluate_def hard_failure_def gate_risk_def split: option.splits if_splits)

text \<open>Sharper, closer, better centred: no metric improvement lowers the band.\<close>

definition metrics_better :: "frame_metrics \<Rightarrow> frame_metrics \<Rightarrow> bool" where
  "metrics_better m m' \<longleftrightarrow>
     fm_face_count m' = fm_face_count m \<and> fm_secondary_face_ratio m' \<le> fm_secondary_face_ratio m
     \<and> fm_width m \<le> fm_width m' \<and> fm_height m \<le> fm_height m'
     \<and> fm_face_side m \<le> fm_face_side m' \<and> fm_blur_var m \<le> fm_blur_var m'
     \<and> fm_brightness m' = fm_brightness m \<and> \<bar>fm_yaw m'\<bar> \<le> \<bar>fm_yaw m\<bar>"

lemma hard_failure_better: "metrics_better m m' \<Longrightarrow> hard_failure t m = None \<Longrightarrow> hard_failure t m' = None"
  by (auto simp: hard_failure_None_iff metrics_better_def)

lemma gate_risk_better: "metrics_better m m' \<Longrightarrow> gate_risk t m = None \<Longrightarrow> gate_risk t m' = None"
  by (auto simp: gate_risk_None_iff metrics_better_def)

end
