(* ===== verification/Images.thy ===== *)
theory Images
  imports Prelude Quality_Gate
begin

text \<open>
  \<open>utils/images.py\<close> and \<open>services/vision.py\<close>. Pillow is a parameter (the record \<open>pil\<close> of the
  calls the code makes on images of some type \<open>'i\<close>); what the program computes itself is
  translated: crop boxes, clamped sizes, target sizes, the Laplacian score on a matrix of luma
  values, the choice of the nearest aspect ratio.

  \<open>nearest_aspect_ratio\<close> compares \<open>|log x|\<close>; the model compares \<open>max x (1/x)\<close>, which is
  rational, and \<open>log_distance_iff\<close> shows that the two orders agree.
\<close>

record 'i pil =
  pil_open :: "bytes \<Rightarrow> 'i option"      \<comment> \<open>\<open>Image.open\<close>, \<open>load\<close>; \<open>None\<close>: \<open>UnidentifiedImageError\<close>\<close>
  pil_rgb :: "'i \<Rightarrow> 'i"
  pil_width :: "'i \<Rightarrow> int"
  pil_height :: "'i \<Rightarrow> int"
  pil_crop :: "'i \<Rightarrow> int \<times> int \<times> int \<times> int \<Rightarrow> 'i"
  pil_resize :: "'i \<Rightarrow> int \<times> int \<Rightarrow> 'i"
  pil_luma :: "'i \<Rightarrow> rat list list"
  pil_median :: "'i \<Rightarrow> int \<Rightarrow> 'i"
  pil_jpeg :: "'i \<Rightarrow> int \<Rightarrow> bytes"

type_synonym bbox = "rat \<times> rat \<times> rat \<times> rat"

section \<open>Aspect ratios\<close>

fun partition_colon :: "string \<Rightarrow> string \<times> string" where   \<comment> \<open>\<open>s.partition(':')\<close>\<close>
  "partition_colon [] = ([], [])"
| "partition_colon (c # s) =
     (if c = CHR '':'' then ([], s) else (case partition_colon s of (w, h) \<Rightarrow> (c # w, h)))"

definition ratio_of :: "string \<Rightarrow> rat result" where   \<comment> \<open>\<open>int(w) / int(h)\<close>\<close>
  "ratio_of candidate =
     (case partition_colon candidate of (w, h) \<Rightarrow>
        (case (parse_nat w, parse_nat h) of
           (Some a, Some b) \<Rightarrow>
             if b = 0 then Inl (OtherError ''ZeroDivisionError'')
             else if a = 0 then Inl (OtherError ''ZeroDivisionError'')
             else Inr (of_nat a / of_nat b)
         | _ \<Rightarrow> Inl (ValueError ''invalid literal for int()'')))"

definition log_distance :: "rat \<Rightarrow> rat" where
  "log_distance x = max x (1 / x)"

fun argmin :: "('a \<times> rat) list \<Rightarrow> 'a \<Rightarrow> rat \<Rightarrow> 'a" where   \<comment> \<open>\<open>min(..., key=...)\<close>: the first minimum\<close>
  "argmin [] best d = best"
| "argmin ((x, dx) # xs) best d = (if dx < d then argmin xs x dx else argmin xs best d)"

definition nearest_aspect_ratio :: "int \<Rightarrow> int \<Rightarrow> string list \<Rightarrow> string result" where
  "nearest_aspect_ratio width height supported =
     (if width \<le> 0 \<or> height \<le> 0 then Inl (ValueError ''frame dimensions must be positive'')
      else if supported = [] then Inl (ValueError ''no supported aspect ratios to choose from'')
      else let actual = of_int width / of_int height
           in bind_res (map_res (\<lambda>c. bind_res (ratio_of c) (\<lambda>q. Inr (c, log_distance (actual / q))))
                          supported)
                (\<lambda>ds. Inr (argmin (tl ds) (fst (hd ds)) (snd (hd ds)))))"

section \<open>Geometry\<close>

definition py_int :: "rat \<Rightarrow> int" where   \<comment> \<open>\<open>int(x)\<close> on a float truncates\<close>
  "py_int x = (if 0 \<le> x then \<lfloor>x\<rfloor> else \<lceil>x\<rceil>)"

definition crop_box :: "int \<Rightarrow> int \<Rightarrow> bbox \<Rightarrow> rat \<Rightarrow> (int \<times> int \<times> int \<times> int) result" where
  "crop_box width height box margin =
     (case box of (x1, y1, x2, y2) \<Rightarrow>
        let mx = (x2 - x1) * margin;
            my = (y2 - y1) * margin;
            left = max 0 (py_int (x1 - mx));
            top = max 0 (py_int (y1 - my));
            right = min width (py_int (x2 + mx));
            bottom = min height (py_int (y2 + my))
        in if right \<le> left \<or> bottom \<le> top
           then Inl (ValueError ''bbox lies outside the frame'')
           else Inr (left, top, right, bottom))"

definition crop_bbox :: "'i pil \<Rightarrow> 'i \<Rightarrow> bbox \<Rightarrow> rat \<Rightarrow> 'i result" where
  "crop_bbox p img box margin =
     bind_res (crop_box (pil_width p img) (pil_height p img) box margin)
       (\<lambda>b. Inr (pil_crop p img b))"

definition decode_rgb :: "'i pil \<Rightarrow> bytes \<Rightarrow> 'i result" where
  "decode_rgb p data =
     (case pil_open p data of
        None \<Rightarrow> Inl (ValueError ''input bytes are not a decodable image'')
      | Some img \<Rightarrow> Inr (pil_rgb p img))"

definition encode_jpeg :: "'i pil \<Rightarrow> 'i \<Rightarrow> bytes" where
  "encode_jpeg p img = pil_jpeg p (pil_rgb p img) 90"

definition max_side_size :: "int \<Rightarrow> int \<Rightarrow> int \<Rightarrow> (int \<times> int) option" where
  \<comment> \<open>\<open>None\<close>: returned as it is\<close>
  "max_side_size width height max_side =
     (let longest = max width height
      in if longest \<le> max_side then None
         else let scale = of_int max_side / of_int longest
              in Some (max 1 (half_even (of_int width * scale)),
                       max 1 (half_even (of_int height * scale))))"

definition resize_max_side :: "'i pil \<Rightarrow> 'i \<Rightarrow> int \<Rightarrow> 'i" where
  "resize_max_side p img max_side =
     (case max_side_size (pil_width p img) (pil_height p img) max_side of
        None \<Rightarrow> img | Some wh \<Rightarrow> pil_resize p img wh)"

definition upscale :: "'i pil \<Rightarrow> 'i \<Rightarrow> int \<Rightarrow> 'i" where
  "upscale p img factor =
     (if factor \<le> 1 then img
      else pil_resize p img (pil_width p img * factor, pil_height p img * factor))"

section \<open>Pixel statistics\<close>

fun roll_fwd :: "'a list \<Rightarrow> 'a list" where   \<comment> \<open>\<open>np.roll(a, 1)\<close> along one axis\<close>
  "roll_fwd [] = []"
| "roll_fwd (x # xs) = last (x # xs) # butlast (x # xs)"

fun roll_back :: "'a list \<Rightarrow> 'a list" where   \<comment> \<open>\<open>np.roll(a, -1)\<close>\<close>
  "roll_back [] = []"
| "roll_back (x # xs) = xs @ [x]"

definition matrix_add :: "rat list list \<Rightarrow> rat list list \<Rightarrow> rat list list" where
  "matrix_add a b = map2 (map2 (+)) a b"

definition laplacian :: "rat list list \<Rightarrow> rat list list" where
  "laplacian gray =
     matrix_add (matrix_add (matrix_add (matrix_add
       (map (map (\<lambda>x. - 4 * x)) gray) (roll_fwd gray)) (roll_back gray))
       (map roll_fwd gray)) (map roll_back gray)"

definition inner :: "'a list \<Rightarrow> 'a list" where   \<comment> \<open>\<open>a[1:-1]\<close>\<close>
  "inner xs = butlast (tl xs)"

definition mean :: "rat list \<Rightarrow> rat" where
  "mean xs = sum_list xs / of_nat (length xs)"

definition variance :: "rat list \<Rightarrow> rat" where
  "variance xs = mean (map (\<lambda>x. (x - mean xs) ^ 2) xs)"

definition laplacian_variance :: "rat list list \<Rightarrow> rat" where
  "laplacian_variance gray =
     (if length gray < 3 \<or> length (hd gray) < 3 then 0
      else variance (concat (map inner (inner (laplacian gray)))))"

definition mean_brightness :: "rat list list \<Rightarrow> rat" where
  "mean_brightness gray = mean (concat gray)"

section \<open>Ingest (\<open>services/vision.py\<close>)\<close>

record detected_face =
  df_bbox :: bbox
  df_det_score :: rat
  df_yaw :: rat
  df_pitch :: rat
  df_roll :: rat
  df_embedding :: "rat list"

record face_ingest =
  fi_profile :: face_profile
  fi_face_crop :: "bytes option"

definition photo_ref :: "string \<Rightarrow> string" where
  "photo_ref face_key = ''photos/'' @ face_key"

definition face_crop_ref :: "string \<Rightarrow> string" where
  "face_crop_ref face_key = ''faces/'' @ face_key @ ''/crop''"

definition crop_margin :: rat where
  "crop_margin = 1 / 4"

definition clamped_size :: "int \<Rightarrow> int \<Rightarrow> detected_face \<Rightarrow> rat \<times> rat" where
  "clamped_size width height face =
     (case df_bbox face of (x1, y1, x2, y2) \<Rightarrow>
        (max 0 (min x2 (of_int width) - max x1 0), max 0 (min y2 (of_int height) - max y1 0)))"

definition crop_face :: "'i pil \<Rightarrow> 'i \<Rightarrow> detected_face option \<Rightarrow> bytes option" where
  "crop_face p frame primary =
     (case primary of
        None \<Rightarrow> None
      | Some face \<Rightarrow>
          (case crop_bbox p frame (df_bbox face) crop_margin of
             Inl _ \<Rightarrow> None | Inr c \<Rightarrow> Some (encode_jpeg p c)))"

definition primary_face :: "detected_face list \<Rightarrow> detected_face option" where
  "primary_face faces = (case faces of [] \<Rightarrow> None | f # _ \<Rightarrow> Some f)"

definition measure_frame :: "'i pil \<Rightarrow> 'i \<Rightarrow> detected_face list \<Rightarrow> frame_metrics result" where
  "measure_frame p frame faces =
     (let width = pil_width p frame; height = pil_height p frame in
      bind_res
        (case primary_face faces of
           None \<Rightarrow> Inr (0, 0, 0, frame)
         | Some primary \<Rightarrow>
             (let (w, h) = clamped_size width height primary in
              bind_res (if width * height = 0 then Inl (OtherError ''ZeroDivisionError'')
                        else Inr ((w * h) / of_int (width * height))) (\<lambda>area_ratio.
              bind_res (crop_bbox p frame (df_bbox primary) (1 / 4)) (\<lambda>region.
                Inr (area_ratio, min w h,
                     (if 1 < length faces \<and> 0 < w * h
                      then (let (w2, h2) = clamped_size width height (faces ! 1)
                            in (w2 * h2) / (w * h))
                      else 0),
                     region)))))
        (\<lambda>(area_ratio, face_side, secondary_ratio, region).
           Inr \<lparr>fm_face_count = int (length faces), fm_face_area_ratio = area_ratio,
                fm_face_side = face_side, fm_secondary_face_ratio = secondary_ratio,
                fm_blur_var = laplacian_variance (pil_luma p (pil_median p region 3)),
                fm_yaw = (case primary_face faces of None \<Rightarrow> 0 | Some f \<Rightarrow> df_yaw f),
                fm_pitch = (case primary_face faces of None \<Rightarrow> 0 | Some f \<Rightarrow> df_pitch f),
                fm_roll = (case primary_face faces of None \<Rightarrow> 0 | Some f \<Rightarrow> df_roll f),
                fm_brightness = mean_brightness (pil_luma p region),
                fm_width = width, fm_height = height\<rparr>))"

definition pixel_pass ::
  "'i pil \<Rightarrow> bytes \<Rightarrow> detected_face list \<Rightarrow> (frame_metrics \<times> bytes option) result" where
  "pixel_pass p data faces =
     bind_res (decode_rgb p data) (\<lambda>frame.
     bind_res (measure_frame p frame faces) (\<lambda>m.
       Inr (m, crop_face p frame (primary_face faces))))"

definition ingest ::
  "'i pil \<Rightarrow> (bytes \<Rightarrow> detected_face list result) \<Rightarrow> gate_thresholds \<Rightarrow> bytes \<Rightarrow> string \<Rightarrow> string
     \<Rightarrow> face_ingest result" where
  "ingest p analyze t data face_key ref =
     bind_res (analyze data) (\<lambda>faces.
     bind_res (pixel_pass p data faces) (\<lambda>(metrics, face_crop).
       let gate = gate_evaluate t metrics
       in Inr \<lparr>fi_profile =
                 \<lparr>fp_face_key = face_key,
                  fp_embedding =
                    (case primary_face faces of None \<Rightarrow> [] | Some f \<Rightarrow> df_embedding f),
                  fp_gate_verdict = gr_verdict gate, fp_gate_reason = gr_reason gate,
                  fp_metrics = metrics, fp_convergence = fresh_convergence,
                  fp_photo_ref = ref, fp_inventory = None\<rparr>,
               fi_face_crop = face_crop\<rparr>))"

definition build_face_profile ::
  "'i pil \<Rightarrow> (bytes \<Rightarrow> detected_face list result) \<Rightarrow> gate_thresholds \<Rightarrow> bytes \<Rightarrow> string \<Rightarrow> string
     \<Rightarrow> face_profile result" where
  "build_face_profile p analyze t data face_key ref =
     bind_res (ingest p analyze t data face_key ref) (\<lambda>i. Inr (fi_profile i))"

section \<open>Lemmas\<close>

subsection \<open>Aspect ratios\<close>

lemma log_distance_ln:
  assumes "0 < x"
  shows "\<bar>ln (real_of_rat x)\<bar> = ln (real_of_rat (log_distance x))"
proof (cases "1 \<le> x")
  case True
  then have "1 / x \<le> x" using assms by (simp add: divide_le_eq) (metis mult_mono' order_trans zero_le_one mult_1)
  then have "log_distance x = x" by (simp add: log_distance_def)
  with True show ?thesis by simp
next
  case False
  with assms have "x \<le> 1 / x" by (simp add: le_divide_eq) (metis less_eq_rat_def mult_le_one not_le)
  then have "log_distance x = 1 / x" by (simp add: log_distance_def)
  with False assms show ?thesis by (simp add: of_rat_divide ln_div abs_of_nonpos)
qed

lemma log_distance_pos: "0 < x \<Longrightarrow> 0 < log_distance x"
  by (simp add: log_distance_def less_max_iff_disj)

lemma log_distance_iff:
  "0 < x \<Longrightarrow> 0 < y \<Longrightarrow>
     log_distance x \<le> log_distance y \<longleftrightarrow> \<bar>ln (real_of_rat x)\<bar> \<le> \<bar>ln (real_of_rat y)\<bar>"
  by (simp add: log_distance_ln log_distance_pos of_rat_less_eq)

lemma argmin_min:
  "\<exists>d'. (argmin xs b d, d') \<in> set ((b, d) # xs) \<and> (\<forall>(x, dx) \<in> set ((b, d) # xs). d' \<le> dx)"
proof (induction xs arbitrary: b d)
  case (Cons p xs)
  obtain x dx where p: "p = (x, dx)" by (cases p)
  show ?case
  proof (cases "dx < d")
    case True
    then show ?thesis using Cons.IH [of x dx] p by fastforce
  next
    case False
    then show ?thesis using Cons.IH [of b d] p by fastforce
  qed
qed simp

lemma ratio_of_pos: "ratio_of c = Inr q \<Longrightarrow> 0 < q"
  by (auto simp: ratio_of_def split: prod.splits option.splits if_splits)

lemma nearest_is_nearest:
  assumes "nearest_aspect_ratio w h supported = Inr r"
  shows "r \<in> set supported
    \<and> (\<exists>q. ratio_of r = Inr q
        \<and> (\<forall>c\<in>set supported. \<exists>q'. ratio_of c = Inr q'
             \<and> log_distance (of_int w / of_int h / q) \<le> log_distance (of_int w / of_int h / q')))"
proof -
  define a where "a = (of_int w / of_int h :: rat)"
  let ?f = "\<lambda>c. bind_res (ratio_of c) (\<lambda>q. Inr (c, log_distance (a / q)))"
  from assms obtain ds where ds: "map_res ?f supported = Inr ds"
    and r: "r = argmin (tl ds) (fst (hd ds)) (snd (hd ds))" and ne: "supported \<noteq> []"
    by (auto simp: nearest_aspect_ratio_def bind_res_Inr_iff Let_def a_def split: if_splits)
  have all: "list_all2 (\<lambda>c d. ?f c = Inr d) supported ds" using ds by (simp add: map_res_Inr_iff)
  then have "ds \<noteq> []" using ne by auto
  then have hd: "(fst (hd ds), snd (hd ds)) # tl ds = ds" by simp
  obtain d' where d': "(r, d') \<in> set ds" "\<forall>(x, dx) \<in> set ds. d' \<le> dx"
    using argmin_min [of "tl ds" "fst (hd ds)" "snd (hd ds)"] unfolding r hd by blast
  have fwd: "\<exists>c\<in>set supported. ?f c = Inr d" if d: "d \<in> set ds" for d
  proof -
    obtain i where i: "i < length ds" "d = ds ! i" using d by (auto simp: in_set_conv_nth)
    then have "?f (supported ! i) = Inr d" using list_all2_nthD2 [OF all i(1)] by simp
    then show ?thesis using i(1) list_all2_lengthD [OF all] by (metis nth_mem)
  qed
  have bwd: "\<exists>d\<in>set ds. ?f c = Inr d" if c: "c \<in> set supported" for c
  proof -
    obtain i where i: "i < length supported" "c = supported ! i" using c by (auto simp: in_set_conv_nth)
    then have "?f c = Inr (ds ! i)" using list_all2_nthD [OF all i(1)] by simp
    then show ?thesis using i(1) list_all2_lengthD [OF all] by (metis nth_mem)
  qed
  obtain q where q: "r \<in> set supported" "ratio_of r = Inr q" "d' = log_distance (a / q)"
    using fwd [OF d'(1)] by (auto simp: bind_res_Inr_iff)
  have "\<exists>q'. ratio_of c = Inr q' \<and> log_distance (a / q) \<le> log_distance (a / q')"
    if "c \<in> set supported" for c
    using bwd [OF that] d'(2) q(3) by (fastforce simp: bind_res_Inr_iff)
  with q show ?thesis unfolding a_def [symmetric] by blast
qed

subsection \<open>Geometry\<close>

lemma crop_box_inside:
  assumes "crop_box w h b m = Inr (l, t, r, bt)"
  shows "0 \<le> l \<and> l < r \<and> r \<le> w \<and> 0 \<le> t \<and> t < bt \<and> bt \<le> h"
  using assms by (auto simp: crop_box_def Let_def split: prod.splits if_splits)

lemma max_side_bounds:
  assumes "max_side_size w h k = Some (w', h')" "1 \<le> k" "1 \<le> w" "1 \<le> h"
  shows "1 \<le> w' \<and> w' \<le> k \<and> 1 \<le> h' \<and> h' \<le> k"
proof -
  define l where "l = max w h"
  define sc where "sc = (of_int k / of_int l :: rat)"
  have l: "k < l" "w \<le> l" "h \<le> l" and w': "w' = max 1 (half_even (of_int w * sc))"
    and h': "h' = max 1 (half_even (of_int h * sc))"
    using assms(1) by (auto simp: max_side_size_def Let_def l_def sc_def split: if_splits)
  have "half_even (of_int n * sc) \<le> k" if "n \<le> l" for n
  proof -
    have pos: "(0 :: rat) < of_int l" using l(1) assms(2) by simp
    have "of_int n * sc \<le> (of_int l * sc :: rat)"
      using that assms(2) pos by (intro mult_right_mono) (auto simp: sc_def)
    also have "\<dots> = of_int k" using pos by (simp add: sc_def)
    finally show ?thesis using half_even_le_of_int by blast
  qed
  then show ?thesis using l assms(2) by (simp add: w' h')
qed

lemma clamped_size_bounds:
  assumes "0 \<le> w" "0 \<le> h"
  shows "0 \<le> fst (clamped_size w h f) \<and> fst (clamped_size w h f) \<le> of_int w
    \<and> 0 \<le> snd (clamped_size w h f) \<and> snd (clamped_size w h f) \<le> of_int h"
  using assms by (auto simp: clamped_size_def max_def min_def split: prod.splits)

subsection \<open>Pixel statistics\<close>

lemma roll_nth:
  "i < length xs \<Longrightarrow> 1 \<le> i \<Longrightarrow> roll_fwd xs ! i = xs ! (i - 1)"
  "Suc i < length xs \<Longrightarrow> roll_back xs ! i = xs ! Suc i"
  by (cases xs; auto simp: nth_Cons nth_butlast nth_append split: nat.splits)+

lemma roll_length [simp]: "length (roll_fwd xs) = length xs" "length (roll_back xs) = length xs"
  by (cases xs; simp)+

lemma matrix_add_nth:
  assumes "length a = length b" "i < length a" "length (a ! i) = length (b ! i)" "j < length (a ! i)"
  shows "matrix_add a b ! i ! j = a ! i ! j + b ! i ! j"
  using assms by (simp add: matrix_add_def)

definition rect :: "nat \<Rightarrow> nat \<Rightarrow> 'a list list \<Rightarrow> bool" where
  "rect r c m \<longleftrightarrow> length m = r \<and> (\<forall>row\<in>set m. length row = c)"

lemma rect_matrix_add: "rect r c a \<Longrightarrow> rect r c b \<Longrightarrow> rect r c (matrix_add a b)"
  by (auto simp: rect_def matrix_add_def in_set_zip)

lemma rect_map: "rect r c a \<Longrightarrow> (\<And>xs. length (f xs) = length xs) \<Longrightarrow> rect r c (map f a)"
  by (auto simp: rect_def)

lemma set_roll [simp]: "set (roll_fwd xs) = set xs" "set (roll_back xs) = set xs"
proof -
  show "set (roll_fwd xs) = set xs"
  proof (cases xs)
    case (Cons x ys)
    then have "set (roll_fwd xs) = set (butlast xs @ [last xs])"
      by (simp del: append_butlast_last_id)
    also have "butlast xs @ [last xs] = xs" using Cons by simp
    finally show ?thesis .
  qed simp
  show "set (roll_back xs) = set xs" by (cases xs) auto
qed

lemma rect_roll: "rect r c a \<Longrightarrow> rect r c (roll_fwd a)" "rect r c a \<Longrightarrow> rect r c (roll_back a)"
  by (auto simp: rect_def)

lemma rect_nth: "rect r c a \<Longrightarrow> i < r \<Longrightarrow> length (a ! i) = c"
  by (auto simp: rect_def)

text \<open>
  Away from the border the rolled sums are the four direct neighbours: the ring that wraps
  around is the one the code drops.
\<close>

lemma laplacian_interior:
  assumes g: "rect r c g" and i: "1 \<le> i" "Suc i < r" and j: "1 \<le> j" "Suc j < c"
  shows "laplacian g ! i ! j =
    - 4 * g ! i ! j + g ! (i - 1) ! j + g ! Suc i ! j + g ! i ! (j - 1) + g ! i ! Suc j"
proof -
  let ?a = "map (map (\<lambda>x. - 4 * x)) g"
  have ra: "rect r c ?a" using g by (rule rect_map) simp
  note r1 = rect_roll(1) [OF g] and r2 = rect_roll(2) [OF g]
  have r3: "rect r c (map roll_fwd g)" and r4: "rect r c (map roll_back g)"
    using g by (auto intro: rect_map)
  have add: "matrix_add x y ! i ! j = x ! i ! j + y ! i ! j" if "rect r c x" "rect r c y" for x y
    using that i j by (intro matrix_add_nth) (auto simp: rect_nth rect_def)
  have len: "length g = r" "length (g ! i) = c" using g i by (auto simp: rect_def)
  have "laplacian g ! i ! j = ?a ! i ! j + roll_fwd g ! i ! j + roll_back g ! i ! j
      + map roll_fwd g ! i ! j + map roll_back g ! i ! j"
    unfolding laplacian_def by (simp only: add ra r1 r2 r3 r4 rect_matrix_add)
  then show ?thesis using i j len by (simp add: roll_nth)
qed

lemma variance_nonneg: "0 \<le> variance xs"
  unfolding variance_def mean_def by (intro divide_nonneg_nonneg sum_list_nonneg) auto

lemma variance_constant: "xs \<noteq> [] \<Longrightarrow> \<forall>x\<in>set xs. x = a \<Longrightarrow> variance xs = 0"
proof -
  assume xs: "xs \<noteq> []" "\<forall>x\<in>set xs. x = a"
  then have "xs = replicate (length xs) a" by (simp add: replicate_length_same)
  then have "sum_list xs = of_nat (length xs) * a" by (metis sum_list_replicate)
  then have "mean xs = a" using xs(1) by (simp add: mean_def)
  with xs(2) have "map (\<lambda>x. (x - mean xs) ^ 2) xs = map (\<lambda>_. 0) xs" by (intro map_cong) auto
  then have "variance xs = mean (map (\<lambda>_. 0) xs)" unfolding variance_def by (rule arg_cong)
  then show ?thesis by (simp add: mean_def)
qed

lemma variance_zero: "xs \<noteq> [] \<Longrightarrow> variance xs = 0 \<longleftrightarrow> (\<exists>a. \<forall>x\<in>set xs. x = a)"
proof
  assume xs: "xs \<noteq> []" and "variance xs = 0"
  then have "sum_list (map (\<lambda>x. (x - mean xs) ^ 2) xs) = 0"
    by (simp add: variance_def mean_def [of "map _ xs"])
  then have "\<forall>x\<in>set xs. (x - mean xs) ^ 2 = 0"
    by (subst (asm) sum_list_nonneg_eq_0_iff) auto
  then show "\<exists>a. \<forall>x\<in>set xs. x = a" by auto
qed (use variance_constant in blast)

text \<open>The score over the neighbours it is meant to compare.\<close>

definition neighbour_laplacian :: "rat list list \<Rightarrow> nat \<Rightarrow> nat \<Rightarrow> rat" where
  "neighbour_laplacian g i j = - 4 * g ! i ! j + g ! (i - 1) ! j + g ! Suc i ! j + g ! i ! (j - 1) + g ! i ! Suc j"

definition interior :: "nat \<Rightarrow> nat \<Rightarrow> rat list list \<Rightarrow> rat list" where
  "interior r c g = concat (map (\<lambda>i. map (neighbour_laplacian g i) [1..<c - 1]) [1..<r - 1])"

lemma inner_nth: "inner xs = map ((!) xs) [1..<length xs - 1]"
  by (rule nth_equalityI) (simp_all add: inner_def nth_butlast nth_tl)

lemma laplacian_rect: "rect r c g \<Longrightarrow> rect r c (laplacian g)"
  unfolding laplacian_def by (intro rect_matrix_add rect_roll rect_map) (auto intro: rect_map)

lemma laplacian_interior_list:
  assumes "rect r c g"
  shows "concat (map inner (inner (laplacian g))) = interior r c g"
proof -
  have "inner (laplacian g ! i) = map (neighbour_laplacian g i) [1..<c - 1]" if "i \<in> set [1..<r - 1]" for i
    using that rect_nth [OF laplacian_rect [OF assms], of i] laplacian_interior [OF assms]
    by (auto simp: inner_nth neighbour_laplacian_def)
  moreover have "length (laplacian g) = r" using laplacian_rect [OF assms] by (simp add: rect_def)
  ultimately have "map inner (inner (laplacian g)) = map (\<lambda>i. map (neighbour_laplacian g i) [1..<c - 1]) [1..<r - 1]"
    by (simp add: inner_nth [of "laplacian g"] comp_def)
  then show ?thesis by (simp add: interior_def)
qed

lemma laplacian_variance_reference:
  assumes "rect r c g"
  shows "laplacian_variance g = (if r < 3 \<or> c < 3 then 0 else variance (interior r c g))"
proof (cases g)
  case (Cons row rows)
  with assms have "length g = r" "length (hd g) = c" by (auto simp: rect_def)
  then show ?thesis by (simp add: laplacian_variance_def laplacian_interior_list [OF assms])
qed (use assms in \<open>simp add: laplacian_variance_def rect_def\<close>)

lemma laplacian_variance_zero:
  assumes "rect r c g"
  shows "laplacian_variance g = 0 \<longleftrightarrow> r < 3 \<or> c < 3
    \<or> (\<exists>a. \<forall>i\<in>{1..<r - 1}. \<forall>j\<in>{1..<c - 1}. neighbour_laplacian g i j = a)"
proof (cases "r < 3 \<or> c < 3")
  case False
  then have "1 \<in> set [1..<r - 1]" "1 \<in> set [1..<c - 1]" by auto
  then have "interior r c g \<noteq> []" by (auto simp: interior_def)
  with variance_zero [OF this] False show ?thesis
    by (simp add: laplacian_variance_reference [OF assms]) (simp add: interior_def ball_Un)
next
  case True
  then show ?thesis unfolding laplacian_variance_reference [OF assms] by simp blast
qed

lemma laplacian_variance_brightness:
  assumes "rect r c g"
  shows "laplacian_variance (map (map (\<lambda>x. x + b)) g) = laplacian_variance g"
proof -
  let ?g = "map (map (\<lambda>x. x + b)) g"
  have "rect r c ?g" using assms by (auto simp: rect_def)
  moreover have nth: "?g ! i ! j = g ! i ! j + b" if "i < r" "j < c" for i j
    using that assms rect_nth [OF assms] by (simp add: rect_def)
  have "neighbour_laplacian ?g i j = neighbour_laplacian g i j"
    if "i \<in> {1..<r - 1}" "j \<in> {1..<c - 1}" for i j
  proof -
    have "i < r" "i - 1 < r" "Suc i < r" "j < c" "j - 1 < c" "Suc j < c" using that by auto
    with nth show ?thesis by (simp add: neighbour_laplacian_def)
  qed
  then have "interior r c ?g = interior r c g" unfolding interior_def by (intro arg_cong [of _ _ concat] map_cong) auto
  ultimately show ?thesis using assms by (simp add: laplacian_variance_reference)
qed

subsection \<open>Ingest\<close>

lemma pixel_pass_cases:
  assumes "pixel_pass p data faces = Inr (m, crop)"
  obtains frame where "decode_rgb p data = Inr frame" "measure_frame p frame faces = Inr m"
    "crop = crop_face p frame (primary_face faces)"
  using assms by (auto simp: pixel_pass_def bind_res_Inr_iff)

lemma measure_fields:
  assumes "measure_frame p frame faces = Inr m"
  shows "fm_face_count m = int (length faces) \<and> fm_width m = pil_width p frame
    \<and> fm_height m = pil_height p frame"
  using assms by (auto simp: measure_frame_def bind_res_Inr_iff Let_def)

text \<open>
  A primary face whose box lies outside the frame already stops \<open>_measure\<close>, which cuts the
  same box; the crop's own \<open>except\<close> branch is never the reason for a missing crop.
\<close>

lemma crop_present_iff:
  assumes "pixel_pass p data faces = Inr (m, crop)"
  shows "crop = None \<longleftrightarrow> faces = []"
  using assms
  by (cases rule: pixel_pass_cases)
     (auto simp: crop_face_def measure_frame_def bind_res_Inr_iff Let_def crop_margin_def
       primary_face_def split: list.splits sum.splits prod.splits if_splits)

lemma measure_ratio_bounds:
  assumes "measure_frame p frame faces = Inr m" "0 < pil_width p frame" "0 < pil_height p frame"
  shows "0 \<le> fm_face_area_ratio m \<and> fm_face_area_ratio m \<le> 1 \<and> 0 \<le> fm_face_side m
    \<and> 0 \<le> fm_secondary_face_ratio m"
proof (cases faces)
  case Nil
  with assms show ?thesis by (auto simp: measure_frame_def primary_face_def bind_res_Inr_iff Let_def)
next
  case (Cons f fs)
  obtain w h where wh: "clamped_size (pil_width p frame) (pil_height p frame) f = (w, h)" by fastforce
  obtain w2 h2 where wh2: "clamped_size (pil_width p frame) (pil_height p frame) (faces ! 1) = (w2, h2)"
    by fastforce
  have b: "0 \<le> w" "w \<le> of_int (pil_width p frame)" "0 \<le> h" "h \<le> of_int (pil_height p frame)"
    "0 \<le> w2" "0 \<le> h2"
    using clamped_size_bounds [of "pil_width p frame" "pil_height p frame" f]
      clamped_size_bounds [of "pil_width p frame" "pil_height p frame" "faces ! 1"] assms(2,3) wh wh2
    by auto
  have "w * h \<le> of_int (pil_width p frame) * of_int (pil_height p frame)"
    using b by (intro mult_mono) auto
  moreover have "fm_face_area_ratio m = (w * h) / of_int (pil_width p frame * pil_height p frame)"
    "fm_face_side m = min w h"
    "fm_secondary_face_ratio m = (if 1 < length faces \<and> 0 < w * h then (w2 * h2) / (w * h) else 0)"
    using assms(1) Cons wh wh2
    by (auto simp: measure_frame_def primary_face_def bind_res_Inr_iff Let_def split: if_splits)
  ultimately show ?thesis using b assms(2,3) by simp
qed

lemma ingest_profile:
  assumes "ingest p analyze t data k ref = Inr i"
  shows "\<exists>faces m. analyze data = Inr faces \<and> pixel_pass p data faces = Inr (m, fi_face_crop i)
    \<and> fp_metrics (fi_profile i) = m \<and> fp_face_key (fi_profile i) = k \<and> fp_photo_ref (fi_profile i) = ref
    \<and> fp_gate_verdict (fi_profile i) = gr_verdict (gate_evaluate t m)
    \<and> fp_gate_reason (fi_profile i) = gr_reason (gate_evaluate t m)
    \<and> fp_embedding (fi_profile i) = (case faces of [] \<Rightarrow> [] | f # _ \<Rightarrow> df_embedding f)"
proof -
  from assms obtain faces m crop where a: "analyze data = Inr faces"
    and pp: "pixel_pass p data faces = Inr (m, crop)"
    and i: "i = \<lparr>fi_profile =
        \<lparr>fp_face_key = k,
         fp_embedding = (case primary_face faces of None \<Rightarrow> [] | Some f \<Rightarrow> df_embedding f),
         fp_gate_verdict = gr_verdict (gate_evaluate t m), fp_gate_reason = gr_reason (gate_evaluate t m),
         fp_metrics = m, fp_convergence = fresh_convergence, fp_photo_ref = ref, fp_inventory = None\<rparr>,
       fi_face_crop = crop\<rparr>"
    by (auto simp: ingest_def bind_res_Inr_iff Let_def)
  show ?thesis
    by (rule exI [of _ faces], rule exI [of _ m]) (simp add: a pp i primary_face_def split: list.split)
qed

end
