(* ===== verification/Idempotency.thy ===== *)
theory Idempotency
  imports Store
begin

text \<open>
  \<open>services/idempotency.py\<close>: execute-once by key. \<open>run_once\<close> is the method, over any state
  with the two idempotency operations of the store port; the concurrent callers of one key are
  a step relation in which every store operation is one atomic step.
\<close>

definition run_once ::
  "(string \<Rightarrow> 'w \<Rightarrow> bytes option) \<Rightarrow> (string \<Rightarrow> bytes \<Rightarrow> 'w \<Rightarrow> bool \<times> 'w) \<Rightarrow> string
     \<Rightarrow> ('w \<Rightarrow> bytes result \<times> 'w) \<Rightarrow> 'w \<Rightarrow> (bytes \<times> bool) result \<times> 'w" where
  "run_once get put idem_key op w =
     (case get idem_key w of
        Some cached \<Rightarrow> (Inr (cached, True), w)
      | None \<Rightarrow>
          (case op w of
             (Inl e, w1) \<Rightarrow> (Inl e, w1)
           | (Inr result, w1) \<Rightarrow>
               (case put idem_key result w1 of
                  (stored, w2) \<Rightarrow>
                    if stored then (Inr (result, False), w2)
                    else (case get idem_key w2 of
                            None \<Rightarrow> (Inl (RuntimeError (''idempotency record vanished for key '' @ py_repr idem_key)), w2)
                          | Some winner \<Rightarrow> (Inr (winner, True), w2)))))"

context idem_store
begin

lemma run_once_replay: "get k w = Some v \<Longrightarrow> run_once get put k op w = (Inr (v, True), w)"
  by (simp add: run_once_def)

lemma run_once_error:
  "get k w = None \<Longrightarrow> op w = (Inl e, w1) \<Longrightarrow> run_once get put k op w = (Inl e, w1)"
  by (simp add: run_once_def)

lemma run_once_first:
  assumes "get k w = None" "op w = (Inr v, w1)" "get k w1 = None"
  shows "run_once get put k op w = (Inr (v, False), snd (put k v w1))"
  using assms put_result [of k v w1] by (cases "put k v w1") (simp add: run_once_def)

text \<open>A returned value is the stored record, whoever produced it.\<close>

lemma run_once_returns_record:
  assumes "run_once get put k op w = (Inr (v, replayed), w')"
  shows "get k w' = Some v"
proof (cases "get k w")
  case (Some c)
  with assms show ?thesis by (simp add: run_once_def)
next
  case None
  then obtain r w1 where o1: "op w = (Inr r, w1)"
    using assms by (auto simp: run_once_def split: prod.splits sum.splits)
  obtain b w2 where p: "put k r w1 = (b, w2)" by fastforce
  show ?thesis
  proof (cases b)
    case True
    then have "get k w1 = None" using put_result [of k r w1] p by simp
    then have "get k w2 = Some r" using get_put [of k k r w1] p by simp
    with assms None o1 p True show ?thesis by (simp add: run_once_def)
  next
    case False
    with assms None o1 p show ?thesis by (auto simp: run_once_def split: option.splits)
  qed
qed

lemma run_once_never_vanishes:
  assumes "fst (op w) = Inr v"
  shows "\<exists>r. fst (run_once get put k op w) = Inr r"
proof (cases "get k w")
  case None
  obtain w1 where o1: "op w = (Inr v, w1)" using assms by (cases "op w") auto
  obtain b w2 where p: "put k v w1 = (b, w2)" by fastforce
  obtain x where "get k w2 = Some x" using put_observed [of k v w1] p by auto
  with None o1 p show ?thesis by (auto simp: run_once_def)
qed (auto simp: run_once_def)

end

section \<open>Concurrent callers\<close>

datatype caller =
    Idle                      \<comment> \<open>before the first \<open>idem_get\<close>\<close>
  | Working                   \<comment> \<open>found nothing, running \<open>op\<close>\<close>
  | Computed bytes            \<comment> \<open>\<open>op\<close> returned, before \<open>idem_put\<close>\<close>
  | Lost                      \<comment> \<open>the put found a record, before the second \<open>idem_get\<close>\<close>
  | Returned bytes bool       \<comment> \<open>result and \<open>replayed\<close>\<close>
  | Raised

text \<open>
  \<open>op\<close> may do anything to the store except touch the record of its own key; so may the rest of
  the process.
\<close>

inductive call_step :: "string \<Rightarrow> store \<times> caller list \<Rightarrow> store \<times> caller list \<Rightarrow> bool" for k where
  hit: "i < length cs \<Longrightarrow> cs ! i = Idle \<Longrightarrow> idem_get k s = Some v
    \<Longrightarrow> call_step k (s, cs) (s, cs[i := Returned v True])"
| miss: "i < length cs \<Longrightarrow> cs ! i = Idle \<Longrightarrow> idem_get k s = None
    \<Longrightarrow> call_step k (s, cs) (s, cs[i := Working])"
| computed: "i < length cs \<Longrightarrow> cs ! i = Working \<Longrightarrow> call_step k (s, cs) (s, cs[i := Computed v])"
| op_raised: "i < length cs \<Longrightarrow> cs ! i = Working \<Longrightarrow> call_step k (s, cs) (s, cs[i := Raised])"
| stored: "i < length cs \<Longrightarrow> cs ! i = Computed v \<Longrightarrow> idem_put k v s = (True, s')
    \<Longrightarrow> call_step k (s, cs) (s', cs[i := Returned v False])"
| lost: "i < length cs \<Longrightarrow> cs ! i = Computed v \<Longrightarrow> idem_put k v s = (False, s')
    \<Longrightarrow> call_step k (s, cs) (s', cs[i := Lost])"
| winner: "i < length cs \<Longrightarrow> cs ! i = Lost \<Longrightarrow> idem_get k s = Some v
    \<Longrightarrow> call_step k (s, cs) (s, cs[i := Returned v True])"
| vanished: "i < length cs \<Longrightarrow> cs ! i = Lost \<Longrightarrow> idem_get k s = None
    \<Longrightarrow> call_step k (s, cs) (s, cs[i := Raised])"
| other: "idem_get k s' = idem_get k s \<Longrightarrow> call_step k (s, cs) (s', cs)"

fun returned :: "caller \<Rightarrow> bytes option" where
  "returned (Returned v _) = Some v"
| "returned _ = None"

fun is_fresh :: "caller \<Rightarrow> bool" where   \<comment> \<open>returned with \<open>replayed = False\<close>\<close>
  "is_fresh (Returned _ False) = True"
| "is_fresh _ = False"

definition fresh_count :: "caller list \<Rightarrow> nat" where
  "fresh_count cs = length (filter is_fresh cs)"

definition callers_inv :: "string \<Rightarrow> store \<times> caller list \<Rightarrow> bool" where
  "callers_inv k p \<longleftrightarrow>
     (\<forall>c\<in>set (snd p). (\<forall>v. returned c = Some v \<longrightarrow> idem_get k (fst p) = Some v)
        \<and> (c = Lost \<longrightarrow> idem_get k (fst p) \<noteq> None))
     \<and> fresh_count (snd p) \<le> (if idem_get k (fst p) = None then 0 else 1)"

lemma fresh_count_update:
  assumes "i < length cs" "\<not> is_fresh (cs ! i)"
  shows "fresh_count (cs[i := c]) = fresh_count cs + (if is_fresh c then 1 else 0)"
  using assms
proof (induction cs arbitrary: i)
  case (Cons x xs)
  show ?case
  proof (cases i)
    case 0
    with Cons.prems show ?thesis by (simp add: fresh_count_def)
  next
    case (Suc j)
    with Cons show ?thesis by (simp add: fresh_count_def)
  qed
qed simp

lemma ball_update: "\<forall>c\<in>set cs. P c \<Longrightarrow> P d \<Longrightarrow> \<forall>c\<in>set (cs[i := d]). P c"
  using set_update_subset_insert [of cs i d] by auto

lemma call_step_inv: "call_step k p q \<Longrightarrow> callers_inv k p \<Longrightarrow> callers_inv k q"
proof (induction rule: call_step.induct)
  case (stored i cs v s s')
  have none: "idem_get k s = None" and now: "idem_get k s' = Some v"
    using mem_idem.put_result [of k v s] mem_idem.get_put [of k k v s] stored(3) by auto
  have "\<forall>c\<in>set cs. returned c = None \<and> c \<noteq> Lost" "fresh_count cs = 0"
    using stored(4) none by (auto simp: callers_inv_def)
  with stored(1,2) now show ?case
    by (auto simp: callers_inv_def fresh_count_update dest!: set_update_subset_insert [THEN subsetD])
next
  case (lost i cs v s s')
  have same: "s' = s" "idem_get k s \<noteq> None"
    using lost(3) by (auto simp: idem_put_def idem_get_def split: if_splits)
  with lost show ?case
    by (auto simp: callers_inv_def fresh_count_update dest!: set_update_subset_insert [THEN subsetD])
next
  case (other s' s cs)
  then show ?case by (simp add: callers_inv_def)
qed (auto simp: callers_inv_def fresh_count_update dest!: set_update_subset_insert [THEN subsetD])

lemma call_steps_inv: "(call_step k)\<^sup>*\<^sup>* p q \<Longrightarrow> callers_inv k p \<Longrightarrow> callers_inv k q"
  by (induction rule: rtranclp_induct) (auto intro: call_step_inv)

lemma callers_start: "callers_inv k (s, replicate n Idle)"
  by (auto simp: callers_inv_def fresh_count_def)

text \<open>Once there is a record it stays, and whoever comes after it is given it without executing.\<close>

lemma call_step_recorded:
  assumes "call_step k (s, cs) (s', cs')" and v: "idem_get k s = Some v"
  shows "idem_get k s' = Some v \<and> (\<forall>i<length cs. cs ! i = Idle \<longrightarrow> cs' ! i \<in> {Idle, Returned v True})"
proof -
  have put: "b = False \<and> s2 = s" if "idem_put k u s = (b, s2)" for u b s2
    using that v by (auto simp: idem_put_def idem_get_def split: if_splits)
  from assms(1) show ?thesis
    by (cases rule: call_step.cases) (use v in \<open>auto simp: nth_list_update dest!: put\<close>)
qed

lemma no_vanish:
  "callers_inv k (s, cs) \<Longrightarrow> i < length cs \<Longrightarrow> cs ! i = Lost \<Longrightarrow> idem_get k s \<noteq> None"
  by (auto simp: callers_inv_def dest: nth_mem)

end
