(* ===== verification/Generation_Loop.thy ===== *)
theory Generation_Loop
  imports Fallbacks Facecheck Images Idempotency
begin

text \<open>
  \<open>services/generation_loop.py\<close>: the per-step generate, face-check, keep-best cycle. The image
  provider is the function \<open>le_generate\<close> of the requests sent before and the request sent now;
  the writer is a pair of operations on the world; pillow, numpy and the embedder are the
  parameters of their theories; the event codec (pydantic) is \<open>le_dump\<close> and \<open>le_load\<close>.

  \<open>attempt\<close> is one round of the \<open>for\<close> loop of \<open>_run_step\<close>, \<open>attempts\<close> the loop (over the list
  of attempt numbers), \<open>run_step\<close> the method, \<open>chain_step\<close> and \<open>run_chain\<close> the loop over the
  plan's steps in \<open>_drive\<close>. The mutable locals of \<open>_run_step\<close> are the record \<open>attempt_state\<close>;
  the session and the face profile are values in it, written back to the store exactly where
  the code checkpoints them.
\<close>

section \<open>Constants\<close>

definition temperature_decay :: rat where
  "temperature_decay = 1 / 2"

definition supported_ratios :: "string list" where
  "supported_ratios =
     [''1:1'', ''2:3'', ''3:2'', ''3:4'', ''4:3'', ''4:5'', ''5:4'', ''9:16'', ''16:9'', ''21:9'']"

definition applied_fallback :: string where
  "applied_fallback =
     ''the result of the earlier edit: ''"

definition budget_exhausted_text :: string where
  "budget_exhausted_text =
     ''budget exhausted before reaching the identity target''"

definition no_deliverable :: string where
  "no_deliverable =
     ''no attempt reached the identity floor''"

definition reference_missing :: string where
  "reference_missing =
     ''the reference photo is missing from storage''"

definition enhance_body :: string where
  "enhance_body =
     ''Enhance the technical rendering quality of this photograph. Increase micro-detail ''
     @ ''sharpness, lift shadow detail, and improve color accuracy, saturation, and dynamic ''
     @ ''range. Match the grain and tonal character of the existing scene. The background, ''
     @ ''framing, composition, clothing, and every element in the scene must remain exactly ''
     @ ''as they are ''
     @ em_dash
     @ '' this is a rendering pass only, not a content or setting change.''"

definition enhance_only_change :: string where
  "enhance_only_change =
     ''enhance rendering quality: increase sharpness, improve color accuracy and dynamic ''
     @ ''range, reduce noise ''
     @ em_dash
     @ '' without altering the scene, background, framing, clothing, or any scene content''"

definition result_ref :: "string \<Rightarrow> nat \<Rightarrow> string" where   \<comment> \<open>\<open>_result_ref\<close>\<close>
  "result_ref session_key n = ''sessions/'' @ session_key @ ''/iterations/'' @ show_nat n"

fun exn_text :: "py_exn \<Rightarrow> string" where   \<comment> \<open>\<open>str(exc)\<close>\<close>
  "exn_text (ValueError m) = m"
| "exn_text (FreeFormRejected m) = m"
| "exn_text (KeyError m) = m"
| "exn_text (RuntimeError m) = m"
| "exn_text (DecimalError m) = m"
| "exn_text (HTTPException status detail) = show_int status @ '': '' @ detail"
| "exn_text (OtherError m) = m"

section \<open>Configuration and local state\<close>

record 'i loop_env =
  le_pil :: "'i pil"
  le_numpy :: numpy
  le_embed :: "bytes \<Rightarrow> rat list result"
  le_generate :: "gen_request list \<Rightarrow> gen_request \<Rightarrow> gen_outcome"
  le_compose :: "write_request \<Rightarrow> frame_metrics \<Rightarrow> meter \<Rightarrow> write_result op"
  le_revise :: "string \<Rightarrow> writer_feedback \<Rightarrow> write_request \<Rightarrow> meter \<Rightarrow> write_result op"
  le_pricing :: pricing_table
  le_max_iterations :: int
  le_generation_model :: string
  le_upscale_factor :: int
  le_dump :: "event \<Rightarrow> bytes"
  le_load :: "bytes \<Rightarrow> event result"

type_synonym preset_meta = "string option \<times> string option \<times> string option"

record step_outcome =
  so_best :: "best_result option"
  so_best_bytes :: "bytes option"
  so_failure_reason :: string
  so_failure_code :: failure_code
  so_budget_exhausted :: bool

record step_ctx =   \<comment> \<open>the arguments of \<open>_run_step\<close> that no attempt changes\<close>
  sc_key :: string
  sc_preset :: preset
  sc_thresholds :: thresholds
  sc_meter :: meter
  sc_step :: edit_step
  sc_locked :: "(string, string) dict"
  sc_working :: bytes
  sc_face_crop :: "bytes option"
  sc_meta :: preset_meta
  sc_lock_items :: "string list"
  sc_aspect_ratio :: "string option"
  sc_lighting :: "string option"
  sc_base_built :: built_prompt
  sc_request :: "write_request option"
  sc_max_attempts :: int

record attempt_state =   \<comment> \<open>its mutable locals\<close>
  as_session :: session_state
  as_face :: face_profile
  as_best :: "best_result option"
  as_best_bytes :: "bytes option"
  as_last :: writer_feedback
  as_prev_body :: string
  as_reason :: string
  as_code :: failure_code

datatype flow = Next attempt_state | Broke attempt_state | Halted attempt_state

section \<open>Assembly\<close>

definition assemble ::
  "preset \<Rightarrow> string \<Rightarrow> edit_step \<Rightarrow> (string, string) dict \<Rightarrow> string list \<Rightarrow> string option
     \<Rightarrow> built_prompt result" where   \<comment> \<open>\<open>_assemble\<close>\<close>
  "assemble p body step locked lock_items lighting =
     (if strip (st_instruction step) \<noteq> []
      then (case assemble_edit_prompt p body (st_instruction step) lock_items locked lighting of
              Inr b \<Rightarrow> Inr b
            | Inl (FreeFormRejected _) \<Rightarrow> assemble_prompt p body locked
            | Inl e \<Rightarrow> Inl e)
      else assemble_prompt p body locked)"

definition slots_for_step ::
  "preset \<Rightarrow> edit_step \<Rightarrow> (string, string) dict \<Rightarrow> (string, string) dict" where
  "slots_for_step p step slots =
     (if st_instruction step = [] then slots
      else (case List.find (\<lambda>(_, s). sl_enum s = None) (pr_slots p) of
              None \<Rightarrow> slots
            | Some (free, _) \<Rightarrow> dict_set free (st_instruction step) slots))"

definition make_write_request ::
  "preset \<Rightarrow> edit_step \<Rightarrow> string list \<Rightarrow> (string, string) dict \<Rightarrow> (string, string) dict \<Rightarrow> string
     \<Rightarrow> (string, string) dict \<Rightarrow> photo_inventory option \<Rightarrow> string list \<Rightarrow> write_request result" where
  "make_write_request p step preserve locked defaults addendum slots inventory applied =
     bind_res (fill_template p (slots_for_step p step slots) addendum) (\<lambda>template_body.
       Inr \<lparr>wq_instruction = st_instruction step, wq_preserve = preserve, wq_locked = locked,
            wq_defaults = defaults, wq_style_notes = pr_style_notes p,
            wq_template_body = template_body, wq_inventory = inventory, wq_applied = applied\<rparr>)"

definition reserve_estimate ::
  "'i loop_env \<Rightarrow> built_prompt \<Rightarrow> bytes option \<Rightarrow> string \<Rightarrow> usd result" where
  "reserve_estimate env built send_crop output_size =
     generation_reserve (le_pricing env) (le_generation_model env) (py_len (bp_text built)) 1
       output_size
       (if send_crop \<noteq> None then Some (gen_face_media_resolution (bp_params built)) else None)"

definition keep_best_in_step :: "best_result option \<Rightarrow> check_result \<Rightarrow> bool" where
  "keep_best_in_step current check =
     (if fc_verdict check = BELOW_FLOOR then False
      else (case current of None \<Rightarrow> True | Some b \<Rightarrow> br_similarity b < fc_similarity check))"

definition track_convergence :: "rat \<Rightarrow> face_profile \<Rightarrow> face_profile" where
  "track_convergence similarity face =
     (let conv = fp_convergence face; prior_best = cv_best_similarity conv
      in face\<lparr>fp_convergence :=
           \<lparr>cv_attempts = Suc (cv_attempts conv),
            cv_best_similarity =
              Some (case prior_best of None \<Rightarrow> similarity | Some b \<Rightarrow> max b similarity),
            cv_last_similarity = Some similarity,
            cv_improved_last =
              Some (case prior_best of None \<Rightarrow> True | Some b \<Rightarrow> b < similarity)\<rparr>\<rparr>)"

definition record_writer_cost :: "session_state \<Rightarrow> write_result \<Rightarrow> session_state op" where
  "record_writer_cost s r w =
     (if 0 < wt_cost r
      then let s' = s\<lparr>ss_llm_calls := ss_llm_calls s @
                     [\<lparr>pc_kind = SLOT_FILL, pc_cost = wt_cost r, pc_usage = wt_usage r\<rparr>]\<rparr>
           in (Inr s', snd (op_put_session s' w))
      else (Inr s, w))"

definition op_generate :: "'i loop_env \<Rightarrow> gen_request \<Rightarrow> gen_outcome op" where
  "op_generate env req w =
     (Inr (le_generate env (w_gen_log w) req), w\<lparr>w_gen_log := w_gen_log w @ [req]\<rparr>)"

section \<open>One attempt\<close>

definition final_params :: "step_ctx \<Rightarrow> generation \<Rightarrow> generation" where
  "final_params c params =
     (let params = (case sc_aspect_ratio c of None \<Rightarrow> params
                    | Some r \<Rightarrow> params\<lparr>gen_aspect_ratio := r\<rparr>)
      in params\<lparr>gen_output_size := (if st_is_enhance (sc_step c) then ''4K'' else ''1K'')\<rparr>)"

definition cooled_params :: "step_ctx \<Rightarrow> nat \<Rightarrow> generation" where
  "cooled_params c a =
     (let base = bp_params (sc_base_built c)
      in base\<lparr>gen_temperature := gen_temperature base * temperature_decay ^ (a - 1)\<rparr>)"

definition attempt_prompt ::
  "'i loop_env \<Rightarrow> step_ctx \<Rightarrow> nat \<Rightarrow> attempt_state \<Rightarrow> (built_prompt \<times> generation \<times> attempt_state) op" where
  "attempt_prompt env c a st =
     (let base = sc_base_built c in
      if 1 < a
      then (if st_is_enhance (sc_step c) then ret (base, final_params c (cooled_params c a), st)
            else (case sc_request c of
                    None \<Rightarrow> raise_op (OtherError ''AssertionError'')
                  | Some request \<Rightarrow>
                      obind (le_revise env (as_prev_body st) (as_last st) request (sc_meter c)) (\<lambda>revised.
                      obind (record_writer_cost (as_session st) revised) (\<lambda>session.
                      obind (lift_res (assemble (sc_preset c) (wt_body revised) (sc_step c) (sc_locked c)
                                         (sc_lock_items c) (sc_lighting c))) (\<lambda>built.
                        ret (built, final_params c (cooled_params c a),
                             st\<lparr>as_session := session, as_prev_body := wt_body revised\<rparr>))))))
      else ret (base, final_params c (bp_params base), st))"

definition publish_retry ::
  "step_ctx \<Rightarrow> nat \<Rightarrow> nat \<Rightarrow> string \<Rightarrow> verdict option \<Rightarrow> unit op" where
  \<comment> \<open>\<open>if attempt < max_attempts: publish(RetryEvent(n + 1, ...))\<close>\<close>
  "publish_retry c a n reason previous =
     (if int a < sc_max_attempts c then publish (sc_key c) (RetryEvent (n + 1) reason previous)
      else ret ())"

definition blank_iteration :: "step_ctx \<Rightarrow> nat \<Rightarrow> built_prompt \<Rightarrow> iteration" where
  "blank_iteration c n built =
     \<lparr>it_n = n, it_step_n = st_n (sc_step c), it_prompt_hash = bp_hash built,
      it_prompt_text = Some (bp_text built), it_provider_request_id = None, it_result_ref = None,
      it_similarity = None, it_verdict = None, it_charged = False, it_cost = 0, it_usage = None,
      it_risk_level = None, it_error = None\<rparr>"

definition add_iteration :: "iteration \<Rightarrow> session_state \<Rightarrow> session_state" where
  "add_iteration it s = s\<lparr>ss_iterations := ss_iterations s @ [it]\<rparr>"

definition set_last_iteration :: "iteration \<Rightarrow> session_state \<Rightarrow> session_state" where
  "set_last_iteration it s = s\<lparr>ss_iterations := butlast (ss_iterations s) @ [it]\<rparr>"

definition on_refused ::
  "step_ctx \<Rightarrow> nat \<Rightarrow> attempt_state \<Rightarrow> built_prompt \<Rightarrow> reservation \<Rightarrow> string \<Rightarrow> provider_usage option
     \<Rightarrow> flow op" where
  "on_refused c a st built r msg usage =
     obind (op_settle (usage_cost usage) r) (\<lambda>cost.
       let n = length (ss_iterations (as_session st)) + 1;
           reason = ''generation refused: '' @ msg;
           charged = (0 < cost);
           it = (blank_iteration c n built)\<lparr>it_charged := charged, it_cost := cost,
                  it_usage := usage, it_error := Some reason\<rparr>;
           session = add_iteration it (as_session st)
       in obind (op_put_session session) (\<lambda>_.
          obind (publish (sc_key c)
                   (IterationResultEvent n charged cost None None None None (Some reason) (sc_meta c))) (\<lambda>_.
          obind (publish_retry c a n reason None) (\<lambda>_.
            ret (Next (st\<lparr>as_session := session, as_reason := reason,
                          as_code := GENERATION_FAILED\<rparr>))))))"

definition on_failed ::
  "step_ctx \<Rightarrow> nat \<Rightarrow> attempt_state \<Rightarrow> built_prompt \<Rightarrow> reservation \<Rightarrow> string \<Rightarrow> flow op" where
  "on_failed c a st built r msg =
     obind (op_cancel r) (\<lambda>_.
       let n = length (ss_iterations (as_session st)) + 1;
           reason = ''generation failed: '' @ msg;
           it = (blank_iteration c n built)\<lparr>it_error := Some reason\<rparr>;
           session = add_iteration it (as_session st)
       in obind (op_put_session session) (\<lambda>_.
          obind (publish (sc_key c)
                   (IterationResultEvent n False 0 None None None None (Some reason) (sc_meta c))) (\<lambda>_.
          obind (publish_retry c a n reason None) (\<lambda>_.
            ret (Next (st\<lparr>as_session := session, as_reason := reason,
                          as_code := GENERATION_FAILED\<rparr>))))))"

definition stored_bytes :: "'i loop_env \<Rightarrow> bytes \<Rightarrow> bytes result" where
  "stored_bytes env data =
     (if 1 < le_upscale_factor env
      then bind_res (decode_rgb (le_pil env) data) (\<lambda>img.
             Inr (encode_jpeg (le_pil env) (upscale (le_pil env) img (le_upscale_factor env))))
      else Inr data)"

definition on_check_failed ::
  "step_ctx \<Rightarrow> nat \<Rightarrow> attempt_state \<Rightarrow> iteration \<Rightarrow> string \<Rightarrow> py_exn \<Rightarrow> flow op" where
  "on_check_failed c a st it ref e =
     (let reason = ''face-check failed: '' @ exn_text e;
          session = set_last_iteration (it\<lparr>it_error := Some reason\<rparr>) (as_session st)
      in obind (op_put_session session) (\<lambda>_.
         obind (publish (sc_key c)
                  (IterationResultEvent (it_n it) (it_charged it) (it_cost it) None None None
                     (Some ref) (Some reason) (sc_meta c))) (\<lambda>_.
         obind (publish_retry c a (it_n it) reason None) (\<lambda>_.
           ret (Next (st\<lparr>as_session := session, as_reason := reason,
                         as_code := GENERATION_FAILED\<rparr>))))))"

definition checked_state ::
  "attempt_state \<Rightarrow> iteration \<Rightarrow> string \<Rightarrow> bytes \<Rightarrow> check_result \<Rightarrow> attempt_state" where
  \<comment> \<open>the updates between the face-check and its checkpoint\<close>
  "checked_state st it ref data check =
     (let it' = it\<lparr>it_similarity := Some (fc_similarity check), it_verdict := Some (fc_verdict check),
                   it_risk_level := Some (fc_risk_level check)\<rparr>;
          keep = keep_best_in_step (as_best st) check
      in st\<lparr>as_session := set_last_iteration it' (as_session st),
            as_face := track_convergence (fc_similarity check) (as_face st),
            as_best := (if keep
              then Some \<lparr>br_iteration_n = it_n it, br_result_ref = ref,
                         br_similarity = fc_similarity check, br_verdict = fc_verdict check,
                         br_risk_level = fc_risk_level check\<rparr>
              else as_best st),
            as_best_bytes := (if keep then Some data else as_best_bytes st)\<rparr>)"

definition on_checked ::
  "step_ctx \<Rightarrow> nat \<Rightarrow> attempt_state \<Rightarrow> iteration \<Rightarrow> string \<Rightarrow> bytes \<Rightarrow> check_result \<Rightarrow> flow op" where
  "on_checked c a st it ref data check =
     (let st1 = checked_state st it ref data check
      in obind (op_put_session (as_session st1)) (\<lambda>_.
         obind (op_put_face (as_face st1)) (\<lambda>_.
         obind (publish (sc_key c)
                  (IterationResultEvent (it_n it) (it_charged it) (it_cost it)
                     (Some (fc_similarity check)) (Some (fc_verdict check))
                     (Some (fc_risk_level check)) (Some ref) None (sc_meta c))) (\<lambda>_.
           if fc_verdict check = PASSED then ret (Broke st1)
           else obind (publish_retry c a (it_n it) ''identity similarity below target''
                         (Some (fc_verdict check))) (\<lambda>_.
                  ret (Next (st1\<lparr>as_last := \<lparr>wf_similarity = Some (fc_similarity check),
                                   wf_verdict = Some (fc_verdict check), wf_attempt = Some a\<rparr>,
                                 as_reason := no_deliverable, as_code := NO_DELIVERABLE\<rparr>)))))))"

definition on_generated ::
  "'i loop_env \<Rightarrow> step_ctx \<Rightarrow> nat \<Rightarrow> attempt_state \<Rightarrow> built_prompt \<Rightarrow> reservation
     \<Rightarrow> generated_image \<Rightarrow> flow op" where
  "on_generated env c a st built r g =
     obind (op_settle (usage_cost (gi_usage g)) r) (\<lambda>cost.
     obind (lift_res (stored_bytes env (gi_image_bytes g))) (\<lambda>result_bytes.
       let n = length (ss_iterations (as_session st)) + 1 in
       obind (storage_put (result_ref (sc_key c) n) result_bytes) (\<lambda>ref.
         let it = (blank_iteration c n built)\<lparr>it_provider_request_id := Some (gi_provider_request_id g),
                    it_result_ref := Some ref, it_charged := (0 < cost), it_cost := cost,
                    it_usage := gi_usage g\<rparr>;
             st1 = st\<lparr>as_session := add_iteration it (as_session st)\<rparr>
         in obind (op_put_session (as_session st1)) (\<lambda>_.
              case face_check (le_numpy env) (le_embed env) (fp_embedding (as_face st1))
                     (gi_image_bytes g) (sc_thresholds c) of
                Inl e \<Rightarrow> on_check_failed c a st1 it ref e
              | Inr check \<Rightarrow> on_checked c a st1 it ref (gi_image_bytes g) check))))"

definition send_attempt ::
  "'i loop_env \<Rightarrow> step_ctx \<Rightarrow> nat \<Rightarrow> attempt_state \<Rightarrow> built_prompt \<Rightarrow> generation \<Rightarrow> reservation \<Rightarrow> flow op" where
  "send_attempt env c a st built params r =
     obind (publish (sc_key c) (IterationStartEvent (length (ss_iterations (as_session st)) + 1))) (\<lambda>_.
     obind (op_generate env \<lparr>gq_prompt = bp_text built, gq_params = params,
              gq_reference_images = [sc_working c], gq_face_crop = sc_face_crop c\<rparr>) (\<lambda>out.
       case out of
         Refused msg usage \<Rightarrow> on_refused c a st built r msg usage
       | Gen_Failed msg \<Rightarrow> on_failed c a st built r msg
       | Generated g \<Rightarrow> on_generated env c a st built r g))"

definition attempt :: "'i loop_env \<Rightarrow> step_ctx \<Rightarrow> nat \<Rightarrow> attempt_state \<Rightarrow> flow op" where
  "attempt env c a st =
     obind (attempt_prompt env c a st) (\<lambda>(built, params, st1).
     obind (lift_res (reserve_estimate env built (sc_face_crop c) (gen_output_size params))) (\<lambda>est.
     obind (op_reserve (sc_meter c) GENERATION (Some est)) (\<lambda>reservation.
       case reservation of
         None \<Rightarrow> ret (Halted st1)
       | Some r \<Rightarrow> send_attempt env c a st1 built params r)))"

section \<open>One step\<close>

definition outcome_of :: "attempt_state \<Rightarrow> bool \<Rightarrow> step_outcome" where
  "outcome_of st exhausted =
     (if exhausted
      then \<lparr>so_best = as_best st, so_best_bytes = as_best_bytes st,
            so_failure_reason = budget_exhausted_text, so_failure_code = BUDGET_EXHAUSTED,
            so_budget_exhausted = True\<rparr>
      else \<lparr>so_best = as_best st, so_best_bytes = as_best_bytes st,
            so_failure_reason = as_reason st, so_failure_code = as_code st,
            so_budget_exhausted = False\<rparr>)"

fun attempts ::
  "'i loop_env \<Rightarrow> step_ctx \<Rightarrow> nat list \<Rightarrow> attempt_state \<Rightarrow> (step_outcome \<times> attempt_state) op" where
  "attempts env c [] st = ret (outcome_of st False, st)"
| "attempts env c (a # as) st =
     obind (attempt env c a st) (\<lambda>fl. case fl of
         Next st' \<Rightarrow> attempts env c as st'
       | Broke st' \<Rightarrow> ret (outcome_of st' False, st')
       | Halted st' \<Rightarrow> ret (outcome_of st' True, st'))"

definition base_prompt ::
  "'i loop_env \<Rightarrow> session_state \<Rightarrow> face_profile \<Rightarrow> preset \<Rightarrow> meter \<Rightarrow> edit_step \<Rightarrow> string list
     \<Rightarrow> (string, string) dict \<Rightarrow> (string, string) dict \<Rightarrow> string \<Rightarrow> string list \<Rightarrow> string list
     \<Rightarrow> string option \<Rightarrow> (session_state \<times> built_prompt \<times> string \<times> write_request option) op" where
  "base_prompt env session face p m step preserve locked defaults addendum lock_items applied lighting =
     (if st_is_enhance step
      then obind (lift_res (assemble_edit_prompt p enhance_body enhance_only_change
                    (edit_lock_items None [] applied [] []) locked None)) (\<lambda>built.
             ret (session, built, [], None))
      else obind (lift_res (make_write_request p step preserve locked defaults addendum
                    (ss_slots session) (fp_inventory face) applied)) (\<lambda>request.
           obind (le_compose env request (fp_metrics face) m) (\<lambda>base.
           obind (record_writer_cost session base) (\<lambda>session'.
           obind (lift_res (assemble p (wt_body base) step locked lock_items lighting)) (\<lambda>built.
             ret (session', built, wt_body base, Some request))))))"

definition step_max_attempts :: "'i loop_env \<Rightarrow> thresholds \<Rightarrow> int" where
  "step_max_attempts env t = min (1 + th_K_max_retries t) (le_max_iterations env)"

record chain_ctx =   \<comment> \<open>what \<open>_drive\<close> fixes for all steps\<close>
  cx_key :: string
  cx_preset :: preset
  cx_thresholds :: thresholds
  cx_meter :: meter
  cx_preserve :: "string list"
  cx_locked :: "(string, string) dict"
  cx_defaults :: "(string, string) dict"
  cx_addendum :: string
  cx_face_crop :: "bytes option"
  cx_meta :: preset_meta
  cx_aspect_ratio :: string

definition run_step ::
  "'i loop_env \<Rightarrow> chain_ctx \<Rightarrow> session_state \<Rightarrow> face_profile \<Rightarrow> edit_step \<Rightarrow> bytes \<Rightarrow> string list
     \<Rightarrow> string list \<Rightarrow> (step_outcome \<times> attempt_state) op" where
  "run_step env x session face step working lock_items applied =
     (let lighting = map_option (\<lambda>i. strip (inv_lighting i)) (fp_inventory face);
          max_attempts = step_max_attempts env (cx_thresholds x)
      in obind (base_prompt env session face (cx_preset x) (cx_meter x) step (cx_preserve x)
                  (cx_locked x) (cx_defaults x) (cx_addendum x) lock_items applied lighting)
          (\<lambda>(session', built, prev_body, request).
             attempts env
               \<lparr>sc_key = cx_key x, sc_preset = cx_preset x, sc_thresholds = cx_thresholds x,
                sc_meter = cx_meter x, sc_step = step, sc_locked = cx_locked x,
                sc_working = working, sc_face_crop = cx_face_crop x, sc_meta = cx_meta x,
                sc_lock_items = lock_items, sc_aspect_ratio = Some (cx_aspect_ratio x),
                sc_lighting = lighting, sc_base_built = built, sc_request = request,
                sc_max_attempts = max_attempts\<rparr>
               [1..<Suc (nat max_attempts)]
               \<lparr>as_session = session', as_face = face, as_best = None, as_best_bytes = None,
                as_last = \<lparr>wf_similarity = None, wf_verdict = None, wf_attempt = None\<rparr>,
                as_prev_body = prev_body, as_reason = no_deliverable, as_code = NO_DELIVERABLE\<rparr>))"

section \<open>The chain\<close>

record chain_state =
  cs_session :: session_state
  cs_face :: face_profile
  cs_working :: bytes
  cs_reason :: string
  cs_code :: failure_code
  cs_applied :: "string list"
  cs_edited_targets :: "string list"
  cs_edited_text :: "string list"

definition absorb :: "edit_step \<Rightarrow> chain_state \<Rightarrow> chain_state" where
  "absorb step cs =
     cs\<lparr>cs_applied := cs_applied cs @
          [if st_applied step \<noteq> [] then st_applied step
           else applied_fallback @ st_instruction step],
        cs_edited_targets := cs_edited_targets cs @ st_targets step,
        cs_edited_text := cs_edited_text cs @ [st_instruction step]\<rparr>"

definition plan_step_list :: "session_state \<Rightarrow> preset \<Rightarrow> edit_step list" where   \<comment> \<open>\<open>_plan_steps\<close>\<close>
  "plan_step_list s p =
     (case ss_plan s of
        Some pl \<Rightarrow> if pl_steps pl \<noteq> [] then pl_steps pl else [mk_step 1 (pr_id p) [] []]
      | None \<Rightarrow> [mk_step 1 (pr_id p) [] []])"

definition set_plan_step :: "nat \<Rightarrow> edit_step \<Rightarrow> session_state \<Rightarrow> session_state" where
  \<comment> \<open>the step object is shared with the plan of the session, when there is one\<close>
  "set_plan_step i step s =
     s\<lparr>ss_plan := map_option (\<lambda>pl. pl\<lparr>pl_steps := (pl_steps pl)[i := step]\<rparr>) (ss_plan s)\<rparr>"

definition keeps_prior :: "edit_step \<Rightarrow> best_result option \<Rightarrow> best_result \<Rightarrow> bool" where
  \<comment> \<open>an enhance step that regressed\<close>
  "keeps_prior step prior_best best =
     (st_is_enhance step
      \<and> (case prior_best of None \<Rightarrow> False | Some p \<Rightarrow> br_similarity best < br_similarity p))"

definition emit_step :: "bool \<Rightarrow> string \<Rightarrow> event \<Rightarrow> unit op" where
  "emit_step emit_steps k e = (if emit_steps then publish k e else ret ())"

definition complete_step :: "nat \<Rightarrow> edit_step \<Rightarrow> step_outcome \<Rightarrow> best_result \<Rightarrow> chain_state \<Rightarrow> chain_state" where
  "complete_step i step o1 best cs =
     (let step' = step\<lparr>st_status := Completed, st_result_ref := Some (br_result_ref best)\<rparr>;
          session = set_plan_step i step' (cs_session cs);
          session = (if keeps_prior step (ss_best_result session) best then session
                     else session\<lparr>ss_best_result := Some best\<rparr>)
      in absorb step'
           (cs\<lparr>cs_session := session,
               cs_working := (case so_best_bytes o1 of None \<Rightarrow> cs_working cs | Some b \<Rightarrow> b)\<rparr>))"

definition chain_step ::
  "'i loop_env \<Rightarrow> chain_ctx \<Rightarrow> bool \<Rightarrow> nat \<Rightarrow> edit_step \<Rightarrow> chain_state \<Rightarrow> (bool \<times> chain_state) op" where
  \<comment> \<open>one round of the loop over steps; \<open>True\<close> is \<open>break\<close>\<close>
  "chain_step env x emit_steps i step cs =
     (case st_status step of
        Skipped \<Rightarrow>
          obind (emit_step emit_steps (cx_key x) (StepResultEvent (st_n step) Skipped None None)) (\<lambda>_.
            ret (False, cs))
      | Completed \<Rightarrow> ret (False, cs)
      | Pending \<Rightarrow>
          obind (emit_step emit_steps (cx_key x)
                   (StepStartedEvent (st_n step) (st_title step) (st_targets step))) (\<lambda>_.
            let lock_items = edit_lock_items (fp_inventory (cs_face cs)) (cx_preserve x) (cs_applied cs)
                  (cs_edited_targets cs @ st_targets step)
                  (join '' '' (cs_edited_text cs @ [st_instruction step]))
            in obind (run_step env x (cs_session cs) (cs_face cs) step (cs_working cs) lock_items
                        (cs_applied cs)) (\<lambda>(o1, st).
                 let cs1 = cs\<lparr>cs_session := as_session st, cs_face := as_face st,
                              cs_reason := so_failure_reason o1, cs_code := so_failure_code o1\<rparr>
                 in (case so_best o1 of
                       None \<Rightarrow>
                         obind (emit_step emit_steps (cx_key x)
                                  (StepResultEvent (st_n step) Pending None None)) (\<lambda>_.
                           ret (True, cs1))
                     | Some best \<Rightarrow>
                         let cs2 = complete_step i step o1 best cs1
                         in obind (op_put_session (cs_session cs2)) (\<lambda>_.
                            obind (emit_step emit_steps (cx_key x)
                                     (StepResultEvent (st_n step) Completed (Some (br_result_ref best))
                                        (Some (br_similarity best)))) (\<lambda>_.
                              ret (so_budget_exhausted o1, cs2)))))))"

fun run_chain ::
  "'i loop_env \<Rightarrow> chain_ctx \<Rightarrow> bool \<Rightarrow> (nat \<times> edit_step) list \<Rightarrow> chain_state \<Rightarrow> chain_state op" where
  "run_chain env x emit_steps [] cs = ret cs"
| "run_chain env x emit_steps ((i, step) # steps) cs =
     obind (chain_step env x emit_steps i step cs) (\<lambda>(stop, cs').
       if stop then ret cs' else run_chain env x emit_steps steps cs')"

section \<open>The drive\<close>

definition loop_load :: "string \<Rightarrow> (session_state \<times> face_profile) op" where   \<comment> \<open>\<open>_load\<close>\<close>
  "loop_load k =
     obind (op_get_session k) (\<lambda>s. case s of
       None \<Rightarrow> raise_op (ValueError (''session '' @ py_repr k @ '' not found''))
     | Some session \<Rightarrow>
         obind (op_get_face (ss_face_key session)) (\<lambda>f. case f of
           None \<Rightarrow> raise_op (ValueError (''face profile '' @ py_repr (ss_face_key session) @ '' not found or expired''))
         | Some face \<Rightarrow>
             if fp_embedding face = []
             then raise_op (ValueError (''face profile '' @ py_repr (ss_face_key session) @ '' carries no embedding''))
             else ret (session, face)))"

definition terminal_event :: "session_state \<Rightarrow> string \<Rightarrow> failure_code \<Rightarrow> session_state \<times> event" where
  "terminal_event s reason fcode =
     (case ss_best_result s of
        Some best \<Rightarrow>
          (s\<lparr>ss_fsm_state := DONE\<rparr>,
           ResultEvent best (length (ss_iterations s)) (generations_spent s) (cost_spent s)
             (ss_preset_id s, ss_preset_version s, ss_library_version s))
      | None \<Rightarrow>
          (s\<lparr>ss_fsm_state := FAILED\<rparr>,
           FailedEvent fcode reason None (length (ss_iterations s)) (generations_spent s) (cost_spent s)))"

definition loop_finish :: "session_state \<Rightarrow> string \<Rightarrow> failure_code \<Rightarrow> event op" where   \<comment> \<open>\<open>_finish\<close>\<close>
  "loop_finish s reason fcode =
     (case terminal_event s reason fcode of (s', e) \<Rightarrow>
        obind (op_put_session s') (\<lambda>_. obind (publish (ss_session_key s) e) (\<lambda>_. ret e)))"

definition locked_slots :: "preset \<Rightarrow> (string, string) dict \<Rightarrow> (string, string) dict" where
  "locked_slots p slots =
     concat (map (\<lambda>(name, s). case dict_get slots name of
                    Some v \<Rightarrow> if sl_policy s = Locked then [(name, v)] else []
                  | None \<Rightarrow> []) (pr_slots p))"

definition default_slots :: "(string, string) dict \<Rightarrow> (string, string) dict \<Rightarrow> (string, string) dict" where
  "default_slots locked slots = filter (\<lambda>(name, _). name \<notin> set (dict_keys locked)) slots"

definition start_chain :: "session_state \<Rightarrow> face_profile \<Rightarrow> bytes \<Rightarrow> edit_step list \<Rightarrow> chain_state" where
  "start_chain session face reference steps =
     fold absorb (filter (\<lambda>s. st_status s = Completed) steps)
       \<lparr>cs_session = session, cs_face = face, cs_working = reference, cs_reason = no_deliverable,
        cs_code = NO_DELIVERABLE, cs_applied = [], cs_edited_targets = [], cs_edited_text = []\<rparr>"

definition drive :: "'i loop_env \<Rightarrow> string \<Rightarrow> preset \<Rightarrow> bytes option \<Rightarrow> string \<Rightarrow> event op" where
  "drive env k p face_crop addendum =
     obind (loop_load k) (\<lambda>(session, face).
       case ss_thresholds session of
         None \<Rightarrow> raise_op (ValueError (''session '' @ py_repr k @ '' has no frozen thresholds''))
       | Some t \<Rightarrow> (\<lambda>w.
           case w_objects w (fp_photo_ref face) of
             None \<Rightarrow> loop_finish session reference_missing REFERENCE_MISSING w
           | Some reference \<Rightarrow>
               (let session1 = session\<lparr>ss_fsm_state := GENERATING\<rparr>;
                    m = meter_of (le_pricing env) k (ss_budget_limit session1);
                    locked = locked_slots p (ss_slots session1);
                    steps = plan_step_list session1 p
                in obind (op_put_session session1) (\<lambda>_.
                   obind (lift_res (nearest_aspect_ratio (fm_width (fp_metrics face))
                            (fm_height (fp_metrics face)) supported_ratios)) (\<lambda>aspect_ratio.
                   obind (run_chain env
                            \<lparr>cx_key = k, cx_preset = p, cx_thresholds = t, cx_meter = m,
                             cx_preserve = (case ss_brief_analysis session1 of None \<Rightarrow> []
                                            | Some b \<Rightarrow> ba_preserve b),
                             cx_locked = locked, cx_defaults = default_slots locked (ss_slots session1),
                             cx_addendum = addendum, cx_face_crop = face_crop,
                             cx_meta = (ss_preset_id session1, ss_preset_version session1,
                                        ss_library_version session1),
                             cx_aspect_ratio = aspect_ratio\<rparr>
                            (1 < length steps) (zip [0..<length steps] steps)
                            (start_chain session1 face reference steps)) (\<lambda>cs.
                     loop_finish (cs_session cs) (cs_reason cs) (cs_code cs)))) w)))"

definition w_idem_get :: "string \<Rightarrow> world \<Rightarrow> bytes option" where
  "w_idem_get k w = idem_get k (w_store w)"

definition w_idem_put :: "string \<Rightarrow> bytes \<Rightarrow> world \<Rightarrow> bool \<times> world" where
  "w_idem_put k v w = (case idem_put k v (w_store w) of (b, s) \<Rightarrow> (b, w\<lparr>w_store := s\<rparr>))"

fun is_terminal :: "event \<Rightarrow> bool" where
  "is_terminal (ResultEvent _ _ _ _ _) = True"
| "is_terminal (FailedEvent _ _ _ _ _ _) = True"
| "is_terminal _ = False"

definition loop_run ::
  "'i loop_env \<Rightarrow> string \<Rightarrow> preset \<Rightarrow> string \<Rightarrow> bytes option \<Rightarrow> string \<Rightarrow> event op" where   \<comment> \<open>\<open>run\<close>\<close>
  "loop_run env k p idem_key face_crop addendum =
     obind (run_once w_idem_get w_idem_put idem_key
              (obind (drive env k p face_crop addendum) (\<lambda>e. ret (le_dump env e)))) (\<lambda>(payload, replayed).
     obind (lift_res (le_load env payload)) (\<lambda>e.
       if is_terminal e then ret e
       else raise_op (RuntimeError (''idempotency record for '' @ py_repr idem_key @ '' is not a terminal event''))))"

end
