(* ===== verification/Loop_Attempt.thy ===== *)
theory Loop_Attempt
  imports Generation_Loop
begin

text \<open>
  What one attempt of the generation loop does. \<open>writer_port\<close> is the contract of
  \<open>protocols/prompt_writer.py\<close> on which the loop relies: a writer call touches nothing but the
  session's budget counter (and the log of chat requests), and what it moves there is exactly
  the cost it reports. The postcondition \<open>attempt_post\<close> collects what holds after every attempt
  that returns, and \<open>attempt_spec\<close> proves it of the code's \<open>attempt\<close>.
\<close>

section \<open>The writer's contract\<close>

locale writer_port =
  fixes honest :: "meter \<Rightarrow> bool"
    and compose :: "write_request \<Rightarrow> frame_metrics \<Rightarrow> meter \<Rightarrow> write_result op"
    and revise :: "string \<Rightarrow> writer_feedback \<Rightarrow> write_request \<Rightarrow> meter \<Rightarrow> write_result op"
  assumes compose_quiet: "compose rq fm m w = (x, w') \<Longrightarrow> quiet (me_session_key m) w w'"
    and compose_charged:
      "compose rq fm m w = (Inr r, w') \<Longrightarrow> charged (honest m) (me_session_key m) (wt_cost r) w w'"
    and revise_quiet: "revise b f rq m w = (x, w') \<Longrightarrow> quiet (me_session_key m) w w'"
    and revise_charged:
      "revise b f rq m w = (Inr r, w') \<Longrightarrow> charged (honest m) (me_session_key m) (wt_cost r) w w'"

locale loop_services = writer_port honest "le_compose env" "le_revise env"
  for honest :: "meter \<Rightarrow> bool" and env :: "'i loop_env"

definition bills_ok :: "'i loop_env \<Rightarrow> bool" where
  \<comment> \<open>the provider never reports a negative cost\<close>
  "bills_ok env \<longleftrightarrow>
     (\<forall>log req. case le_generate env log req of
        Generated g \<Rightarrow> (\<forall>c. usage_cost (gi_usage g) = Some c \<longrightarrow> 0 \<le> c)
      | Refused _ u \<Rightarrow> (\<forall>c. usage_cost u = Some c \<longrightarrow> 0 \<le> c)
      | Gen_Failed _ \<Rightarrow> True)"

definition money_ok :: "'i loop_env \<Rightarrow> bool" where
  "money_ok env \<longleftrightarrow> bills_ok env \<and> pricing_ok (le_pricing env)"

section \<open>Bookkeeping\<close>

definition ss_core :: "session_state \<Rightarrow> session_state" where
  \<comment> \<open>everything the attempts never change\<close>
  "ss_core s = s\<lparr>ss_iterations := [], ss_llm_calls := []\<rparr>"

lemma ss_core_simps [simp]:
  "ss_core (s\<lparr>ss_iterations := x\<rparr>) = ss_core s" "ss_core (s\<lparr>ss_llm_calls := y\<rparr>) = ss_core s"
  "ss_core (add_iteration it s) = ss_core s" "ss_core (set_last_iteration it s) = ss_core s"
  by (simp_all add: ss_core_def add_iteration_def set_last_iteration_def)

lemma ss_core_fields:
  assumes "ss_core s = ss_core s'"
  shows "ss_session_key s = ss_session_key s'" "ss_thresholds s = ss_thresholds s'"
    "ss_best_result s = ss_best_result s'" "ss_plan s = ss_plan s'" "ss_fsm_state s = ss_fsm_state s'"
    "ss_slots s = ss_slots s'" "ss_budget_limit s = ss_budget_limit s'" "ss_approved s = ss_approved s'"
    "ss_preset_id s = ss_preset_id s'" "ss_preset_version s = ss_preset_version s'"
    "ss_library_version s = ss_library_version s'" "ss_brief_analysis s = ss_brief_analysis s'"
    "ss_face_key s = ss_face_key s'"
  using assms by (cases s; cases s'; simp add: ss_core_def)+

lemma iteration_lists [simp]:
  "ss_iterations (add_iteration it s) = ss_iterations s @ [it]"
  "ss_iterations (set_last_iteration it s) = butlast (ss_iterations s) @ [it]"
  "ss_llm_calls (add_iteration it s) = ss_llm_calls s"
  "ss_llm_calls (set_last_iteration it s) = ss_llm_calls s"
  "ss_session_key (add_iteration it s) = ss_session_key s"
  "ss_session_key (set_last_iteration it s) = ss_session_key s"
  by (simp_all add: add_iteration_def set_last_iteration_def)

lemma set_last_add [simp]: "set_last_iteration it' (add_iteration it s) = add_iteration it' s"
  by (simp add: set_last_iteration_def add_iteration_def)

fun ends_stream :: "event \<Rightarrow> bool" where
  \<comment> \<open>the events that close a run: \<open>result\<close>, \<open>failed\<close>, \<open>done\<close>\<close>
  "ends_stream (ResultEvent _ _ _ _ _) = True"
| "ends_stream (FailedEvent _ _ _ _ _ _) = True"
| "ends_stream (DoneEvent _ _) = True"
| "ends_stream _ = False"

lemma terminal_ends: "is_terminal e \<Longrightarrow> ends_stream e"
  by (cases e) simp_all

definition narrates :: "string \<Rightarrow> world \<Rightarrow> world \<Rightarrow> bool" where
  \<comment> \<open>only the stream of \<open>k\<close> grew, and by no event that closes it\<close>
  "narrates k w w' \<longleftrightarrow>
     (\<exists>es. w_streams w' = (w_streams w)(k := w_streams w k @ es) \<and> (\<forall>e\<in>set es. \<not> ends_stream e))"

lemma narrates_same: "w_streams w' = w_streams w \<Longrightarrow> narrates k w w'"
  by (auto simp: narrates_def intro: exI [of _ "[]"])

lemma narrates_trans: "narrates k w w1 \<Longrightarrow> narrates k w1 w2 \<Longrightarrow> narrates k w w2"
  unfolding narrates_def
  by (elim exE conjE, rule_tac x = "es @ esa" in exI) auto

lemma narrates_cong: "w_streams v = w_streams w \<Longrightarrow> w_streams v' = w_streams w' \<Longrightarrow> narrates k w w' \<Longrightarrow> narrates k v v'"
  by (simp add: narrates_def)

definition extends :: "string \<Rightarrow> world \<Rightarrow> world \<Rightarrow> bool" where
  \<comment> \<open>the frame of every loop operation on session \<open>k\<close>\<close>
  "extends k w w' \<longleftrightarrow>
     narrates k w w' \<and> (\<forall>j. idem_get j (w_store w') = idem_get j (w_store w))
     \<and> ms_locks (w_store w') = ms_locks (w_store w)
     \<and> (\<forall>j. j \<noteq> k \<longrightarrow> get_session j (w_store w') = get_session j (w_store w) \<and> used j w' = used j w)
     \<and> (\<exists>log. w_gen_log w' = w_gen_log w @ log)"

lemma extends_refl [simp]: "extends k w w"
  by (simp add: extends_def narrates_same)

lemma extends_trans: "extends k w w1 \<Longrightarrow> extends k w1 w2 \<Longrightarrow> extends k w w2"
  unfolding extends_def by (auto intro: narrates_trans)

lemma quiet_extends: "quiet k w w' \<Longrightarrow> extends k w w'"
  by (simp add: quiet_def extends_def narrates_same idem_get_def get_session_def)

lemma extends_publish:
  "\<not> ends_stream e \<Longrightarrow> publish k e w = (x, w') \<Longrightarrow> extends k w w'"
  by (auto simp: publish_def extends_def narrates_def used_def)

lemma extends_put_session:
  "ss_session_key s = k \<Longrightarrow> extends k w (w\<lparr>w_store := put_session s (w_store w)\<rparr>)"
  by (simp add: extends_def narrates_same used_def)

lemma extends_put_face: "extends k w (w\<lparr>w_store := put_face f (w_store w)\<rparr>)"
  by (simp add: extends_def narrates_same used_def)

lemma extends_objects: "extends k w (w\<lparr>w_objects := x\<rparr>)"
  by (simp add: extends_def narrates_same used_def)

lemma budget_used_settle_other:
  "j \<noteq> rv_session_key r \<Longrightarrow> budget_used j (snd (snd (settle a r s))) = budget_used j s"
  by (auto simp: settle_def close_res_def Let_def budget_used_adjust split: option.splits)

lemma budget_used_cancel_other:
  "j \<noteq> rv_session_key r \<Longrightarrow> budget_used j (snd (snd (cancel r s))) = budget_used j s"
  by (auto simp: cancel_def close_res_def budget_used_adjust)

lemma extends_settle:
  "op_settle a r w = (x, w') \<Longrightarrow> rv_session_key r = k \<Longrightarrow> extends k w w'"
  by (auto simp: op_settle_def extends_def narrates_same used_def budget_used_settle_other
      split: prod.splits)
     (metis settle_frame(4) snd_conv, metis settle_frame(3) snd_conv, metis settle_frame(1) snd_conv,
      metis budget_used_settle_other snd_conv)

lemma extends_cancel:
  "op_cancel r w = (x, w') \<Longrightarrow> rv_session_key r = k \<Longrightarrow> extends k w w'"
  by (auto simp: op_cancel_def extends_def narrates_same used_def split: prod.splits)
     (metis cancel_frame(4) snd_conv, metis cancel_frame(3) snd_conv, metis cancel_frame(1) snd_conv,
      metis budget_used_cancel_other snd_conv)

lemma extends_reserve:
  assumes "op_reserve m kind est w = (x, w')" "me_session_key m = k"
  shows "extends k w w'"
proof -
  obtain r s where mr: "meter_reserve m kind est (w_store w) = (r, s)" by fastforce
  with assms(1) have w': "w' = w\<lparr>w_store := s\<rparr>" by (simp add: op_reserve_def)
  have "budget_used j s = budget_used j (w_store w)" if "j \<noteq> k" for j
    using mr that assms(2)
    by (cases rule: meter_reserve_cases)
       (auto simp: budget_used_reserve budget_reserve_def Let_def budget_used_def)
  then show ?thesis
    using meter_reserve_frame [OF mr] by (simp add: w' extends_def narrates_same used_def)
qed

section \<open>The three outcomes of a call\<close>

fun flow_state :: "flow \<Rightarrow> attempt_state" where
  "flow_state (Next st) = st"
| "flow_state (Broke st) = st"
| "flow_state (Halted st) = st"

fun is_halted :: "flow \<Rightarrow> bool" where
  "is_halted (Halted _) = True"
| "is_halted _ = False"

fun is_broke :: "flow \<Rightarrow> bool" where
  "is_broke (Broke _) = True"
| "is_broke _ = False"

definition best_of :: "string \<Rightarrow> thresholds \<Rightarrow> nat \<Rightarrow> rat \<Rightarrow> best_result" where
  "best_of k t n s =
     \<lparr>br_iteration_n = n, br_result_ref = result_ref k n, br_similarity = s, br_verdict = band s t,
      br_risk_level = risk_by_verdict (band s t)\<rparr>"

definition iter_post :: "thresholds \<Rightarrow> string \<Rightarrow> attempt_state \<Rightarrow> iteration \<Rightarrow> attempt_state \<Rightarrow> bool" where
  \<comment> \<open>the recorded iteration, and what it did to the step's best\<close>
  "iter_post t k st it st' \<longleftrightarrow>
     (it_charged it \<longleftrightarrow> 0 < it_cost it)
     \<and> (case it_similarity it of
          None \<Rightarrow> it_verdict it = None \<and> as_best st' = as_best st
            \<and> as_best_bytes st' = as_best_bytes st \<and> as_face st' = as_face st
            \<and> (\<forall>ref. it_result_ref it = Some ref \<longrightarrow> ref = result_ref k (it_n it))
        | Some s \<Rightarrow> it_verdict it = Some (band s t)
            \<and> it_result_ref it = Some (result_ref k (it_n it))
            \<and> as_face st' = track_convergence s (as_face st)
            \<and> (if keep_best_in_step (as_best st) (banded s t)
               then as_best st' = Some (best_of k t (it_n it) s) \<and> as_best_bytes st' \<noteq> None
               else as_best st' = as_best st \<and> as_best_bytes st' = as_best_bytes st))"

definition bill_nonneg :: "provider_usage option \<Rightarrow> bool" where
  "bill_nonneg u \<longleftrightarrow> (\<forall>c. usage_cost u = Some c \<longrightarrow> 0 \<le> c)"

definition handler_post ::
  "bool \<Rightarrow> step_ctx \<Rightarrow> attempt_state \<Rightarrow> built_prompt \<Rightarrow> reservation \<Rightarrow> world \<Rightarrow> flow \<Rightarrow> world \<Rightarrow> bool" where
  \<comment> \<open>\<open>ok\<close>: the bill is not negative\<close>
  "handler_post ok c st built r w fl w' \<longleftrightarrow>
     (\<exists>it. as_session (flow_state fl) = add_iteration it (as_session st)
        \<and> it_n it = length (ss_iterations (as_session st)) + 1 \<and> it_step_n it = st_n (sc_step c)
        \<and> it_prompt_text it = Some (bp_text built)
        \<and> iter_post (sc_thresholds c) (sc_key c) st it (flow_state fl)
        \<and> \<not> is_halted fl \<and> (is_broke fl \<longleftrightarrow> it_verdict it = Some PASSED)
        \<and> extends (sc_key c) w w' \<and> w_gen_log w' = w_gen_log w
        \<and> get_session (sc_key c) (w_store w') = Some (as_session (flow_state fl))
        \<and> (ok \<longrightarrow> rv_estimate_micro r \<le> used (sc_key c) w \<longrightarrow>
             used (sc_key c) w' = used (sc_key c) w - rv_estimate_micro r + to_micro (it_cost it))
        \<and> (ok \<longrightarrow> 0 \<le> rv_estimate r \<longrightarrow> 0 \<le> it_cost it))"

definition open_for :: "string \<Rightarrow> reservation \<Rightarrow> bool" where
  "open_for k r \<longleftrightarrow> \<not> rv_closed r \<and> rv_session_key r = k \<and> rv_estimate_micro r = to_micro (rv_estimate r)"

lemma op_settle_open:
  assumes "open_for k r"
  shows "op_settle a r w =
    (Inr (case a of None \<Rightarrow> rv_estimate r | Some c \<Rightarrow> c),
     w\<lparr>w_store := snd (snd (settle a r (w_store w)))\<rparr>)"
  using assms settle_open(1) [of r a "w_store w"]
  by (simp add: op_settle_def open_for_def split_beta)

lemma op_cancel_open:
  assumes "open_for k r"
  shows "op_cancel r w = (Inr (), w\<lparr>w_store := snd (snd (cancel r (w_store w)))\<rparr>)"
  using assms by (simp add: op_cancel_def open_for_def cancel_def close_res_def)

lemma publish_retry_eq:
  "\<exists>es. publish_retry c a n reason v w =
     (Inr (), w\<lparr>w_streams := (w_streams w)(sc_key c := w_streams w (sc_key c) @ es)\<rparr>)
     \<and> (\<forall>e\<in>set es. \<not> ends_stream e)"
proof (cases "int a < sc_max_attempts c")
  case True
  then show ?thesis
    by (intro exI [of _ "[RetryEvent (n + 1) reason v]"]) (simp add: publish_retry_def publish_def)
next
  case False
  then show ?thesis by (intro exI [of _ "[]"]) (simp add: publish_retry_def)
qed

lemma extends_streams:
  "\<forall>e\<in>set es. \<not> ends_stream e \<Longrightarrow> extends k w (w\<lparr>w_streams := (w_streams w)(k := w_streams w k @ es)\<rparr>)"
  by (auto simp: extends_def narrates_def used_def)

lemma extends_settle_eq:
  "open_for k r \<Longrightarrow> extends k w (w\<lparr>w_store := snd (snd (settle a r (w_store w)))\<rparr>)"
  using extends_settle [of a r w] by (simp add: op_settle_open open_for_def)

lemma extends_cancel_eq:
  "open_for k r \<Longrightarrow> extends k w (w\<lparr>w_store := snd (snd (cancel r (w_store w)))\<rparr>)"
  using extends_cancel [of r w] by (simp add: op_cancel_open open_for_def)

lemma blank_iteration_simps [simp]:
  "it_n (blank_iteration c n b) = n" "it_step_n (blank_iteration c n b) = st_n (sc_step c)"
  "it_prompt_text (blank_iteration c n b) = Some (bp_text b)"
  "it_prompt_hash (blank_iteration c n b) = bp_hash b"
  "it_result_ref (blank_iteration c n b) = None" "it_similarity (blank_iteration c n b) = None"
  "it_verdict (blank_iteration c n b) = None" "it_charged (blank_iteration c n b) = False"
  "it_cost (blank_iteration c n b) = 0"
  by (simp_all add: blank_iteration_def)

lemma to_micro_zero [simp]: "to_micro 0 = 0"
  by (simp add: to_micro_def to_micro_with_def)

lemma settle_counter:
  assumes "open_for k r" "bill_nonneg u" "rv_estimate_micro r \<le> used k w"
  shows "budget_used k (snd (snd (settle (usage_cost u) r (w_store w)))) =
    used k w - rv_estimate_micro r
      + to_micro (case usage_cost u of None \<Rightarrow> rv_estimate r | Some c \<Rightarrow> c)"
  using assms settle_used [of r "w_store w" "usage_cost u" k]
  by (simp add: open_for_def bill_nonneg_def used_def)

text \<open>Record, checkpoint, one event, maybe a retry: the tail every failed attempt shares.\<close>

lemma failure_tail:
  assumes key: "ss_session_key s = sc_key c" and e: "\<not> ends_stream e"
    and run: "obind (op_put_session s) (\<lambda>_. obind (publish (sc_key c) e) (\<lambda>_.
      obind (publish_retry c a n reason v) (\<lambda>_. ret (Next st')))) w = (res, w')"
  shows "res = Inr (Next st') \<and> extends (sc_key c) w w' \<and> w_gen_log w' = w_gen_log w
    \<and> get_session (sc_key c) (w_store w') = Some s \<and> used (sc_key c) w' = used (sc_key c) w"
proof -
  let ?w1 = "w\<lparr>w_store := put_session s (w_store w)\<rparr>"
  let ?w2 = "?w1\<lparr>w_streams := (w_streams ?w1)(sc_key c := w_streams ?w1 (sc_key c) @ [e])\<rparr>"
  obtain es where retry: "publish_retry c a n reason v ?w2 =
      (Inr (), ?w2\<lparr>w_streams := (w_streams ?w2)(sc_key c := w_streams ?w2 (sc_key c) @ es)\<rparr>)"
    and es: "\<forall>x\<in>set es. \<not> ends_stream x"
    using publish_retry_eq by blast
  have out: "res = Inr (Next st')"
    "w' = ?w2\<lparr>w_streams := (w_streams ?w2)(sc_key c := w_streams ?w2 (sc_key c) @ es)\<rparr>"
    using run retry by (simp_all add: op_put_session_def publish_def obind_def)
  have e1: "extends (sc_key c) w ?w1" using key by (rule extends_put_session)
  have e2: "extends (sc_key c) ?w1 ?w2" using e by (intro extends_streams) simp
  have e3: "extends (sc_key c) ?w2 w'" unfolding out(2) using es by (rule extends_streams)
  have "extends (sc_key c) w w'" using extends_trans [OF extends_trans [OF e1 e2] e3] .
  then show ?thesis using key by (simp add: out used_def)
qed

lemma on_refused_post:
  assumes r: "open_for (sc_key c) r" and key: "ss_session_key (as_session st) = sc_key c"
    and run: "on_refused c a st built r msg usage w = (res, w')"
  shows "\<exists>fl. res = Inr fl \<and> handler_post (bill_nonneg usage) c st built r w fl w'"
proof -
  define cost where "cost = (case usage_cost usage of None \<Rightarrow> rv_estimate r | Some c \<Rightarrow> c)"
  define n where "n = length (ss_iterations (as_session st)) + 1"
  define it where "it = (blank_iteration c n built)\<lparr>it_charged := 0 < cost, it_cost := cost,
    it_usage := usage, it_error := Some (''generation refused: '' @ msg)\<rparr>"
  define st' where "st' = st\<lparr>as_session := add_iteration it (as_session st),
    as_reason := ''generation refused: '' @ msg, as_code := GENERATION_FAILED\<rparr>"
  let ?w1 = "w\<lparr>w_store := snd (snd (settle (usage_cost usage) r (w_store w)))\<rparr>"
  have tail: "res = Inr (Next st') \<and> extends (sc_key c) ?w1 w' \<and> w_gen_log w' = w_gen_log ?w1
      \<and> get_session (sc_key c) (w_store w') = Some (add_iteration it (as_session st))
      \<and> used (sc_key c) w' = used (sc_key c) ?w1"
  proof (rule failure_tail)
    show "ss_session_key (add_iteration it (as_session st)) = sc_key c" using key by simp
    show "\<not> ends_stream (IterationResultEvent n (0 < cost) cost None None None None
        (Some (''generation refused: '' @ msg)) (sc_meta c))" by simp
    show "obind (op_put_session (add_iteration it (as_session st))) (\<lambda>_.
        obind (publish (sc_key c) (IterationResultEvent n (0 < cost) cost None None None None
          (Some (''generation refused: '' @ msg)) (sc_meta c))) (\<lambda>_.
        obind (publish_retry c a n (''generation refused: '' @ msg) None) (\<lambda>_. ret (Next st')))) ?w1
      = (res, w')"
      using run
      by (simp add: on_refused_def op_settle_open [OF r] Let_def cost_def n_def it_def st'_def)
  qed
  have "extends (sc_key c) w w'"
    using extends_trans [OF extends_settle_eq [OF r]] tail by blast
  moreover have "bill_nonneg usage \<longrightarrow> rv_estimate_micro r \<le> used (sc_key c) w \<longrightarrow>
      used (sc_key c) ?w1 = used (sc_key c) w - rv_estimate_micro r + to_micro (it_cost it)"
    using settle_counter [OF r] by (auto simp: used_def it_def cost_def)
  moreover have "bill_nonneg usage \<longrightarrow> 0 \<le> rv_estimate r \<longrightarrow> 0 \<le> it_cost it"
    by (auto simp: it_def cost_def bill_nonneg_def split: option.splits)
  ultimately show ?thesis
    using tail
    by (intro exI [of _ "Next st'"])
       (auto simp: handler_post_def iter_post_def st'_def it_def n_def intro!: exI [of _ it])
qed

lemma on_failed_post:
  assumes r: "open_for (sc_key c) r" and key: "ss_session_key (as_session st) = sc_key c"
    and run: "on_failed c a st built r msg w = (res, w')"
  shows "\<exists>fl. res = Inr fl \<and> handler_post True c st built r w fl w'"
proof -
  define n where "n = length (ss_iterations (as_session st)) + 1"
  define reason where "reason = ''generation failed: '' @ msg"
  define it where "it = (blank_iteration c n built)\<lparr>it_error := Some reason\<rparr>"
  define st' where "st' = st\<lparr>as_session := add_iteration it (as_session st),
    as_reason := reason, as_code := GENERATION_FAILED\<rparr>"
  let ?w1 = "w\<lparr>w_store := snd (snd (cancel r (w_store w)))\<rparr>"
  have tail: "res = Inr (Next st') \<and> extends (sc_key c) ?w1 w' \<and> w_gen_log w' = w_gen_log ?w1
      \<and> get_session (sc_key c) (w_store w') = Some (add_iteration it (as_session st))
      \<and> used (sc_key c) w' = used (sc_key c) ?w1"
  proof (rule failure_tail)
    show "ss_session_key (add_iteration it (as_session st)) = sc_key c" using key by simp
    show "\<not> ends_stream (IterationResultEvent n False 0 None None None None (Some reason) (sc_meta c))"
      by simp
    show "obind (op_put_session (add_iteration it (as_session st))) (\<lambda>_.
        obind (publish (sc_key c) (IterationResultEvent n False 0 None None None None
          (Some reason) (sc_meta c))) (\<lambda>_.
        obind (publish_retry c a n reason None) (\<lambda>_. ret (Next st')))) ?w1 = (res, w')"
      using run
      by (simp add: on_failed_def op_cancel_open [OF r] Let_def n_def it_def st'_def reason_def)
  qed
  have "extends (sc_key c) w w'"
    using extends_trans [OF extends_cancel_eq [OF r]] tail by blast
  moreover have "rv_estimate_micro r \<le> used (sc_key c) w \<longrightarrow>
      used (sc_key c) ?w1 = used (sc_key c) w - rv_estimate_micro r"
    using r cancel_used [of r "w_store w" "sc_key c"] by (simp add: open_for_def used_def)
  ultimately show ?thesis
    using tail
    by (intro exI [of _ "Next st'"])
       (auto simp: handler_post_def iter_post_def st'_def it_def n_def intro!: exI [of _ it])
qed

lemma on_check_failed_post:
  assumes key: "ss_session_key (as_session st) = sc_key c"
    and run: "on_check_failed c a st it ref e w = (res, w')"
  shows "\<exists>st' it'. res = Inr (Next st') \<and> it' = it\<lparr>it_error := Some (''face-check failed: '' @ exn_text e)\<rparr>
    \<and> as_session st' = set_last_iteration it' (as_session st) \<and> as_best st' = as_best st
    \<and> as_best_bytes st' = as_best_bytes st \<and> as_face st' = as_face st
    \<and> extends (sc_key c) w w' \<and> w_gen_log w' = w_gen_log w
    \<and> get_session (sc_key c) (w_store w') = Some (as_session st') \<and> used (sc_key c) w' = used (sc_key c) w"
proof -
  define reason where "reason = ''face-check failed: '' @ exn_text e"
  define session where "session = set_last_iteration (it\<lparr>it_error := Some reason\<rparr>) (as_session st)"
  define st' where "st' = st\<lparr>as_session := session, as_reason := reason, as_code := GENERATION_FAILED\<rparr>"
  have "res = Inr (Next st') \<and> extends (sc_key c) w w' \<and> w_gen_log w' = w_gen_log w
      \<and> get_session (sc_key c) (w_store w') = Some session \<and> used (sc_key c) w' = used (sc_key c) w"
  proof (rule failure_tail)
    show "ss_session_key session = sc_key c" using key by (simp add: session_def)
    show "\<not> ends_stream (IterationResultEvent (it_n it) (it_charged it) (it_cost it) None None None
        (Some ref) (Some reason) (sc_meta c))" by simp
    show "obind (op_put_session session) (\<lambda>_.
        obind (publish (sc_key c) (IterationResultEvent (it_n it) (it_charged it) (it_cost it) None None
          None (Some ref) (Some reason) (sc_meta c))) (\<lambda>_.
        obind (publish_retry c a (it_n it) reason None) (\<lambda>_. ret (Next st')))) w = (res, w')"
      using run by (simp add: on_check_failed_def Let_def reason_def session_def st'_def)
  qed
  then show ?thesis
    by (intro exI [of _ st'] exI [of _ "it\<lparr>it_error := Some reason\<rparr>"])
       (auto simp: st'_def session_def reason_def)
qed

lemma on_checked_post:
  assumes key: "ss_session_key (as_session st) = sc_key c"
    and run: "on_checked c a st it ref data check w = (res, w')"
  shows "\<exists>fl. res = Inr fl \<and> as_session (flow_state fl) = as_session (checked_state st it ref data check)
    \<and> as_best (flow_state fl) = as_best (checked_state st it ref data check)
    \<and> as_best_bytes (flow_state fl) = as_best_bytes (checked_state st it ref data check)
    \<and> as_face (flow_state fl) = as_face (checked_state st it ref data check)
    \<and> \<not> is_halted fl \<and> (is_broke fl \<longleftrightarrow> fc_verdict check = PASSED)
    \<and> extends (sc_key c) w w' \<and> w_gen_log w' = w_gen_log w
    \<and> get_session (sc_key c) (w_store w') = Some (as_session (flow_state fl))
    \<and> used (sc_key c) w' = used (sc_key c) w"
proof -
  define st1 where "st1 = checked_state st it ref data check"
  define ev where "ev = IterationResultEvent (it_n it) (it_charged it) (it_cost it)
    (Some (fc_similarity check)) (Some (fc_verdict check)) (Some (fc_risk_level check)) (Some ref) None
    (sc_meta c)"
  have k1: "ss_session_key (as_session st1) = sc_key c"
    using key by (simp add: st1_def checked_state_def Let_def)
  let ?w1 = "w\<lparr>w_store := put_session (as_session st1) (w_store w)\<rparr>"
  let ?w2 = "?w1\<lparr>w_store := put_face (as_face st1) (w_store ?w1)\<rparr>"
  let ?w3 = "?w2\<lparr>w_streams := (w_streams ?w2)(sc_key c := w_streams ?w2 (sc_key c) @ [ev])\<rparr>"
  have e1: "extends (sc_key c) w ?w1" using k1 by (rule extends_put_session)
  have e2: "extends (sc_key c) ?w1 ?w2" by (rule extends_put_face)
  have e3: "extends (sc_key c) ?w2 ?w3" by (intro extends_streams) (simp add: ev_def)
  note e = extends_trans [OF extends_trans [OF e1 e2] e3]
  have run': "(if fc_verdict check = PASSED then ret (Broke st1)
      else obind (publish_retry c a (it_n it) ''identity similarity below target'' (Some (fc_verdict check)))
        (\<lambda>_. ret (Next (st1\<lparr>as_last := \<lparr>wf_similarity = Some (fc_similarity check),
                  wf_verdict = Some (fc_verdict check), wf_attempt = Some a\<rparr>,
                as_reason := no_deliverable, as_code := NO_DELIVERABLE\<rparr>)))) ?w3 = (res, w')"
    using run
    by (cases "fc_verdict check = PASSED")
       (simp_all add: on_checked_def Let_def obind_def op_put_session_def op_put_face_def publish_def
          st1_def ev_def)
  show ?thesis
  proof (cases "fc_verdict check = PASSED")
    case True
    with run' e k1 show ?thesis
      unfolding st1_def [symmetric] by (intro exI [of _ "Broke st1"]) (auto simp: used_def)
  next
    case False
    obtain es where retry: "publish_retry c a (it_n it) ''identity similarity below target''
          (Some (fc_verdict check)) ?w3 =
        (Inr (), ?w3\<lparr>w_streams := (w_streams ?w3)(sc_key c := w_streams ?w3 (sc_key c) @ es)\<rparr>)"
      and es: "\<forall>x\<in>set es. \<not> ends_stream x"
      using publish_retry_eq by blast
    have w': "w' = ?w3\<lparr>w_streams := (w_streams ?w3)(sc_key c := w_streams ?w3 (sc_key c) @ es)\<rparr>"
      using run' retry False by (simp add: obind_def)
    have "extends (sc_key c) w w'"
      unfolding w' using extends_trans [OF e extends_streams [OF es]] .
    with run' retry False k1 w' show ?thesis
      unfolding st1_def [symmetric]
      by (intro exI [of _ "Next (st1\<lparr>as_last := \<lparr>wf_similarity = Some (fc_similarity check),
            wf_verdict = Some (fc_verdict check), wf_attempt = Some a\<rparr>,
            as_reason := no_deliverable, as_code := NO_DELIVERABLE\<rparr>)"])
         (auto simp: used_def obind_def)
  qed
qed

lemma face_check_keep:
  "face_check np em ref img t = Inr check \<Longrightarrow> check = banded (fc_similarity check) t"
  using face_check_banded by fastforce

text \<open>A delivered frame: recorded before the face-check, then checked.\<close>

lemma on_generated_post:
  assumes r: "open_for (sc_key c) r" and key: "ss_session_key (as_session st) = sc_key c"
    and run: "on_generated env c a st built r g w = (res, w')"
  shows "(\<exists>fl. res = Inr fl \<and> handler_post (bill_nonneg (gi_usage g)) c st built r w fl w')
    \<or> (\<exists>e. res = Inl e \<and> stored_bytes env (gi_image_bytes g) = Inl e
         \<and> w' = w\<lparr>w_store := snd (snd (settle (usage_cost (gi_usage g)) r (w_store w)))\<rparr>)"
proof -
  define cost where "cost = (case usage_cost (gi_usage g) of None \<Rightarrow> rv_estimate r | Some c \<Rightarrow> c)"
  define n where "n = length (ss_iterations (as_session st)) + 1"
  define it where "it = (blank_iteration c n built)\<lparr>it_provider_request_id := Some (gi_provider_request_id g),
    it_result_ref := Some (result_ref (sc_key c) n), it_charged := 0 < cost, it_cost := cost,
    it_usage := gi_usage g\<rparr>"
  define st1 where "st1 = st\<lparr>as_session := add_iteration it (as_session st)\<rparr>"
  let ?w1 = "w\<lparr>w_store := snd (snd (settle (usage_cost (gi_usage g)) r (w_store w)))\<rparr>"
  show ?thesis
  proof (cases "stored_bytes env (gi_image_bytes g)")
    case (Inl e)
    with run show ?thesis by (simp add: on_generated_def op_settle_open [OF r] obind_def)
  next
    case (Inr data)
    let ?w2 = "?w1\<lparr>w_objects := (w_objects ?w1)(result_ref (sc_key c) n \<mapsto> data)\<rparr>"
    let ?w3 = "?w2\<lparr>w_store := put_session (as_session st1) (w_store ?w2)\<rparr>"
    have k1: "ss_session_key (as_session st1) = sc_key c" using key by (simp add: st1_def)
    have e: "extends (sc_key c) w ?w3"
      using extends_trans [OF extends_trans [OF extends_settle_eq [OF r] extends_objects]
          extends_put_session [OF k1]] .
    have c: "bill_nonneg (gi_usage g) \<longrightarrow> rv_estimate_micro r \<le> used (sc_key c) w \<longrightarrow>
        used (sc_key c) ?w3 = used (sc_key c) w - rv_estimate_micro r + to_micro cost"
      using settle_counter [OF r] by (auto simp: used_def cost_def)
    have nn: "bill_nonneg (gi_usage g) \<longrightarrow> 0 \<le> rv_estimate r \<longrightarrow> 0 \<le> cost"
      by (auto simp: cost_def bill_nonneg_def split: option.splits)
    have run': "(case face_check (le_numpy env) (le_embed env) (fp_embedding (as_face st1))
          (gi_image_bytes g) (sc_thresholds c) of
        Inl e \<Rightarrow> on_check_failed c a st1 it (result_ref (sc_key c) n) e
      | Inr check \<Rightarrow> on_checked c a st1 it (result_ref (sc_key c) n) (gi_image_bytes g) check) ?w3 = (res, w')"
      using run Inr
      by (cases "face_check (le_numpy env) (le_embed env) (fp_embedding (as_face st))
            (gi_image_bytes g) (sc_thresholds c)")
         (simp_all add: on_generated_def op_settle_open [OF r] obind_def Let_def storage_put_def
            op_put_session_def cost_def n_def it_def st1_def)
    show ?thesis
    proof (cases "face_check (le_numpy env) (le_embed env) (fp_embedding (as_face st1))
          (gi_image_bytes g) (sc_thresholds c)")
      case (Inl e2)
      with run' obtain st' it' where p: "res = Inr (Next st')"
        "it' = it\<lparr>it_error := Some (''face-check failed: '' @ exn_text e2)\<rparr>"
        "as_session st' = set_last_iteration it' (as_session st1)" "as_best st' = as_best st1"
        "as_best_bytes st' = as_best_bytes st1" "as_face st' = as_face st1"
        "extends (sc_key c) ?w3 w'" "w_gen_log w' = w_gen_log ?w3"
        "get_session (sc_key c) (w_store w') = Some (as_session st')"
        "used (sc_key c) w' = used (sc_key c) ?w3"
        using on_check_failed_post [OF k1, of a it "result_ref (sc_key c) n" e2 ?w3 res w'] by auto
      have "handler_post (bill_nonneg (gi_usage g)) c st built r w (Next st') w'"
        unfolding handler_post_def
        by (rule exI [of _ it'])
           (use p c nn extends_trans [OF e p(7)] in
             \<open>simp add: iter_post_def st1_def it_def n_def\<close>)
      with p(1) show ?thesis by blast
    next
      case (Inr check)
      define s where "s = fc_similarity check"
      have check: "check = banded s (sc_thresholds c)" unfolding s_def using face_check_keep [OF Inr] .
      obtain fl where p: "res = Inr fl"
        "as_session (flow_state fl) = as_session (checked_state st1 it (result_ref (sc_key c) n) (gi_image_bytes g) check)"
        "as_best (flow_state fl) = as_best (checked_state st1 it (result_ref (sc_key c) n) (gi_image_bytes g) check)"
        "as_best_bytes (flow_state fl) = as_best_bytes (checked_state st1 it (result_ref (sc_key c) n) (gi_image_bytes g) check)"
        "as_face (flow_state fl) = as_face (checked_state st1 it (result_ref (sc_key c) n) (gi_image_bytes g) check)"
        "\<not> is_halted fl" "is_broke fl \<longleftrightarrow> fc_verdict check = PASSED"
        "extends (sc_key c) ?w3 w'" "w_gen_log w' = w_gen_log ?w3"
        "get_session (sc_key c) (w_store w') = Some (as_session (flow_state fl))"
        "used (sc_key c) w' = used (sc_key c) ?w3"
        using on_checked_post [OF k1, of a it "result_ref (sc_key c) n" "gi_image_bytes g" check ?w3 res w']
          run' Inr by auto
      define it' where "it' = it\<lparr>it_similarity := Some s, it_verdict := Some (band s (sc_thresholds c)),
        it_risk_level := Some (risk_by_verdict (band s (sc_thresholds c)))\<rparr>"
      have "handler_post (bill_nonneg (gi_usage g)) c st built r w fl w'"
        unfolding handler_post_def
        by (rule exI [of _ it'])
           (use p c nn extends_trans [OF e p(8)] in
             \<open>simp add: iter_post_def checked_state_def Let_def check best_of_def it'_def st1_def it_def n_def\<close>)
      with p(1) show ?thesis by blast
    qed
  qed
qed

section \<open>One attempt\<close>

definition micro_calls :: "paid_call_record list \<Rightarrow> int" where
  "micro_calls cs = sum_list (map (\<lambda>p. to_micro (pc_cost p)) cs)"

definition micro_iterations :: "iteration list \<Rightarrow> int" where
  "micro_iterations its = sum_list (map (\<lambda>it. to_micro (it_cost it)) its)"

lemma micro_simps [simp]:
  "micro_calls [] = 0" "micro_calls (c # cs) = to_micro (pc_cost c) + micro_calls cs"
  "micro_calls (as @ bs) = micro_calls as + micro_calls bs"
  "micro_iterations [] = 0" "micro_iterations (i # is) = to_micro (it_cost i) + micro_iterations is"
  "micro_iterations (is @ js) = micro_iterations is + micro_iterations js"
  by (simp_all add: micro_calls_def micro_iterations_def)

definition ctx_ok :: "step_ctx \<Rightarrow> attempt_state \<Rightarrow> bool" where
  "ctx_ok c st \<longleftrightarrow> me_session_key (sc_meter c) = sc_key c \<and> ss_session_key (as_session st) = sc_key c"

definition writer_post :: "bool \<Rightarrow> string \<Rightarrow> session_state \<Rightarrow> session_state \<Rightarrow> world \<Rightarrow> world \<Rightarrow> bool" where
  \<comment> \<open>a writer call was made and its cost recorded\<close>
  "writer_post h k s s' w w' \<longleftrightarrow>
     extends k w w' \<and> w_gen_log w' = w_gen_log w
     \<and> (get_session k (w_store w) = Some s \<longrightarrow> get_session k (w_store w') = Some s')
     \<and> (\<exists>calls. s' = s\<lparr>ss_llm_calls := ss_llm_calls s @ calls\<rparr> \<and> list_all (\<lambda>p. 0 < pc_cost p) calls
          \<and> (h \<longrightarrow> 0 \<le> used k w \<longrightarrow> used k w' = used k w + micro_calls calls))"

lemma writer_post_refl [simp]: "writer_post h k s s w w"
  by (auto simp: writer_post_def intro!: exI [of _ "[]"])

lemma record_writer_post:
  assumes key: "ss_session_key s = k" and q: "quiet k w w1" and ch: "charged h k (wt_cost r) w w1"
    and rec: "record_writer_cost s r w1 = (res, w2)"
  shows "\<exists>s'. res = Inr s' \<and> writer_post h k s s' w w2"
proof (cases "0 < wt_cost r")
  case True
  let ?call = "\<lparr>pc_kind = SLOT_FILL, pc_cost = wt_cost r, pc_usage = wt_usage r\<rparr>"
  let ?s' = "s\<lparr>ss_llm_calls := ss_llm_calls s @ [?call]\<rparr>"
  have out: "res = Inr ?s'" "w2 = w1\<lparr>w_store := put_session ?s' (w_store w1)\<rparr>"
    using rec True by (auto simp: record_writer_cost_def op_put_session_def Let_def)
  have "extends k w w2"
    unfolding out using extends_trans [OF quiet_extends [OF q] extends_put_session [of ?s' k w1]] key by simp
  moreover have "w_gen_log w2 = w_gen_log w" using q by (simp add: out quiet_def)
  moreover have "h \<longrightarrow> 0 \<le> used k w \<longrightarrow> used k w2 = used k w + micro_calls [?call]"
    using ch by (simp add: charged_def out)
  ultimately show ?thesis
    using True key out(1)
    by (intro exI [of _ ?s']) (auto simp: writer_post_def out(2) intro!: exI [of _ "[?call]"])
next
  case False
  then have "h \<longrightarrow> wt_cost r = 0" using ch by (auto simp: charged_def)
  moreover have "res = Inr s" "w2 = w1" using rec False by (simp_all add: record_writer_cost_def)
  moreover have "get_session k (w_store w1) = get_session k (w_store w)"
    using q by (simp add: quiet_def get_session_def)
  ultimately show ?thesis
    using q ch quiet_extends [OF q]
    by (auto simp: writer_post_def charged_def quiet_def intro!: exI [of _ "[]"])
qed

definition attempt_post ::
  "bool \<Rightarrow> step_ctx \<Rightarrow> attempt_state \<Rightarrow> world \<Rightarrow> flow \<Rightarrow> world \<Rightarrow> bool" where
  "attempt_post h c st w fl w' \<longleftrightarrow>
     (\<exists>calls its.
        ss_core (as_session (flow_state fl)) = ss_core (as_session st)
        \<and> ss_llm_calls (as_session (flow_state fl)) = ss_llm_calls (as_session st) @ calls
        \<and> ss_iterations (as_session (flow_state fl)) = ss_iterations (as_session st) @ its
        \<and> list_all (\<lambda>p. 0 < pc_cost p) calls
        \<and> (is_halted fl \<longrightarrow> its = [] \<and> as_best (flow_state fl) = as_best st
             \<and> as_best_bytes (flow_state fl) = as_best_bytes st \<and> w_gen_log w' = w_gen_log w)
        \<and> (\<not> is_halted fl \<longrightarrow>
             (\<exists>it req. its = [it] \<and> it_n it = length (ss_iterations (as_session st)) + 1
                \<and> it_step_n it = st_n (sc_step c) \<and> iter_post (sc_thresholds c) (sc_key c) st it (flow_state fl)
                \<and> (is_broke fl \<longleftrightarrow> it_verdict it = Some PASSED)
                \<and> it_prompt_text it = Some (gq_prompt req) \<and> gq_reference_images req = [sc_working c]
                \<and> gq_face_crop req = sc_face_crop c \<and> w_gen_log w' = w_gen_log w @ [req]))
        \<and> (get_session (sc_key c) (w_store w) = Some (as_session st) \<longrightarrow>
             get_session (sc_key c) (w_store w') = Some (as_session (flow_state fl)))
        \<and> (h \<longrightarrow> list_all (\<lambda>it. 0 \<le> it_cost it) its)
        \<and> (h \<longrightarrow> 0 \<le> used (sc_key c) w \<longrightarrow>
             used (sc_key c) w' = used (sc_key c) w + micro_calls calls + micro_iterations its))"

lemma bills_okD:
  assumes "bills_ok env"
  shows "le_generate env h req = Generated g \<Longrightarrow> bill_nonneg (gi_usage g)"
    and "le_generate env h req = Refused m u \<Longrightarrow> bill_nonneg u"
proof -
  have *: "case le_generate env h req of
      Generated g \<Rightarrow> (\<forall>c. usage_cost (gi_usage g) = Some c \<longrightarrow> 0 \<le> c)
    | Refused _ u \<Rightarrow> (\<forall>c. usage_cost u = Some c \<longrightarrow> 0 \<le> c) | Gen_Failed _ \<Rightarrow> True"
    using assms unfolding bills_ok_def by blast
  show "le_generate env h req = Generated g \<Longrightarrow> bill_nonneg (gi_usage g)"
    and "le_generate env h req = Refused m u \<Longrightarrow> bill_nonneg u"
    using * by (simp_all add: bill_nonneg_def)
qed

lemma send_attempt_post:
  assumes r: "open_for (sc_key c) r" and key: "ss_session_key (as_session st) = sc_key c"
    and run: "send_attempt env c a st built params r w = (res, w')"
  defines "req \<equiv> \<lparr>gq_prompt = bp_text built, gq_params = params,
              gq_reference_images = [sc_working c], gq_face_crop = sc_face_crop c\<rparr>"
  defines "w2 \<equiv> w\<lparr>w_streams := (w_streams w)(sc_key c := w_streams w (sc_key c)
              @ [IterationStartEvent (length (ss_iterations (as_session st)) + 1)]),
              w_gen_log := w_gen_log w @ [req]\<rparr>"
  shows "extends (sc_key c) w w'
    \<and> (\<forall>fl. res = Inr fl \<longrightarrow> (\<exists>ok. (bills_ok env \<longrightarrow> ok) \<and> handler_post ok c st built r w2 fl w'))"
proof -
  let ?ev = "IterationStartEvent (length (ss_iterations (as_session st)) + 1)"
  have e: "extends (sc_key c) w w2"
    by (auto simp: w2_def extends_def narrates_def used_def intro!: exI [of _ "[?ev]"])
  have run': "(case le_generate env (w_gen_log w) req of
      Refused msg usage \<Rightarrow> on_refused c a st built r msg usage
    | Gen_Failed msg \<Rightarrow> on_failed c a st built r msg
    | Generated g \<Rightarrow> on_generated env c a st built r g) w2 = (res, w')"
    using run
    by (cases "le_generate env (w_gen_log w) req")
       (simp_all add: send_attempt_def obind_def publish_def op_generate_def req_def [symmetric] w2_def)
  show ?thesis
  proof (cases "le_generate env (w_gen_log w) req")
    case (Generated g)
    then have og: "on_generated env c a st built r g w2 = (res, w')" using run' by simp
    from on_generated_post [OF r key og] show ?thesis
    proof (elim disjE exE conjE)
      fix fl assume "res = Inr fl" and hp: "handler_post (bill_nonneg (gi_usage g)) c st built r w2 fl w'"
      moreover have "extends (sc_key c) w2 w'" using hp by (auto simp: handler_post_def)
      ultimately show ?thesis using extends_trans [OF e] bills_okD(1) [OF _ Generated] by blast
    next
      fix x assume "res = Inl x"
        and "w' = w2\<lparr>w_store := snd (snd (settle (usage_cost (gi_usage g)) r (w_store w2)))\<rparr>"
      then show ?thesis using extends_trans [OF e extends_settle_eq [OF r]] by simp
    qed
  next
    case (Refused msg usage)
    then have og: "on_refused c a st built r msg usage w2 = (res, w')" using run' by simp
    from on_refused_post [OF r key og] obtain fl where fl: "res = Inr fl"
      and hp: "handler_post (bill_nonneg usage) c st built r w2 fl w'" by blast
    moreover have "extends (sc_key c) w2 w'" using hp by (auto simp: handler_post_def)
    ultimately show ?thesis using extends_trans [OF e] bills_okD(2) [OF _ Refused] by blast
  next
    case (Gen_Failed msg)
    then have og: "on_failed c a st built r msg w2 = (res, w')" using run' by simp
    from on_failed_post [OF r key og] obtain fl where fl: "res = Inr fl"
      and hp: "handler_post True c st built r w2 fl w'" by blast
    moreover have "extends (sc_key c) w2 w'" using hp by (auto simp: handler_post_def)
    ultimately show ?thesis using extends_trans [OF e] by blast
  qed
qed

lemma reserve_estimate_nonneg:
  assumes ok: "pricing_ok (le_pricing env)" and r: "reserve_estimate env built crop sz = Inr e"
  shows "0 \<le> e"
proof -
  let ?d = "if crop \<noteq> None then Some (gen_face_media_resolution (bp_params built)) else None"
  have g: "generation_reserve (le_pricing env) (le_generation_model env) (py_len (bp_text built)) 1 sz ?d = Inr e"
    using r by (simp add: reserve_estimate_def)
  then obtain c where c: "predict_generation_cost (le_pricing env) (le_generation_model env)
      (py_len (bp_text built)) 1 sz ?d = Inr c"
    using reserve_iff_predict by blast
  have "0 \<le> c" using predict_nonneg [OF ok _ _ c] by simp
  also have "c \<le> e" using reserve_ge_predict [OF ok _ _ c g] by simp
  finally show ?thesis .
qed

context loop_services
begin

lemma attempt_prompt_post:
  assumes hm: "h \<longrightarrow> money_ok env \<and> honest (sc_meter c)"
    and ok: "ctx_ok c st" and run: "attempt_prompt env c a st w = (res, w')"
  shows "extends (sc_key c) w w' \<and> (\<forall>built params st1. res = Inr (built, params, st1) \<longrightarrow>
    writer_post h (sc_key c) (as_session st) (as_session st1) w w'
    \<and> as_best st1 = as_best st \<and> as_best_bytes st1 = as_best_bytes st \<and> as_face st1 = as_face st)"
proof (cases "1 < a \<and> \<not> st_is_enhance (sc_step c)")
  case False
  with run show ?thesis by (auto simp: attempt_prompt_def Let_def split: if_splits)
next
  case True
  show ?thesis
  proof (cases "sc_request c")
    case None
    with run True show ?thesis by (auto simp: attempt_prompt_def Let_def)
  next
    case (Some request)
    obtain x w1 where rv: "le_revise env (as_prev_body st) (as_last st) request (sc_meter c) w = (x, w1)"
      by fastforce
    have q: "quiet (sc_key c) w w1" using revise_quiet [OF rv] ok by (simp add: ctx_ok_def)
    show ?thesis
    proof (cases x)
      case (Inl e)
      with run True Some rv q show ?thesis
        by (auto simp: attempt_prompt_def Let_def obind_def intro: quiet_extends)
    next
      case (Inr r)
      have ch: "charged h (sc_key c) (wt_cost r) w w1"
        using revise_charged [OF rv [unfolded Inr]] ok hm by (auto simp: ctx_ok_def charged_def)
      obtain y w2 where rec: "record_writer_cost (as_session st) r w1 = (y, w2)" by fastforce
      then obtain s' where y: "y = Inr s'" and wp: "writer_post h (sc_key c) (as_session st) s' w w2"
        using record_writer_post [OF _ q ch rec] ok by (auto simp: ctx_ok_def)
      have e: "extends (sc_key c) w w2" using wp by (simp add: writer_post_def)
      show ?thesis
      proof (cases "assemble (sc_preset c) (wt_body r) (sc_step c) (sc_locked c) (sc_lock_items c) (sc_lighting c)")
        case (Inl e2)
        with run True Some rv \<open>x = Inr r\<close> rec y e show ?thesis
          by (simp add: attempt_prompt_def Let_def obind_def) blast
      next
        case (Inr built)
        with run True Some rv \<open>x = Inr r\<close> rec y have "w' = w2"
          "res = Inr (built, final_params c (cooled_params c a),
             st\<lparr>as_session := s', as_prev_body := wt_body r\<rparr>)"
          by (simp_all add: attempt_prompt_def Let_def obind_def)
        with wp e show ?thesis by auto
      qed
    qed
  qed
qed

lemma attempt_extends_spec:
  assumes hm: "h \<longrightarrow> money_ok env \<and> honest (sc_meter c)"
    and ok: "ctx_ok c st" and run: "attempt env c a st w = (res, w')"
  shows "extends (sc_key c) w w' \<and> (\<forall>fl. res = Inr fl \<longrightarrow> attempt_post h c st w fl w')"
proof -
  obtain p w1 where ap: "attempt_prompt env c a st w = (p, w1)" by fastforce
  note app = attempt_prompt_post [OF hm ok ap]
  show ?thesis
  proof (cases p)
    case (Inl e)
    with run ap app show ?thesis by (auto simp: attempt_def obind_def)
  next
    case (Inr bps)
    obtain built params st1 where p: "p = Inr (built, params, st1)" using Inr by (cases bps) auto
    have wp: "writer_post h (sc_key c) (as_session st) (as_session st1) w w1"
      and same: "as_best st1 = as_best st" "as_best_bytes st1 = as_best_bytes st" "as_face st1 = as_face st"
      using app p by auto
    obtain calls where calls: "as_session st1 = as_session st\<lparr>ss_llm_calls := ss_llm_calls (as_session st) @ calls\<rparr>"
      "list_all (\<lambda>p. 0 < pc_cost p) calls" "h \<longrightarrow> 0 \<le> used (sc_key c) w \<longrightarrow> used (sc_key c) w1 = used (sc_key c) w + micro_calls calls"
      using wp by (auto simp: writer_post_def)
    have key1: "ss_session_key (as_session st1) = sc_key c" using ok calls(1) by (simp add: ctx_ok_def)
    show ?thesis
    proof (cases "reserve_estimate env built (sc_face_crop c) (gen_output_size params)")
      case (Inl e)
      with run ap p app show ?thesis by (auto simp: attempt_def obind_def)
    next
      case (Inr est)
      obtain rr w2 where rs: "op_reserve (sc_meter c) GENERATION (Some est) w1 = (rr, w2)" by fastforce
      have run': "(case rr of Inl e \<Rightarrow> (Inl e, w2) | Inr None \<Rightarrow> ret (Halted st1) w2
          | Inr (Some r) \<Rightarrow> send_attempt env c a st1 built params r w2) = (res, w')"
        using run ap p Inr rs by (cases rr) (auto simp: attempt_def obind_def split: option.splits)
      have e2: "extends (sc_key c) w w2"
        using extends_trans extends_reserve [OF rs] app ok by (auto simp: ctx_ok_def)
      from rs show ?thesis
      proof (cases rule: op_reserve_cases)
        case (error e)
        with run' e2 show ?thesis by auto
      next
        case (refused amount)
        then have out: "res = Inr (Halted st1)" "w' = w1" using run' by simp_all
        have "attempt_post h c st w (Halted st1) w1"
          unfolding attempt_post_def using calls wp same
          by (intro exI [of _ calls] exI [of _ "[]"]) (simp add: writer_post_def)
        with out e2 refused show ?thesis by simp
      next
        case (held amount s)
        then have am: "amount = est" by auto
        define r where "r = mk_reservation (me_session_key (sc_meter c)) amount"
        have open_r: "open_for (sc_key c) r" using ok by (simp add: r_def open_for_def ctx_ok_def)
        have sa: "send_attempt env c a st1 built params r w2 = (res, w')" using run' held(1) by (simp add: r_def)
        note sp = send_attempt_post [OF open_r key1 sa]
        have "attempt_post h c st w fl w'" if fl: "res = Inr fl" for fl
        proof -
          obtain okb where okb: "bills_ok env \<longrightarrow> okb"
            and hp: "handler_post okb c st1 built r
              (w2\<lparr>w_streams := (w_streams w2)(sc_key c := w_streams w2 (sc_key c)
                   @ [IterationStartEvent (length (ss_iterations (as_session st1)) + 1)]),
                  w_gen_log := w_gen_log w2 @ [\<lparr>gq_prompt = bp_text built, gq_params = params,
                    gq_reference_images = [sc_working c], gq_face_crop = sc_face_crop c\<rparr>]\<rparr>) fl w'"
            using sp fl by blast
          from hp obtain it where it: "as_session (flow_state fl) = add_iteration it (as_session st1)"
            "it_n it = length (ss_iterations (as_session st1)) + 1" "it_step_n it = st_n (sc_step c)"
            "it_prompt_text it = Some (bp_text built)"
            "iter_post (sc_thresholds c) (sc_key c) st1 it (flow_state fl)"
            "\<not> is_halted fl" "is_broke fl \<longleftrightarrow> it_verdict it = Some PASSED"
            "w_gen_log w' = w_gen_log w2 @ [\<lparr>gq_prompt = bp_text built, gq_params = params,
                gq_reference_images = [sc_working c], gq_face_crop = sc_face_crop c\<rparr>]"
            "get_session (sc_key c) (w_store w') = Some (as_session (flow_state fl))"
            "okb \<longrightarrow> rv_estimate_micro r \<le> used (sc_key c) w2 \<longrightarrow>
               used (sc_key c) w' = used (sc_key c) w2 - rv_estimate_micro r + to_micro (it_cost it)"
            "okb \<longrightarrow> 0 \<le> rv_estimate r \<longrightarrow> 0 \<le> it_cost it"
            unfolding handler_post_def by (auto simp: used_def)
          have ip: "iter_post (sc_thresholds c) (sc_key c) st it (flow_state fl)"
            using it(5) by (simp only: iter_post_def same)
          have log: "w_gen_log w2 = w_gen_log w" using held(3) wp by (simp add: writer_post_def)
          have money: "used (sc_key c) w' = used (sc_key c) w + micro_calls calls + to_micro (it_cost it)"
            if hh: h and nn: "0 \<le> used (sc_key c) w"
          proof -
            have b: "money_ok env" using hm hh by simp
            have "0 \<le> micro_calls calls"
              using calls(2) unfolding micro_calls_def
              by (intro sum_list_nonneg) (auto simp: list_all_iff to_micro_nonneg)
            moreover have u1: "used (sc_key c) w1 = used (sc_key c) w + micro_calls calls" using calls(3) nn hh by simp
            moreover have "used (sc_key c) w2 = used (sc_key c) w1 + rv_estimate_micro r"
              using held(5) ok by (simp add: r_def ctx_ok_def)
            ultimately show ?thesis using it(10) okb b nn by (simp add: money_ok_def)
          qed
          have cost: "0 \<le> it_cost it" if hh: h
          proof -
            have b: "money_ok env" using hm hh by simp
            have "0 \<le> est" using b Inr by (auto intro: reserve_estimate_nonneg simp: money_ok_def)
            then have "0 \<le> rv_estimate r" using am by (simp add: r_def)
            with it(11) okb b show ?thesis by (simp add: money_ok_def)
          qed
          show ?thesis
            unfolding attempt_post_def
            by (rule exI [of _ calls], rule exI [of _ "[it]"])
               (use it ip calls log money cost in simp)
        qed
        with sp e2 show ?thesis using extends_trans by blast
      qed
    qed
  qed
qed

end

end
