(* ===== verification/Loop_Chain.thy ===== *)
theory Loop_Chain
  imports Loop_Attempt
begin

text \<open>
  From one attempt to the whole run. \<open>grows\<close> relates the session before and after any part of
  the loop: which iterations were appended, which requests went to the provider, and what the
  budget counter moved by; it composes. \<open>best_inv\<close> says what keep-best keeps within a step.
\<close>

section \<open>What every part of the loop appends\<close>

definition iter_ok :: "thresholds \<Rightarrow> string \<Rightarrow> iteration \<Rightarrow> bool" where
  "iter_ok t k it \<longleftrightarrow>
     (it_charged it \<longleftrightarrow> 0 < it_cost it)
     \<and> (\<forall>ref. it_result_ref it = Some ref \<longrightarrow> ref = result_ref k (it_n it))
     \<and> (case it_similarity it of None \<Rightarrow> it_verdict it = None
        | Some s \<Rightarrow> it_verdict it = Some (band s t) \<and> it_result_ref it = Some (result_ref k (it_n it)))"

definition ss_frame :: "session_state \<Rightarrow> session_state" where
  \<comment> \<open>what no part of the loop changes\<close>
  "ss_frame s = s\<lparr>ss_iterations := [], ss_llm_calls := [], ss_plan := None, ss_best_result := None,
                  ss_fsm_state := CREATED\<rparr>"

lemma ss_frame_simps [simp]:
  "ss_frame (s\<lparr>ss_iterations := a\<rparr>) = ss_frame s" "ss_frame (s\<lparr>ss_llm_calls := b\<rparr>) = ss_frame s"
  "ss_frame (s\<lparr>ss_plan := p\<rparr>) = ss_frame s" "ss_frame (s\<lparr>ss_best_result := r\<rparr>) = ss_frame s"
  "ss_frame (s\<lparr>ss_fsm_state := f\<rparr>) = ss_frame s" "ss_frame (set_plan_step i st s) = ss_frame s"
  by (simp_all add: ss_frame_def set_plan_step_def)

lemma ss_core_frame: "ss_core s = ss_core s' \<Longrightarrow> ss_frame s = ss_frame s'"
  by (cases s; cases s') (simp add: ss_core_def ss_frame_def)

lemma ss_frame_key: "ss_frame s = ss_frame s' \<Longrightarrow> ss_session_key s = ss_session_key s'"
  by (cases s; cases s') (simp add: ss_frame_def)

definition answers :: "bytes option \<Rightarrow> iteration \<Rightarrow> gen_request \<Rightarrow> bool" where
  \<comment> \<open>the iteration records this request, which carried the original crop and one image\<close>
  "answers crop it r \<longleftrightarrow>
     it_prompt_text it = Some (gq_prompt r) \<and> gq_face_crop r = crop \<and> length (gq_reference_images r) = 1"

definition grows ::
  "bool \<Rightarrow> thresholds \<Rightarrow> string \<Rightarrow> bytes option \<Rightarrow> session_state \<Rightarrow> world
     \<Rightarrow> iteration list \<Rightarrow> gen_request list \<Rightarrow> session_state \<Rightarrow> world \<Rightarrow> bool" where
  "grows h t k crop s w its reqs s' w' \<longleftrightarrow>
     ss_frame s' = ss_frame s \<and> ss_iterations s' = ss_iterations s @ its
     \<and> map it_n its = [Suc (length (ss_iterations s))..<Suc (length (ss_iterations s) + length its)]
     \<and> list_all (iter_ok t k) its \<and> list_all2 (answers crop) its reqs
     \<and> w_gen_log w' = w_gen_log w @ reqs \<and> extends k w w'
     \<and> (\<exists>calls. ss_llm_calls s' = ss_llm_calls s @ calls \<and> list_all (\<lambda>p. 0 < pc_cost p) calls
          \<and> (h \<longrightarrow> list_all (\<lambda>it. 0 \<le> it_cost it) its)
          \<and> (h \<longrightarrow> 0 \<le> used k w \<longrightarrow>
               used k w' = used k w + micro_calls calls + micro_iterations its))
     \<and> (get_session k (w_store w) = Some s \<longrightarrow> get_session k (w_store w') = Some s')"

lemma grows_refl: "grows h t k crop s w [] [] s w"
  by (simp add: grows_def)

lemma micro_nonneg:
  "list_all (\<lambda>p. 0 < pc_cost p) calls \<Longrightarrow> 0 \<le> micro_calls calls"
  "list_all (\<lambda>it. 0 \<le> it_cost it) its \<Longrightarrow> 0 \<le> micro_iterations its"
proof -
  show "0 \<le> micro_calls calls" if "list_all (\<lambda>p. 0 < pc_cost p) calls"
    using that by (induction calls) (auto simp: to_micro_nonneg less_imp_le)
  show "0 \<le> micro_iterations its" if "list_all (\<lambda>it. 0 \<le> it_cost it) its"
    using that by (induction its) (auto simp: to_micro_nonneg)
qed

lemma grows_trans:
  assumes "grows h t k crop s w i1 r1 s1 w1" and "grows h t k crop s1 w1 i2 r2 s2 w2"
  shows "grows h t k crop s w (i1 @ i2) (r1 @ r2) s2 w2"
proof -
  from assms(1) obtain c1 where c1: "ss_llm_calls s1 = ss_llm_calls s @ c1"
    "list_all (\<lambda>p. 0 < pc_cost p) c1" "h \<longrightarrow> list_all (\<lambda>it. 0 \<le> it_cost it) i1"
    "h \<longrightarrow> 0 \<le> used k w \<longrightarrow> used k w1 = used k w + micro_calls c1 + micro_iterations i1"
    by (auto simp: grows_def)
  from assms(2) obtain c2 where c2: "ss_llm_calls s2 = ss_llm_calls s1 @ c2"
    "list_all (\<lambda>p. 0 < pc_cost p) c2" "h \<longrightarrow> list_all (\<lambda>it. 0 \<le> it_cost it) i2"
    "h \<longrightarrow> 0 \<le> used k w1 \<longrightarrow> used k w2 = used k w1 + micro_calls c2 + micro_iterations i2"
    by (auto simp: grows_def)
  have n: "map it_n (i1 @ i2) = [Suc (length (ss_iterations s))..<Suc (length (ss_iterations s) + length (i1 @ i2))]"
    using assms upt_add_eq_append [of "Suc (length (ss_iterations s))" "Suc (length (ss_iterations s) + length i1)" "length i2"]
    by (simp add: grows_def add.assoc del: upt_Suc)
  have m: "used k w2 = used k w + micro_calls (c1 @ c2) + micro_iterations (i1 @ i2)"
    if "h" "0 \<le> used k w"
  proof -
    have "0 \<le> used k w1" using c1 that micro_nonneg(1) [OF c1(2)] micro_nonneg(2) [of i1] by simp
    with c1(4) c2(4) that show ?thesis by simp
  qed
  have x: "extends k w w2" using assms extends_trans unfolding grows_def by blast
  show ?thesis
    using assms c1 c2 n m x
    by (auto simp: grows_def list_all2_appendI intro!: exI [of _ "c1 @ c2"] simp del: upt_Suc)
qed

lemma grows_frame_update:
  "ss_frame s1 = ss_frame s \<Longrightarrow> ss_iterations s1 = ss_iterations s \<Longrightarrow> ss_llm_calls s1 = ss_llm_calls s
    \<Longrightarrow> extends k w w1 \<Longrightarrow> w_gen_log w1 = w_gen_log w \<Longrightarrow> used k w1 = used k w
    \<Longrightarrow> get_session k (w_store w1) = Some s1 \<Longrightarrow> grows h t k crop s w [] [] s1 w1"
  by (simp add: grows_def)

lemma writer_post_grows: "writer_post h k s s' w w' \<Longrightarrow> grows h t k crop s w [] [] s' w'"
  unfolding writer_post_def by (auto simp: grows_def)

lemma grows_used_nonneg:
  assumes "grows h t k crop s w its reqs s' w'" "h" "0 \<le> used k w"
  shows "0 \<le> used k w'"
  using assms micro_nonneg by (auto simp: grows_def)

section \<open>Keep-best\<close>

definition delivers :: "thresholds \<Rightarrow> string \<Rightarrow> iteration \<Rightarrow> best_result \<Rightarrow> bool" where
  "delivers t k it b \<longleftrightarrow>
     (\<exists>s. it_similarity it = Some s \<and> b = best_of k t (it_n it) s \<and> band s t \<noteq> BELOW_FLOOR)"

definition best_inv :: "thresholds \<Rightarrow> string \<Rightarrow> iteration list \<Rightarrow> best_result option \<Rightarrow> bool" where
  "best_inv t k its best \<longleftrightarrow>
     (case best of
        None \<Rightarrow> \<forall>it\<in>set its. \<forall>s. it_similarity it = Some s \<longrightarrow> band s t = BELOW_FLOOR
      | Some b \<Rightarrow> (\<exists>it\<in>set its. delivers t k it b)
          \<and> (\<forall>it\<in>set its. \<forall>s. it_similarity it = Some s \<longrightarrow> band s t \<noteq> BELOW_FLOOR \<longrightarrow> s \<le> br_similarity b))"

lemma best_inv_step:
  assumes inv: "best_inv t k its (as_best st)" and post: "iter_post t k st it st'"
  shows "best_inv t k (its @ [it]) (as_best st')"
proof (cases "it_similarity it")
  case None
  with post have "as_best st' = as_best st" by (simp add: iter_post_def)
  with inv None show ?thesis by (auto simp: best_inv_def split: option.splits)
next
  case (Some s)
  show ?thesis
  proof (cases "keep_best_in_step (as_best st) (banded s t)")
    case True
    with post Some have b: "as_best st' = Some (best_of k t (it_n it) s)" by (simp add: iter_post_def)
    have fl: "band s t \<noteq> BELOW_FLOOR" using True by (simp add: keep_best_in_step_def split: if_splits)
    have "s' \<le> s" if "it'\<in>set its" "it_similarity it' = Some s'" "band s' t \<noteq> BELOW_FLOOR" for it' s'
    proof (cases "as_best st")
      case None
      with inv that show ?thesis by (auto simp: best_inv_def)
    next
      case (Some b0)
      then have "s' \<le> br_similarity b0" using inv that by (auto simp: best_inv_def)
      moreover have "br_similarity b0 < s" using True Some fl by (simp add: keep_best_in_step_def)
      ultimately show ?thesis by simp
    qed
    with Some b fl show ?thesis by (auto simp: best_inv_def delivers_def best_of_def)
  next
    case False
    with post Some have "as_best st' = as_best st" by (simp add: iter_post_def)
    with inv Some False show ?thesis
      by (auto simp: best_inv_def keep_best_in_step_def split: option.splits if_splits)
  qed
qed

definition bytes_inv :: "attempt_state \<Rightarrow> bool" where
  "bytes_inv st \<longleftrightarrow> (as_best st = None \<longleftrightarrow> as_best_bytes st = None)"

lemma bytes_inv_step: "bytes_inv st \<Longrightarrow> iter_post t k st it st' \<Longrightarrow> bytes_inv st'"
  by (auto simp: bytes_inv_def iter_post_def split: option.splits if_splits)

lemma iter_post_ok: "iter_post t k st it st' \<Longrightarrow> iter_ok t k it"
  by (auto simp: iter_post_def iter_ok_def split: option.splits)

section \<open>The attempts of a step\<close>

lemma attempt_grows:
  assumes post: "attempt_post h c st w fl w'" and x: "extends (sc_key c) w w'"
    and key: "ss_session_key (as_session st) = sc_key c"
  shows "\<exists>its reqs. grows h (sc_thresholds c) (sc_key c) (sc_face_crop c) (as_session st) w its reqs
      (as_session (flow_state fl)) w'
    \<and> length its \<le> 1 \<and> (\<forall>r\<in>set reqs. gq_reference_images r = [sc_working c])
    \<and> (\<forall>its0. best_inv (sc_thresholds c) (sc_key c) its0 (as_best st)
        \<longrightarrow> best_inv (sc_thresholds c) (sc_key c) (its0 @ its) (as_best (flow_state fl)))
    \<and> (bytes_inv st \<longrightarrow> bytes_inv (flow_state fl))"
proof -
  from post obtain calls its where p:
    "ss_core (as_session (flow_state fl)) = ss_core (as_session st)"
    "ss_llm_calls (as_session (flow_state fl)) = ss_llm_calls (as_session st) @ calls"
    "ss_iterations (as_session (flow_state fl)) = ss_iterations (as_session st) @ its"
    "list_all (\<lambda>p. 0 < pc_cost p) calls"
    "is_halted fl \<longrightarrow> its = [] \<and> as_best (flow_state fl) = as_best st
       \<and> as_best_bytes (flow_state fl) = as_best_bytes st \<and> w_gen_log w' = w_gen_log w"
    "\<not> is_halted fl \<longrightarrow> (\<exists>it req. its = [it] \<and> it_n it = length (ss_iterations (as_session st)) + 1
        \<and> it_step_n it = st_n (sc_step c) \<and> iter_post (sc_thresholds c) (sc_key c) st it (flow_state fl)
        \<and> (is_broke fl \<longleftrightarrow> it_verdict it = Some PASSED)
        \<and> it_prompt_text it = Some (gq_prompt req) \<and> gq_reference_images req = [sc_working c]
        \<and> gq_face_crop req = sc_face_crop c \<and> w_gen_log w' = w_gen_log w @ [req])"
    "get_session (sc_key c) (w_store w) = Some (as_session st) \<longrightarrow>
       get_session (sc_key c) (w_store w') = Some (as_session (flow_state fl))"
    "h \<longrightarrow> list_all (\<lambda>it. 0 \<le> it_cost it) its"
    "h \<longrightarrow> 0 \<le> used (sc_key c) w \<longrightarrow>
       used (sc_key c) w' = used (sc_key c) w + micro_calls calls + micro_iterations its"
    unfolding attempt_post_def by blast
  have fr: "ss_frame (as_session (flow_state fl)) = ss_frame (as_session st)"
    using ss_core_frame [OF p(1)] .
  show ?thesis
  proof (cases "is_halted fl")
    case True
    with p fr x show ?thesis
      by (intro exI [of _ "[]"]) (auto simp: grows_def bytes_inv_def)
  next
    case False
    then obtain it req where it: "its = [it]" "it_n it = length (ss_iterations (as_session st)) + 1"
      "iter_post (sc_thresholds c) (sc_key c) st it (flow_state fl)"
      "it_prompt_text it = Some (gq_prompt req)" "gq_reference_images req = [sc_working c]"
      "gq_face_crop req = sc_face_crop c" "w_gen_log w' = w_gen_log w @ [req]"
      using p(6) by blast
    have "grows h (sc_thresholds c) (sc_key c) (sc_face_crop c) (as_session st) w [it] [req]
        (as_session (flow_state fl)) w'"
      using p fr x it iter_post_ok [OF it(3)]
      by (auto simp: grows_def answers_def intro!: exI [of _ calls])
    with it best_inv_step [OF _ it(3)] bytes_inv_step [OF _ it(3)] show ?thesis
      by (intro exI [of _ "[it]"] exI [of _ "[req]"]) auto
  qed
qed

definition step_post ::
  "bool \<Rightarrow> step_ctx \<Rightarrow> nat \<Rightarrow> attempt_state \<Rightarrow> world \<Rightarrow> step_outcome \<Rightarrow> attempt_state \<Rightarrow> world \<Rightarrow> bool" where
  "step_post h c bound st w out st' w' \<longleftrightarrow>
     (\<exists>its reqs. grows h (sc_thresholds c) (sc_key c) (sc_face_crop c) (as_session st) w its reqs
          (as_session st') w'
        \<and> length its \<le> bound \<and> (\<forall>r\<in>set reqs. gq_reference_images r = [sc_working c])
        \<and> (\<forall>its0. best_inv (sc_thresholds c) (sc_key c) its0 (as_best st)
            \<longrightarrow> best_inv (sc_thresholds c) (sc_key c) (its0 @ its) (as_best st'))
        \<and> (bytes_inv st \<longrightarrow> bytes_inv st') \<and> ss_core (as_session st') = ss_core (as_session st)
        \<and> out = outcome_of st' (so_budget_exhausted out))"

lemma outcome_of_flag [simp]: "so_budget_exhausted (outcome_of st b) = b"
  by (simp add: outcome_of_def)

lemma outcome_of_best [simp]:
  "so_best (outcome_of st b) = as_best st" "so_best_bytes (outcome_of st b) = as_best_bytes st"
  by (simp_all add: outcome_of_def)

lemma step_post_trans:
  assumes g: "grows h (sc_thresholds c) (sc_key c) (sc_face_crop c) (as_session st) w i1 r1 (as_session st1) w1"
    and l: "length i1 \<le> 1" "\<forall>r\<in>set r1. gq_reference_images r = [sc_working c]"
    and b: "\<forall>its0. best_inv (sc_thresholds c) (sc_key c) its0 (as_best st)
      \<longrightarrow> best_inv (sc_thresholds c) (sc_key c) (its0 @ i1) (as_best st1)"
    and y: "bytes_inv st \<longrightarrow> bytes_inv st1" and core: "ss_core (as_session st1) = ss_core (as_session st)"
    and p: "step_post h c n st1 w1 out st' w'"
  shows "step_post h c (Suc n) st w out st' w'"
proof -
  from p obtain i2 r2 where q:
    "grows h (sc_thresholds c) (sc_key c) (sc_face_crop c) (as_session st1) w1 i2 r2 (as_session st') w'"
    "length i2 \<le> n" "\<forall>r\<in>set r2. gq_reference_images r = [sc_working c]"
    "\<forall>its0. best_inv (sc_thresholds c) (sc_key c) its0 (as_best st1)
      \<longrightarrow> best_inv (sc_thresholds c) (sc_key c) (its0 @ i2) (as_best st')"
    "bytes_inv st1 \<longrightarrow> bytes_inv st'" "ss_core (as_session st') = ss_core (as_session st1)"
    "out = outcome_of st' (so_budget_exhausted out)"
    unfolding step_post_def by blast
  show ?thesis
    unfolding step_post_def
    by (rule exI [of _ "i1 @ i2"], rule exI [of _ "r1 @ r2"])
       (use grows_trans [OF g q(1)] l b y core q in auto)
qed

context loop_services
begin

lemma attempts_spec:
  assumes hm: "h \<longrightarrow> money_ok env \<and> honest (sc_meter c)"
    and "ctx_ok c st" and "attempts env c as st w = (res, w')"
  shows "extends (sc_key c) w w' \<and>
    (\<forall>out st'. res = Inr (out, st') \<longrightarrow> step_post h c (length as) st w out st' w')"
  using assms(2,3)
proof (induction as arbitrary: st w)
  case Nil
  then have "res = Inr (outcome_of st False, st)" "w' = w" by auto
  then show ?case
    by (auto simp: step_post_def intro!: exI [of _ "[]"] grows_refl)
next
  case (Cons a as)
  obtain f w1 where at: "attempt env c a st w = (f, w1)" by fastforce
  note spec = attempt_extends_spec [OF hm Cons.prems(1) at]
  show ?case
  proof (cases f)
    case (Inl e)
    with Cons.prems(2) at spec show ?thesis by (auto simp: obind_def)
  next
    case (Inr fl)
    then have post: "attempt_post h c st w fl w1" and x: "extends (sc_key c) w w1" using spec by auto
    have key: "ss_session_key (as_session st) = sc_key c" using Cons.prems(1) by (simp add: ctx_ok_def)
    have core: "ss_core (as_session (flow_state fl)) = ss_core (as_session st)"
      using post by (auto simp: attempt_post_def)
    have ok1: "ctx_ok c (flow_state fl)"
      using Cons.prems(1) ss_core_fields(1) [OF core] by (simp add: ctx_ok_def)
    from attempt_grows [OF post x key] obtain its reqs where g:
      "grows h (sc_thresholds c) (sc_key c) (sc_face_crop c) (as_session st) w its reqs (as_session (flow_state fl)) w1"
      "length its \<le> 1" "\<forall>r\<in>set reqs. gq_reference_images r = [sc_working c]"
      "\<forall>its0. best_inv (sc_thresholds c) (sc_key c) its0 (as_best st)
        \<longrightarrow> best_inv (sc_thresholds c) (sc_key c) (its0 @ its) (as_best (flow_state fl))"
      "bytes_inv st \<longrightarrow> bytes_inv (flow_state fl)" by blast
    note trans = step_post_trans [OF g core]
    have stop: "step_post h c (length as) (flow_state fl) w1 (outcome_of (flow_state fl) b) (flow_state fl) w1"
      for b
      by (auto simp: step_post_def intro!: exI [of _ "[]"] grows_refl)
    show ?thesis
    proof (cases fl)
      case (Next st1)
      with Cons.prems(2) at Inr have rest: "attempts env c as st1 w1 = (res, w')" by (simp add: obind_def)
      with Cons.IH [of st1 w1] ok1 Next trans extends_trans [OF x] show ?thesis by auto
    next
      case (Broke st1)
      with Cons.prems(2) at Inr have out: "res = Inr (outcome_of st1 False, st1)" "w' = w1"
        by (auto simp: obind_def)
      with x trans [OF stop, of False] Broke show ?thesis by auto
    next
      case (Halted st1)
      with Cons.prems(2) at Inr have out: "res = Inr (outcome_of st1 True, st1)" "w' = w1"
        by (auto simp: obind_def)
      with x trans [OF stop, of True] Halted show ?thesis by auto
    qed
  qed
qed

lemma base_prompt_spec:
  assumes hm: "h \<longrightarrow> money_ok env \<and> honest m"
    and m: "me_session_key m = k" and key: "ss_session_key s = k"
    and run: "base_prompt env s face p m step preserve locked defaults addendum items applied lighting w = (res, w')"
  shows "extends k w w' \<and> (\<forall>s' b pb rq. res = Inr (s', b, pb, rq) \<longrightarrow> writer_post h k s s' w w')"
proof (cases "st_is_enhance step")
  case True
  with run show ?thesis
    by (cases "assemble_edit_prompt p enhance_body enhance_only_change (edit_lock_items None [] applied [] []) locked None")
       (auto simp: base_prompt_def obind_def)
next
  case False
  show ?thesis
  proof (cases "make_write_request p step preserve locked defaults addendum (ss_slots s) (fp_inventory face) applied")
    case (Inl e)
    with run False show ?thesis by (auto simp: base_prompt_def obind_def)
  next
    case (Inr request)
    obtain x w1 where cp: "le_compose env request (fp_metrics face) m w = (x, w1)" by fastforce
    have q: "quiet k w w1" using compose_quiet [OF cp] m by simp
    show ?thesis
    proof (cases x)
      case (Inl e)
      with run False Inr cp q show ?thesis
        by (auto simp: base_prompt_def obind_def intro: quiet_extends)
    next
      case Inr2: (Inr r)
      have ch: "charged h k (wt_cost r) w w1"
        using compose_charged [OF cp [unfolded Inr2]] m hm by (auto simp: charged_def)
      obtain y w2 where rec: "record_writer_cost s r w1 = (y, w2)" by fastforce
      obtain s' where y: "y = Inr s'" and wp: "writer_post h k s s' w w2"
        using record_writer_post [OF key q ch rec] by blast
      have e: "extends k w w2" using wp by (simp add: writer_post_def)
      show ?thesis
        using run False Inr cp Inr2 rec y wp e
        by (cases "assemble p (wt_body r) step locked items lighting")
           (auto simp: base_prompt_def obind_def)
    qed
  qed
qed

lemma run_step_spec:
  assumes hm: "h \<longrightarrow> money_ok env \<and> honest (cx_meter x)"
    and m: "me_session_key (cx_meter x) = cx_key x" and key: "ss_session_key s = cx_key x"
    and run: "run_step env x s face step working items applied w = (res, w')"
  shows "extends (cx_key x) w w' \<and> (\<forall>out st'. res = Inr (out, st') \<longrightarrow>
    (\<exists>its reqs. grows h (cx_thresholds x) (cx_key x) (cx_face_crop x) s w its reqs (as_session st') w'
       \<and> length its \<le> nat (step_max_attempts env (cx_thresholds x))
       \<and> (\<forall>r\<in>set reqs. gq_reference_images r = [working])
       \<and> best_inv (cx_thresholds x) (cx_key x) its (as_best st') \<and> bytes_inv st'
       \<and> ss_core (as_session st') = ss_core s
       \<and> out = outcome_of st' (so_budget_exhausted out)))"
proof -
  let ?l = "map_option (\<lambda>i. strip (inv_lighting i)) (fp_inventory face)"
  obtain b w1 where bp: "base_prompt env s face (cx_preset x) (cx_meter x) step (cx_preserve x)
      (cx_locked x) (cx_defaults x) (cx_addendum x) items applied ?l w = (b, w1)" by fastforce
  note bps = base_prompt_spec [OF hm m key bp]
  show ?thesis
  proof (cases b)
    case (Inl e)
    with run bp bps show ?thesis by (auto simp: run_step_def Let_def obind_def)
  next
    case (Inr q)
    obtain s' built pb rq where q: "q = (s', built, pb, rq)" by (cases q) auto
    define c where "c = \<lparr>sc_key = cx_key x, sc_preset = cx_preset x, sc_thresholds = cx_thresholds x,
        sc_meter = cx_meter x, sc_step = step, sc_locked = cx_locked x,
        sc_working = working, sc_face_crop = cx_face_crop x, sc_meta = cx_meta x,
        sc_lock_items = items, sc_aspect_ratio = Some (cx_aspect_ratio x),
        sc_lighting = ?l, sc_base_built = built, sc_request = rq,
        sc_max_attempts = step_max_attempts env (cx_thresholds x)\<rparr>"
    define st0 where "st0 = \<lparr>as_session = s', as_face = face, as_best = None, as_best_bytes = None,
        as_last = \<lparr>wf_similarity = None, wf_verdict = None, wf_attempt = None\<rparr>,
        as_prev_body = pb, as_reason = no_deliverable, as_code = NO_DELIVERABLE\<rparr>"
    have wp: "writer_post h (cx_key x) s s' w w1" using bps Inr q by auto
    then have s': "ss_core s' = ss_core s" by (auto simp: writer_post_def)
    have ok: "ctx_ok c st0"
      using m key ss_core_fields(1) [OF s'] by (simp add: ctx_ok_def c_def st0_def)
    have at: "attempts env c [1..<Suc (nat (step_max_attempts env (cx_thresholds x)))] st0 w1 = (res, w')"
      using run bp Inr q by (simp add: run_step_def Let_def obind_def c_def st0_def del: upt_Suc)
    have "h \<longrightarrow> money_ok env \<and> honest (sc_meter c)" using hm by (simp add: c_def)
    note spec = attempts_spec [OF this ok at]
    have ext: "extends (cx_key x) w w'" using extends_trans bps spec by (auto simp: c_def)
    have "\<exists>its reqs. grows h (cx_thresholds x) (cx_key x) (cx_face_crop x) s w its reqs (as_session st') w'
       \<and> length its \<le> nat (step_max_attempts env (cx_thresholds x))
       \<and> (\<forall>r\<in>set reqs. gq_reference_images r = [working])
       \<and> best_inv (cx_thresholds x) (cx_key x) its (as_best st') \<and> bytes_inv st'
       \<and> ss_core (as_session st') = ss_core s \<and> out = outcome_of st' (so_budget_exhausted out)"
      if res: "res = Inr (out, st')" for out st'
    proof -
      from spec res obtain its reqs where g:
        "grows h (cx_thresholds x) (cx_key x) (cx_face_crop x) s' w1 its reqs (as_session st') w'"
        "length its \<le> nat (step_max_attempts env (cx_thresholds x))"
        "\<forall>r\<in>set reqs. gq_reference_images r = [working]"
        "\<forall>its0. best_inv (cx_thresholds x) (cx_key x) its0 (as_best st0)
          \<longrightarrow> best_inv (cx_thresholds x) (cx_key x) (its0 @ its) (as_best st')"
        "bytes_inv st0 \<longrightarrow> bytes_inv st'" "ss_core (as_session st') = ss_core (as_session st0)"
        "out = outcome_of st' (so_budget_exhausted out)"
        by (fastforce simp: step_post_def c_def st0_def simp del: upt_Suc)
      have "best_inv (cx_thresholds x) (cx_key x) [] (as_best st0)" by (simp add: best_inv_def st0_def)
      then have "best_inv (cx_thresholds x) (cx_key x) its (as_best st')" using g(4) by fastforce
      moreover have "bytes_inv st'" using g(5) by (simp add: bytes_inv_def st0_def)
      moreover have "ss_core (as_session st') = ss_core s" using g(6) s' by (simp add: st0_def)
      ultimately show ?thesis
        using grows_trans [OF writer_post_grows [OF wp] g(1)] g(2,3,7) by fastforce
    qed
    with ext show ?thesis by blast
  qed
qed

end

section \<open>The chain of steps\<close>

definition chain_ok :: "chain_ctx \<Rightarrow> chain_state \<Rightarrow> bool" where
  "chain_ok x cs \<longleftrightarrow> me_session_key (cx_meter x) = cx_key x \<and> ss_session_key (cs_session cs) = cx_key x"

definition best_from :: "thresholds \<Rightarrow> string \<Rightarrow> session_state \<Rightarrow> bool" where
  \<comment> \<open>the session's best is a frame it recorded, at or above the floor\<close>
  "best_from t k s \<longleftrightarrow>
     (\<forall>b. ss_best_result s = Some b \<longrightarrow> (\<exists>it\<in>set (ss_iterations s). delivers t k it b))"

definition chain_post ::
  "bool \<Rightarrow> chain_ctx \<Rightarrow> nat \<Rightarrow> chain_state \<Rightarrow> world \<Rightarrow> chain_state \<Rightarrow> world \<Rightarrow> bool" where
  "chain_post h x bound cs w cs' w' \<longleftrightarrow>
     (\<exists>its reqs. grows h (cx_thresholds x) (cx_key x) (cx_face_crop x) (cs_session cs) w its reqs
          (cs_session cs') w'
        \<and> length its \<le> bound
        \<and> (reqs \<noteq> [] \<longrightarrow> gq_reference_images (hd reqs) = [cs_working cs])
        \<and> (reqs = [] \<longrightarrow> cs_working cs' = cs_working cs)
        \<and> (best_from (cx_thresholds x) (cx_key x) (cs_session cs)
            \<longrightarrow> best_from (cx_thresholds x) (cx_key x) (cs_session cs')))"

lemma chain_post_refl: "chain_post h x 0 cs w cs w"
  by (auto simp: chain_post_def intro!: exI [of _ "[]"] grows_refl)

lemma chain_post_mono: "chain_post h x m cs w cs' w' \<Longrightarrow> m \<le> n \<Longrightarrow> chain_post h x n cs w cs' w'"
  unfolding chain_post_def by (elim exE conjE, intro exI conjI) (assumption | simp)+

lemma chain_post_trans:
  assumes "chain_post h x m cs w cs1 w1" "chain_post h x n cs1 w1 cs2 w2"
  shows "chain_post h x (m + n) cs w cs2 w2"
proof -
  from assms(1) obtain i1 r1 where a:
    "grows h (cx_thresholds x) (cx_key x) (cx_face_crop x) (cs_session cs) w i1 r1 (cs_session cs1) w1"
    "length i1 \<le> m" "r1 \<noteq> [] \<longrightarrow> gq_reference_images (hd r1) = [cs_working cs]"
    "r1 = [] \<longrightarrow> cs_working cs1 = cs_working cs"
    "best_from (cx_thresholds x) (cx_key x) (cs_session cs) \<longrightarrow> best_from (cx_thresholds x) (cx_key x) (cs_session cs1)"
    unfolding chain_post_def by blast
  from assms(2) obtain i2 r2 where b:
    "grows h (cx_thresholds x) (cx_key x) (cx_face_crop x) (cs_session cs1) w1 i2 r2 (cs_session cs2) w2"
    "length i2 \<le> n" "r2 \<noteq> [] \<longrightarrow> gq_reference_images (hd r2) = [cs_working cs1]"
    "r2 = [] \<longrightarrow> cs_working cs2 = cs_working cs1"
    "best_from (cx_thresholds x) (cx_key x) (cs_session cs1) \<longrightarrow> best_from (cx_thresholds x) (cx_key x) (cs_session cs2)"
    unfolding chain_post_def by blast
  show ?thesis
    unfolding chain_post_def
    by (rule exI [of _ "i1 @ i2"], rule exI [of _ "r1 @ r2"])
       (use grows_trans [OF a(1) b(1)] a b in \<open>cases "r1 = []"; simp\<close>)
qed

lemma emit_step_eq:
  "\<not> ends_stream e \<Longrightarrow> \<exists>es. emit_step b k e w =
     (Inr (), w\<lparr>w_streams := (w_streams w)(k := w_streams w k @ es)\<rparr>) \<and> (\<forall>x\<in>set es. \<not> ends_stream x)"
proof (cases b)
  case True
  assume "\<not> ends_stream e"
  with True show ?thesis by (intro exI [of _ "[e]"]) (simp add: emit_step_def publish_def)
next
  case False
  then show ?thesis by (intro exI [of _ "[]"]) (simp add: emit_step_def)
qed

lemma complete_step_session:
  "ss_iterations (cs_session (complete_step i step o1 best cs)) = ss_iterations (cs_session cs)"
  "ss_llm_calls (cs_session (complete_step i step o1 best cs)) = ss_llm_calls (cs_session cs)"
  "ss_frame (cs_session (complete_step i step o1 best cs)) = ss_frame (cs_session cs)"
  "cs_working (complete_step i step o1 best cs) =
     (case so_best_bytes o1 of None \<Rightarrow> cs_working cs | Some b \<Rightarrow> b)"
  "ss_best_result (cs_session (complete_step i step o1 best cs)) =
     (if keeps_prior step (ss_best_result (cs_session cs)) best then ss_best_result (cs_session cs)
      else Some best)"
  by (auto simp: complete_step_def absorb_def Let_def set_plan_step_def)

lemma fold_absorb_session:
  "cs_session (fold absorb ss cs) = cs_session cs" "cs_working (fold absorb ss cs) = cs_working cs"
  "cs_face (fold absorb ss cs) = cs_face cs"
  by (induction ss arbitrary: cs) (simp_all add: absorb_def)

lemma grows_streams:
  assumes "grows h t k crop s w its reqs s' w1" "\<forall>e\<in>set es. \<not> ends_stream e"
  shows "grows h t k crop s w its reqs s'
    (w1\<lparr>w_streams := (w_streams w1)(k := w_streams w1 k @ es)\<rparr>)"
proof -
  have "extends k w (w1\<lparr>w_streams := (w_streams w1)(k := w_streams w1 k @ es)\<rparr>)"
    using assms extends_streams extends_trans unfolding grows_def by blast
  with assms(1) show ?thesis by (simp add: grows_def)
qed

lemma grows_streams_first:
  assumes "\<forall>e\<in>set es. \<not> ends_stream e"
    "grows h t k crop s (w\<lparr>w_streams := (w_streams w)(k := w_streams w k @ es)\<rparr>) its reqs s' w1"
  shows "grows h t k crop s w its reqs s' w1"
proof -
  have "extends k w w1" using assms extends_streams extends_trans unfolding grows_def by blast
  with assms(2) show ?thesis by (simp add: grows_def)
qed

context loop_services
begin

lemma chain_step_spec:
  assumes hm: "h \<longrightarrow> money_ok env \<and> honest (cx_meter x)"
    and ok: "chain_ok x cs" and run: "chain_step env x emit i step cs w = (res, w')"
  shows "extends (cx_key x) w w' \<and> (\<forall>stop cs'. res = Inr (stop, cs') \<longrightarrow>
    chain_post h x (nat (step_max_attempts env (cx_thresholds x))) cs w cs' w' \<and> chain_ok x cs')"
proof (cases "st_status step")
  case Completed
  with run ok show ?thesis
    by (auto simp: chain_step_def intro: chain_post_mono [OF chain_post_refl])
next
  case Skipped
  obtain es where em: "emit_step emit (cx_key x) (StepResultEvent (st_n step) Skipped None None) w =
      (Inr (), w\<lparr>w_streams := (w_streams w)(cx_key x := w_streams w (cx_key x) @ es)\<rparr>)"
    and es: "\<forall>e\<in>set es. \<not> ends_stream e"
    using emit_step_eq [of "StepResultEvent (st_n step) Skipped None None"] by fastforce
  have g: "grows h (cx_thresholds x) (cx_key x) (cx_face_crop x) (cs_session cs) w [] [] (cs_session cs)
      (w\<lparr>w_streams := (w_streams w)(cx_key x := w_streams w (cx_key x) @ es)\<rparr>)"
    using grows_streams [OF grows_refl es] .
  from run em Skipped ok g show ?thesis
    by (auto simp: chain_step_def obind_def chain_post_def extends_streams [OF es] intro!: exI [of _ "[]"])
next
  case Pending
  let ?k = "cx_key x"
  let ?items = "edit_lock_items (fp_inventory (cs_face cs)) (cx_preserve x) (cs_applied cs)
      (cs_edited_targets cs @ st_targets step) (join '' '' (cs_edited_text cs @ [st_instruction step]))"
  obtain es where em: "emit_step emit ?k (StepStartedEvent (st_n step) (st_title step) (st_targets step)) w =
      (Inr (), w\<lparr>w_streams := (w_streams w)(?k := w_streams w ?k @ es)\<rparr>)"
    and es: "\<forall>e\<in>set es. \<not> ends_stream e"
    using emit_step_eq [of "StepStartedEvent (st_n step) (st_title step) (st_targets step)"] by fastforce
  define w0 where "w0 = w\<lparr>w_streams := (w_streams w)(?k := w_streams w ?k @ es)\<rparr>"
  have e0: "extends ?k w w0" unfolding w0_def by (rule extends_streams [OF es])
  obtain r w1 where rs: "run_step env x (cs_session cs) (cs_face cs) step (cs_working cs) ?items
      (cs_applied cs) w0 = (r, w1)" by fastforce
  have mk: "me_session_key (cx_meter x) = ?k" "ss_session_key (cs_session cs) = ?k"
    using ok by (simp_all add: chain_ok_def)
  note spec = run_step_spec [OF hm mk rs]
  show ?thesis
  proof (cases r)
    case (Inl e)
    with run Pending em rs spec e0 show ?thesis
      by (auto simp: chain_step_def obind_def w0_def intro: extends_trans)
  next
    case (Inr os)
    obtain o1 st where os: "os = (o1, st)" by (cases os)
    from spec Inr os obtain its reqs where g:
      "grows h (cx_thresholds x) ?k (cx_face_crop x) (cs_session cs) w0 its reqs (as_session st) w1"
      "length its \<le> nat (step_max_attempts env (cx_thresholds x))"
      "\<forall>r\<in>set reqs. gq_reference_images r = [cs_working cs]"
      "best_inv (cx_thresholds x) ?k its (as_best st)" "bytes_inv st"
      "ss_core (as_session st) = ss_core (cs_session cs)" "o1 = outcome_of st (so_budget_exhausted o1)"
      by blast
    have e1: "extends ?k w w1" using extends_trans [OF e0] g(1) by (simp add: grows_def)
    have g0: "grows h (cx_thresholds x) ?k (cx_face_crop x) (cs_session cs) w its reqs (as_session st) w1"
      using grows_streams_first [OF es] g(1) by (simp add: w0_def)
    define cs1 where "cs1 = cs\<lparr>cs_session := as_session st, cs_face := as_face st,
        cs_reason := so_failure_reason o1, cs_code := so_failure_code o1\<rparr>"
    have first: "reqs \<noteq> [] \<longrightarrow> gq_reference_images (hd reqs) = [cs_working cs]"
      using g(3) by (cases reqs) auto
    have key1: "ss_session_key (as_session st) = ?k" using ss_core_fields(1) [OF g(6)] mk(2) by simp
    have sb: "so_best o1 = as_best st" "so_best_bytes o1 = as_best_bytes st"
      using g(7) outcome_of_best by metis+
    have mono: "best_from (cx_thresholds x) ?k (cs_session cs) \<Longrightarrow> best_from (cx_thresholds x) ?k (as_session st)"
      using g0 ss_core_fields(3) [OF g(6)] by (auto simp: best_from_def grows_def)
    show ?thesis
    proof (cases "so_best o1")
      case None
      obtain es2 where em2: "emit_step emit ?k (StepResultEvent (st_n step) Pending None None) w1 =
          (Inr (), w1\<lparr>w_streams := (w_streams w1)(?k := w_streams w1 ?k @ es2)\<rparr>)"
        and es2: "\<forall>e\<in>set es2. \<not> ends_stream e"
        using emit_step_eq [of "StepResultEvent (st_n step) Pending None None"] by fastforce
      have out: "res = Inr (True, cs1)" "w' = w1\<lparr>w_streams := (w_streams w1)(?k := w_streams w1 ?k @ es2)\<rparr>"
        using run Pending em rs Inr os None em2 by (auto simp: chain_step_def obind_def w0_def cs1_def Let_def)
      have "chain_post h x (nat (step_max_attempts env (cx_thresholds x))) cs w cs1 w'"
        unfolding chain_post_def out(2)
        by (rule exI [of _ its], rule exI [of _ reqs])
           (use grows_streams [OF g0 es2] g(2) first mono in \<open>simp add: cs1_def\<close>)
      with out e1 extends_trans [OF e1 extends_streams [OF es2]] key1 mk show ?thesis
        by (auto simp: chain_ok_def cs1_def)
    next
      case (Some best)
      define cs2 where "cs2 = complete_step i step o1 best cs1"
      define w2 where "w2 = w1\<lparr>w_store := put_session (cs_session cs2) (w_store w1)\<rparr>"
      obtain es2 where em2: "emit_step emit ?k (StepResultEvent (st_n step) Completed
            (Some (br_result_ref best)) (Some (br_similarity best))) w2 =
          (Inr (), w2\<lparr>w_streams := (w_streams w2)(?k := w_streams w2 ?k @ es2)\<rparr>)"
        and es2: "\<forall>e\<in>set es2. \<not> ends_stream e"
        using emit_step_eq [of "StepResultEvent (st_n step) Completed (Some (br_result_ref best))
          (Some (br_similarity best))"] by fastforce
      have out: "res = Inr (so_budget_exhausted o1, cs2)"
        "w' = w2\<lparr>w_streams := (w_streams w2)(?k := w_streams w2 ?k @ es2)\<rparr>"
        using run Pending em rs Inr os Some em2
        by (auto simp: chain_step_def obind_def w0_def cs1_def cs2_def w2_def op_put_session_def Let_def)
      note cs2 = complete_step_session [of i step o1 best cs1, folded cs2_def]
      have key2: "ss_session_key (cs_session cs2) = ?k"
        using ss_frame_key [OF cs2(3)] key1 by (simp add: cs1_def)
      have e2: "extends ?k w1 w2" unfolding w2_def by (rule extends_put_session [OF key2])
      have g2: "grows h (cx_thresholds x) ?k (cx_face_crop x) (as_session st) w1 [] [] (cs_session cs2) w2"
        using cs2 e2 key2 by (intro grows_frame_update) (simp_all add: w2_def cs1_def)
      have g3: "grows h (cx_thresholds x) ?k (cx_face_crop x) (cs_session cs) w its reqs (cs_session cs2) w'"
        unfolding out(2) using grows_streams [OF grows_trans [OF g0 g2] es2] by simp
      obtain it where it: "it \<in> set its" "delivers (cx_thresholds x) ?k it best"
        using g(4) Some sb by (auto simp: best_inv_def)
      have ne: "reqs \<noteq> []" using it(1) g0 by (auto simp: grows_def)
      have "best_from (cx_thresholds x) ?k (cs_session cs2)"
        if "best_from (cx_thresholds x) ?k (cs_session cs)"
        using mono [OF that] it g0 cs2(1,5)
        by (auto simp: best_from_def grows_def cs1_def split: if_splits)
      with g3 g(2) first ne
      have "chain_post h x (nat (step_max_attempts env (cx_thresholds x))) cs w cs2 w'"
        unfolding chain_post_def by blast
      with out extends_trans [OF extends_trans [OF e1 e2] extends_streams [OF es2]] key2 mk show ?thesis
        by (auto simp: chain_ok_def)
    qed
  qed
qed

lemma run_chain_spec:
  assumes hm: "h \<longrightarrow> money_ok env \<and> honest (cx_meter x)"
    and "chain_ok x cs" and "run_chain env x emit steps cs w = (res, w')"
  shows "extends (cx_key x) w w' \<and> (\<forall>cs'. res = Inr cs' \<longrightarrow>
    chain_post h x (length steps * nat (step_max_attempts env (cx_thresholds x))) cs w cs' w'
    \<and> chain_ok x cs')"
  using assms(2,3)
proof (induction steps arbitrary: cs w)
  case Nil
  then show ?case by (auto intro: chain_post_mono [OF chain_post_refl])
next
  case (Cons p steps)
  obtain i step where p: "p = (i, step)" by (cases p)
  obtain r w1 where st: "chain_step env x emit i step cs w = (r, w1)" by fastforce
  note spec = chain_step_spec [OF hm Cons.prems(1) st]
  show ?case
  proof (cases r)
    case (Inl e)
    with Cons.prems(2) st p spec show ?thesis by (auto simp: obind_def)
  next
    case (Inr q)
    obtain stop cs1 where q: "q = (stop, cs1)" by (cases q)
    with spec Inr have a: "extends (cx_key x) w w1" "chain_ok x cs1"
      "chain_post h x (nat (step_max_attempts env (cx_thresholds x))) cs w cs1 w1" by auto
    show ?thesis
    proof (cases stop)
      case True
      with Cons.prems(2) st p Inr q have "res = Inr cs1" "w' = w1" by (auto simp: obind_def)
      with a show ?thesis by (auto intro: chain_post_mono)
    next
      case False
      with Cons.prems(2) st p Inr q have rest: "run_chain env x emit steps cs1 w1 = (res, w')"
        by (simp add: obind_def)
      note ih = Cons.IH [OF a(2) rest]
      show ?thesis using a extends_trans [OF a(1)] ih chain_post_trans [OF a(3)] by auto
    qed
  qed
qed

end

end
