(* ===== verification/Loop_Run.thy ===== *)
theory Loop_Run
  imports Loop_Chain
begin

text \<open>
  The whole run of the generation loop: what \<open>_drive\<close> leaves behind (\<open>run_post\<close>), and the
  execute-once wrapper \<open>run\<close> over the store's idempotency records.
\<close>

interpretation world_idem: idem_store w_idem_get w_idem_put
  by unfold_locales
     (auto simp: w_idem_get_def w_idem_put_def idem_get_def idem_put_def)

definition keyed :: "world \<Rightarrow> bool" where
  \<comment> \<open>sessions are stored under their own key\<close>
  "keyed w \<longleftrightarrow> (\<forall>k s. get_session k (w_store w) = Some s \<longrightarrow> ss_session_key s = k)"

definition reports :: "event \<Rightarrow> session_state \<Rightarrow> bool" where
  \<comment> \<open>the terminal event says what the session record says\<close>
  "reports e s \<longleftrightarrow>
     (case e of
        ResultEvent best n g c _ \<Rightarrow>
          ss_best_result s = Some best \<and> ss_fsm_state s = DONE \<and> n = length (ss_iterations s)
          \<and> g = generations_spent s \<and> c = cost_spent s
      | FailedEvent _ _ _ n g c \<Rightarrow>
          ss_best_result s = None \<and> ss_fsm_state s = FAILED \<and> n = length (ss_iterations s)
          \<and> g = generations_spent s \<and> c = cost_spent s
      | _ \<Rightarrow> False)"

definition apart :: "string \<Rightarrow> world \<Rightarrow> world \<Rightarrow> bool" where
  \<comment> \<open>nothing that belongs to another session moved, no lock, no idempotency record\<close>
  "apart k w w' \<longleftrightarrow>
     (\<forall>j. idem_get j (w_store w') = idem_get j (w_store w)) \<and> ms_locks (w_store w') = ms_locks (w_store w)
     \<and> (\<forall>j. j \<noteq> k \<longrightarrow> get_session j (w_store w') = get_session j (w_store w)
          \<and> used j w' = used j w \<and> w_streams w' j = w_streams w j)"

lemma extends_apart: "extends k w w' \<Longrightarrow> apart k w w'"
  by (auto simp: extends_def narrates_def apart_def)

lemma apart_trans: "apart k w w1 \<Longrightarrow> apart k w1 w2 \<Longrightarrow> apart k w w2"
  by (simp add: apart_def)

lemma apart_keyed:
  assumes "apart k w w'" "keyed w" "get_session k (w_store w') = Some s" "ss_session_key s = k"
  shows "keyed w'"
  using assms unfolding apart_def keyed_def by (metis option.inject)

definition run_post ::
  "bool \<Rightarrow> thresholds \<Rightarrow> string \<Rightarrow> bytes option \<Rightarrow> bytes option \<Rightarrow> nat \<Rightarrow> session_state \<Rightarrow> world
     \<Rightarrow> event \<Rightarrow> session_state \<Rightarrow> world \<Rightarrow> bool" where
  "run_post h t k crop reference bound s w e s' w' \<longleftrightarrow>
     get_session k (w_store w') = Some s' \<and> ss_session_key s' = k \<and> reports e s' \<and> apart k w w'
     \<and> (\<exists>es. w_streams w' k = w_streams w k @ es @ [e] \<and> (\<forall>x\<in>set es. \<not> ends_stream x))
     \<and> (best_from t k s \<longrightarrow> best_from t k s')
     \<and> (\<exists>its reqs wa. grows h t k crop s w its reqs (s'\<lparr>ss_fsm_state := GENERATING\<rparr>) wa
          \<and> used k w' = used k wa \<and> w_gen_log w' = w_gen_log wa
          \<and> length its \<le> bound
          \<and> (reqs \<noteq> [] \<longrightarrow> Some (gq_reference_images (hd reqs)) = map_option (\<lambda>r. [r]) reference))"

lemma reports_terminal: "reports e s \<Longrightarrow> is_terminal e"
  by (cases e) (simp_all add: reports_def)

lemma cost_spent_fsm [simp]: "cost_spent (s\<lparr>ss_fsm_state := f\<rparr>) = cost_spent s"
  "generations_spent (s\<lparr>ss_fsm_state := f\<rparr>) = generations_spent s"
  by (simp_all add: cost_spent_def generations_spent_def)

lemma best_from_fsm [simp]: "best_from t k (s\<lparr>ss_fsm_state := f\<rparr>) = best_from t k s"
  by (simp add: best_from_def)

lemma terminal_event_facts:
  assumes "terminal_event s reason fc = (s', e)"
  shows "reports e s'" "\<exists>f. s' = s\<lparr>ss_fsm_state := f\<rparr>"
  using assms by (auto simp: terminal_event_def reports_def split: option.splits)

lemma loop_finish_eq:
  assumes "ss_session_key s = k" "terminal_event s reason fc = (s', e)"
  shows "loop_finish s reason fc w =
    (Inr e, w\<lparr>w_store := put_session s' (w_store w),
              w_streams := (w_streams w)(k := w_streams w k @ [e])\<rparr>)"
  using assms by (simp add: loop_finish_def op_put_session_def publish_def obind_def)

lemma finish_post:
  assumes g: "grows h t k crop s w its reqs s1 w1" and key: "ss_session_key s1 = k"
    and n: "length its \<le> bound"
    and first: "reqs \<noteq> [] \<longrightarrow> Some (gq_reference_images (hd reqs)) = map_option (\<lambda>r. [r]) reference"
    and best: "best_from t k s \<longrightarrow> best_from t k s1"
    and run: "loop_finish s1 reason fc w1 = (res, w')"
  shows "\<exists>e s'. res = Inr e \<and> run_post h t k crop reference bound s w e s' w'"
proof -
  obtain s' e where te: "terminal_event s1 reason fc = (s', e)" by fastforce
  obtain f where f: "s' = s1\<lparr>ss_fsm_state := f\<rparr>" using terminal_event_facts(2) [OF te] by blast
  have out: "res = Inr e" "w' = w1\<lparr>w_store := put_session s' (w_store w1),
      w_streams := (w_streams w1)(k := w_streams w1 k @ [e])\<rparr>"
    using run loop_finish_eq [OF key te] by auto
  let ?wa = "w1\<lparr>w_store := put_session (s1\<lparr>ss_fsm_state := GENERATING\<rparr>) (w_store w1)\<rparr>"
  have g1: "grows h t k crop s1 w1 [] [] (s1\<lparr>ss_fsm_state := GENERATING\<rparr>) ?wa"
    using key by (intro grows_frame_update extends_put_session) simp_all
  obtain es where es: "w_streams w1 k = w_streams w k @ es" "\<forall>x\<in>set es. \<not> ends_stream x"
    using g by (auto simp: grows_def extends_def narrates_def)
  have "\<exists>its reqs wa. grows h t k crop s w its reqs (s'\<lparr>ss_fsm_state := GENERATING\<rparr>) wa
      \<and> used k w' = used k wa \<and> w_gen_log w' = w_gen_log wa \<and> length its \<le> bound
      \<and> (reqs \<noteq> [] \<longrightarrow> Some (gq_reference_images (hd reqs)) = map_option (\<lambda>r. [r]) reference)"
    using grows_trans [OF g g1] n first
    by (intro exI [of _ its] exI [of _ reqs] exI [of _ ?wa]) (simp add: f out used_def)
  moreover have "\<exists>es. w_streams w' k = w_streams w k @ es @ [e] \<and> (\<forall>x\<in>set es. \<not> ends_stream x)"
    using es by (auto simp: out(2))
  moreover have "get_session k (w_store w') = Some s'" using key by (simp add: out f)
  moreover have "apart k w w'"
  proof -
    have "apart k w w1" using g extends_apart by (auto simp: grows_def)
    moreover have "apart k w1 w'" using key by (simp add: apart_def out f used_def)
    ultimately show ?thesis by (rule apart_trans)
  qed
  ultimately show ?thesis
    using out(1) terminal_event_facts(1) [OF te] best key
    by (intro exI [of _ e] exI [of _ s']) (simp add: run_post_def f)
qed

lemma loop_load_Inr:
  "loop_load k w = (Inr (s, f), w') \<longleftrightarrow>
     w' = w \<and> get_session k (w_store w) = Some s \<and> get_face (ss_face_key s) (w_store w) = Some f
     \<and> fp_embedding f \<noteq> []"
  by (auto simp: loop_load_def obind_def op_get_session_def op_get_face_def split: option.splits if_splits)

lemma loop_load_Inl: "loop_load k w = (Inl e, w') \<Longrightarrow> w' = w"
  by (auto simp: loop_load_def obind_def op_get_session_def op_get_face_def split: option.splits if_splits)

lemma start_chain_simps:
  "cs_session (start_chain s f r steps) = s" "cs_working (start_chain s f r steps) = r"
  "cs_face (start_chain s f r steps) = f"
  by (simp_all add: start_chain_def fold_absorb_session)

context loop_services
begin

lemma drive_spec:
  assumes ky: "keyed w" and run: "drive env k p crop addendum w = (Inr e, w')"
  shows "\<exists>s f t s'. get_session k (w_store w) = Some s \<and> get_face (ss_face_key s) (w_store w) = Some f
    \<and> ss_thresholds s = Some t
    \<and> run_post (money_ok env \<and> honest (meter_of (le_pricing env) k (ss_budget_limit s))) t k crop (w_objects w (fp_photo_ref f))
        (length (plan_step_list s p) * nat (step_max_attempts env t)) s w e s' w'"
proof -
  obtain l w0 where ld: "loop_load k w = (l, w0)" by fastforce
  from run ld obtain s f where l: "l = Inr (s, f)" by (auto simp: drive_def obind_def split: sum.splits)
  with ld have w0: "w0 = w" and s: "get_session k (w_store w) = Some s"
    and f: "get_face (ss_face_key s) (w_store w) = Some f" by (auto simp: loop_load_Inr)
  have key: "ss_session_key s = k" using ky s by (simp add: keyed_def)
  from run ld l obtain t where t: "ss_thresholds s = Some t"
    by (auto simp: drive_def obind_def split: option.splits)
  let ?h = "money_ok env \<and> honest (meter_of (le_pricing env) k (ss_budget_limit s))"
  let ?b = "length (plan_step_list s p) * nat (step_max_attempts env t)"
  have "\<exists>s'. run_post ?h t k crop (w_objects w (fp_photo_ref f)) ?b s w e s' w'"
  proof (cases "w_objects w (fp_photo_ref f)")
    case None
    with run ld l t w0 have "loop_finish s reference_missing REFERENCE_MISSING w = (Inr e, w')"
      by (simp add: drive_def obind_def)
    from finish_post [OF grows_refl key _ _ _ this, of ?b "None" ] show ?thesis
      using None by auto
  next
    case (Some reference)
    define s1 where "s1 = s\<lparr>ss_fsm_state := GENERATING\<rparr>"
    define w1 where "w1 = w\<lparr>w_store := put_session s1 (w_store w)\<rparr>"
    define steps where "steps = plan_step_list s1 p"
    define locked where "locked = locked_slots p (ss_slots s1)"
    have steps: "length steps = length (plan_step_list s p)" by (simp add: steps_def plan_step_list_def s1_def)
    obtain ar where ar: "nearest_aspect_ratio (fm_width (fp_metrics f)) (fm_height (fp_metrics f))
        supported_ratios = Inr ar"
      using run ld l t w0 Some
      by (cases "nearest_aspect_ratio (fm_width (fp_metrics f)) (fm_height (fp_metrics f)) supported_ratios")
         (auto simp: drive_def obind_def op_put_session_def Let_def)
    define x where "x = \<lparr>cx_key = k, cx_preset = p, cx_thresholds = t,
        cx_meter = meter_of (le_pricing env) k (ss_budget_limit s1),
        cx_preserve = (case ss_brief_analysis s1 of None \<Rightarrow> [] | Some b \<Rightarrow> ba_preserve b),
        cx_locked = locked, cx_defaults = default_slots locked (ss_slots s1),
        cx_addendum = addendum, cx_face_crop = crop,
        cx_meta = (ss_preset_id s1, ss_preset_version s1, ss_library_version s1),
        cx_aspect_ratio = ar\<rparr>"
    define cs0 where "cs0 = start_chain s1 f reference steps"
    obtain r w2 where rc: "run_chain env x (1 < length steps) (zip [0..<length steps] steps) cs0 w1 = (r, w2)"
      by fastforce
    have eq: "(case r of Inl e \<Rightarrow> (Inl e, w2)
        | Inr cs \<Rightarrow> loop_finish (cs_session cs) (cs_reason cs) (cs_code cs) w2) = (Inr e, w')"
      using run ld l t w0 Some ar rc
      by (cases r)
         (simp_all add: drive_def obind_def op_put_session_def Let_def s1_def w1_def steps_def
            locked_def x_def cs0_def)
    then obtain cs where cs: "r = Inr cs" by (cases r) auto
    have ok: "chain_ok x cs0"
      using key by (simp add: chain_ok_def x_def cs0_def start_chain_simps s1_def meter_of_def)
    have hm: "?h \<longrightarrow> money_ok env \<and> honest (cx_meter x)" by (simp add: x_def s1_def)
    have post: "chain_post ?h x (length (zip [0..<length steps] steps) * nat (step_max_attempts env t)) cs0 w1 cs w2"
      and okcs: "chain_ok x cs"
      using run_chain_spec [OF hm ok rc] cs by (auto simp: x_def)
    from post obtain its reqs where g:
      "grows ?h t k crop s1 w1 its reqs (cs_session cs) w2"
      "length its \<le> length steps * nat (step_max_attempts env t)"
      "reqs \<noteq> [] \<longrightarrow> gq_reference_images (hd reqs) = [reference]"
      "best_from t k s1 \<longrightarrow> best_from t k (cs_session cs)"
      by (auto simp: chain_post_def x_def cs0_def start_chain_simps)
    have "grows ?h t k crop s w [] [] s1 w1"
      unfolding w1_def
      using key by (intro grows_frame_update extends_put_session) (simp_all add: s1_def)
    from grows_trans [OF this g(1)] have gg: "grows ?h t k crop s w its reqs (cs_session cs) w2" by simp
    have keycs: "ss_session_key (cs_session cs) = k" using okcs by (simp add: chain_ok_def x_def)
    have "best_from t k s \<longrightarrow> best_from t k (cs_session cs)" using g(4) by (simp add: s1_def)
    from finish_post [OF gg keycs _ _ this, of ?b "Some reference" "cs_reason cs" "cs_code cs" "Inr e" w']
    show ?thesis using g(2,3) eq cs steps Some by auto
  qed
  with s f t show ?thesis by blast
qed

end

section \<open>Execute once\<close>

text \<open>With a record for the key, the run replays it: no request, no event, nothing written.\<close>

lemma loop_run_replay:
  assumes "w_idem_get idem w = Some payload"
  shows "snd (loop_run env k p idem crop addendum w) = w"
  using assms
  by (simp add: loop_run_def obind_def world_idem.run_once_replay split: sum.splits)

lemma loop_run_result:
  assumes "loop_run env k p idem crop addendum w = (Inr e, w')"
  shows "is_terminal e"
    and "\<exists>payload. w_idem_get idem w' = Some payload \<and> le_load env payload = Inr e"
proof -
  let ?op = "obind (drive env k p crop addendum) (\<lambda>e. ret (le_dump env e))"
  obtain r w1 where ro: "run_once w_idem_get w_idem_put idem ?op w = (r, w1)" by fastforce
  with assms obtain payload b where r: "r = Inr (payload, b)"
    by (auto simp: loop_run_def obind_def split: sum.splits)
  have *: "le_load env payload = Inr e" "w' = w1" "is_terminal e"
    using assms ro r by (auto simp: loop_run_def obind_def split: sum.splits if_splits)
  show "is_terminal e" by (rule *(3))
  show "\<exists>payload. w_idem_get idem w' = Some payload \<and> le_load env payload = Inr e"
    using world_idem.run_once_returns_record [OF ro [unfolded r]] * by blast
qed

text \<open>The first run: the drive's own outcome, recorded under the key.\<close>

lemma loop_run_first:
  assumes none: "w_idem_get idem w = None"
    and run: "loop_run env k p idem crop addendum w = (Inr e, w')"
    and codec: "\<And>x. is_terminal x \<Longrightarrow> le_load env (le_dump env x) = Inr x"
    and frame: "\<And>x v. drive env k p crop addendum w = (Inr x, v)
      \<Longrightarrow> w_idem_get idem v = w_idem_get idem w \<and> is_terminal x"
  shows "\<exists>v. drive env k p crop addendum w = (Inr e, v) \<and> w' = snd (w_idem_put idem (le_dump env e) v)"
proof -
  obtain x v where d: "drive env k p crop addendum w = (x, v)" by fastforce
  show ?thesis
  proof (cases x)
    case (Inl err)
    with run none d show ?thesis
      by (simp add: loop_run_def run_once_def obind_def)
  next
    case (Inr e0)
    let ?op = "obind (drive env k p crop addendum) (\<lambda>e. ret (le_dump env e))"
    have "?op w = (Inr (le_dump env e0), v)" using d Inr by (simp add: obind_def)
    moreover have "w_idem_get idem v = None" using frame [OF d [unfolded Inr]] none by simp
    ultimately have "run_once w_idem_get w_idem_put idem ?op w =
        (Inr (le_dump env e0, False), snd (w_idem_put idem (le_dump env e0) v))"
      using world_idem.run_once_first none by blast
    moreover have "le_load env (le_dump env e0) = Inr e0" using codec frame [OF d [unfolded Inr]] by blast
    ultimately have "e = e0" "w' = snd (w_idem_put idem (le_dump env e0) v)"
      using run by (auto simp: loop_run_def obind_def split: if_splits)
    with d Inr show ?thesis by simp
  qed
qed

lemma w_idem_put_fields [simp]:
  "w_streams (snd (w_idem_put j v w)) = w_streams w" "w_gen_log (snd (w_idem_put j v w)) = w_gen_log w"
  "get_session k (w_store (snd (w_idem_put j v w))) = get_session k (w_store w)"
  "used k (snd (w_idem_put j v w)) = used k w"
  by (auto simp: w_idem_put_def idem_put_def get_session_def used_def budget_used_def
      split: prod.splits option.splits)

lemma keyed_idem_put [simp]: "keyed (snd (w_idem_put j v w)) = keyed w"
  by (simp add: keyed_def)

context loop_services
begin

lemma loop_run_fresh:
  assumes ky: "keyed w" and none: "w_idem_get idem w = None"
    and codec: "\<And>x. is_terminal x \<Longrightarrow> le_load env (le_dump env x) = Inr x"
    and run: "loop_run env k p idem crop addendum w = (Inr e, w')"
  shows "\<exists>s f t s' v. get_session k (w_store w) = Some s \<and> get_face (ss_face_key s) (w_store w) = Some f
    \<and> ss_thresholds s = Some t \<and> w' = snd (w_idem_put idem (le_dump env e) v)
    \<and> run_post (money_ok env \<and> honest (meter_of (le_pricing env) k (ss_budget_limit s))) t k crop
        (w_objects w (fp_photo_ref f))
        (length (plan_step_list s p) * nat (step_max_attempts env t)) s w e s' v"
proof -
  have frame: "w_idem_get idem v = w_idem_get idem w \<and> is_terminal x"
    if d: "drive env k p crop addendum w = (Inr x, v)" for x v
    using drive_spec [OF ky d] by (auto simp: run_post_def apart_def w_idem_get_def reports_terminal)
  have "\<exists>v. drive env k p crop addendum w = (Inr e, v) \<and> w' = snd (w_idem_put idem (le_dump env e) v)"
    by (rule loop_run_first [OF none run]) (auto intro: codec dest: frame)
  then obtain v where
    d: "drive env k p crop addendum w = (Inr e, v)" and w': "w' = snd (w_idem_put idem (le_dump env e) v)"
    by blast
  from drive_spec [OF ky d] w' show ?thesis by blast
qed

end

end
