(* ===== verification/Llm_Ports.thy ===== *)
theory Llm_Ports
  imports Llm_Client Loop_Run
begin

text \<open>
  The OpenRouter connectors over the shared transport: planner, slot filler, prompt writer,
  brief parser, inventory extractor and image generator
  (\<open>services/connectors/openrouter_*.py\<close>). Each has its request payload, its parser, which
  re-validates everything the model returned, and its port method. The fallbacks are the
  deterministic services of \<open>Fallbacks\<close>. \<open>writer_port\<close> and \<open>loop_services\<close> are interpreted here
  on the connectors' own definitions.
\<close>

section \<open>Schemas and views\<close>

definition js_object :: "(string \<times> json) list \<Rightarrow> string list \<Rightarrow> json" where
  "js_object properties required =
     JObj [(''type'', JStr ''object''), (''properties'', JObj properties),
           (''required'', JArr (map JStr required)), (''additionalProperties'', JBool False)]"

definition js_string :: json where
  "js_string = JObj [(''type'', JStr ''string'')]"

definition js_array :: "json \<Rightarrow> json" where
  "js_array items = JObj [(''type'', JStr ''array''), (''items'', items)]"

definition js_capped :: "nat \<Rightarrow> json" where
  "js_capped n = JObj [(''type'', JStr ''string''), (''maxLength'', JInt (int n))]"

definition js_opt :: "('a \<Rightarrow> json) \<Rightarrow> 'a option \<Rightarrow> json" where
  "js_opt f v = (case v of None \<Rightarrow> JNull | Some x \<Rightarrow> f x)"

definition js_strings :: "string list \<Rightarrow> json" where
  "js_strings xs = JArr (map JStr xs)"

definition js_dict :: "(string, string) dict \<Rightarrow> json" where
  "js_dict d = JObj (map (\<lambda>(k, v). (k, JStr v)) d)"

definition dump_inventory :: "photo_inventory \<Rightarrow> json" where
  \<comment> \<open>\<open>model_dump(exclude={"schema_v"})\<close>\<close>
  "dump_inventory i =
     JObj [(''pose'', JStr (inv_pose i)), (''hands'', JStr (inv_hands i)),
           (''accessories'', js_strings (inv_accessories i)), (''clothing'', JStr (inv_clothing i)),
           (''hair'', JStr (inv_hair i)), (''facial_hair'', JStr (inv_facial_hair i)),
           (''framing'', JStr (inv_framing i)), (''lighting'', JStr (inv_lighting i)),
           (''background'', JStr (inv_background i))]"

definition shown_inventory :: "photo_inventory option \<Rightarrow> json" where
  \<comment> \<open>an absent or empty inventory is shown as null\<close>
  "shown_inventory inventory =
     (case inventory of None \<Rightarrow> JNull | Some i \<Rightarrow> if inventory_is_empty i then JNull else dump_inventory i)"

definition dump_metrics :: "frame_metrics \<Rightarrow> json" where
  "dump_metrics m =
     JObj [(''face_count'', JInt (fm_face_count m)), (''face_area_ratio'', JFloat (fm_face_area_ratio m)),
           (''face_side'', JFloat (fm_face_side m)),
           (''secondary_face_ratio'', JFloat (fm_secondary_face_ratio m)),
           (''blur_var'', JFloat (fm_blur_var m)), (''yaw'', JFloat (fm_yaw m)),
           (''pitch'', JFloat (fm_pitch m)), (''roll'', JFloat (fm_roll m)),
           (''brightness'', JFloat (fm_brightness m)), (''width'', JInt (fm_width m)),
           (''height'', JInt (fm_height m))]"

definition js_text :: "json option \<Rightarrow> string option" where   \<comment> \<open>the value when it is a \<open>str\<close>\<close>
  "js_text v = (case v of Some (JStr s) \<Rightarrow> Some s | _ \<Rightarrow> None)"

fun js_texts :: "json list \<Rightarrow> string list option" where   \<comment> \<open>all of them \<open>str\<close>\<close>
  "js_texts [] = Some []"
| "js_texts (JStr s # xs) = map_option ((#) s) (js_texts xs)"
| "js_texts _ = None"

definition js_text_list :: "json option \<Rightarrow> string list option" where
  "js_text_list v = (case v of Some (JArr xs) \<Rightarrow> js_texts xs | _ \<Rightarrow> None)"

definition stripped :: "string list \<Rightarrow> string list" where   \<comment> \<open>\<open>[x.strip() for x in xs if x.strip()]\<close>\<close>
  "stripped xs = filter (\<lambda>x. x \<noteq> []) (map strip xs)"

definition invalid :: "string \<Rightarrow> py_exn" where
  "invalid m = OtherError m"

section \<open>Planner (\<open>openrouter_planner.py\<close>)\<close>

definition planner_system_prompt :: string where
  "planner_system_prompt =
     ''You plan photo-edit steps for a reference-conditioned image editor that applies ''
     @ ''ONE change at a time, chaining outputs: step N+1 edits the output of step N. ''
     @ ''Identity drift compounds with every pass, so minimize passes and risk per pass.''
     @ [CHR 0x0A, CHR 0x0A] @ ''PHASE 1 '' @ [CHR 0xE2, CHR 0x80, CHR 0x94]
     @ '' RECONCILE THE BRIEF AGAINST THE PHOTO:'' @ [CHR 0x0A]
     @ ''You receive two kinds of input:'' @ [CHR 0x0A] @ ''  '' @ [CHR 0xE2, CHR 0x80, CHR 0xA2]
     @ '' explicit_changes '' @ [CHR 0xE2, CHR 0x80, CHR 0x94]
     @ '' changes the user explicitly requested.'' @ [CHR 0x0A] @ ''  ''
     @ [CHR 0xE2, CHR 0x80, CHR 0xA2] @ '' preserve_list '' @ [CHR 0xE2, CHR 0x80, CHR 0x94]
     @ '' what the user described as their current photo (pose, setting,'' @ [CHR 0x0A]
     @ ''    clothing, etc.) that they want kept.'' @ [CHR 0x0A] @ ''  ''
     @ [CHR 0xE2, CHR 0x80, CHR 0xA2] @ '' photo_inventory '' @ [CHR 0xE2, CHR 0x80, CHR 0x94]
     @ '' what the photo actually shows.'' @ [CHR 0x0A]
     @ ''Compare each preserve_list item against the matching field in photo_inventory. ''
     @ ''If the user's description of their photo differs from what the photo actually ''
     @ ''shows, that discrepancy is an IMPLICIT change to add to the plan.'' @ [CHR 0x0A]
     @ ''Examples:'' @ [CHR 0x0A] @ ''  '' @ [CHR 0xE2, CHR 0x80, CHR 0xA2]
     @ '' preserve says 'city background setting', inventory shows 'residential interior ''
     @ ''with white shelving' '' @ [CHR 0xE2, CHR 0x86, CHR 0x92]
     @ '' add a step: change background to a city/urban setting.'' @ [CHR 0x0A] @ ''  ''
     @ [CHR 0xE2, CHR 0x80, CHR 0xA2]
     @ '' preserve says 'casual wear (jeans and jacket)', inventory shows 'beige '' @ ''t-shirt' ''
     @ [CHR 0xE2, CHR 0x86, CHR 0x92]
     @ '' add a step: replace the beige t-shirt with jeans and a casual jacket.'' @ [CHR 0x0A]
     @ ''Do NOT add an implicit change when the preserve item is a generic instruction ''
     @ ''('face and identity', 'framing and composition') rather than a description of a ''
     @ ''specific visual element, or when the description and inventory say the same ''
     @ ''thing in different words. Only flag real, clear visual discrepancies.''
     @ [CHR 0x0A, CHR 0x0A] @ ''PHASE 2 '' @ [CHR 0xE2, CHR 0x80, CHR 0x94]
     @ '' ORDER ALL CHANGES INTO STEPS:'' @ [CHR 0x0A]
     @ ''Combine explicit_changes and any implicit changes from phase 1 into an ordered ''
     @ ''plan.'' @ [CHR 0x0A] @ ''Rules:'' @ [CHR 0x0A]
     @ ''- One change per step by default. Merge ONLY when changes target the same scene ''
     @ ''region: background, ambient lighting, and overall color grade may merge into ''
     @ ''one step. Nothing else merges '' @ [CHR 0xE2, CHR 0x80, CHR 0x94]
     @ '' never merge clothing with accessories; never merge anything near the face.'' @ [CHR 0x0A]
     @ ''- Order steps from least to most identity-sensitive: (1) scene-level changes ''
     @ ''(background, setting, lighting, color grade) first; (2) clothing and body-level ''
     @ ''next; (3) accessories and anything close to the face (glasses, earrings, hat) ''
     @ ''last.'' @ [CHR 0x0A]
     @ ''- Make each instruction self-contained and concrete. Resolve references against ''
     @ ''photo_inventory: write 'replace the existing beige t-shirt with dark jeans and ''
     @ ''a casual blazer jacket', not 'change clothing'. Name colors, materials, and ''
     @ ''placement explicitly.'' @ [CHR 0x0A]
     @ ''- For each step write 'applied': a short noun phrase naming the changed ''
     @ ''attribute at its NEW value once the step is done (e.g. 'the new dark jeans and ''
     @ ''blazer '). Later steps will lock this phrase as untouchable.'' @ [CHR 0x0A]
     @ ''- Every explicit_change target must appear in exactly one step. Implicit ''
     @ ''targets discovered in phase 1 are additional steps. Do not drop any target.''"

definition planner_schema :: json where
  "planner_schema =
     js_object
       [(''steps'', js_array (js_object
           [(''title'', js_string), (''instruction'', js_string), (''targets'', js_array js_string),
            (''applied'', js_string)]
           [''title'', ''instruction'', ''targets'', ''applied'']))]
       [''steps'']"

fun parse_step_items ::
  "bool \<Rightarrow> string list \<Rightarrow> nat \<Rightarrow> string list \<Rightarrow> json list \<Rightarrow> (edit_step list \<times> string list) result" where
  "parse_step_items allow explicit i covered [] = Inr ([], covered)"
| "parse_step_items allow explicit i covered (item # rest) =
     (case item of
        JObj d \<Rightarrow>
          (case js_text (dict_get d ''title'') of
             None \<Rightarrow> Inl (invalid ''a step has no title'')
           | Some title \<Rightarrow>
               if strip title = [] then Inl (invalid ''a step has no title'')
               else (case js_text (dict_get d ''instruction'') of
                 None \<Rightarrow> Inl (invalid ''a step has no instruction'')
               | Some instruction \<Rightarrow>
                   if strip instruction = [] then Inl (invalid ''a step has no instruction'')
                   else (case js_text_list (dict_get d ''targets'') of
                     None \<Rightarrow> Inl (invalid ''a step's targets are not strings'')
                   | Some targets \<Rightarrow>
                       let clean = stripped targets
                       in if \<not> allow \<and> \<not> list_all (\<lambda>t. t \<in> set explicit) clean
                          then Inl (invalid ''a step covers a target not in the brief'')
                          else if list_ex (\<lambda>t. t \<in> set covered) clean
                          then Inl (invalid ''a target is covered by more than one step'')
                          else bind_res (parse_step_items allow explicit (Suc i) (covered @ clean) rest)
                            (\<lambda>(steps, covered').
                               Inr ((mk_step i (strip title) (strip instruction) clean)
                                      \<lparr>st_applied := (case js_text (dict_get d ''applied'') of
                                                        None \<Rightarrow> [] | Some a \<Rightarrow> strip a)\<rparr> # steps,
                                    covered')))))
      | _ \<Rightarrow> Inl (invalid ''a step is not an object''))"

definition parse_steps :: "llm \<Rightarrow> json \<Rightarrow> brief_analysis \<Rightarrow> bool \<Rightarrow> edit_step list result" where
  "parse_steps c body a allow_extra_targets =
     bind_res (message_content c body) (\<lambda>parsed.
     bind_res (json_item ''steps'' parsed) (\<lambda>raw_steps.
       case raw_steps of
         JArr (x # xs) \<Rightarrow>
           (let explicit = map ch_target (ba_changes a)
            in bind_res (parse_step_items allow_extra_targets explicit 1 [] (x # xs)) (\<lambda>(steps, covered).
                 if list_all (\<lambda>t. t \<in> set covered) explicit then Inr steps
                 else Inl (invalid ''explicit changes not covered by any step'')))
       | _ \<Rightarrow> Inl (invalid ''planner returned no steps'')))"

definition planner_payload :: "llm \<Rightarrow> brief_analysis \<Rightarrow> photo_inventory option \<Rightarrow> json" where
  "planner_payload c a inventory =
     chat_payload c (JStr planner_system_prompt)
       (JStr (ll_dumps c (JObj
          [(''explicit_changes'', JArr (map (\<lambda>x. JObj [(''target'', JStr (ch_target x)),
                                                     (''instruction'', JStr (ch_instruction x))]) (ba_changes a))),
           (''preserve_list'', js_strings (ba_preserve a)),
           (''photo_inventory'', shown_inventory inventory)])))
       0 ''step_plan'' planner_schema"

definition has_inventory :: "photo_inventory option \<Rightarrow> bool" where
  "has_inventory inventory = (case inventory of None \<Rightarrow> False | Some i \<Rightarrow> \<not> inventory_is_empty i)"

definition or_plan ::
  "llm \<Rightarrow> brief_analysis \<Rightarrow> photo_inventory option \<Rightarrow> meter option \<Rightarrow> plan_outcome op" where
  "or_plan c a inventory m =
     (let needs_reconciliation = has_inventory inventory \<and> ba_preserve a \<noteq> []
      in if length (ba_changes a) < 2 \<and> \<not> needs_reconciliation then ret (deterministic_plan a)
         else paid_call c m SLOT_FILL (planner_payload c a inventory)
                (\<lambda>body. parse_steps c body a (has_inventory inventory))
                (\<lambda>steps usage cost. \<lparr>pn_steps = steps, pn_usage = usage, pn_cost = cost\<rparr>)
                (Inr (deterministic_plan a)))"

section \<open>Slot filler (\<open>openrouter_slot_filler.py\<close>)\<close>

definition slot_system_prompt :: string where
  "slot_system_prompt =
     ''You resolve styling slots for a photo-generation prompt. For every slot that ''
     @ ''lists allowed options, choose exactly one of them, the best fit for the user's ''
     @ ''answer and the photo metrics. A slot without options is a free-form scene ''
     @ ''description: copy the user's own words into it verbatim, unchanged. The ''
     @ ''addendum is at most one short sentence of extra scene detail (lighting, mood); ''
     @ ''leave it empty unless the user's answer clearly asks for it. Never describe or ''
     @ ''modify the person's face or identity.''"

definition freeform_max_len :: nat where "freeform_max_len = 300"
definition addendum_max_len :: nat where "addendum_max_len = 200"

fun bytes_le :: "string \<Rightarrow> string \<Rightarrow> bool" where   \<comment> \<open>code point order is UTF-8 byte order\<close>
  "bytes_le [] t = True"
| "bytes_le (c # s) [] = False"
| "bytes_le (c # s) (d # t) = (code c < code d \<or> c = d \<and> bytes_le s t)"

fun insert_name :: "string \<Rightarrow> string list \<Rightarrow> string list" where
  "insert_name x [] = [x]"
| "insert_name x (y # ys) = (if bytes_le x y then x # y # ys else y # insert_name x ys)"

definition slot_schema :: "preset \<Rightarrow> json" where
  "slot_schema p =
     js_object
       [(''slots'', js_object
           (map (\<lambda>(name, s). (name,
              case sl_enum s of
                Some opts \<Rightarrow> JObj [(''type'', JStr ''string''), (''enum'', js_strings opts)]
              | None \<Rightarrow> js_capped freeform_max_len)) (pr_slots p))
           (fold insert_name (dict_keys (pr_slots p)) [])),
        (''addendum'', js_capped addendum_max_len)]
       [''slots'', ''addendum'']"

definition slot_catalog :: "preset \<Rightarrow> json" where
  "slot_catalog p =
     JObj (map (\<lambda>(name, s). (name,
        JObj [(''options'', js_opt js_strings (sl_enum s)), (''default'', js_opt JStr (sl_default s)),
              (''asked_to_user'', JBool (sl_ask s))])) (pr_slots p))"

fun parse_slot_values ::
  "preset \<Rightarrow> (string \<times> json) list \<Rightarrow> (string, string) dict \<Rightarrow> (string, string) dict result" where
  "parse_slot_values p [] acc = Inr acc"
| "parse_slot_values p ((name, value) # rest) acc =
     (case js_text (Some value) of
        None \<Rightarrow> Inl (invalid (''slot is not a non-empty string: '' @ name))
      | Some v \<Rightarrow>
          if strip v = [] then Inl (invalid (''slot is not a non-empty string: '' @ name))
          else (case dict_get (pr_slots p) name of
            None \<Rightarrow> Inl (KeyError name)
          | Some s \<Rightarrow>
              (case sl_enum s of
                 Some opts \<Rightarrow>
                   if v \<notin> set opts then Inl (invalid (''value outside the preset vocabulary: '' @ name))
                   else parse_slot_values p rest (dict_set name v acc)
               | None \<Rightarrow> parse_slot_values p rest (dict_set name v acc))))"

definition parse_fill :: "llm \<Rightarrow> preset \<Rightarrow> json \<Rightarrow> slot_fill result" where
  "parse_fill c p body =
     bind_res (message_content c body) (\<lambda>parsed.
     bind_res (json_item ''slots'' parsed) (\<lambda>raw_slots.
     bind_res (json_lookup ''addendum'' parsed) (\<lambda>raw_addendum.
       case raw_slots of
         JObj d \<Rightarrow>
           if set (dict_keys d) \<noteq> set (dict_keys (pr_slots p))
           then Inl (invalid ''LLM did not return exactly the slots of the preset'')
           else bind_res (parse_slot_values p d []) (\<lambda>slots.
             case (case raw_addendum of None \<Rightarrow> Some [] | Some j \<Rightarrow> js_text (Some j)) of
               None \<Rightarrow> Inl (invalid ''addendum is not a string'')
             | Some addendum \<Rightarrow>
                 Inr \<lparr>sf_slots = slots, sf_addendum = py_take addendum_max_len (strip addendum),
                      sf_usage = None, sf_cost = 0\<rparr>)
       | _ \<Rightarrow> Inl (invalid ''LLM did not return exactly the slots of the preset''))))"

definition freeform_text :: "slot \<Rightarrow> string option \<Rightarrow> string option" where
  \<comment> \<open>what a free-form slot is given; \<open>None\<close>: the slot is left as it is\<close>
  "freeform_text s user_answer =
     (if sl_enum s \<noteq> None then None
      else if sl_ask s \<and> user_answer \<noteq> None then user_answer
      else sl_default s)"

fun verbatim_freeform ::
  "(string, slot) dict \<Rightarrow> string option \<Rightarrow> (string, string) dict \<Rightarrow> (string, string) dict" where
  "verbatim_freeform [] user_answer out = out"
| "verbatim_freeform ((name, s) # rest) user_answer out =
     verbatim_freeform rest user_answer
       (case freeform_text s user_answer of None \<Rightarrow> out | Some v \<Rightarrow> dict_set name v out)"

definition slot_payload :: "llm \<Rightarrow> preset \<Rightarrow> string option \<Rightarrow> frame_metrics option \<Rightarrow> json" where
  "slot_payload c p user_answer photo_analysis =
     chat_payload c (JStr slot_system_prompt)
       (JStr (ll_dumps c (JObj
          [(''slots'', slot_catalog p), (''user_answer'', js_opt JStr user_answer),
           (''photo_metrics'', js_opt dump_metrics photo_analysis)])))
       0 ''slot_fill'' (slot_schema p)"

definition or_fill ::
  "llm \<Rightarrow> preset \<Rightarrow> string option \<Rightarrow> frame_metrics option \<Rightarrow> meter option \<Rightarrow> slot_fill op" where
  "or_fill c p user_answer photo_analysis m =
     (if user_answer = None \<and> photo_analysis = None then lift_res (default_fill p user_answer)
      else paid_call c m SLOT_FILL (slot_payload c p user_answer photo_analysis) (parse_fill c p)
             (\<lambda>f usage cost.
                f\<lparr>sf_slots := verbatim_freeform (pr_slots p) user_answer (sf_slots f),
                  sf_usage := usage, sf_cost := cost\<rparr>)
             (default_fill p user_answer))"

section \<open>Prompt writer (\<open>openrouter_prompt_writer.py\<close>)\<close>

definition body_max_len :: nat where "body_max_len = 1200"

definition compose_system_edit :: string where
  "compose_system_edit =
     ''You write the body of a prompt for a reference-conditioned image editor. The ''
     @ ''editor receives the original image plus the text; surrounding blocks (added by ''
     @ ''the system, not by you) already lock the person and everything that must not ''
     @ ''change, and state the single allowed change.'' @ [CHR 0x0A]
     @ ''Describe ONLY the requested change and how it integrates into the existing ''
     @ ''photo. Be concrete about the new content '' @ [CHR 0xE2, CHR 0x80, CHR 0x94]
     @ '' colors, materials, placement, scale '' @ [CHR 0xE2, CHR 0x80, CHR 0x94]
     @ '' and add integration notes: if '' @ [CHR 0x60] @ ''photo_inventory.lighting'' @ [CHR 0x60]
     @ '' is present, begin your integration note by naming that exact lighting ''
     @ ''condition (e.g. '' @ [CHR 0x22]
     @ ''under the same soft overhead light from the upper-left'' @ [CHR 0x22]
     @ '') so the model knows precisely which light to match on the new content; ''
     @ ''otherwise reference the existing light direction generically. Keep shadows and ''
     @ ''reflections physically consistent, keep the new content at the same sharpness ''
     @ ''and grain as the rest of the photo.'' @ [CHR 0x0A]
     @ ''Never re-describe the person, the face, or any part of the photo that is not ''
     @ ''being changed. Never instruct changing the face, identity, pose, head angle, or ''
     @ ''hands. Do not suggest re-centering, rotating, or repositioning the subject. ''
     @ ''When the change involves a new background or lighting, describe a physically ''
     @ ''real environment photographed with a camera: a tangible surface or wall with ''
     @ ''soft bokeh depth-of-field blur, studio light panels or practical lamps as ''
     @ ''physical objects, key/fill/rim lighting ratios, color temperature and light ''
     @ ''direction. The background must appear as a real out-of-focus place, not as a ''
     @ ''graphic design overlay '' @ [CHR 0xE2, CHR 0x80, CHR 0x94]
     @ '' never describe beams, streaks, rays, lines, or any light shapes floating in ''
     @ ''the background, no matter how subtle or soft-focus. If the new light source ''
     @ ''emits color, describe the soft color spill or rim light it casts on the ''
     @ ''subject's hair outline and shoulders. Do not write negative phrasing ('no''
     @ [CHR 0xE2, CHR 0x80, CHR 0xA6] @ ''', 'avoid'' @ [CHR 0xE2, CHR 0x80, CHR 0xA6]
     @ ''') and do not mention prompts, instructions or these rules. Two to four ''
     @ ''sentences. Body text only.''"

definition revise_suffix :: string where
  "revise_suffix =
     '' The previous attempt did not match the person well enough. Re-compose the body ''
     @ ''so the change touches even less of the frame and blends in even more ''
     @ ''conservatively, keeping the same single change. Body text only.''"

definition revise_system :: string where
  "revise_system = compose_system_edit @ revise_suffix"

definition body_schema :: json where
  "body_schema = js_object [(''body'', js_capped body_max_len)] [''body'']"

definition parse_body :: "llm \<Rightarrow> json \<Rightarrow> string result" where
  "parse_body c body =
     bind_res (message_content c body) (\<lambda>parsed.
     bind_res (json_item ''body'' parsed) (\<lambda>composed.
       case js_text (Some composed) of
         None \<Rightarrow> Inl (invalid ''writer body is not a non-empty string'')
       | Some s \<Rightarrow>
           if strip s = [] then Inl (invalid ''writer body is not a non-empty string'')
           else Inr (py_take body_max_len (strip s))))"

definition request_view :: "write_request \<Rightarrow> frame_metrics option \<Rightarrow> (string \<times> json) list" where
  "request_view rq photo_metrics =
     [(''instruction'', JStr (wq_instruction rq)), (''preserve'', js_strings (wq_preserve rq)),
      (''locked'', js_dict (wq_locked rq)), (''defaults'', js_dict (wq_defaults rq)),
      (''style_notes'', JStr (wq_style_notes rq)), (''photo_metrics'', js_opt dump_metrics photo_metrics),
      (''photo_inventory'', shown_inventory (wq_inventory rq)),
      (''already_applied'', js_strings (wq_applied rq))]"

definition writer_payload :: "llm \<Rightarrow> string \<Rightarrow> (string \<times> json) list \<Rightarrow> json" where
  "writer_payload c system view =
     chat_payload c (JStr system) (JStr (ll_dumps c (JObj view))) (3 / 10) ''prompt_body'' body_schema"

definition writer_degrade :: "write_request \<Rightarrow> string option \<Rightarrow> write_result" where
  "writer_degrade rq revising_from =
     (case revising_from of None \<Rightarrow> deterministic_compose rq | Some b \<Rightarrow> deterministic_revise b)"

definition writer_call ::
  "llm \<Rightarrow> string \<Rightarrow> (string \<times> json) list \<Rightarrow> write_request \<Rightarrow> meter option \<Rightarrow> string option
     \<Rightarrow> write_result op" where
  "writer_call c system view rq m revising_from =
     paid_call c m SLOT_FILL (writer_payload c system view) (parse_body c)
       (\<lambda>b usage cost. \<lparr>wt_body = b, wt_usage = usage, wt_cost = cost\<rparr>)
       (Inr (writer_degrade rq revising_from))"

definition or_compose ::
  "llm \<Rightarrow> write_request \<Rightarrow> frame_metrics option \<Rightarrow> meter option \<Rightarrow> write_result op" where
  "or_compose c rq photo_metrics m =
     writer_call c compose_system_edit (request_view rq photo_metrics) rq m None"

definition or_revise ::
  "llm \<Rightarrow> string \<Rightarrow> writer_feedback \<Rightarrow> write_request \<Rightarrow> meter option \<Rightarrow> write_result op" where
  "or_revise c prev_body feedback rq m =
     writer_call c revise_system
       (request_view rq None
        @ [(''previous_body'', JStr prev_body),
           (''previous_similarity'', js_opt JFloat (wf_similarity feedback)),
           (''previous_verdict'', js_opt (\<lambda>v. JStr (verdict_value v)) (wf_verdict feedback)),
           (''previous_attempt'', js_opt (\<lambda>n. JInt (int n)) (wf_attempt feedback))])
       rq m (Some prev_body)"

section \<open>Brief parser (\<open>openrouter_brief_parser.py\<close>)\<close>

definition brief_system_prompt :: string where
  "brief_system_prompt =
     ''You analyze a user's photo-editing request and return a structured reading.''
     @ [CHR 0x0A, CHR 0x0A] @ ''The pipeline always works in edit mode ''
     @ [CHR 0xE2, CHR 0x80, CHR 0x94]
     @ '' the user's own photo is the starting point and only the named changes are ''
     @ ''applied. Your job is to extract:'' @ [CHR 0x0A, CHR 0x0A]
     @ ''- 'preserve': what must stay exactly as in the original photo ''
     @ [CHR 0xE2, CHR 0x80, CHR 0x94]
     @ '' pose, framing, clothing, setting; the face is always preserved implicitly so ''
     @ ''never list it.'' @ [CHR 0x0A]
     @ ''- 'changes': each a short target noun (background, lighting, clothing, ''
     @ ''accessory, color_grade) plus the instruction in the user's own intent. Use one ''
     @ ''change per distinct region '' @ [CHR 0xE2, CHR 0x80, CHR 0x94]
     @ '' do not merge unrelated targets.'' @ [CHR 0x0A]
     @ ''- 'conflicts': any request that tries to edit the person's face or identity ''
     @ ''itself, or asks for something impossible. Never restate the face as a change.''
     @ [CHR 0x0A, CHR 0x0A]
     @ ''If the user mentions a general quality goal ('professional look', 'studio ''
     @ ''quality') AND specific changes, include the specific changes and treat the ''
     @ ''quality goal as style context in 'preserve'. Never invent changes the user did ''
     @ ''not ask for.''"

definition brief_schema :: json where
  "brief_schema =
     js_object
       [(''preserve'', js_array js_string),
        (''changes'', js_array (js_object [(''target'', js_string), (''instruction'', js_string)]
                                [''target'', ''instruction''])),
        (''conflicts'', js_array js_string)]
       [''preserve'', ''changes'', ''conflicts'']"

definition str_list :: "json option \<Rightarrow> string \<Rightarrow> string list result" where
  "str_list raw field =
     (case js_text_list raw of
        None \<Rightarrow> Inl (invalid (field @ '' is not a list of strings'')) | Some xs \<Rightarrow> Inr (stripped xs))"

fun parse_changes :: "json list \<Rightarrow> change list result" where
  "parse_changes [] = Inr []"
| "parse_changes (item # rest) =
     (case item of
        JObj d \<Rightarrow>
          (case (js_text (dict_get d ''target''), js_text (dict_get d ''instruction'')) of
             (Some t, Some i) \<Rightarrow>
               bind_res (parse_changes rest) (\<lambda>cs.
                 Inr (if strip t \<noteq> [] \<and> strip i \<noteq> []
                      then \<lparr>ch_target = strip t, ch_instruction = strip i\<rparr> # cs else cs))
           | _ \<Rightarrow> Inl (invalid ''a change is missing target/instruction''))
      | _ \<Rightarrow> Inl (invalid ''a change is not an object''))"

definition parse_analysis :: "llm \<Rightarrow> json \<Rightarrow> brief_analysis result" where
  "parse_analysis c body =
     bind_res (message_content c body) (\<lambda>parsed.
       case parsed of
         JObj d \<Rightarrow>
           (case dict_get d ''changes'' of
              Some (JArr raw_changes) \<Rightarrow>
                bind_res (parse_changes raw_changes) (\<lambda>changes.
                bind_res (str_list (dict_get d ''preserve'') ''preserve'') (\<lambda>preserve.
                bind_res (str_list (dict_get d ''conflicts'') ''conflicts'') (\<lambda>conflicts.
                  Inr \<lparr>ba_use_case = None, ba_preserve = preserve, ba_changes = changes,
                       ba_conflicts = conflicts\<rparr>)))
            | _ \<Rightarrow> Inl (invalid ''changes is not a list''))
       | _ \<Rightarrow> Inl (invalid ''parser response is not an object''))"

definition brief_payload :: "llm \<Rightarrow> string \<Rightarrow> json" where
  "brief_payload c brief =
     chat_payload c (JStr brief_system_prompt) (JStr (ll_dumps c (JObj [(''request'', JStr brief)])))
       0 ''brief_analysis'' brief_schema"

definition or_parse :: "llm \<Rightarrow> string \<Rightarrow> meter option \<Rightarrow> parse_outcome op" where
  "or_parse c brief m =
     (if strip brief = [] then ret (deterministic_parse brief)
      else paid_call c m CLASSIFY (brief_payload c brief) (parse_analysis c)
             (\<lambda>a usage cost. \<lparr>po_analysis = a, po_usage = usage, po_cost = cost\<rparr>)
             (Inr (deterministic_parse brief)))"

section \<open>Inventory (\<open>openrouter_inventory.py\<close>)\<close>

definition inventory_system_prompt :: string where
  "inventory_system_prompt =
     ''You catalogue exactly what is visible in one photo of a person, so a photo ''
     @ ''editor can keep everything unchanged. Report only what you can actually see ''
     @ [CHR 0xE2, CHR 0x80, CHR 0x94]
     @ '' never guess, never embellish; leave a field empty when it is not visible. Use ''
     @ ''short, concrete noun phrases.'' @ [CHR 0x0A, CHR 0x0A]
     @ ''For the 'pose' field, start with head yaw using EXACTLY one of these ''
     @ ''categories: 'frontal (0-15'' @ [CHR 0xC2, CHR 0xB0] @ '')' | 'slight turn (15-30''
     @ [CHR 0xC2, CHR 0xB0] @ '')' | 'three-quarter view (30-50'' @ [CHR 0xC2, CHR 0xB0]
     @ '')' | 'strong three-quarter (50-70'' @ [CHR 0xC2, CHR 0xB0] @ '')' | 'near-profile (70-80''
     @ [CHR 0xC2, CHR 0xB0] @ '')' | 'profile (80-90'' @ [CHR 0xC2, CHR 0xB0]
     @ '')'. Always add direction: 'to the left' or 'to the right'. Visual check: if the ''
     @ ''far ear is NOT visible '' @ [CHR 0xE2, CHR 0x86, CHR 0x92]
     @ '' use at least 'strong three-quarter'; if the far ear IS visible but the far ''
     @ ''cheek is partially obscured '' @ [CHR 0xE2, CHR 0x86, CHR 0x92]
     @ '' 'three-quarter view'; if both ears are clearly visible ''
     @ [CHR 0xE2, CHR 0x86, CHR 0x92]
     @ '' 'slight turn' or 'frontal'. After the head yaw, add body orientation, posture, ''
     @ ''and arm/hand placement.'' @ [CHR 0x0A, CHR 0x0A]
     @ ''Other fields: hands (visibility, gesture, held objects), accessories (each item ''
     @ ''with its placement, e.g. 'wedding ring on the right hand', 'white earbud in the ''
     @ ''left ear'), clothing (garment, color, fit, neckline), hair, facial_hair, ''
     @ ''framing (crop, camera distance and angle; for head-and-shoulders or half-body ''
     @ ''shots also state the shoulder span as a fraction of frame width, e.g. ''
     @ '''shoulders span ~75% of frame width', and how much of the lower frame is body, ''
     @ ''e.g. 'body visible to mid-chest'), lighting (light direction, quality, overall ''
     @ ''color grade), background (a one-sentence summary). Do not describe facial ''
     @ ''geometry or identity '' @ [CHR 0xE2, CHR 0x80, CHR 0x94]
     @ '' only what sits on or around the person.''"

definition inventory_text_fields :: "string list" where
  "inventory_text_fields =
     [''pose'', ''hands'', ''clothing'', ''hair'', ''facial_hair'', ''framing'', ''lighting'',
      ''background'']"

definition inventory_schema :: json where
  "inventory_schema =
     js_object (map (\<lambda>f. (f, js_string)) inventory_text_fields @ [(''accessories'', js_array js_string)])
       (inventory_text_fields @ [''accessories''])"

definition text_field :: "(string \<times> json) list \<Rightarrow> string \<Rightarrow> string result" where
  "text_field d field =
     (case js_text (dict_get d field) of
        None \<Rightarrow> Inl (invalid (field @ '' is not a string'')) | Some v \<Rightarrow> Inr (strip v))"

definition parse_inventory :: "llm \<Rightarrow> json \<Rightarrow> photo_inventory result" where
  "parse_inventory c body =
     bind_res (message_content c body) (\<lambda>parsed.
       case parsed of
         JObj d \<Rightarrow>
           bind_res (map_res (text_field d) inventory_text_fields) (\<lambda>fields.
             case js_text_list (dict_get d ''accessories'') of
               None \<Rightarrow> Inl (invalid ''accessories is not a list of strings'')
             | Some accessories \<Rightarrow>
                 Inr \<lparr>inv_pose = fields ! 0, inv_hands = fields ! 1, inv_accessories = stripped accessories,
                      inv_clothing = fields ! 2, inv_hair = fields ! 3, inv_facial_hair = fields ! 4,
                      inv_framing = fields ! 5, inv_lighting = fields ! 6, inv_background = fields ! 7\<rparr>)
       | _ \<Rightarrow> Inl (invalid ''inventory response is not an object''))"

definition inventory_payload :: "llm \<Rightarrow> bytes \<Rightarrow> json" where
  "inventory_payload c img =
     chat_payload c (JStr inventory_system_prompt) (JArr [image_part img None]) 0
       ''photo_inventory'' inventory_schema"

definition or_extract :: "llm \<Rightarrow> bytes \<Rightarrow> meter option \<Rightarrow> inventory_outcome op" where
  "or_extract c img m =
     paid_call c m INVENTORY (inventory_payload c img) (parse_inventory c)
       (\<lambda>i usage cost. \<lparr>io_inventory = i, io_usage = usage, io_cost = cost\<rparr>)
       (Inr (empty_extract img))"

section \<open>Image generator (\<open>openrouter_generator.py\<close>)\<close>

definition detail_levels :: "string list" where
  "detail_levels = [''auto'', ''low'', ''high'']"

fun after_marker :: "string \<Rightarrow> string \<Rightarrow> string" where   \<comment> \<open>the third part of \<open>s.partition(m)\<close>\<close>
  "after_marker m [] = []"
| "after_marker m (c # s) = (if is_prefix m (c # s) then drop (length m) (c # s) else after_marker m s)"

datatype extract_error =
    NoImage string          \<comment> \<open>\<open>NoImageGeneratedError\<close>\<close>
  | Uncaught py_exn         \<comment> \<open>an exception outside the \<open>except\<close> clause\<close>

definition no_image :: "'a result \<Rightarrow> extract_error + 'a" where
  "no_image r = (case r of Inl _ \<Rightarrow> Inl (NoImage ''no decodable image in the response'') | Inr x \<Rightarrow> Inr x)"

definition image_url :: "json \<Rightarrow> json result" where
  \<comment> \<open>\<open>body["choices"][0]["message"]["images"][0]["image_url"]["url"]\<close>\<close>
  "image_url body =
     bind_res (json_item ''choices'' body) (\<lambda>a. bind_res (json_first a) (\<lambda>b.
     bind_res (json_item ''message'' b) (\<lambda>c. bind_res (json_item ''images'' c) (\<lambda>d.
     bind_res (json_first d) (\<lambda>e. bind_res (json_item ''image_url'' e) (json_item ''url''))))))"

definition is_ascii :: "string \<Rightarrow> bool" where
  "is_ascii s = list_all (\<lambda>c. code c < 128) s"

definition extract_image :: "json \<Rightarrow> extract_error + bytes" where
  "extract_image body =
     (case no_image (image_url body) of
        Inl e \<Rightarrow> Inl e
      | Inr (JStr url) \<Rightarrow>
          (let encoded = after_marker ''base64,'' url
           in if \<not> is_ascii encoded
              then Inl (Uncaught (ValueError ''string argument should contain only ASCII characters''))
              else (case b64decode encoded of
                None \<Rightarrow> Inl (NoImage ''no decodable image in the response'')
              | Some img \<Rightarrow>
                  if img = [] then Inl (NoImage ''the response carried an empty or non-base64 image part'')
                  else Inr img))
      | Inr _ \<Rightarrow> Inl (Uncaught (OtherError ''AttributeError'')))"

definition request_id :: "(json \<Rightarrow> string) \<Rightarrow> json \<Rightarrow> string" where   \<comment> \<open>\<open>str(body.get("id") or "")\<close>\<close>
  "request_id py_str body =
     (case body of
        JObj d \<Rightarrow>
          (case dict_get d ''id'' of
             Some (JStr s) \<Rightarrow> s
           | Some (JBool b) \<Rightarrow> if b then ''True'' else []
           | Some (JInt i) \<Rightarrow> if i = 0 then [] else show_int i
           | Some (JFloat f) \<Rightarrow> if f = 0 then [] else py_str (JFloat f)
           | Some (JArr xs) \<Rightarrow> if xs = [] then [] else py_str (JArr xs)
           | Some (JObj o') \<Rightarrow> if o' = [] then [] else py_str (JObj o')
           | _ \<Rightarrow> [])
      | _ \<Rightarrow> [])"

definition generator_payload :: "string \<Rightarrow> gen_request \<Rightarrow> json" where
  "generator_payload model rq =
     JObj [(''model'', JStr model),
           (''messages'', JArr [JObj [(''role'', JStr ''user''),
              (''content'', JArr (JObj [(''type'', JStr ''text''), (''text'', JStr (gq_prompt rq))]
                 # map (\<lambda>r. image_part r None) (gq_reference_images rq)
                 @ (case gq_face_crop rq of None \<Rightarrow> []
                    | Some crop \<Rightarrow> [image_part crop (Some (gen_face_media_resolution (gq_params rq)))])))]]),
           (''modalities'', JArr [JStr ''image'', JStr ''text'']),
           (''temperature'', JFloat (gen_temperature (gq_params rq))),
           (''image_config'', JObj [(''aspect_ratio'', JStr (gen_aspect_ratio (gq_params rq))),
                                   (''image_size'', JStr (gen_output_size (gq_params rq)))])]"

definition read_generation :: "(json \<Rightarrow> string) \<Rightarrow> json \<Rightarrow> gen_outcome" where
  "read_generation py_str body =
     (case parse_usage body of
        Inl e \<Rightarrow> Gen_Failed (exn_text e)
      | Inr usage \<Rightarrow>
          (case extract_image body of
             Inl (NoImage m) \<Rightarrow> Refused m usage
           | Inl (Uncaught e) \<Rightarrow> Gen_Failed (exn_text e)
           | Inr img \<Rightarrow>
               if request_id py_str body = []
               then Refused ''the response carried an image but no request id'' usage
               else Generated \<lparr>gi_image_bytes = img, gi_provider_request_id = request_id py_str body,
                              gi_usage = usage\<rparr>))"

definition or_generate ::
  "string \<Rightarrow> nat \<Rightarrow> (gen_request list \<Rightarrow> nat \<Rightarrow> json \<Rightarrow> http_answer) \<Rightarrow> (json \<Rightarrow> string)
     \<Rightarrow> gen_request list \<Rightarrow> gen_request \<Rightarrow> gen_outcome" where
  \<comment> \<open>\<open>post sent i\<close>: what the endpoint answers to try \<open>i\<close> of the request after \<open>sent\<close>\<close>
  "or_generate model tries post py_str sent rq =
     (if gq_reference_images rq = []
      then Gen_Failed ''reference-conditioned edit requires at least one reference image''
      else if gen_face_media_resolution (gq_params rq) \<notin> set detail_levels
      then Gen_Failed ''face_media_resolution is not one of the detail levels''
      else (case with_transient_retry tries
                   (\<lambda>i. (read_answer (post sent i (generator_payload model rq)), Suc i)) 0 of
              (Inl e, _) \<Rightarrow> Gen_Failed (exn_text (as_py_exn e))
            | (Inr body, _) \<Rightarrow> read_generation py_str body))"

section \<open>The loop's wiring\<close>

definition with_or_writer :: "llm \<Rightarrow> 'i loop_env \<Rightarrow> 'i loop_env" where
  "with_or_writer c env =
     env\<lparr>le_compose := (\<lambda>rq fm m. or_compose c rq (Some fm) (Some m)),
         le_revise := (\<lambda>b f rq m. or_revise c b f rq (Some m))\<rparr>"

definition with_det_writer :: "'i loop_env \<Rightarrow> 'i loop_env" where
  "with_det_writer env =
     env\<lparr>le_compose := (\<lambda>rq fm m. ret (deterministic_compose rq)),
         le_revise := (\<lambda>b f rq m. ret (deterministic_revise b))\<rparr>"

section \<open>The writers satisfy the loop's contract\<close>

lemma writer_call_quiet: "writer_call c sy v rq (Some m) b w = (x, w') \<Longrightarrow> quiet (me_session_key m) w w'"
  unfolding writer_call_def by (rule paid_call_quiet)

lemma degrade_free [simp]: "wt_cost (writer_degrade rq b) = 0"
  by (simp add: writer_degrade_def deterministic_compose_def deterministic_revise_def split: option.splits)

lemma writer_call_charged:
  "writer_call c sy v rq (Some m) b w = (Inr r, w') \<Longrightarrow>
     charged (llm_honest c m) (me_session_key m) (wt_cost r) w w'"
  unfolding writer_call_def by (erule paid_call_charged) auto

interpretation or_writer: writer_port "llm_honest c" "\<lambda>rq fm m. or_compose c rq (Some fm) (Some m)"
    "\<lambda>b f rq m. or_revise c b f rq (Some m)" for c
  by unfold_locales
     (auto simp: or_compose_def or_revise_def intro: writer_call_quiet writer_call_charged)

lemma with_or_writer_simps [simp]:
  "le_compose (with_or_writer c env) = (\<lambda>rq fm m. or_compose c rq (Some fm) (Some m))"
  "le_revise (with_or_writer c env) = (\<lambda>b f rq m. or_revise c b f rq (Some m))"
  "le_pricing (with_or_writer c env) = le_pricing env" "le_generate (with_or_writer c env) = le_generate env"
  "le_max_iterations (with_or_writer c env) = le_max_iterations env"
  "le_load (with_or_writer c env) = le_load env" "le_dump (with_or_writer c env) = le_dump env"
  by (simp_all add: with_or_writer_def)

interpretation or_loop: loop_services "llm_honest c" "with_or_writer c env" for c env
  by (simp add: loop_services_def or_writer.writer_port_axioms)

lemma with_det_writer_simps [simp]:
  "le_compose (with_det_writer env) = (\<lambda>rq fm m. ret (deterministic_compose rq))"
  "le_revise (with_det_writer env) = (\<lambda>b f rq m. ret (deterministic_revise b))"
  by (simp_all add: with_det_writer_def)

interpretation det_loop: loop_services "\<lambda>_. True" "with_det_writer env" for env
  by unfold_locales (auto simp: deterministic_compose_def deterministic_revise_def)

section \<open>Planner\<close>

definition plan_ok :: "brief_analysis \<Rightarrow> bool \<Rightarrow> edit_step list \<Rightarrow> bool" where
  \<comment> \<open>numbered, non-empty, every requested target covered, none twice, none invented unless allowed\<close>
  "plan_ok a allow steps \<longleftrightarrow>
     steps \<noteq> [] \<and> map st_n steps = [1..<Suc (length steps)]
     \<and> list_all (\<lambda>s. st_title s \<noteq> [] \<and> st_instruction s \<noteq> [] \<and> st_status s = Pending
          \<and> \<not> st_is_enhance s \<and> (\<not> allow \<longrightarrow> set (st_targets s) \<subseteq> ch_target ` set (ba_changes a))) steps
     \<and> sorted_wrt (\<lambda>s t. set (st_targets s) \<inter> set (st_targets t) = {}) steps
     \<and> ch_target ` set (ba_changes a) \<subseteq> (\<Union>s\<in>set steps. set (st_targets s))"

lemma parse_step_items_ok:
  "parse_step_items allow explicit i covered items = Inr (steps, covered') \<Longrightarrow>
     length steps = length items \<and> map st_n steps = [i..<i + length steps]
     \<and> covered' = covered @ concat (map st_targets steps)
     \<and> list_all (\<lambda>s. st_title s \<noteq> [] \<and> st_instruction s \<noteq> [] \<and> st_status s = Pending
          \<and> \<not> st_is_enhance s \<and> (\<not> allow \<longrightarrow> set (st_targets s) \<subseteq> set explicit)
          \<and> set (st_targets s) \<inter> set covered = {}) steps
     \<and> sorted_wrt (\<lambda>s t. set (st_targets s) \<inter> set (st_targets t) = {}) steps"
proof (induction allow explicit i covered items arbitrary: steps covered' rule: parse_step_items.induct)
  case (2 allow explicit i covered item rest)
  from "2.prems" obtain d title instruction targets where it: "item = JObj d"
    "js_text (dict_get d ''title'') = Some title" "strip title \<noteq> []"
    "js_text (dict_get d ''instruction'') = Some instruction" "strip instruction \<noteq> []"
    "js_text_list (dict_get d ''targets'') = Some targets"
    by (auto split: json.splits option.splits if_splits)
  define clean where "clean = stripped targets"
  from "2.prems" it have ok: "\<not> allow \<longrightarrow> set clean \<subseteq> set explicit" "set clean \<inter> set covered = {}"
    by (auto simp: clean_def Let_def list_all_iff list_ex_iff split: if_splits)
  have "bind_res (parse_step_items allow explicit (Suc i) (covered @ clean) rest)
           (\<lambda>(ss, cc). Inr ((mk_step i (strip title) (strip instruction) clean)
                  \<lparr>st_applied := (case js_text (dict_get d ''applied'') of None \<Rightarrow> [] | Some a \<Rightarrow> strip a)\<rparr> # ss, cc))
        = Inr (steps, covered')"
    using "2.prems" it by (auto simp: clean_def Let_def split: if_splits)
  then obtain ss a where ss: "parse_step_items allow explicit (Suc i) (covered @ clean) rest = Inr (ss, covered')"
    and st: "steps = (mk_step i (strip title) (strip instruction) clean)\<lparr>st_applied := a\<rparr> # ss"
    by (auto simp: bind_res_Inr_iff split: if_splits)
  have ih: "length ss = length rest \<and> map st_n ss = [Suc i..<Suc i + length ss]
     \<and> covered' = (covered @ clean) @ concat (map st_targets ss)
     \<and> list_all (\<lambda>s. st_title s \<noteq> [] \<and> st_instruction s \<noteq> [] \<and> st_status s = Pending
          \<and> \<not> st_is_enhance s \<and> (\<not> allow \<longrightarrow> set (st_targets s) \<subseteq> set explicit)
          \<and> set (st_targets s) \<inter> set (covered @ clean) = {}) ss
     \<and> sorted_wrt (\<lambda>s t. set (st_targets s) \<inter> set (st_targets t) = {}) ss"
    by (rule "2.IH" [OF it clean_def _ _ ss]) (use ok in \<open>auto simp: list_all_iff list_ex_iff\<close>)
  with st it ok show ?case
    by (auto simp: upt_conv_Cons list_all_iff simp del: upt_Suc)
qed simp

lemma parse_steps_ok:
  assumes "parse_steps c body a allow = Inr steps"
  shows "plan_ok a allow steps"
proof -
  from assms obtain raw where raw: "(case raw of
         JArr (x # xs) \<Rightarrow>
           (let explicit = map ch_target (ba_changes a)
            in bind_res (parse_step_items allow explicit 1 [] (x # xs)) (\<lambda>(steps, covered).
                 if list_all (\<lambda>t. t \<in> set covered) explicit then Inr steps
                 else Inl (invalid ''explicit changes not covered by any step'')))
       | _ \<Rightarrow> Inl (invalid ''planner returned no steps'')) = Inr steps"
    unfolding parse_steps_def bind_res_Inr_iff by blast
  then obtain x xs where x: "raw = JArr (x # xs)" by (cases raw) (auto split: list.split_asm)
  from raw obtain covered where p: "parse_step_items allow (map ch_target (ba_changes a)) 1 [] (x # xs)
      = Inr (steps, covered)" "list_all (\<lambda>t. t \<in> set covered) (map ch_target (ba_changes a))"
    by (auto simp: x bind_res_Inr_iff Let_def simp del: parse_step_items.simps split: if_split_asm)
  from parse_step_items_ok [OF p(1)] p(2) show ?thesis
    by (auto simp: plan_ok_def list_all_iff simp del: upt_Suc)
qed

lemma deterministic_numbered:
  "map st_n (deterministic_steps a) = [1..<Suc (length (deterministic_steps a))]"
  by (simp add: deterministic_steps_def number_steps_ns del: upt_Suc)

lemma deterministic_plain:
  "s \<in> set (deterministic_steps a) \<Longrightarrow> \<not> st_is_enhance s \<and> st_status s = Pending"
  by (auto simp: deterministic_steps_def number_steps_def mk_step_def)

lemma deterministic_covers:
  "ch_target ` set (ba_changes a) = (\<Union>s\<in>set (deterministic_steps a). set (st_targets s))"
proof -
  have "map st_targets (deterministic_steps a) = map (\<lambda>c. [ch_target c]) (sort_key change_rank (ba_changes a))"
    by (simp add: deterministic_steps_def number_steps_targets)
  from arg_cong [OF this, of "\<lambda>xs. \<Union> (set ` set xs)"] show ?thesis by auto
qed

text \<open>What every planner promises: no requested change is dropped.\<close>

locale planner_contract =
  fixes plan :: "brief_analysis \<Rightarrow> photo_inventory option \<Rightarrow> meter option \<Rightarrow> plan_outcome op"
  assumes plan_covers:
    "plan a i m w = (Inr r, w') \<Longrightarrow> ch_target ` set (ba_changes a) \<subseteq> (\<Union>s\<in>set (pn_steps r). set (st_targets s))"
    and plan_numbered:
    "plan a i m w = (Inr r, w') \<Longrightarrow> map st_n (pn_steps r) = [1..<Suc (length (pn_steps r))]"
    and plan_plain:
    "plan a i m w = (Inr r, w') \<Longrightarrow> s \<in> set (pn_steps r) \<Longrightarrow> \<not> st_is_enhance s \<and> st_status s = Pending"
begin

lemma numbers_distinct: "plan a i m w = (Inr r, w') \<Longrightarrow> distinct (map st_n (pn_steps r))"
  by (simp add: plan_numbered del: upt_Suc)

lemma covered_change:
  "plan a i m w = (Inr r, w') \<Longrightarrow> c \<in> set (ba_changes a) \<Longrightarrow> \<exists>s\<in>set (pn_steps r). ch_target c \<in> set (st_targets s)"
  using plan_covers by fastforce

end

interpretation det_planner: planner_contract "\<lambda>a i m. ret (deterministic_plan a)"
  by unfold_locales
     (auto simp add: deterministic_plan_def deterministic_covers [symmetric] deterministic_numbered
        dest: deterministic_plain simp del: upt_Suc length_deterministic_steps)

text \<open>The LLM plan is the deterministic one, or a validated one.\<close>

lemma or_plan_cases:
  assumes run: "or_plan c a i m w = (Inr r, w')"
  shows "pn_steps r = deterministic_steps a \<or> plan_ok a (has_inventory i) (pn_steps r)"
proof (cases "length (ba_changes a) < 2 \<and> \<not> (has_inventory i \<and> ba_preserve a \<noteq> [])")
  case True
  with run show ?thesis by (auto simp: or_plan_def deterministic_plan_def Let_def)
next
  case False
  with run have "paid_call c m SLOT_FILL (planner_payload c a i) (\<lambda>body. parse_steps c body a (has_inventory i))
      (\<lambda>steps usage cost. \<lparr>pn_steps = steps, pn_usage = usage, pn_cost = cost\<rparr>)
      (Inr (deterministic_plan a)) w = (Inr r, w')"
    by (auto simp: or_plan_def Let_def split: if_splits)
  from paid_call_result [OF this] show ?thesis
    by (auto simp: deterministic_plan_def dest: parse_steps_ok)
qed

interpretation or_planner: planner_contract "or_plan c" for c
proof unfold_locales
  fix a i m w r w' s
  assume "or_plan c a i m w = (Inr r, w')"
  note cases = or_plan_cases [OF this]
  from cases show "ch_target ` set (ba_changes a) \<subseteq> (\<Union>s\<in>set (pn_steps r). set (st_targets s))"
    and "map st_n (pn_steps r) = [1..<Suc (length (pn_steps r))]"
    using deterministic_covers [of a] deterministic_numbered [of a]
    by (auto simp: plan_ok_def simp del: upt_Suc)
  show "\<not> st_is_enhance s \<and> st_status s = Pending" if "s \<in> set (pn_steps r)"
    using cases that deterministic_plain [of s a] by (auto simp: plan_ok_def list_all_iff)
qed

section \<open>Slot filler\<close>

definition in_vocabulary :: "preset \<Rightarrow> (string, string) dict \<Rightarrow> bool" where
  "in_vocabulary p d \<longleftrightarrow>
     (\<forall>n v s opts. dict_get d n = Some v \<longrightarrow> dict_get (pr_slots p) n = Some s
        \<longrightarrow> sl_enum s = Some opts \<longrightarrow> v \<in> set opts)"

lemma in_vocabulary_set:
  "in_vocabulary p acc \<Longrightarrow> dict_get (pr_slots p) name = Some s
    \<Longrightarrow> (\<And>opts. sl_enum s = Some opts \<Longrightarrow> v \<in> set opts) \<Longrightarrow> in_vocabulary p (dict_set name v acc)"
  by (auto simp: in_vocabulary_def dict_simps split: if_splits)

lemma parse_slot_values_ok:
  "parse_slot_values p d acc = Inr r \<Longrightarrow> dict_ok acc \<Longrightarrow> in_vocabulary p acc
    \<Longrightarrow> dict_ok r \<and> in_vocabulary p r
      \<and> (\<forall>n. dict_get r n \<noteq> None \<longleftrightarrow> n \<in> set (map fst d) \<or> dict_get acc n \<noteq> None)"
proof (induction p d acc rule: parse_slot_values.induct)
  case (2 p name vl rest acc)
  from "2.prems"(1) obtain v s where v: "js_text (Some vl) = Some v" "strip v \<noteq> []"
    "dict_get (pr_slots p) name = Some s" "\<forall>opts. sl_enum s = Some opts \<longrightarrow> v \<in> set opts"
    "parse_slot_values p rest (dict_set name v acc) = Inr r"
    by (auto split: option.split_asm if_split_asm)
  have voc: "in_vocabulary p (dict_set name v acc)"
    using in_vocabulary_set [OF "2.prems"(3) v(3)] v(4) by blast
  have ih: "dict_ok r \<and> in_vocabulary p r
      \<and> (\<forall>n. dict_get r n \<noteq> None \<longleftrightarrow> n \<in> set (map fst rest) \<or> dict_get (dict_set name v acc) n \<noteq> None)"
  proof (cases "sl_enum s")
    case None
    show ?thesis
      by (rule "2.IH"(1) [OF v(1,2,3) None v(5) dict_ok_set [OF "2.prems"(2)] voc])
  next
    case (Some opts)
    show ?thesis
      by (rule "2.IH"(2) [OF v(1,2,3) Some _ v(5) dict_ok_set [OF "2.prems"(2)] voc]) (use v(4) Some in auto)
  qed
  then show ?case by (auto simp: dict_simps split: if_splits)
qed simp

lemma verbatim_freeform_get:
  "dict_ok ss \<Longrightarrow> dict_get (verbatim_freeform ss ans out) n =
     (case dict_get ss n of
        None \<Rightarrow> dict_get out n
      | Some s \<Rightarrow> (case freeform_text s ans of None \<Rightarrow> dict_get out n | Some v \<Rightarrow> Some v))"
proof (induction ss ans out rule: verbatim_freeform.induct)
  case (2 name s rest ans out)
  have "dict_get rest name = None" using "2.prems" by (auto simp: map_of_eq_None_iff)
  with 2 show ?case by (auto simp: dict_simps split: option.splits)
qed simp

lemma verbatim_freeform_dict_ok: "dict_ok out \<Longrightarrow> dict_ok (verbatim_freeform ss ans out)"
  by (induction ss ans out rule: verbatim_freeform.induct) (simp_all add: dict_ok_set split: option.splits)

lemma verbatim_freeform_ok:
  assumes wf: "preset_wf p" and ok: "fill_ok p out"
  shows "fill_ok p (verbatim_freeform (pr_slots p) ans out)"
proof -
  have get: "dict_get (verbatim_freeform (pr_slots p) ans out) n =
     (case dict_get (pr_slots p) n of None \<Rightarrow> dict_get out n
      | Some s \<Rightarrow> (case freeform_text s ans of None \<Rightarrow> dict_get out n | Some v \<Rightarrow> Some v))" for n
    using wf by (intro verbatim_freeform_get) (simp add: preset_wf_def)
  have keys: "dict_get out n \<noteq> None \<longleftrightarrow> dict_get (pr_slots p) n \<noteq> None" for n
    using ok by (simp add: fill_ok_def)
  show ?thesis
    unfolding fill_ok_def get
  proof (intro conjI allI impI)
    fix n
    show "(case dict_get (pr_slots p) n of None \<Rightarrow> dict_get out n
        | Some s \<Rightarrow> (case freeform_text s ans of None \<Rightarrow> dict_get out n | Some v \<Rightarrow> Some v)) \<noteq> None \<longleftrightarrow> dict_get (pr_slots p) n \<noteq> None"
      using keys [of n] by (auto split: option.splits)
  next
    fix n v s opts
    assume "(case dict_get (pr_slots p) n of None \<Rightarrow> dict_get out n
        | Some s \<Rightarrow> (case freeform_text s ans of None \<Rightarrow> dict_get out n | Some v \<Rightarrow> Some v)) = Some v"
      "dict_get (pr_slots p) n = Some s" "sl_enum s = Some opts"
    then show "v \<in> set opts" using ok by (auto simp: fill_ok_def freeform_text_def)
  qed
qed

lemma py_len_Nil [simp]: "py_len [] = 0"
  by (simp add: py_len_def)

lemma py_len_take: "py_len (py_take n s) \<le> int n"
  by (induction n s rule: py_take.induct) (auto simp: py_len_def split: nat.splits)

lemma parse_fill_ok:
  assumes "parse_fill c p body = Inr f"
  shows "fill_ok p (sf_slots f)" "dict_ok (sf_slots f)" "sf_cost f = 0"
    "py_len (sf_addendum f) \<le> int addendum_max_len"
proof -
  from assms obtain raw raw_addendum where raw: "(case raw of
         JObj d \<Rightarrow>
           if set (dict_keys d) \<noteq> set (dict_keys (pr_slots p))
           then Inl (invalid ''LLM did not return exactly the slots of the preset'')
           else bind_res (parse_slot_values p d []) (\<lambda>slots.
             case (case raw_addendum of None \<Rightarrow> Some [] | Some j \<Rightarrow> js_text (Some j)) of
               None \<Rightarrow> Inl (invalid ''addendum is not a string'')
             | Some addendum \<Rightarrow>
                 Inr \<lparr>sf_slots = slots, sf_addendum = py_take addendum_max_len (strip addendum),
                      sf_usage = None, sf_cost = 0\<rparr>)
       | _ \<Rightarrow> Inl (invalid ''LLM did not return exactly the slots of the preset'')) = Inr f"
    unfolding parse_fill_def bind_res_Inr_iff by blast
  then obtain d where d: "raw = JObj d" by (cases raw) auto
  from raw obtain slots aa where r: "set (dict_keys d) = set (dict_keys (pr_slots p))"
    "parse_slot_values p d [] = Inr slots"
    "f = \<lparr>sf_slots = slots, sf_addendum = aa, sf_usage = None, sf_cost = 0\<rparr>"
    "py_len aa \<le> int addendum_max_len"
    by (auto simp: d bind_res_Inr_iff py_len_take split: if_split_asm option.split_asm)
  have v: "in_vocabulary p []" by (simp add: in_vocabulary_def)
  have "dict_ok slots \<and> in_vocabulary p slots
      \<and> (\<forall>n. dict_get slots n \<noteq> None \<longleftrightarrow> n \<in> set (map fst d) \<or> dict_get ([] :: (string, string) dict) n \<noteq> None)"
    by (rule parse_slot_values_ok [OF r(2) _ v]) simp
  then have ok: "dict_ok slots" "in_vocabulary p slots"
    and keys: "\<forall>n. dict_get slots n \<noteq> None \<longleftrightarrow> n \<in> set (map fst d)"
    by (simp_all only: map_of.simps simp_thms)
  have "dict_get (pr_slots p) n \<noteq> None \<longleftrightarrow> n \<in> set (map fst d)" for n
    using r(1) by (auto simp: dict_keys_def map_of_eq_None_iff)
  with ok(2) keys show "fill_ok p (sf_slots f)"
    unfolding fill_ok_def in_vocabulary_def r(3) by simp
  show "dict_ok (sf_slots f)" "sf_cost f = 0" "py_len (sf_addendum f) \<le> int addendum_max_len"
    using ok(1) r(4) by (simp_all add: r(3))
qed

lemma fill_slots_dict_ok: "fill_slots i ss ans acc = Inr d \<Longrightarrow> dict_ok acc \<Longrightarrow> dict_ok d"
  by (induction i ss ans acc rule: fill_slots.induct) (auto split: option.splits intro!: dict_ok_set)

lemma default_fill_dict_ok: "default_fill p ans = Inr f \<Longrightarrow> dict_ok (sf_slots f)"
  by (auto simp: default_fill_def bind_res_Inr_iff dest: fill_slots_dict_ok)

text \<open>
  What every slot filler promises: a value for each slot of the preset and for no other, enum
  slots within the preset's own vocabulary. Such a fill passes the prompt builder's validation.
\<close>

locale slot_filler_contract =
  fixes fill :: "preset \<Rightarrow> string option \<Rightarrow> frame_metrics option \<Rightarrow> meter option \<Rightarrow> slot_fill op"
  assumes fill_in_vocabulary: "preset_wf p \<Longrightarrow> fill p ans fm m w = (Inr f, w') \<Longrightarrow> fill_ok p (sf_slots f)"
    and fill_dict: "fill p ans fm m w = (Inr f, w') \<Longrightarrow> dict_ok (sf_slots f)"
begin

lemma fill_validates:
  assumes "preset_wf p" "fill p ans fm m w = (Inr f, w')"
    and "\<forall>n\<in>set (placeholder_names (pr_prompt_structure p)). dict_get (pr_slots p) n \<noteq> None"
  shows "validate_slots p (sf_slots f) False = Inr ()"
  using fill_ok_validates [OF fill_in_vocabulary [OF assms(1,2)] fill_dict [OF assms(2)] assms(3)] .

end

interpretation default_filler: slot_filler_contract "\<lambda>p ans fm m. lift_res (default_fill p ans)"
  by unfold_locales (auto intro: default_fill_ok default_fill_dict_ok)

lemma or_fill_cases:
  assumes run: "or_fill c p ans fm m w = (Inr f, w')"
  shows "default_fill p ans = Inr f \<or>
    (\<exists>body g u a. parse_fill c p body = Inr g \<and> f = g\<lparr>sf_slots := verbatim_freeform (pr_slots p) ans (sf_slots g),
                  sf_usage := u, sf_cost := a\<rparr>)"
proof (cases "ans = None \<and> fm = None")
  case True
  with run show ?thesis by (auto simp: or_fill_def)
next
  case False
  with run have "paid_call c m SLOT_FILL (slot_payload c p ans fm) (parse_fill c p)
             (\<lambda>f usage cost. f\<lparr>sf_slots := verbatim_freeform (pr_slots p) ans (sf_slots f),
                  sf_usage := usage, sf_cost := cost\<rparr>) (default_fill p ans) w = (Inr f, w')"
    by (auto simp: or_fill_def split: if_splits)
  from paid_call_result [OF this] show ?thesis by blast
qed

interpretation or_filler: slot_filler_contract "or_fill c" for c
proof unfold_locales
  fix p ans fm m w f w'
  assume run: "or_fill c p ans fm m w = (Inr f, w')"
  from or_fill_cases [OF run] show "dict_ok (sf_slots f)"
    using parse_fill_ok(2) by (auto intro: default_fill_dict_ok intro!: verbatim_freeform_dict_ok)
  assume wf: "preset_wf p"
  from or_fill_cases [OF run] show "fill_ok p (sf_slots f)"
    using parse_fill_ok(1) by (auto intro: default_fill_ok [OF wf] intro!: verbatim_freeform_ok [OF wf])
qed

text \<open>A free-form slot carries the user's words verbatim, whatever the model wrote.\<close>

lemma or_fill_verbatim:
  assumes wf: "preset_wf p" and s: "dict_get (pr_slots p) n = Some s" "sl_enum s = None" "sl_ask s"
    and run: "or_fill c p (Some ans) fm m w = (Inr f, w')"
  shows "dict_get (sf_slots f) n = Some ans"
proof -
  have ok: "dict_ok (pr_slots p)" using wf by (simp add: preset_wf_def)
  from or_fill_cases [OF run] show ?thesis
  proof (elim disjE exE conjE)
    assume "default_fill p (Some ans) = Inr f"
    then have "fill_slots (pr_id p) (pr_slots p) (Some ans) [] = Inr (sf_slots f)"
      by (auto simp: default_fill_def bind_res_Inr_iff)
    from fill_slots_get [OF this ok, of n] s show ?thesis
      by (simp add: slot_value_def truthy_enum_def)
  next
    fix body g u a
    assume "f = g\<lparr>sf_slots := verbatim_freeform (pr_slots p) (Some ans) (sf_slots g), sf_usage := u, sf_cost := a\<rparr>"
    then show ?thesis using verbatim_freeform_get [OF ok, of "Some ans" "sf_slots g" n] s
      by (simp add: freeform_text_def)
  qed
qed

section \<open>Writer, parser, generator\<close>

lemma parse_body_bounded:
  assumes "parse_body c body = Inr b"
  shows "py_len b \<le> int body_max_len"
  using assms
  by (auto simp: parse_body_def bind_res_Inr_iff py_len_take split: option.split_asm if_split_asm)

text \<open>Every change the parser keeps has a target and an instruction, trimmed.\<close>

lemma strip_idem [simp]: "strip (strip s) = strip s"
proof -
  have "dropWhile P (rev (dropWhile P (rev (dropWhile P xs)))) = rev (dropWhile P (rev (dropWhile P xs)))"
    for P and xs :: string
  proof (cases "dropWhile P xs")
    case (Cons y ys)
    then have y: "\<not> P y" using hd_dropWhile [of P xs] by simp
    then have "dropWhile P (rev ys @ [y]) \<noteq> []" by simp
    then have "\<exists>zs. rev (dropWhile P (rev ys @ [y])) = y # zs"
      using y by (auto simp: dropWhile_append intro: exI [of _ "rev (dropWhile P (rev ys))"])
    with Cons y show ?thesis by auto
  next
    case Nil
    show ?thesis unfolding Nil by simp
  qed
  then show ?thesis by (simp add: strip_def rstrip_def lstrip_def)
qed

lemma parse_changes_ok:
  "parse_changes items = Inr cs \<Longrightarrow>
     list_all (\<lambda>c. ch_target c \<noteq> [] \<and> ch_instruction c \<noteq> [] \<and> strip (ch_target c) = ch_target c) cs"
  by (induction items arbitrary: cs) (fastforce simp: bind_res_Inr_iff split: json.split_asm option.split_asm)+

subsection \<open>The data URI round trip\<close>

lemma sniff_mime_cases: "sniff_mime img \<in> {''image/webp'', ''image/png'', ''image/jpeg''}"
  by (auto simp: sniff_mime_def magic_mime_def)

lemma after_marker_data_url: "after_marker ''base64,'' (data_url img) = b64encode img"
  using sniff_mime_cases [of img] by (auto simp: data_url_def)

lemma is_ascii_b64: "is_ascii (b64encode s)"
proof -
  have "list_all (\<lambda>n. code (b64_char n) < 128) [0..<64]" by code_simp
  then have "code (b64_char n) < 128" if "n < 64" for n using that by (simp add: list_all_iff)
  moreover have "code (CHR ''='') < 128" by (simp add: code_def)
  ultimately show ?thesis unfolding is_ascii_def by (induction s rule: b64encode.induct) simp_all
qed

lemma extract_data_url:
  "img \<noteq> [] \<Longrightarrow> image_url body = Inr (JStr (data_url img)) \<Longrightarrow> extract_image body = Inr img"
  by (simp add: extract_image_def no_image_def after_marker_data_url is_ascii_b64 b64_roundtrip Let_def)

lemma extract_image_InrE:
  assumes "extract_image body = Inr img"
  obtains url where "image_url body = Inr (JStr url)" "b64decode (after_marker ''base64,'' url) = Some img" "img \<noteq> []"
  using assms
  by (auto simp: extract_image_def no_image_def Let_def split: sum.splits json.splits option.splits if_splits)

subsection \<open>What the generator delivers\<close>

lemma retry_counted:
  assumes "with_transient_retry n (\<lambda>i. (f i, Suc i)) i0 = (x, i1)"
  shows "\<exists>k<max 1 n. x = f (i0 + k) \<and> (\<forall>j<k. \<exists>e. f (i0 + j) = Inl e \<and> is_transient e)"
  using assms
proof (induction n arbitrary: i0)
  case 0
  then show ?case by (intro exI [of _ 0]) simp
next
  case (Suc n)
  show ?case
  proof (cases "\<exists>e. f i0 = Inl e \<and> is_transient e \<and> 0 < n")
    case False
    with Suc.prems have "x = f i0" by (auto split: sum.splits if_splits)
    then show ?thesis by (intro exI [of _ 0]) simp
  next
    case True
    then obtain e where e: "f i0 = Inl e" "is_transient e" "0 < n" by blast
    with Suc.prems have "with_transient_retry n (\<lambda>i. (f i, Suc i)) (Suc i0) = (x, i1)" by simp
    from Suc.IH [OF this] obtain k where k: "k < max 1 n" "x = f (Suc i0 + k)"
      "\<forall>j<k. \<exists>e. f (Suc i0 + j) = Inl e \<and> is_transient e" by blast
    have "\<exists>e. f (i0 + j) = Inl e \<and> is_transient e" if "j < Suc k" for j
      using that k(3) e by (cases j) auto
    with k(1,2) e(3) show ?thesis by (intro exI [of _ "Suc k"]) auto
  qed
qed

text \<open>An outcome that is not an error comes from one answer, the first that is not a transient failure.\<close>

lemma or_generate_answer:
  assumes "or_generate model tries post py_str sent rq = out" and "\<And>m. out \<noteq> Gen_Failed m"
  obtains i body where "gq_reference_images rq \<noteq> []" "gen_face_media_resolution (gq_params rq) \<in> set detail_levels"
    "i < max 1 tries" "read_answer (post sent i (generator_payload model rq)) = Inr body"
    "\<forall>j<i. \<exists>e. read_answer (post sent j (generator_payload model rq)) = Inl e \<and> is_transient e"
    "read_generation py_str body = out"
proof -
  let ?f = "\<lambda>i. read_answer (post sent i (generator_payload model rq))"
  obtain x i1 where r: "with_transient_retry tries (\<lambda>i. (?f i, Suc i)) 0 = (x, i1)" by fastforce
  with assms obtain body where b: "x = Inr body" "read_generation py_str body = out"
    "gq_reference_images rq \<noteq> []" "gen_face_media_resolution (gq_params rq) \<in> set detail_levels"
    by (auto simp: or_generate_def split: if_splits sum.splits)
  from retry_counted [OF r] b(1) obtain k where "k < max 1 tries" "?f k = Inr body"
    "\<forall>j<k. \<exists>e. ?f j = Inl e \<and> is_transient e" by auto
  with b show thesis by (intro that)
qed

lemma read_generation_GeneratedE:
  assumes "read_generation py_str body = Generated g"
  obtains url where "image_url body = Inr (JStr url)" "b64decode (after_marker ''base64,'' url) = Some (gi_image_bytes g)"
    "gi_image_bytes g \<noteq> []" "gi_provider_request_id g = request_id py_str body" "request_id py_str body \<noteq> []"
    "parse_usage body = Inr (gi_usage g)"
  using assms
  by (auto simp: read_generation_def elim: extract_image_InrE split: sum.splits extract_error.splits if_splits)

lemma read_generation_Refused:
  "read_generation py_str body = Refused m u \<Longrightarrow> parse_usage body = Inr u
     \<and> (\<forall>img. extract_image body = Inr img \<longrightarrow> request_id py_str body = [])"
  by (auto simp: read_generation_def split: sum.splits extract_error.splits if_splits)

text \<open>A refusal still carries what the provider billed; a frame is delivered only with its id.\<close>

lemma read_generation_usage:
  assumes "parse_usage body = Inr u"
  shows "case read_generation py_str body of
      Generated g \<Rightarrow> gi_usage g = u \<and> gi_provider_request_id g \<noteq> [] \<and> gi_image_bytes g \<noteq> []
    | Refused _ v \<Rightarrow> v = u
    | Gen_Failed _ \<Rightarrow> True"
  using assms
  by (auto simp: read_generation_def extract_image_def no_image_def Let_def
      split: sum.splits json.splits option.splits extract_error.splits)

section \<open>Money moved by the ports\<close>

text \<open>Each port moves its session's counter by exactly the cost it reports, and nothing else.\<close>

lemma or_plan_money:
  assumes "or_plan c a i (Some m) w = (x, w')"
  shows "quiet (me_session_key m) w w'"
    "x = Inr r \<Longrightarrow> charged (llm_honest c m) (me_session_key m) (pn_cost r) w w'"
  using assms
  by (auto simp: or_plan_def Let_def deterministic_plan_def split: if_splits
      intro: paid_call_quiet elim!: paid_call_charged)

lemma or_fill_money:
  assumes "or_fill c p ans fm (Some m) w = (x, w')"
  shows "quiet (me_session_key m) w w'"
    "x = Inr r \<Longrightarrow> charged (llm_honest c m) (me_session_key m) (sf_cost r) w w'"
  using assms
  by (auto simp: or_fill_def default_fill_def bind_res_Inr_iff split: if_splits
      intro: paid_call_quiet elim!: paid_call_charged)

lemma or_parse_money:
  assumes "or_parse c b (Some m) w = (x, w')"
  shows "quiet (me_session_key m) w w'"
    "x = Inr r \<Longrightarrow> charged (llm_honest c m) (me_session_key m) (po_cost r) w w'"
  using assms
  by (auto simp: or_parse_def deterministic_parse_def split: if_splits
      intro: paid_call_quiet elim!: paid_call_charged)

lemma or_extract_money:
  assumes "or_extract c img (Some m) w = (x, w')"
  shows "quiet (me_session_key m) w w'"
    "x = Inr r \<Longrightarrow> charged (llm_honest c m) (me_session_key m) (io_cost r) w w'"
  using assms
  by (auto simp: or_extract_def empty_extract_def intro: paid_call_quiet elim!: paid_call_charged)

end
