(* ===== verification/Config.thy ===== *)
theory Config
  imports Quality_Gate Pricing
begin

text \<open>
  \<open>config.py\<close>: the settings record with its defaults and its two model validators, and what
  \<open>api/deps.py\<close> derives from it (gate thresholds, the models that must be priced).
\<close>

datatype app_env = Env_dev | Env_prod
datatype preset_source = Source_package | Source_path | Source_examples
datatype storage_kind = Storage_s3 | Storage_local

record settings =
  cf_app_env :: app_env
  cf_host :: string
  cf_port :: int
  cf_reload :: bool
  cf_fake_connectors :: bool
  cf_log_level :: string
  cf_log_json :: bool
  cf_redis_url :: "string option"
  cf_face_ttl_seconds :: int
  cf_session_ttl_seconds :: int
  cf_event_stream_maxlen :: int
  cf_openrouter_api_key :: string
  cf_openrouter_base_url :: string
  cf_generation_model :: string
  cf_openrouter_timeout_seconds :: rat
  cf_openrouter_retry_attempts :: int
  cf_slot_filler_model :: string
  cf_brief_parser_model :: string
  cf_planner_model :: string
  cf_inventory_model :: string
  cf_prompt_writer_model :: string
  cf_insightface_model :: string
  cf_insightface_root :: string
  cf_insightface_det_size :: int
  cf_face_match_threshold :: rat
  cf_gate_min_side :: int
  cf_gate_max_secondary_face_ratio :: rat
  cf_gate_min_face_side :: rat
  cf_gate_floor_face_side :: rat
  cf_gate_min_blur_var :: rat
  cf_gate_floor_blur_var :: rat
  cf_gate_min_brightness :: rat
  cf_gate_max_brightness :: rat
  cf_gate_floor_min_brightness :: rat
  cf_gate_floor_max_brightness :: rat
  cf_gate_risk_max_abs_yaw :: rat
  cf_object_storage :: storage_kind
  cf_local_storage_path :: string
  cf_s3_endpoint_url :: "string option"
  cf_s3_region :: "string option"
  cf_s3_bucket :: "string option"
  cf_s3_access_key :: "string option"
  cf_s3_secret_key :: "string option"
  cf_preset_source :: preset_source
  cf_preset_package :: string
  cf_preset_library_path :: "string option"
  cf_preset_min_library_version :: string
  cf_max_iterations :: int
  cf_upscale_factor :: int
  cf_max_concurrent_generations :: int
  cf_session_wall_clock_seconds :: int
  cf_ingest_timeout_seconds :: rat
  cf_max_photo_bytes :: int
  cf_pricing_overrides_json :: "string option"

definition default_settings :: settings where
  "default_settings =
     \<lparr>cf_app_env = Env_dev, cf_host = ''0.0.0.0'', cf_port = 8000, cf_reload = False,
      cf_fake_connectors = False, cf_log_level = ''INFO'', cf_log_json = False,
      cf_redis_url = None, cf_face_ttl_seconds = 48 * 60 * 60,
      cf_session_ttl_seconds = 24 * 60 * 60, cf_event_stream_maxlen = 1000,
      cf_openrouter_api_key = [], cf_openrouter_base_url = ''https://openrouter.ai/api/v1'',
      cf_generation_model = ''google/gemini-3.1-flash-image-preview'',
      cf_openrouter_timeout_seconds = 120, cf_openrouter_retry_attempts = 4,
      cf_slot_filler_model = ''google/gemini-3.1-flash-lite'',
      cf_brief_parser_model = ''anthropic/claude-haiku-4.5'',
      cf_planner_model = ''anthropic/claude-haiku-4.5'',
      cf_inventory_model = ''anthropic/claude-haiku-4.5'',
      cf_prompt_writer_model = ''google/gemini-3.1-flash-lite'',
      cf_insightface_model = ''buffalo_l'', cf_insightface_root = ''./.models'',
      cf_insightface_det_size = 640, cf_face_match_threshold = 35 / 100,
      cf_gate_min_side = 512, cf_gate_max_secondary_face_ratio = 1 / 4,
      cf_gate_min_face_side = 128, cf_gate_floor_face_side = 96, cf_gate_min_blur_var = 60,
      cf_gate_floor_blur_var = 8, cf_gate_min_brightness = 50, cf_gate_max_brightness = 230,
      cf_gate_floor_min_brightness = 25, cf_gate_floor_max_brightness = 245,
      cf_gate_risk_max_abs_yaw = 60, cf_object_storage = Storage_local,
      cf_local_storage_path = ''./.storage'', cf_s3_endpoint_url = None, cf_s3_region = None,
      cf_s3_bucket = None, cf_s3_access_key = None, cf_s3_secret_key = None,
      cf_preset_source = Source_examples, cf_preset_package = ''photocore_presets'',
      cf_preset_library_path = None, cf_preset_min_library_version = ''0.9.0'',
      cf_max_iterations = 8, cf_upscale_factor = 2, cf_max_concurrent_generations = 4,
      cf_session_wall_clock_seconds = 900, cf_ingest_timeout_seconds = 60,
      cf_max_photo_bytes = 20 * 1024 * 1024, cf_pricing_overrides_json = None\<rparr>"

definition falsy :: "string option \<Rightarrow> bool" where   \<comment> \<open>\<open>not s\<close> for \<open>str | None\<close>\<close>
  "falsy s = (case s of None \<Rightarrow> True | Some t \<Rightarrow> t = [])"

definition check_path_preset :: "settings \<Rightarrow> settings result" where
  "check_path_preset s =
     (if cf_preset_source s = Source_path \<and> falsy (cf_preset_library_path s)
      then Inl (ValueError ''preset_library_path is required when preset_source is path'')
      else Inr s)"

definition check_s3 :: "settings \<Rightarrow> settings result" where
  "check_s3 s =
     (if cf_object_storage s = Storage_s3 \<and> falsy (cf_s3_bucket s)
      then Inl (ValueError ''s3_bucket is required when object_storage is s3'')
      else Inr s)"

definition validate_settings :: "settings \<Rightarrow> settings result" where
  "validate_settings s = bind_res (check_path_preset s) check_s3"

definition gate_thresholds_of :: "settings \<Rightarrow> gate_thresholds" where   \<comment> \<open>\<open>_gate_thresholds\<close>\<close>
  "gate_thresholds_of s =
     \<lparr>gt_min_side = cf_gate_min_side s,
      gt_max_secondary_face_ratio = cf_gate_max_secondary_face_ratio s,
      gt_min_face_side = cf_gate_min_face_side s, gt_floor_face_side = cf_gate_floor_face_side s,
      gt_min_blur_var = cf_gate_min_blur_var s, gt_floor_blur_var = cf_gate_floor_blur_var s,
      gt_min_brightness = cf_gate_min_brightness s, gt_max_brightness = cf_gate_max_brightness s,
      gt_floor_min_brightness = cf_gate_floor_min_brightness s,
      gt_floor_max_brightness = cf_gate_floor_max_brightness s,
      gt_risk_max_abs_yaw = cf_gate_risk_max_abs_yaw s\<rparr>"

text \<open>\<open>parse\<close> reads the overrides JSON (\<open>json.loads\<close> and the table's validation).\<close>

definition settings_pricing ::
  "(string \<Rightarrow> pricing_overrides result) \<Rightarrow> settings \<Rightarrow> pricing_table result" where
  "settings_pricing parse s =
     bind_res (case cf_pricing_overrides_json s of
                 None \<Rightarrow> Inr None
               | Some j \<Rightarrow> if j = [] then Inr None else bind_res (parse j) (\<lambda>x. Inr (Some x)))
       (build_pricing (cf_generation_model s) (cf_slot_filler_model s)
          [cf_brief_parser_model s, cf_planner_model s, cf_inventory_model s,
           cf_prompt_writer_model s])"

section \<open>Lemmas\<close>

lemma validate_settings_iff:
  "validate_settings s = Inr s' \<longleftrightarrow>
     s' = s
     \<and> (cf_preset_source s = Source_path \<longrightarrow> \<not> falsy (cf_preset_library_path s))
     \<and> (cf_object_storage s = Storage_s3 \<longrightarrow> \<not> falsy (cf_s3_bucket s))"
  by (auto simp: validate_settings_def check_path_preset_def check_s3_def)

lemma default_settings_valid: "validate_settings default_settings = Inr default_settings"
  by (simp add: validate_settings_iff default_settings_def)

lemma default_gate_thresholds: "gate_thresholds_of default_settings = default_gate"
  by (simp add: gate_thresholds_of_def default_settings_def default_gate_def)

lemma build_pricing_priced:
  assumes "build_pricing g l ms ov = Inr t" and "m = g \<or> m = l \<or> m \<in> set ms"
  shows "\<exists>r. rate_for t m = Inr r"
  using assms by (auto simp: build_pricing_def bind_res_Inr_iff dest: alias_covers)

end
