(* ===== verification/Preset_Matcher.thy ===== *)
theory Preset_Matcher
  imports Config "HOL-Library.List_Lexorder" "HOL-Library.Char_ord"
begin

text \<open>
  \<open>services/preset_matcher.py\<close>: the immutable library, its matcher with the reserved
  fallback, and the loader. The file system, the package metadata and the YAML parser are
  parameters of the loader. Byte order on UTF-8 is code-point order, so \<open>sorted\<close> on strings is
  the lexicographic order here.
\<close>

record library =
  lib_version :: string
  lib_source :: string
  lib_by_id :: "(string, preset) dict"

definition fallback_id :: string where "fallback_id = ''default''"
definition reserved_use_case :: string where "reserved_use_case = ''default''"

definition lib_get :: "library \<Rightarrow> string \<Rightarrow> preset option" where
  "lib_get l pid = dict_get (lib_by_id l) pid"

definition lib_ids :: "library \<Rightarrow> string list" where
  "lib_ids l = dict_keys (lib_by_id l)"

definition lib_len :: "library \<Rightarrow> nat" where
  "lib_len l = length (lib_by_id l)"

definition use_case_tokens :: "library \<Rightarrow> string list" where
  "use_case_tokens l =
     sort (remdups (concat (map (\<lambda>(_, p). filter (\<lambda>t. t \<noteq> reserved_use_case) (pr_use_case p))
                              (lib_by_id l))))"

definition admits :: "string \<Rightarrow> preset \<Rightarrow> bool" where   \<comment> \<open>one round of the loop of \<open>match\<close>\<close>
  "admits use_case p \<longleftrightarrow>
     reserved_use_case \<notin> set (pr_use_case p)
     \<and> (use_case \<in> set (pr_use_case p) \<or> ''any'' \<in> set (pr_use_case p))"

definition lib_match :: "library \<Rightarrow> string \<Rightarrow> preset option" where
  "lib_match l use_case = List.find (admits use_case) (map snd (lib_by_id l))"

definition lib_fallback :: "library \<Rightarrow> preset option" where
  "lib_fallback l = dict_get (lib_by_id l) fallback_id"

definition resolve :: "library \<Rightarrow> string \<Rightarrow> preset option" where
  "resolve l use_case =
     (case lib_match l use_case of Some p \<Rightarrow> Some p | None \<Rightarrow> lib_fallback l)"

section \<open>The loader\<close>

definition check_reserved_token :: "preset \<Rightarrow> string \<Rightarrow> unit result" where
  "check_reserved_token p source =
     (let declares_token = reserved_use_case \<in> set (pr_use_case p);
          is_fallback = (pr_id p = fallback_id)
      in if declares_token \<and> \<not> is_fallback
         then Inl (ValueError (source @ '' library: preset '' @ py_repr (pr_id p) @ '' declares the reserved use_case token ''
                 @ py_repr reserved_use_case @ '', allowed only on the '' @ py_repr fallback_id @ '' fallback preset''))
         else if is_fallback \<and> \<not> declares_token
         then Inl (ValueError (source @ '' library: fallback preset '' @ py_repr fallback_id
                 @ '' must declare the reserved use_case token '' @ py_repr reserved_use_case))
         else Inr ())"

text \<open>\<open>^(\d+)\.(\d+)\.(\d+)\<close>: three greedy digit groups at the front, as numbers.\<close>

definition split_digits :: "string \<Rightarrow> (nat \<times> string) option" where
  "split_digits s =
     (let ds = takeWhile is_digit s
      in case parse_nat ds of None \<Rightarrow> None | Some n \<Rightarrow> Some (n, dropWhile is_digit s))"

fun eat_dot :: "string \<Rightarrow> string option" where
  "eat_dot (c # s) = (if c = CHR ''.'' then Some s else None)"
| "eat_dot [] = None"

definition semver_groups :: "string \<Rightarrow> (nat \<times> nat \<times> nat) option" where
  "semver_groups s =
     (case split_digits s of None \<Rightarrow> None | Some (a, s1) \<Rightarrow>
     (case eat_dot s1 of None \<Rightarrow> None | Some s2 \<Rightarrow>
     (case split_digits s2 of None \<Rightarrow> None | Some (b, s3) \<Rightarrow>
     (case eat_dot s3 of None \<Rightarrow> None | Some s4 \<Rightarrow>
     (case split_digits s4 of None \<Rightarrow> None | Some (c, _) \<Rightarrow> Some (a, b, c))))))"

definition version_less :: "nat \<times> nat \<times> nat \<Rightarrow> nat \<times> nat \<times> nat \<Rightarrow> bool" where
  "version_less v w =
     (case v of (a, b, c) \<Rightarrow> case w of (a', b', c') \<Rightarrow>
        a < a' \<or> a = a' \<and> (b < b' \<or> b = b' \<and> c < c'))"

definition check_min_version :: "string \<Rightarrow> string \<Rightarrow> unit result" where
  "check_min_version version minimum =
     (case semver_groups version of
        None \<Rightarrow> Inr ()
      | Some have \<Rightarrow>
          (case semver_groups minimum of
             None \<Rightarrow> Inl (OtherError ''AssertionError'')
           | Some want \<Rightarrow>
               if version_less have want
               then Inl (ValueError (''photocore-presets '' @ version @ '' is older than the required >= '' @ minimum
                       @ '': the reserved '' @ py_repr fallback_id @ '' fallback convention needs >= '' @ minimum))
               else Inr ()))"

record file_system =
  fs_is_dir :: "string \<Rightarrow> bool"
  fs_package_root :: "string \<Rightarrow> string"       \<comment> \<open>\<open>importlib.resources\<close>, joined with \<open>library\<close>\<close>
  fs_dist_version :: "string \<Rightarrow> string option" \<comment> \<open>\<open>importlib.metadata.version\<close>\<close>
  fs_module_version :: "string \<Rightarrow> string"     \<comment> \<open>\<open>__version__\<close> of the imported module\<close>
  fs_resolve :: "string \<Rightarrow> string"             \<comment> \<open>\<open>Path(p).expanduser().resolve()\<close>\<close>
  fs_examples_dir :: string
  fs_yaml_files :: "string \<Rightarrow> (string \<times> preset result) list"
    \<comment> \<open>the \<open>*.yaml\<close> files of a directory with their parsed contents\<close>

definition package_version :: "file_system \<Rightarrow> string \<Rightarrow> string" where
  "package_version fs pkg =
     (case fs_dist_version fs pkg of
        Some v \<Rightarrow> v
      | None \<Rightarrow>
          (case fs_dist_version fs (map (\<lambda>c. if c = CHR ''_'' then CHR ''-'' else c) pkg) of
             Some v \<Rightarrow> v
           | None \<Rightarrow> fs_module_version fs pkg))"

definition path_repr :: "string \<Rightarrow> string" where   \<comment> \<open>\<open>repr\<close> of a \<open>Path\<close>\<close>
  "path_repr p = ''PosixPath('' @ py_repr p @ '')''"

definition resolve_source ::
  "file_system \<Rightarrow> settings \<Rightarrow> (string \<times> string \<times> string) result" where
  "resolve_source fs s =
     (case cf_preset_source s of
        Source_package \<Rightarrow>
          (let pkg = cf_preset_package s; root_dir = fs_package_root fs pkg
           in if fs_is_dir fs root_dir
              then Inr (root_dir, package_version fs pkg, ''package:'' @ pkg)
              else Inl (ValueError (''package '' @ py_repr pkg @ '' has no library/ directory at '' @ path_repr root_dir)))
      | Source_path \<Rightarrow>
          (case cf_preset_library_path s of
             None \<Rightarrow> Inl (OtherError ''AssertionError'')
           | Some p \<Rightarrow>
               (let root_dir = fs_resolve fs p
                in if fs_is_dir fs root_dir then Inr (root_dir, ''path:'' @ root_dir, ''path'')
                   else Inl (ValueError (''preset_library_path '' @ path_repr root_dir @ '' is not a directory''))))
      | Source_examples \<Rightarrow> Inr (fs_examples_dir fs, ''examples'', ''examples''))"

definition iter_yaml :: "file_system \<Rightarrow> string \<Rightarrow> (string \<times> preset result) list" where
  "iter_yaml fs root_dir = sort_key fst (fs_yaml_files fs root_dir)"

fun load_presets ::
  "string \<Rightarrow> (string \<times> preset result) list \<Rightarrow> (string, preset) dict \<Rightarrow> (string, preset) dict result" where
  "load_presets source [] by_id = Inr by_id"
| "load_presets source ((path, data) # files) by_id =
     bind_res data (\<lambda>d. bind_res (validate_preset d) (\<lambda>p.
       if dict_get by_id (pr_id p) \<noteq> None then Inl (ValueError (''duplicate preset id '' @ py_repr (pr_id p) @ '' in '' @ source @ '' library''))
       else bind_res (check_reserved_token p source) (\<lambda>_.
              load_presets source files (dict_set (pr_id p) p by_id))))"

definition load_library :: "file_system \<Rightarrow> settings \<Rightarrow> library result" where
  "load_library fs s =
     bind_res (resolve_source fs s) (\<lambda>(root_dir, version, source).
     bind_res (load_presets source (iter_yaml fs root_dir) []) (\<lambda>by_id.
       if by_id = [] then Inl (ValueError (''no presets found in '' @ source @ '' library at '' @ path_repr root_dir))
       else bind_res
         (if cf_preset_source s = Source_package
          then bind_res (check_min_version version (cf_preset_min_library_version s)) (\<lambda>_.
                 if dict_get by_id fallback_id = None
                 then Inl (ValueError (source @ '' library has no reserved '' @ py_repr fallback_id
                        @ '' fallback preset; the fallback convention requires photocore-presets >= ''
                        @ cf_preset_min_library_version s)) else Inr ())
          else Inr ())
         (\<lambda>_. Inr \<lparr>lib_version = version, lib_source = source, lib_by_id = by_id\<rparr>)))"

section \<open>Lemmas\<close>

definition preset_ok :: "preset \<Rightarrow> bool" where
  "preset_ok p \<longleftrightarrow> validate_preset p = Inr p \<and> check_reserved_token p [] = Inr ()"

text \<open>What loading guarantees of an index: keys are the ids, the reserved token is the fallback's.\<close>

definition library_ok :: "(string, preset) dict \<Rightarrow> bool" where
  "library_ok d \<longleftrightarrow> dict_ok d \<and> (\<forall>(k, p)\<in>set d. k = pr_id p \<and> preset_ok p)"

lemma validate_preset_same: "validate_preset d = Inr p \<Longrightarrow> p = d"
  by (auto simp: validate_preset_def bind_res_Inr_iff)

lemma reserved_token_source: "check_reserved_token p source = Inr () \<longleftrightarrow> check_reserved_token p source' = Inr ()"
  by (simp add: check_reserved_token_def Let_def)

lemma reserved_only_fallback:
  "preset_ok p \<Longrightarrow> reserved_use_case \<in> set (pr_use_case p) \<longleftrightarrow> pr_id p = fallback_id"
  by (auto simp: preset_ok_def check_reserved_token_def Let_def split: if_splits)

lemma dict_set_new: "dict_get d k = None \<Longrightarrow> dict_set k v d = d @ [(k, v)]"
  by (induction k v d rule: dict_set.induct) (auto split: if_splits)

lemma load_presets_ok:
  "load_presets source files d = Inr d' \<Longrightarrow> library_ok d \<Longrightarrow> library_ok d'"
proof (induction source files d rule: load_presets.induct)
  case (2 source path data files by_id)
  from 2(2) obtain d p where d: "data = Inr d" "validate_preset d = Inr p"
    and p: "dict_get by_id (pr_id p) = None" "check_reserved_token p source = Inr ()"
    and rest: "load_presets source files (dict_set (pr_id p) p by_id) = Inr d'"
    by (auto simp: bind_res_Inr_iff split: if_splits)
  have "d = p" using d(2) validate_preset_same by blast
  with d p(2) have ok: "preset_ok p" using reserved_token_source [of p source "[]"] by (simp add: preset_ok_def)
  have "library_ok (dict_set (pr_id p) p by_id)"
    using 2(3) p(1) ok dict_ok_set [of by_id "pr_id p" p]
    by (auto simp: library_ok_def dict_set_new)
  then show ?case using p(1) rest by (intro 2(1)) auto
qed simp

lemma load_library_ok:
  assumes "load_library fs s = Inr l"
  shows "library_ok (lib_by_id l)"
    and "lib_by_id l \<noteq> []"
    and "cf_preset_source s = Source_package \<Longrightarrow> lib_fallback l \<noteq> None"
proof -
  from assms obtain source files by_id where load: "load_presets source files [] = Inr by_id"
    and l: "lib_by_id l = by_id" "by_id \<noteq> []"
    and fb: "cf_preset_source s = Source_package \<Longrightarrow> dict_get by_id fallback_id \<noteq> None"
    by (auto simp: load_library_def bind_res_Inr_iff split: if_splits)
  show "library_ok (lib_by_id l)"
    using load_presets_ok [OF load] l(1) by (simp add: library_ok_def)
  show "lib_by_id l \<noteq> []" using l by simp
  show "lib_fallback l \<noteq> None" if "cf_preset_source s = Source_package"
    using fb [OF that] l(1) by (simp add: lib_fallback_def)
qed

lemma lib_match_iff:
  "lib_match l u = Some p \<Longrightarrow> p \<in> set (map snd (lib_by_id l)) \<and> admits u p"
  by (auto simp: lib_match_def find_Some_iff)

lemma lib_match_None_iff: "lib_match l u = None \<longleftrightarrow> (\<forall>p\<in>set (map snd (lib_by_id l)). \<not> admits u p)"
  by (auto simp: lib_match_def find_None_iff)

lemma match_not_fallback:
  assumes "library_ok (lib_by_id l)" "lib_match l u = Some p"
  shows "pr_id p \<noteq> fallback_id"
proof -
  have "preset_ok p" "admits u p" using assms lib_match_iff [OF assms(2)] by (auto simp: library_ok_def)
  then show ?thesis by (auto simp: admits_def reserved_only_fallback)
qed

text \<open>The matcher returns the first admitting preset in library order.\<close>

lemma match_first:
  assumes "lib_match l u = Some p"
  shows "\<exists>before after. map snd (lib_by_id l) = before @ p # after \<and> (\<forall>q\<in>set before. \<not> admits u q)"
  using assms unfolding lib_match_def find_Some_iff
  by (metis (no_types, lifting) id_take_nth_drop in_set_conv_nth length_take min_less_iff_conj
      nth_take)

lemma use_case_tokens_set:
  "set (use_case_tokens l) = (\<Union>p\<in>set (map snd (lib_by_id l)). set (pr_use_case p)) - {reserved_use_case}"
  by (auto simp: use_case_tokens_def)

lemma resolve_None_iff:
  "resolve l u = None \<longleftrightarrow> lib_match l u = None \<and> lib_fallback l = None"
  by (auto simp: resolve_def split: option.splits)

end
