(* ===== verification/Graph_Nodes.thy ===== *)
theory Graph_Nodes
  imports Llm_Ports Preset_Matcher Estimator
begin

text \<open>
  The session graph: \<open>src/graph/state.py\<close>, \<open>src/graph/nodes.py\<close>, \<open>src/graph/builder.py\<close>.
  A node takes the working state and returns it updated (the code returns the changed keys and
  LangGraph merges them), or pauses with the question of its \<open>interrupt\<close>, or raises. A resumed
  node runs again from the top with the answer, so a node takes the answer as an optional
  argument. Keys of \<open>GraphState\<close> that may be absent are options.

  \<open>graph_run\<close> is the drive of a compiled graph: it executes a node, follows the edge out of it
  and goes on until a pause, the end, or an exception.
\<close>

section \<open>State (\<open>graph/state.py\<close>)\<close>

record failure =
  fl_reason :: string
  fl_gate_reason :: "string option"
  fl_code :: string

record graph_state =
  gs_session_key :: string
  gs_face_key :: string
  gs_use_case :: string
  gs_brief :: string
  gs_budget_limit :: int
  gs_gate_verdict :: "string option"
  gs_gate_reason :: "string option"
  gs_has_identity :: "bool option"
  gs_answer :: "string option"
  gs_preset_id :: "string option"
  gs_slots :: "(string, string) dict option"
  gs_addendum :: "string option"
  gs_reasks :: "nat option"
  gs_reask_reason :: "string option"
  gs_failure :: "failure option"
  gs_delivered :: "bool option"

definition initial_state :: "string \<Rightarrow> string \<Rightarrow> string \<Rightarrow> int \<Rightarrow> graph_state" where
  "initial_state session_key face_key brief limit =
     \<lparr>gs_session_key = session_key, gs_face_key = face_key, gs_use_case = [], gs_brief = brief,
      gs_budget_limit = limit, gs_gate_verdict = None, gs_gate_reason = None,
      gs_has_identity = None, gs_answer = None, gs_preset_id = None, gs_slots = None,
      gs_addendum = None, gs_reasks = None, gs_reask_reason = None, gs_failure = None,
      gs_delivered = None\<rparr>"

section \<open>Services and interrupts\<close>

record 'i services =   \<comment> \<open>\<open>GraphServices\<close>; the stores, the bus and the storage are the world\<close>
  sv_pil :: "'i pil"                                         \<comment> \<open>of \<open>vision\<close>\<close>
  sv_detect :: "bytes \<Rightarrow> detected_face list result"
  sv_gate :: gate_thresholds
  sv_library :: library
  sv_fill :: "preset \<Rightarrow> string option \<Rightarrow> frame_metrics option \<Rightarrow> meter option \<Rightarrow> slot_fill op"
  sv_parse :: "string \<Rightarrow> meter option \<Rightarrow> parse_outcome op"
  sv_extract :: "bytes \<Rightarrow> meter option \<Rightarrow> inventory_outcome op"
  sv_plan :: "brief_analysis \<Rightarrow> photo_inventory option \<Rightarrow> meter option \<Rightarrow> plan_outcome op"
  sv_loop :: "'i loop_env"
  sv_pricing :: pricing_table
  sv_generation_model :: string

record question =   \<comment> \<open>the payload of an interrupt\<close>
  qu_slot :: string
  qu_question :: string
  qu_options :: "string list option"
  qu_default :: "string option"

datatype resume_value =
    Reply string                        \<comment> \<open>the answer of \<open>POST input\<close>\<close>
  | Decision bool "string option"       \<comment> \<open>the dict of \<open>POST approve\<close>\<close>

datatype node_result = Goes graph_state | Interrupts question

definition approval_slot :: string where "approval_slot = ''approve''"
definition approval_question :: string where "approval_question = ''Approve the generation plan?''"
definition max_reasks :: nat where "max_reasks = 2"

definition generation_idem_key :: "string \<Rightarrow> string" where
  "generation_idem_key session_key = ''generation:'' @ session_key"

definition fail_with :: "string \<Rightarrow> string option \<Rightarrow> failure_code \<Rightarrow> graph_state \<Rightarrow> graph_state" where
  \<comment> \<open>\<open>_failure\<close>, merged into the state\<close>
  "fail_with reason gate_reason c st =
     st\<lparr>gs_failure := Some \<lparr>fl_reason = reason, fl_gate_reason = gate_reason,
                            fl_code = failure_code_value c\<rparr>\<rparr>"

definition locked_conflicts :: "preset \<Rightarrow> brief_analysis \<Rightarrow> string list" where
  "locked_conflicts p a =
     (let locked = map fst (filter (\<lambda>(_, s). sl_policy s = Locked) (pr_slots p))
      in map (\<lambda>c. ''requested change to '' @ [char_of (39::nat)] @ ch_target c @ [char_of (39::nat)]
                  @ '' conflicts with a locked attribute (the preset''
                  @ [char_of (39::nat)] @ ''s fixed value is kept)'')
           (filter (\<lambda>c. ch_target c \<in> set locked) (ba_changes a)))"

definition plan_summary ::
  "preset \<Rightarrow> brief_analysis \<Rightarrow> edit_step list \<Rightarrow> (string, string) dict \<Rightarrow> string option \<Rightarrow> string" where
  "plan_summary p a steps slots budget_note =
     pr_id p @ '' v'' @ pr_version p @ '': ''
     @ (if steps \<noteq> []
        then join ''; '' (map (\<lambda>s. show_nat (st_n s) @ ''. '' @ st_title s @ '': '' @ st_instruction s) steps)
        else join '', '' (map (\<lambda>(n, v). n @ ''='' @ v) (sort_key fst slots)))
     @ (if ba_conflicts a \<noteq> []
        then '' | conflicts (locked attributes win): '' @ join ''; '' (ba_conflicts a) else [])
     @ (case budget_note of None \<Rightarrow> [] | Some n \<Rightarrow> if n = [] then [] else '' | '' @ n)"

definition question_for :: "string \<Rightarrow> string option \<Rightarrow> string" where
  "question_for name reask_reason =
     (let base = ''What should the '' @ name @ '' of the photos be?''
      in case reask_reason of
           None \<Rightarrow> base | Some r \<Rightarrow> if r = [] then base else r @ '' '' @ base)"

definition yes_words :: "string list" where
  "yes_words = [''approve'', ''approved'', ''yes'', ''true'']"

fun parse_decision :: "resume_value \<Rightarrow> bool \<times> string option" where
  "parse_decision (Decision approved composition) =
     (approved, case composition of None \<Rightarrow> None | Some c \<Rightarrow> if c = [] then None else Some c)"
| "parse_decision (Reply s) = (lower (strip s) \<in> set yes_words, None)"

fun answer_text :: "resume_value \<Rightarrow> string" where   \<comment> \<open>\<open>str(answer)\<close>\<close>
  "answer_text (Reply s) = s"
| "answer_text (Decision approved composition) =
     ''{'' @ py_repr ''approved'' @ '': '' @ (if approved then ''True'' else ''False'') @ '', ''
     @ py_repr ''composition_id'' @ '': ''
     @ (case composition of None \<Rightarrow> ''None'' | Some c \<Rightarrow> py_repr c) @ ''}''"

section \<open>Nodes (\<open>graph/nodes.py\<close>)\<close>

definition node_session :: "string \<Rightarrow> session_state op" where   \<comment> \<open>\<open>_session\<close>\<close>
  "node_session k =
     obind (op_get_session k) (\<lambda>s.
       case s of
         None \<Rightarrow> raise_op (ValueError (''session '' @ py_repr k @ '' not found or expired''))
       | Some s \<Rightarrow> ret s)"

definition node_resolve :: "'i services \<Rightarrow> graph_state \<Rightarrow> preset op" where   \<comment> \<open>\<open>_resolve\<close>\<close>
  "node_resolve svc st =
     (case resolve (sv_library svc) (gs_use_case st) of
        None \<Rightarrow> raise_op (ValueError (''no preset admits use_case='' @ py_repr (gs_use_case st)))
      | Some p \<Rightarrow> ret p)"

definition node_meter :: "'i services \<Rightarrow> graph_state \<Rightarrow> meter" where
  "node_meter svc st = meter_of (sv_pricing svc) (gs_session_key st) (from_micro (gs_budget_limit st))"

definition record_call ::
  "paid_call_kind \<Rightarrow> usd \<Rightarrow> provider_usage option \<Rightarrow> session_state \<Rightarrow> session_state" where
  \<comment> \<open>\<open>if cost > 0: session.llm_calls.append(...)\<close>\<close>
  "record_call kind cost usage s =
     (if 0 < cost
      then s\<lparr>ss_llm_calls := ss_llm_calls s @ [\<lparr>pc_kind = kind, pc_cost = cost, pc_usage = usage\<rparr>]\<rparr>
      else s)"

definition load_face :: "'i services \<Rightarrow> string \<Rightarrow> face_profile op" where
  \<comment> \<open>the second half of \<open>analyze\<close>: the stored profile, or a new ingest\<close>
  "load_face svc face_key =
     obind (op_get_face face_key) (\<lambda>f.
       case f of
         Some face \<Rightarrow> ret face
       | None \<Rightarrow>
           obind (storage_get (photo_ref face_key)) (\<lambda>photo.
           obind (lift_res (ingest (sv_pil svc) (sv_detect svc) (sv_gate svc) photo face_key
                              (photo_ref face_key))) (\<lambda>i.
           obind (op_put_face (fi_profile i)) (\<lambda>_.
           obind (case fi_face_crop i of
                    None \<Rightarrow> ret []
                  | Some crop \<Rightarrow> storage_put (face_crop_ref face_key) crop) (\<lambda>_.
             ret (fi_profile i))))))"

definition analyze :: "'i services \<Rightarrow> graph_state \<Rightarrow> node_result op" where
  "analyze svc st =
     (let session_key = gs_session_key st; face_key = gs_face_key st in
      obind (op_get_session session_key) (\<lambda>s0.
        let session = (case s0 of
                         None \<Rightarrow> new_session session_key face_key (from_micro (gs_budget_limit st))
                       | Some s \<Rightarrow> s)
        in obind (op_put_session (session\<lparr>ss_fsm_state := FACE_CHECK\<rparr>)) (\<lambda>_.
           obind (publish session_key (StageEvent FACE_CHECK)) (\<lambda>_.
           obind (load_face svc face_key) (\<lambda>face.
             ret (Goes (st\<lparr>gs_gate_verdict := Some (verdict_value (fp_gate_verdict face)),
                           gs_gate_reason := Some (gate_reason_value (fp_gate_reason face)),
                           gs_has_identity := Some (fp_embedding face \<noteq> [])\<rparr>)))))))"

definition quality_gate :: "graph_state \<Rightarrow> node_result op" where
  "quality_gate st =
     ret (Goes
       (if gs_gate_verdict st = Some (verdict_value BELOW_FLOOR) \<or> gs_has_identity st \<noteq> Some True
        then fail_with ''input photo cannot anchor the identity'' (gs_gate_reason st) INPUT_REJECTED st
        else st))"

definition parse_brief :: "'i services \<Rightarrow> graph_state \<Rightarrow> node_result op" where
  "parse_brief svc st =
     obind (sv_parse svc (gs_brief st) (Some (node_meter svc st))) (\<lambda>r.
     obind (node_session (gs_session_key st)) (\<lambda>session.
     obind (op_put_session
              (record_call CLASSIFY (po_cost r) (po_usage r)
                 (session\<lparr>ss_brief_analysis := Some (po_analysis r)\<rparr>))) (\<lambda>_.
       ret (Goes (st\<lparr>gs_use_case :=
              (case ba_use_case (po_analysis r) of None \<Rightarrow> [] | Some u \<Rightarrow> u)\<rparr>)))))"

definition storage_find :: "string \<Rightarrow> bytes option op" where
  \<comment> \<open>\<open>try: storage.get(ref) except KeyError: None\<close>\<close>
  "storage_find ref w =
     (case storage_get ref w of
        (Inr d, w') \<Rightarrow> (Inr (Some d), w')
      | (Inl e, w') \<Rightarrow> (case e of KeyError _ \<Rightarrow> (Inr None, w') | _ \<Rightarrow> (Inl e, w')))"

definition store_inventory :: "session_state \<Rightarrow> face_profile \<Rightarrow> inventory_outcome \<Rightarrow> unit op" where
  \<comment> \<open>the writes of \<open>extract_inventory\<close>\<close>
  "store_inventory session face r =
     obind (if 0 < io_cost r
            then op_put_session (record_call INVENTORY (io_cost r) (io_usage r) session)
            else ret ()) (\<lambda>_.
       if inventory_is_empty (io_inventory r) then ret ()
       else op_put_face (face\<lparr>fp_inventory := Some (io_inventory r)\<rparr>))"

definition extract_inventory :: "'i services \<Rightarrow> graph_state \<Rightarrow> node_result op" where
  "extract_inventory svc st =
     obind (node_session (gs_session_key st)) (\<lambda>session.
       if ss_brief_analysis session = None then ret (Goes st)
       else obind (op_get_face (gs_face_key st)) (\<lambda>f.
         case f of
           None \<Rightarrow> ret (Goes st)
         | Some face \<Rightarrow>
             if fp_inventory face \<noteq> None then ret (Goes st)
             else obind (storage_find (photo_ref (gs_face_key st))) (\<lambda>found.
               case found of
                 None \<Rightarrow> ret (Goes st)
               | Some photo \<Rightarrow>
                   obind (sv_extract svc photo (Some (node_meter svc st))) (\<lambda>r.
                   obind (store_inventory session face r) (\<lambda>_. ret (Goes st))))))"

definition asked_slot :: "preset \<Rightarrow> (string \<times> slot) option" where
  "asked_slot p = List.find (\<lambda>(_, s). sl_ask s) (pr_slots p)"

definition ask_question :: "string \<Rightarrow> slot \<Rightarrow> string option \<Rightarrow> question" where
  "ask_question name s reask_reason =
     \<lparr>qu_slot = name, qu_question = question_for name reask_reason,
      qu_options = (if truthy_enum s \<noteq> [] then Some (truthy_enum s) else None),
      qu_default = sl_default s\<rparr>"

definition has_reason :: "graph_state \<Rightarrow> bool" where   \<comment> \<open>\<open>state.get("reask_reason")\<close> is true\<close>
  "has_reason st = (case gs_reask_reason st of None \<Rightarrow> False | Some r \<Rightarrow> r \<noteq> [])"

definition ask :: "'i services \<Rightarrow> graph_state \<Rightarrow> resume_value option \<Rightarrow> node_result op" where
  "ask svc st resume =
     (case resolve (sv_library svc) (gs_use_case st) of
        None \<Rightarrow>
          ret (Goes (fail_with (''no preset admits use_case='' @ py_repr (gs_use_case st)
                                 @ '' and no fallback ships'') None NO_PRESET st))
      | Some p \<Rightarrow>
          (case asked_slot p of
             None \<Rightarrow> ret (Goes (st\<lparr>gs_answer := None\<rparr>))
           | Some (name, s) \<Rightarrow>
               if sl_enum s = None \<and> strip (gs_brief st) \<noteq> [] \<and> \<not> has_reason st
               then ret (Goes (st\<lparr>gs_answer := Some (gs_brief st)\<rparr>))
               else obind (node_session (gs_session_key st)) (\<lambda>session.
                    obind (op_put_session (session\<lparr>ss_fsm_state := NEED_INPUT\<rparr>)) (\<lambda>_.
                      case resume of
                        None \<Rightarrow> ret (Interrupts (ask_question name s (gs_reask_reason st)))
                      | Some v \<Rightarrow> ret (Goes (st\<lparr>gs_answer := Some (answer_text v)\<rparr>))))))"

definition reask_text :: string where
  "reask_text =
     ''The previous answer was rejected '' @ em_dash @ '' describe only the scene,''
     @ '' without instructions about the face or the prompt.''"

definition reasks_of :: "graph_state \<Rightarrow> nat" where
  "reasks_of st = (case gs_reasks st of None \<Rightarrow> 0 | Some n \<Rightarrow> n)"

definition check_fill :: "preset \<Rightarrow> slot_fill \<Rightarrow> built_prompt result" where
  \<comment> \<open>the trial assembly of the writer path\<close>
  "check_fill p f = bind_res (fill_template p (sf_slots f) (sf_addendum f)) (\<lambda>body. assemble_prompt p body [])"

definition session_analysis :: "preset \<Rightarrow> session_state \<Rightarrow> brief_analysis" where
  "session_analysis p s =
     (case ss_brief_analysis s of
        Some a \<Rightarrow> a
      | None \<Rightarrow> \<lparr>ba_use_case = Some (pr_id p), ba_preserve = [], ba_changes = [], ba_conflicts = []\<rparr>)"

definition resolved_session :: "library \<Rightarrow> preset \<Rightarrow> slot_fill \<Rightarrow> session_state \<Rightarrow> session_state" where
  \<comment> \<open>the session writes of \<open>resolve_constraints\<close>\<close>
  "resolved_session lib p f s =
     (record_call SLOT_FILL (sf_cost f) (sf_usage f)
        (s\<lparr>ss_brief_analysis :=
             Some ((session_analysis p s)
               \<lparr>ba_conflicts := ba_conflicts (session_analysis p s)
                                 @ locked_conflicts p (session_analysis p s)\<rparr>),
           ss_fsm_state := PLANNING, ss_preset_id := Some (pr_id p),
           ss_preset_version := Some (pr_version p), ss_library_version := Some (lib_version lib),
           ss_slots := sf_slots f\<rparr>))
       \<lparr>ss_thresholds := Some (pr_thresholds p)\<rparr>"

definition accept_fill :: "'i services \<Rightarrow> graph_state \<Rightarrow> preset \<Rightarrow> slot_fill \<Rightarrow> node_result op" where
  \<comment> \<open>the rest of \<open>resolve_constraints\<close>, from the trial assembly on\<close>
  "accept_fill svc st p fill =
     (case check_fill p fill of
        Inl e \<Rightarrow>
          (case e of
             FreeFormRejected _ \<Rightarrow>
               ret (Goes
                 (if max_reasks \<le> reasks_of st
                  then fail_with ''scene description repeatedly rejected as a prompt injection''
                         None SCENE_REJECTED st
                  else st\<lparr>gs_reasks := Some (reasks_of st + 1), gs_reask_reason := Some reask_text\<rparr>))
           | _ \<Rightarrow> raise_op e)
      | Inr _ \<Rightarrow>
          obind (node_session (gs_session_key st)) (\<lambda>session.
          obind (op_put_session (resolved_session (sv_library svc) p fill session)) (\<lambda>_.
            ret (Goes (st\<lparr>gs_preset_id := Some (pr_id p), gs_slots := Some (sf_slots fill),
                          gs_addendum := Some (sf_addendum fill), gs_reask_reason := None\<rparr>)))))"

definition resolve_constraints :: "'i services \<Rightarrow> graph_state \<Rightarrow> node_result op" where
  "resolve_constraints svc st =
     obind (publish (gs_session_key st) (StageEvent PLANNING)) (\<lambda>_.
     obind (node_resolve svc st) (\<lambda>p.
     obind (op_get_face (gs_face_key st)) (\<lambda>face.
     obind (sv_fill svc p (gs_answer st) (map_option fp_metrics face) (Some (node_meter svc st))) (\<lambda>fill.
       accept_fill svc st p fill))))"

definition with_enhance :: "preset \<Rightarrow> edit_step list \<Rightarrow> edit_step list" where
  \<comment> \<open>an explicit main step when the brief asks for none, and the enhance step after them\<close>
  "with_enhance p steps =
     (let main = (if steps = [] then [mk_step 1 (pr_id p) [] []] else steps)
      in main @ [(mk_step (length main + 1) ''enhance'' [] [])\<lparr>st_is_enhance := True\<rparr>])"

definition planned_steps :: "preset \<Rightarrow> brief_analysis \<Rightarrow> plan_outcome \<Rightarrow> edit_step list" where
  "planned_steps p a r =
     with_enhance p (if pn_steps r \<noteq> [] then pn_steps r else deterministic_steps a)"

definition composition_choice_of :: "composition \<Rightarrow> composition_choice" where
  "composition_choice_of c =
     \<lparr>cc_id = co_id c, cc_label = co_label c, cc_preview_asset = co_preview_asset c\<rparr>"

definition proposed_plan ::
  "preset \<Rightarrow> brief_analysis \<Rightarrow> edit_step list \<Rightarrow> (string, string) dict \<Rightarrow> cost_estimate \<Rightarrow> plan" where
  "proposed_plan p a steps slots cost =
     \<lparr>pl_summary = plan_summary p a steps slots (ce_note cost),
      pl_compositions = map composition_choice_of (pr_compositions p),
      pl_selected_composition = None, pl_planned_generations = ce_generations cost, pl_steps = steps\<rparr>"

definition slots_of :: "graph_state \<Rightarrow> (string, string) dict" where
  "slots_of st = (case gs_slots st of None \<Rightarrow> [] | Some d \<Rightarrow> d)"

definition plan_steps :: "'i services \<Rightarrow> graph_state \<Rightarrow> node_result op" where
  "plan_steps svc st =
     (let session_key = gs_session_key st; budget_limit = from_micro (gs_budget_limit st) in
      obind (node_resolve svc st) (\<lambda>p.
      obind (node_session session_key) (\<lambda>session.
      let a = session_analysis p session in
      obind (op_get_face (gs_face_key st)) (\<lambda>face.
      obind (sv_plan svc a (case face of None \<Rightarrow> None | Some f \<Rightarrow> fp_inventory f)
               (Some (node_meter svc st))) (\<lambda>r.
      let session1 = record_call SLOT_FILL (pn_cost r) (pn_usage r) session;
          steps = planned_steps p a r
      in obind (lift_res (estimate_cost p budget_limit (sv_pricing svc) (sv_generation_model svc)
                            (int (length steps)) 1)) (\<lambda>cost.
         let proposed = proposed_plan p a steps (slots_of st) cost
         in obind (op_put_session
                     (session1\<lparr>ss_plan := Some proposed, ss_cost_estimate := Some cost,
                               ss_fsm_state := AWAITING_APPROVAL\<rparr>)) (\<lambda>_.
            obind (publish session_key (PlanEvent proposed)) (\<lambda>_.
            obind (publish session_key (CostEvent cost)) (\<lambda>_.
              ret (Goes st))))))))))"

definition approve_payload :: question where
  "approve_payload =
     \<lparr>qu_slot = approval_slot, qu_question = approval_question,
      qu_options = Some [''approve'', ''reject''], qu_default = None\<rparr>"

definition select_composition :: "string option \<Rightarrow> session_state \<Rightarrow> session_state" where
  "select_composition c s =
     s\<lparr>ss_plan := map_option (\<lambda>p. p\<lparr>pl_selected_composition := c\<rparr>) (ss_plan s)\<rparr>"

definition approve :: "'i services \<Rightarrow> graph_state \<Rightarrow> resume_value option \<Rightarrow> node_result op" where
  "approve svc st resume =
     (case resume of
        None \<Rightarrow> ret (Interrupts approve_payload)
      | Some decision \<Rightarrow>
          (case parse_decision decision of
             (approved, composition_id) \<Rightarrow>
               if \<not> approved
               then ret (Goes (fail_with ''plan rejected by the user'' None PLAN_REJECTED st))
               else obind (case composition_id of
                             None \<Rightarrow> ret (slots_of st)
                           | Some c \<Rightarrow>
                               obind (node_resolve svc st) (\<lambda>p.
                                 lift_res (apply_composition p (slots_of st) c))) (\<lambda>slots.
                    obind (node_session (gs_session_key st)) (\<lambda>session.
                    obind (op_put_session
                             (select_composition composition_id
                                (session\<lparr>ss_approved := True, ss_slots := slots\<rparr>))) (\<lambda>_.
                      ret (Goes (st\<lparr>gs_slots := Some slots\<rparr>)))))))"

fun is_result :: "event \<Rightarrow> bool" where
  "is_result (ResultEvent _ _ _ _ _) = True"
| "is_result _ = False"

definition generate :: "'i services \<Rightarrow> graph_state \<Rightarrow> node_result op" where
  "generate svc st =
     (let session_key = gs_session_key st in
      obind (publish session_key (StageEvent GENERATING)) (\<lambda>_.
      obind (storage_find (face_crop_ref (gs_face_key st))) (\<lambda>face_crop.
      obind (node_resolve svc st) (\<lambda>p.
      obind (loop_run (sv_loop svc) session_key p (generation_idem_key session_key) face_crop
               (case gs_addendum st of None \<Rightarrow> [] | Some a \<Rightarrow> a)) (\<lambda>outcome.
        ret (Goes (st\<lparr>gs_delivered := Some (is_result outcome)\<rparr>)))))))"

definition done_node :: "graph_state \<Rightarrow> node_result op" where
  "done_node st =
     obind (op_get_session (gs_session_key st)) (\<lambda>session.
       let steps = (case session of None \<Rightarrow> [] | Some s \<Rightarrow>
                      (case ss_plan s of None \<Rightarrow> [] | Some p \<Rightarrow> pl_steps p));
           completed = length (filter (\<lambda>s. st_status s = Completed) steps)
       in obind (publish (gs_session_key st) (DoneEvent completed (length steps))) (\<lambda>_.
            ret (Goes st)))"

definition truthy_text :: "string option \<Rightarrow> string option" where
  "truthy_text s = (case s of None \<Rightarrow> None | Some t \<Rightarrow> if t = [] then None else Some t)"

definition fail_event :: "failure option \<Rightarrow> session_state option \<Rightarrow> event result" where
  "fail_event failure session =
     bind_res (case truthy_text (map_option fl_code failure) of
                 None \<Rightarrow> Inr INTERNAL | Some raw \<Rightarrow> parse_failure_code raw) (\<lambda>c.
     bind_res (case truthy_text (case failure of None \<Rightarrow> None | Some f \<Rightarrow> fl_gate_reason f) of
                 None \<Rightarrow> Inr None | Some raw \<Rightarrow> bind_res (parse_gate_reason raw) (\<lambda>g. Inr (Some g))) (\<lambda>g.
       Inr (FailedEvent c
              (case truthy_text (map_option fl_reason failure) of
                 None \<Rightarrow> ''unknown failure'' | Some r \<Rightarrow> r) g
              (case session of None \<Rightarrow> 0 | Some s \<Rightarrow> length (ss_iterations s))
              (case session of None \<Rightarrow> 0 | Some s \<Rightarrow> generations_spent s)
              (case session of None \<Rightarrow> 0 | Some s \<Rightarrow> cost_spent s))))"

definition fail_node :: "graph_state \<Rightarrow> node_result op" where
  "fail_node st =
     obind (op_get_session (gs_session_key st)) (\<lambda>s0.
       let session = map_option (\<lambda>s. s\<lparr>ss_fsm_state := FAILED\<rparr>) s0
       in obind (case session of None \<Rightarrow> ret () | Some s \<Rightarrow> op_put_session s) (\<lambda>_.
          obind (lift_res (fail_event (gs_failure st) session)) (\<lambda>e.
          obind (publish (gs_session_key st) e) (\<lambda>_.
            ret (Goes st)))))"

section \<open>Edges (\<open>graph/builder.py\<close>)\<close>

datatype node =
    Analyze | Quality_Gate | Parse_Brief | Extract_Inventory | Ask | Resolve_Constraints
  | Plan_Steps | Approve | Generate | Done_Node | Fail_Node

definition route_failure :: "node \<Rightarrow> graph_state \<Rightarrow> node" where
  "route_failure next st = (if gs_failure st \<noteq> None then Fail_Node else next)"

definition route_resolve :: "graph_state \<Rightarrow> node" where
  "route_resolve st =
     (if gs_failure st \<noteq> None then Fail_Node else if has_reason st then Ask else Plan_Steps)"

definition route_generate :: "graph_state \<Rightarrow> node option" where
  "route_generate st = (if gs_delivered st = Some True then Some Done_Node else None)"

fun edge :: "node \<Rightarrow> graph_state \<Rightarrow> node option" where   \<comment> \<open>\<open>None\<close> is \<open>END\<close>\<close>
  "edge Analyze st = Some Quality_Gate"
| "edge Quality_Gate st = Some (route_failure Parse_Brief st)"
| "edge Parse_Brief st = Some Extract_Inventory"
| "edge Extract_Inventory st = Some Ask"
| "edge Ask st = Some (route_failure Resolve_Constraints st)"
| "edge Resolve_Constraints st = Some (route_resolve st)"
| "edge Plan_Steps st = Some Approve"
| "edge Approve st = Some (route_failure Generate st)"
| "edge Generate st = route_generate st"
| "edge Done_Node st = None"
| "edge Fail_Node st = None"

fun run_node :: "'i services \<Rightarrow> node \<Rightarrow> graph_state \<Rightarrow> resume_value option \<Rightarrow> node_result op" where
  \<comment> \<open>\<open>make_nodes\<close>: the table of nodes\<close>
  "run_node svc Analyze st v = analyze svc st"
| "run_node svc Quality_Gate st v = quality_gate st"
| "run_node svc Parse_Brief st v = parse_brief svc st"
| "run_node svc Extract_Inventory st v = extract_inventory svc st"
| "run_node svc Ask st v = ask svc st v"
| "run_node svc Resolve_Constraints st v = resolve_constraints svc st"
| "run_node svc Plan_Steps st v = plan_steps svc st"
| "run_node svc Approve st v = approve svc st v"
| "run_node svc Generate st v = generate svc st"
| "run_node svc Done_Node st v = done_node st"
| "run_node svc Fail_Node st v = fail_node st"

end
