(* ===== verification/Graph_Run.thy ===== *)
theory Graph_Run
  imports Graph_Nodes
begin

text \<open>
  The drive of the compiled session graph and its termination. LangGraph itself is a package:
  what the program relies on is that \<open>ainvoke\<close> executes the current node, merges what it
  returned, follows the edge, and stops at an \<open>interrupt\<close>, at \<open>END\<close> or at an exception; a resume
  executes the interrupted node again with the answer.

  Every edge leads forward except \<open>resolve_constraints\<close> to \<open>ask\<close>, which costs one of the
  \<open>MAX_REASKS\<close> re-asks: that is the measure.
\<close>

section \<open>What a node does to the working state\<close>

lemma load_face_cases:
  "load_face svc k w = (x, w') \<Longrightarrow> w_gen_log w' = w_gen_log w \<and> w_llm_log w' = w_llm_log w
    \<and> w_streams w' = w_streams w"
  by (auto simp: load_face_def obind_def op_get_face_def storage_get_def op_put_face_def storage_put_def
      split: option.splits sum.splits prod.splits)

lemmas node_defs = analyze_def quality_gate_def parse_brief_def extract_inventory_def ask_def
  resolve_constraints_def plan_steps_def approve_def generate_def done_node_def fail_node_def

definition graph_input :: "graph_state \<Rightarrow> string \<times> string \<times> string \<times> int" where
  \<comment> \<open>the keys no node writes\<close>
  "graph_input st = (gs_session_key st, gs_face_key st, gs_brief st, gs_budget_limit st)"

lemma graph_input_updates [simp]:
  "graph_input (st\<lparr>gs_use_case := a\<rparr>) = graph_input st"
  "graph_input (st\<lparr>gs_gate_verdict := b\<rparr>) = graph_input st"
  "graph_input (st\<lparr>gs_gate_reason := b\<rparr>) = graph_input st"
  "graph_input (st\<lparr>gs_has_identity := c\<rparr>) = graph_input st"
  "graph_input (st\<lparr>gs_answer := b\<rparr>) = graph_input st"
  "graph_input (st\<lparr>gs_preset_id := b\<rparr>) = graph_input st"
  "graph_input (st\<lparr>gs_slots := d\<rparr>) = graph_input st"
  "graph_input (st\<lparr>gs_addendum := b\<rparr>) = graph_input st"
  "graph_input (st\<lparr>gs_reasks := e\<rparr>) = graph_input st"
  "graph_input (st\<lparr>gs_reask_reason := b\<rparr>) = graph_input st"
  "graph_input (st\<lparr>gs_failure := f\<rparr>) = graph_input st"
  "graph_input (st\<lparr>gs_delivered := c\<rparr>) = graph_input st"
  by (simp_all add: graph_input_def)

lemma fail_with_simps [simp]:
  "graph_input (fail_with r g c st) = graph_input st" "gs_reasks (fail_with r g c st) = gs_reasks st"
  "gs_failure (fail_with r g c st) = Some \<lparr>fl_reason = r, fl_gate_reason = g, fl_code = failure_code_value c\<rparr>"
  "gs_slots (fail_with r g c st) = gs_slots st" "gs_reask_reason (fail_with r g c st) = gs_reask_reason st"
  by (simp_all add: fail_with_def)

text \<open>A successful node returns its own state with some keys written.\<close>

named_theorems goes_rules \<open>the states a node can go on with\<close>

lemma analyze_goes [goes_rules]:
  "analyze svc st w = (Inr (Goes st'), w') \<Longrightarrow>
     \<exists>v g i. st' = st\<lparr>gs_gate_verdict := Some v, gs_gate_reason := Some g, gs_has_identity := Some i\<rparr>"
  by (auto simp: analyze_def obind_Inr Let_def)

lemma quality_gate_goes [goes_rules]:
  "quality_gate st w = (Inr (Goes st'), w') \<Longrightarrow>
     st' = st \<or> st' = fail_with ''input photo cannot anchor the identity'' (gs_gate_reason st) INPUT_REJECTED st"
  by (auto simp: quality_gate_def split: if_splits)

lemma parse_brief_goes [goes_rules]:
  "parse_brief svc st w = (Inr (Goes st'), w') \<Longrightarrow> \<exists>u. st' = st\<lparr>gs_use_case := u\<rparr>"
  by (auto simp: parse_brief_def obind_Inr)

lemma extract_inventory_goes [goes_rules]:
  "extract_inventory svc st w = (Inr (Goes st'), w') \<Longrightarrow> st' = st"
  by (auto simp: extract_inventory_def obind_Inr split: if_split_asm option.split_asm)

lemma ask_goes [goes_rules]:
  "ask svc st v w = (Inr (Goes st'), w') \<Longrightarrow>
     (\<exists>a. st' = st\<lparr>gs_answer := a\<rparr>)
     \<or> resolve (sv_library svc) (gs_use_case st) = None
       \<and> st' = fail_with (''no preset admits use_case='' @ py_repr (gs_use_case st) @ '' and no fallback ships'')
                 None NO_PRESET st"
  by (cases "resolve (sv_library svc) (gs_use_case st)")
     (auto simp: ask_def obind_Inr split: if_split_asm option.split_asm)

lemma accept_fill_cases:
  assumes "accept_fill svc st p f w = (x, w')"
  obtains (rejected) m where "check_fill p f = Inl (FreeFormRejected m)" "w' = w"
      "x = Inr (Goes (if max_reasks \<le> reasks_of st
                      then fail_with ''scene description repeatedly rejected as a prompt injection''
                             None SCENE_REJECTED st
                      else st\<lparr>gs_reasks := Some (reasks_of st + 1), gs_reask_reason := Some reask_text\<rparr>))"
  | (error) e where "x = Inl e" "w' = w"
  | (accepted) b s where "check_fill p f = Inr b" "get_session (gs_session_key st) (w_store w) = Some s"
      "x = Inr (Goes (st\<lparr>gs_preset_id := Some (pr_id p), gs_slots := Some (sf_slots f),
                         gs_addendum := Some (sf_addendum f), gs_reask_reason := None\<rparr>))"
      "w' = w\<lparr>w_store := put_session (resolved_session (sv_library svc) p f s) (w_store w)\<rparr>"
proof (cases "check_fill p f")
  case (Inl e)
  with assms that(1,2) show ?thesis by (cases e) (auto simp: accept_fill_def)
next
  case (Inr b)
  show ?thesis
  proof (cases "get_session (gs_session_key st) (w_store w)")
    case None
    with assms Inr show ?thesis
      by (intro that(2)) (auto simp: accept_fill_def node_session_def obind_def op_get_session_def)
  next
    case (Some s)
    with assms Inr show ?thesis
      by (intro that(3)) (auto simp: accept_fill_def node_session_def obind_def op_get_session_def op_put_session_def)
  qed
qed

lemma resolve_goes [goes_rules]:
  assumes "resolve_constraints svc st w = (Inr (Goes st'), w')"
  shows "max_reasks \<le> reasks_of st
       \<and> st' = fail_with ''scene description repeatedly rejected as a prompt injection'' None SCENE_REJECTED st
     \<or> reasks_of st < max_reasks
       \<and> st' = st\<lparr>gs_reasks := Some (reasks_of st + 1), gs_reask_reason := Some reask_text\<rparr>
     \<or> (\<exists>(p :: preset) (f :: slot_fill). st' = st\<lparr>gs_preset_id := Some (pr_id p), gs_slots := Some (sf_slots f),
                       gs_addendum := Some (sf_addendum f), gs_reask_reason := None\<rparr>)"
proof -
  from assms obtain p f w1 where "accept_fill svc st p f w1 = (Inr (Goes st'), w')"
    by (auto simp: resolve_constraints_def obind_Inr)
  then show ?thesis by (cases rule: accept_fill_cases) (auto split: if_split_asm)
qed

lemma plan_steps_goes [goes_rules]: "plan_steps svc st w = (Inr (Goes st'), w') \<Longrightarrow> st' = st"
  by (auto simp: plan_steps_def obind_Inr Let_def)

lemma approve_goes [goes_rules]:
  "approve svc st v w = (Inr (Goes st'), w') \<Longrightarrow>
     st' = fail_with ''plan rejected by the user'' None PLAN_REJECTED st \<or> (\<exists>d. st' = st\<lparr>gs_slots := Some d\<rparr>)"
  by (auto simp: approve_def obind_Inr split: if_splits option.splits prod.splits)

lemma generate_goes [goes_rules]:
  "generate svc st w = (Inr (Goes st'), w') \<Longrightarrow> \<exists>b. st' = st\<lparr>gs_delivered := Some b\<rparr>"
  by (auto simp: generate_def obind_Inr Let_def)

lemma done_node_goes [goes_rules]: "done_node st w = (Inr (Goes st'), w') \<Longrightarrow> st' = st"
  by (auto simp: done_node_def obind_Inr Let_def)

lemma fail_node_goes [goes_rules]: "fail_node st w = (Inr (Goes st'), w') \<Longrightarrow> st' = st"
  by (auto simp: fail_node_def obind_Inr Let_def)

lemma run_node_input:
  "run_node svc n st v w = (Inr (Goes st'), w') \<Longrightarrow> graph_input st' = graph_input st"
  by (cases n) (auto dest!: goes_rules)

section \<open>Termination\<close>

fun node_rank :: "node \<Rightarrow> nat" where
  "node_rank Analyze = 10"
| "node_rank Quality_Gate = 9"
| "node_rank Parse_Brief = 8"
| "node_rank Extract_Inventory = 7"
| "node_rank Ask = 6"
| "node_rank Resolve_Constraints = 5"
| "node_rank Plan_Steps = 4"
| "node_rank Approve = 3"
| "node_rank Generate = 2"
| "node_rank Done_Node = 1"
| "node_rank Fail_Node = 1"

definition graph_measure :: "node \<Rightarrow> graph_state \<Rightarrow> nat" where
  "graph_measure n st = 2 * (max_reasks - reasks_of st) + node_rank n"

lemma reasks_of_set [simp]: "reasks_of (st\<lparr>gs_reasks := Some k, gs_reask_reason := r\<rparr>) = k"
  by (simp add: reasks_of_def)

lemma reask_text_ne [simp]: "reask_text \<noteq> []"
  by (simp add: reask_text_def)

lemma node_advances:
  assumes run: "run_node svc n st v w = (Inr (Goes st'), w')" and next_node: "edge n st' = Some n'"
  shows "graph_measure n' st' < graph_measure n st"
proof (cases "n = Resolve_Constraints")
  case True
  with run have "resolve_constraints svc st w = (Inr (Goes st'), w')" by simp
  from resolve_goes [OF this] show ?thesis
  proof (elim disjE exE conjE)
    assume st: "st' = fail_with ''scene description repeatedly rejected as a prompt injection'' None SCENE_REJECTED st"
    then have "n' = Fail_Node" using next_node True by (simp add: route_resolve_def)
    with st True show ?thesis by (simp add: graph_measure_def reasks_of_def)
  next
    assume "reasks_of st < max_reasks"
      and st: "st' = st\<lparr>gs_reasks := Some (reasks_of st + 1), gs_reask_reason := Some reask_text\<rparr>"
    moreover have "node_rank n' \<le> 6"
      using next_node True by (auto simp: route_resolve_def)
    ultimately show ?thesis using True by (simp add: graph_measure_def)
  next
    fix p f
    assume st: "st' = st\<lparr>gs_preset_id := Some (pr_id p), gs_slots := Some (sf_slots f),
        gs_addendum := Some (sf_addendum f), gs_reask_reason := None\<rparr>"
    then have "n' \<in> {Fail_Node, Plan_Steps}"
      using next_node True by (auto simp: route_resolve_def has_reason_def split: if_split_asm)
    with st True show ?thesis by (auto simp: graph_measure_def reasks_of_def)
  qed
next
  case False
  with run have "gs_reasks st' = gs_reasks st"
    by (cases n) (auto dest!: goes_rules)
  then have "reasks_of st' = reasks_of st" by (simp add: reasks_of_def)
  moreover from False next_node have "node_rank n' < node_rank n"
    by (cases n) (auto simp: route_failure_def route_generate_def split: if_splits)
  ultimately show ?thesis by (simp add: graph_measure_def)
qed

datatype graph_outcome =
    Finished graph_state                   \<comment> \<open>reached \<open>END\<close>\<close>
  | Paused node graph_state question       \<comment> \<open>at an \<open>interrupt\<close>\<close>
  | Crashed node graph_state py_exn        \<comment> \<open>a node raised; the checkpoint is before it\<close>

fun checkpoint_of :: "graph_outcome \<Rightarrow> graph_state \<times> node option" where
  \<comment> \<open>what the checkpointer holds afterwards: the state and the node a resume executes\<close>
  "checkpoint_of (Finished st) = (st, None)"
| "checkpoint_of (Paused n st q) = (st, Some n)"
| "checkpoint_of (Crashed n st e) = (st, Some n)"

fun is_paused :: "graph_outcome \<Rightarrow> bool" where
  "is_paused (Paused _ _ _) = True"
| "is_paused _ = False"

fun is_crashed :: "graph_outcome \<Rightarrow> bool" where
  "is_crashed (Crashed _ _ _) = True"
| "is_crashed _ = False"

function graph_run ::
  "'i services \<Rightarrow> node \<Rightarrow> graph_state \<Rightarrow> resume_value option \<Rightarrow> world \<Rightarrow> graph_outcome \<times> world" where
  "graph_run svc n st v w =
     (case run_node svc n st v w of
        (Inl e, w') \<Rightarrow> (Crashed n st e, w')
      | (Inr (Interrupts q), w') \<Rightarrow> (Paused n st q, w')
      | (Inr (Goes st'), w') \<Rightarrow>
          (case edge n st' of
             None \<Rightarrow> (Finished st', w')
           | Some n' \<Rightarrow> graph_run svc n' st' None w'))"
  by pat_completeness auto

termination
  by (relation "measure (\<lambda>(svc, n, st, v, w). graph_measure n st)")
     (auto intro: node_advances [OF sym])

declare graph_run.simps [simp del]

lemma graph_run_unfold:
  "run_node svc n st v w = (Inl e, w') \<Longrightarrow> graph_run svc n st v w = (Crashed n st e, w')"
  "run_node svc n st v w = (Inr (Interrupts q), w') \<Longrightarrow> graph_run svc n st v w = (Paused n st q, w')"
  "run_node svc n st v w = (Inr (Goes st'), w') \<Longrightarrow> edge n st' = None
     \<Longrightarrow> graph_run svc n st v w = (Finished st', w')"
  "run_node svc n st v w = (Inr (Goes st'), w') \<Longrightarrow> edge n st' = Some n'
     \<Longrightarrow> graph_run svc n st v w = graph_run svc n' st' None w'"
  by (simp_all add: graph_run.simps)

text \<open>Case analysis on the first node of a run, and the induction along it.\<close>

lemma graph_run_cases [consumes 1, case_names crash pause finish go]:
  assumes "graph_run svc n st v w = (res, w')"
  obtains e where "run_node svc n st v w = (Inl e, w')" "res = Crashed n st e"
  | q where "run_node svc n st v w = (Inr (Interrupts q), w')" "res = Paused n st q"
  | st' where "run_node svc n st v w = (Inr (Goes st'), w')" "edge n st' = None" "res = Finished st'"
  | st' n' w1 where "run_node svc n st v w = (Inr (Goes st'), w1)" "edge n st' = Some n'"
      "graph_run svc n' st' None w1 = (res, w')"
  using assms
  by (auto simp: graph_run.simps [of svc n st v w] split: prod.splits sum.splits node_result.splits option.splits)

lemma graph_run_induct [consumes 1, case_names crash pause finish go]:
  assumes run: "graph_run svc n st v w = (res, w')"
    and "\<And>n st v w e w'. run_node svc n st v w = (Inl e, w') \<Longrightarrow> P n st v w (Crashed n st e) w'"
    and "\<And>n st v w q w'. run_node svc n st v w = (Inr (Interrupts q), w') \<Longrightarrow> P n st v w (Paused n st q) w'"
    and "\<And>n st v w st' w'. run_node svc n st v w = (Inr (Goes st'), w') \<Longrightarrow> edge n st' = None
            \<Longrightarrow> P n st v w (Finished st') w'"
    and "\<And>n st v w st' w1 n' res w'. run_node svc n st v w = (Inr (Goes st'), w1) \<Longrightarrow> edge n st' = Some n'
            \<Longrightarrow> graph_run svc n' st' None w1 = (res, w') \<Longrightarrow> P n' st' None w1 res w' \<Longrightarrow> P n st v w res w'"
  shows "P n st v w res w'"
  using run
proof (induction "graph_measure n st" arbitrary: n st v w rule: less_induct)
  case less
  from less.prems show ?case
  proof (cases rule: graph_run_cases)
    case (go st' n' w1)
    from less.hyps [OF node_advances [OF go(1,2)] go(3)] show ?thesis by (rule assms(5) [OF go])
  qed (simp_all add: assms(2-4))
qed

end
