(* ===== verification/Graph_Laws.thy ===== *)
theory Graph_Laws
  imports Graph_Run
begin

text \<open>
  What a run of the session graph keeps, whatever the four LLM ports do: the contract of the
  ports is the locale \<open>graph_ports\<close>. Every node but \<open>generate\<close> is \<open>steady\<close>: it sends nothing to the
  image provider and touches no other session; only the two terminal nodes close the stream.
\<close>

section \<open>The frame of a run\<close>

definition steady :: "string \<Rightarrow> world \<Rightarrow> world \<Rightarrow> bool" where
  "steady k w w' \<longleftrightarrow> extends k w w' \<and> w_gen_log w' = w_gen_log w"

definition held :: "string \<Rightarrow> world \<Rightarrow> world \<Rightarrow> bool" where
  \<comment> \<open>the invariant of a run of session \<open>k\<close> that started in \<open>w0\<close>\<close>
  "held k w0 w \<longleftrightarrow> keyed w \<and> steady k w0 w"

lemma steady_refl [simp]: "steady k w w"
  by (simp add: steady_def)

lemma steady_trans: "steady k w w1 \<Longrightarrow> steady k w1 w2 \<Longrightarrow> steady k w w2"
  by (auto simp: steady_def intro: extends_trans)

lemma held_step: "held k w0 w \<Longrightarrow> keyed w' \<Longrightarrow> steady k w w' \<Longrightarrow> held k w0 w'"
  unfolding held_def by (blast intro: steady_trans)

lemma quiet_steady: "quiet k w w' \<Longrightarrow> steady k w w'"
  by (simp add: steady_def quiet_extends) (simp add: quiet_def)

lemma quiet_keyed: "quiet k w w' \<Longrightarrow> keyed w' = keyed w"
  by (simp add: quiet_def keyed_def get_session_def)

lemma held_quiet: "held k w0 w \<Longrightarrow> quiet k w w' \<Longrightarrow> held k w0 w'"
  using held_step [OF _ _ quiet_steady] quiet_keyed [of k w w'] by (auto simp: held_def)

lemma keyed_streams [simp]:
  "keyed (w\<lparr>w_streams := a\<rparr>) = keyed w" "keyed (w\<lparr>w_objects := b\<rparr>) = keyed w"
  "keyed (w\<lparr>w_store := put_face f (w_store w)\<rparr>) = keyed w"
  by (simp_all add: keyed_def)

lemma keyed_put: "keyed w \<Longrightarrow> keyed (w\<lparr>w_store := put_session s (w_store w)\<rparr>)"
  by (auto simp: keyed_def get_session_def put_session_def)

lemma steady_updates:
  "steady k w (w\<lparr>w_objects := b\<rparr>)"
  "steady k w (w\<lparr>w_store := put_face f (w_store w)\<rparr>)"
  "ss_session_key s = k \<Longrightarrow> steady k w (w\<lparr>w_store := put_session s (w_store w)\<rparr>)"
  "\<not> ends_stream e \<Longrightarrow> steady k w (w\<lparr>w_streams := (w_streams w)(k := w_streams w k @ [e])\<rparr>)"
  using extends_publish [of e k w]
  by (simp_all add: steady_def extends_objects extends_put_face extends_put_session publish_def)

named_theorems run_rules \<open>operations that keep the invariant of a run\<close>

lemma keeps_heldI:
  assumes "\<And>w x w'. m w = (x, w') \<Longrightarrow> keyed w \<Longrightarrow> keyed w' \<and> steady k w w'"
  shows "keeps (held k w0) m"
proof -
  have "held k w0 (snd (m w))" if h: "held k w0 w" for w
  proof -
    obtain x w' where m: "m w = (x, w')" by fastforce
    from h have "keyed w" by (simp add: held_def)
    from assms [OF m this] held_step [OF h] m show ?thesis by simp
  qed
  then show ?thesis by (simp add: keeps_def)
qed

lemma keeps_get_session_bind [run_rules]:
  assumes "\<And>s. \<forall>x. s = Some x \<longrightarrow> ss_session_key x = k \<Longrightarrow> keeps (held k w0) (f s)"
  shows "keeps (held k w0) (obind (op_get_session k) f)"
proof -
  have "held k w0 (snd (f (get_session k (w_store w)) w))" if h: "held k w0 w" for w
  proof -
    from h have "\<forall>x. get_session k (w_store w) = Some x \<longrightarrow> ss_session_key x = k"
      unfolding held_def keyed_def by blast
    from assms [OF this] h show ?thesis unfolding keeps_def by blast
  qed
  then show ?thesis by (simp add: keeps_def obind_def op_get_session_def)
qed

lemma keeps_node_session_bind [run_rules]:
  assumes "\<And>s. ss_session_key s = k \<Longrightarrow> keeps (held k w0) (f s)"
  shows "keeps (held k w0) (obind (node_session k) f)"
proof -
  have "held k w0 (snd (obind (node_session k) f w))" if h: "held k w0 w" for w
  proof (cases "get_session k (w_store w)")
    case None
    with h show ?thesis by (simp add: node_session_def obind_def op_get_session_def)
  next
    case (Some s)
    with h have "ss_session_key s = k" by (simp add: held_def keyed_def)
    from assms [OF this] h Some show ?thesis
      by (simp add: node_session_def obind_def op_get_session_def keeps_def)
  qed
  then show ?thesis by (simp add: keeps_def)
qed

lemma keeps_put_session [run_rules]:
  "ss_session_key s = k \<Longrightarrow> keeps (held k w0) (op_put_session s)"
  by (rule keeps_heldI) (auto simp: op_put_session_def intro: steady_updates keyed_put)

lemma keeps_publish [run_rules]: "\<not> ends_stream e \<Longrightarrow> keeps (held k w0) (publish k e)"
  by (rule keeps_heldI) (auto simp: publish_def intro: steady_updates)

lemma keeps_get_face [run_rules]: "keeps P (op_get_face j)"
  and keeps_storage_get [run_rules]: "keeps P (storage_get r)"
  and keeps_storage_find [run_rules]: "keeps P (storage_find r)"
  and keeps_node_resolve [run_rules]: "keeps P (node_resolve svc st)"
  by (simp_all add: keeps_def op_get_face_def storage_get_def storage_find_def node_resolve_def split: option.splits)

lemma keeps_put_face [run_rules]: "keeps (held k w0) (op_put_face f)"
  by (rule keeps_heldI) (auto simp: op_put_face_def intro: steady_updates)

lemma keeps_storage_put [run_rules]: "keeps (held k w0) (storage_put r d)"
  by (rule keeps_heldI) (auto simp: storage_put_def intro: steady_updates)

lemma keeps_pair [run_rules]: "(\<And>a b. keeps P (f a b)) \<Longrightarrow> keeps P (case z of (a, b) \<Rightarrow> f a b)"
  by (cases z) simp

lemma keeps_exn [run_rules]:
  "(\<And>m. keeps P (f m)) \<Longrightarrow> (\<And>e. keeps P (g e)) \<Longrightarrow>
    keeps P (case e of FreeFormRejected m \<Rightarrow> f m | _ \<Rightarrow> g e)"
  by (cases e) simp_all

lemma keeps_load_face [run_rules]: "keeps (held k w0) (load_face svc j)"
  unfolding load_face_def by (intro run_rules keeps_intros)

lemma record_call_key [simp]: "ss_session_key (record_call a b c s) = ss_session_key s"
  by (simp add: record_call_def)

lemma resolved_session_key [simp]: "ss_session_key (resolved_session l p f s) = ss_session_key s"
  by (simp add: resolved_session_def)

section \<open>The contract of the ports\<close>

locale graph_ports = loop_services honest "sv_loop svc"
    + planner_contract "sv_plan svc" + slot_filler_contract "sv_fill svc"
  for honest :: "meter \<Rightarrow> bool" and svc :: "'i services" +
  assumes parse_quiet: "sv_parse svc b (Some m) w = (x, w') \<Longrightarrow> quiet (me_session_key m) w w'"
    and parse_charged: "sv_parse svc b (Some m) w = (Inr r, w')
      \<Longrightarrow> charged (honest m) (me_session_key m) (po_cost r) w w'"
    and extract_quiet: "sv_extract svc img (Some m) w = (y, w') \<Longrightarrow> quiet (me_session_key m) w w'"
    and extract_charged: "sv_extract svc img (Some m) w = (Inr io, w')
      \<Longrightarrow> charged (honest m) (me_session_key m) (io_cost io) w w'"
    and plan_quiet: "sv_plan svc a i (Some m) w = (z, w') \<Longrightarrow> quiet (me_session_key m) w w'"
    and plan_charged: "sv_plan svc a i (Some m) w = (Inr q, w')
      \<Longrightarrow> charged (honest m) (me_session_key m) (pn_cost q) w w'"
    and fill_quiet: "sv_fill svc p ans fm (Some m) w = (u, w') \<Longrightarrow> quiet (me_session_key m) w w'"
    and fill_charged: "sv_fill svc p ans fm (Some m) w = (Inr f, w')
      \<Longrightarrow> charged (honest m) (me_session_key m) (sf_cost f) w w'"
begin

lemma meter_key [simp]: "me_session_key (node_meter svc st) = gs_session_key st"
  by (simp add: node_meter_def meter_of_def)

lemma keeps_ports [run_rules]:
  assumes "gs_session_key st = k"
  shows "keeps (held k w0) (sv_parse svc b (Some (node_meter svc st)))"
    "keeps (held k w0) (sv_extract svc img (Some (node_meter svc st)))"
    "keeps (held k w0) (sv_plan svc a i (Some (node_meter svc st)))"
    "keeps (held k w0) (sv_fill svc p ans fm (Some (node_meter svc st)))"
proof -
  have key: "me_session_key (node_meter svc st) = k" using assms by simp
  have "keeps (held k w0) m" if "\<And>w x w'. m w = (x, w') \<Longrightarrow> quiet k w w'" for m :: "'b op"
    using that unfolding keeps_def by (metis held_quiet prod.collapse)
  note this [intro]
  show "keeps (held k w0) (sv_parse svc b (Some (node_meter svc st)))"
    "keeps (held k w0) (sv_extract svc img (Some (node_meter svc st)))"
    "keeps (held k w0) (sv_plan svc a i (Some (node_meter svc st)))"
    "keeps (held k w0) (sv_fill svc p ans fm (Some (node_meter svc st)))"
    using parse_quiet [where m = "node_meter svc st", unfolded key]
      extract_quiet [where m = "node_meter svc st", unfolded key]
      plan_quiet [where m = "node_meter svc st", unfolded key]
      fill_quiet [where m = "node_meter svc st", unfolded key] by blast+
qed

lemma node_keeps:
  assumes key: "gs_session_key st = k" and n: "n \<notin> {Generate, Done_Node, Fail_Node}"
  shows "keeps (held k w0) (run_node svc n st v)"
proof (cases n)
  case Analyze
  show ?thesis
    unfolding Analyze run_node.simps analyze_def Let_def key
    by (intro run_rules keeps_intros; auto simp: key new_session_def split: option.splits)
next
  case Quality_Gate
  show ?thesis
    unfolding Quality_Gate run_node.simps quality_gate_def Let_def key
    by (intro run_rules keeps_intros; simp add: key)
next
  case Parse_Brief
  show ?thesis
    unfolding Parse_Brief run_node.simps parse_brief_def Let_def key
    by (intro run_rules keeps_intros; simp add: key)
next
  case Extract_Inventory
  show ?thesis
    unfolding Extract_Inventory run_node.simps extract_inventory_def store_inventory_def key
    by (intro run_rules keeps_intros; simp add: key)
next
  case Ask
  show ?thesis
    unfolding Ask run_node.simps ask_def Let_def key
    by (intro run_rules keeps_intros; simp add: key)
next
  case Resolve_Constraints
  show ?thesis
    unfolding Resolve_Constraints run_node.simps resolve_constraints_def accept_fill_def key
    by (intro run_rules keeps_intros; simp add: key)
next
  case Plan_Steps
  show ?thesis
    unfolding Plan_Steps run_node.simps plan_steps_def Let_def key
    by (intro run_rules keeps_intros; simp add: key)
next
  case Approve
  show ?thesis
    unfolding Approve run_node.simps approve_def Let_def key
    by (intro run_rules keeps_intros; simp add: key select_composition_def)
qed (use n in auto)

end

end
