(* ===== verification/Lock_Frame.thy ===== *)
theory Lock_Frame
  imports Graph_Laws
begin

text \<open>
  What no node of the session graph does to the state store, whether it returns, pauses or raises:
  touch a lock (they belong to the runner) or lose an idempotency record (the first writer wins).
  \<open>framed L R\<close> is the invariant, the locks are \<open>L\<close> and the records contain \<open>R\<close>; every operation of
  the generation loop and of the graph keeps it.
\<close>

definition framed :: "(string \<rightharpoonup> string) \<Rightarrow> (string \<rightharpoonup> bytes) \<Rightarrow> world \<Rightarrow> bool" where
  "framed L R w \<longleftrightarrow> ms_locks (w_store w) = L \<and> map_le R (ms_idem (w_store w))"

named_theorems lock_rules \<open>operations that leave the locks alone\<close>

lemma locked_quiet: "framed L R w \<Longrightarrow> quiet k w w' \<Longrightarrow> framed L R w'"
  by (simp add: framed_def quiet_def)

lemma keeps_locked_quiet:
  assumes "\<And>w x w'. m w = (x, w') \<Longrightarrow> quiet k w w'"
  shows "keeps (framed L R) m"
  unfolding keeps_def by (metis assms locked_quiet prod.collapse)

lemma locks_store_ops [simp]:
  "ms_locks (put_session s st) = ms_locks st" "ms_locks (put_face f st) = ms_locks st"
  "ms_locks (snd (idem_put k v st)) = ms_locks st"
  "ms_idem (put_session s st) = ms_idem st" "ms_idem (put_face f st) = ms_idem st"
  by (simp_all add: put_session_def put_face_def idem_put_def)

lemma idem_put_grows: "map_le (ms_idem st) (ms_idem (snd (idem_put k v st)))"
  by (simp add: idem_put_def map_le_def dom_def)

lemma keeps_locked_simple [lock_rules]:
  "keeps (framed L R) (op_get_session j)" "keeps (framed L R) (op_put_session s)"
  "keeps (framed L R) (op_get_face j)" "keeps (framed L R) (op_put_face f)"
  "keeps (framed L R) (publish j e)" "keeps (framed L R) (storage_get j)"
  "keeps (framed L R) (storage_put j d)" "keeps (framed L R) (storage_find j)"
  "keeps (framed L R) (op_generate env rq)" "keeps (framed L R) (record_writer_cost s r)"
  by (simp_all add: keeps_def framed_def op_get_session_def op_put_session_def op_get_face_def
      op_put_face_def publish_def storage_get_def storage_put_def storage_find_def op_generate_def
      record_writer_cost_def Let_def split: option.splits)

lemma keeps_locked_money [lock_rules]:
  "keeps (framed L R) (op_reserve m kind est)" "keeps (framed L R) (op_settle c r)"
  "keeps (framed L R) (op_cancel r)"
  by (rule keeps_locked_quiet, erule quiet_reserve quiet_settle quiet_cancel)+

lemma keeps_locked_cases [lock_rules]:
  "(\<And>a b. keeps P (f a b)) \<Longrightarrow> keeps P (case z of (a, b) \<Rightarrow> f a b)"
  "(\<And>s. keeps P (g1 s)) \<Longrightarrow> (\<And>s. keeps P (g2 s)) \<Longrightarrow> (\<And>s. keeps P (g3 s))
     \<Longrightarrow> keeps P (case fl of Next s \<Rightarrow> g1 s | Broke s \<Rightarrow> g2 s | Halted s \<Rightarrow> g3 s)"
  "(\<And>g. keeps P (h1 g)) \<Longrightarrow> (\<And>m u. keeps P (h2 m u)) \<Longrightarrow> (\<And>m. keeps P (h3 m))
     \<Longrightarrow> keeps P (case out of Generated g \<Rightarrow> h1 g | Refused m u \<Rightarrow> h2 m u | Gen_Failed m \<Rightarrow> h3 m)"
  "keeps P c1 \<Longrightarrow> keeps P c2 \<Longrightarrow> keeps P c3
     \<Longrightarrow> keeps P (case status of Pending \<Rightarrow> c1 | Completed \<Rightarrow> c2 | Skipped \<Rightarrow> c3)"
  by (simp_all split: prod.split flow.split gen_outcome.split step_status.split)

lemmas lock_intros = lock_rules keeps_intros

lemma keeps_locked_run_once:
  assumes "keeps (framed L R) op"
  shows "keeps (framed L R) (run_once w_idem_get w_idem_put key op)"
proof -
  have "w_store (snd (w_idem_put key v w)) = snd (idem_put key v (w_store w))" for v w
    by (simp add: w_idem_put_def split: prod.split)
  then have put: "framed L R (snd (w_idem_put key v w))" if "framed L R w" for v w
    using that map_le_trans [OF _ idem_put_grows] by (simp add: framed_def)
  show ?thesis
    unfolding keeps_def run_once_def using keepsD [OF assms] put
    by (auto split: option.splits prod.splits sum.splits) (metis (no_types, lifting) snd_conv)+
qed

context loop_services
begin

lemma keeps_locked_writer:
  "keeps (framed L R) (le_compose env rq fm m)" "keeps (framed L R) (le_revise env b f rq m)"
  by (rule keeps_locked_quiet, erule compose_quiet revise_quiet)+

lemma keeps_locked_attempt: "keeps (framed L R) (attempt env c a st)"
  unfolding attempt_def attempt_prompt_def send_attempt_def on_refused_def on_failed_def on_generated_def
    on_check_failed_def on_checked_def publish_retry_def Let_def
  by (intro lock_intros keeps_locked_writer)

lemma keeps_locked_attempts: "keeps (framed L R) (attempts env c as st)"
proof (induction as arbitrary: st)
  case (Cons a as)
  then show ?case
    unfolding attempts.simps by (intro lock_intros keeps_locked_attempt) simp_all
qed (simp add: keeps_ret)

lemma keeps_locked_chain_step: "keeps (framed L R) (chain_step env x em i step cs)"
  unfolding chain_step_def run_step_def base_prompt_def emit_step_def Let_def
  by (intro lock_intros keeps_locked_writer keeps_locked_attempts)

lemma keeps_locked_run_chain: "keeps (framed L R) (run_chain env x em steps cs)"
proof (induction steps arbitrary: cs)
  case (Cons p steps)
  then show ?case
    by (cases p) (simp, intro lock_intros keeps_locked_chain_step, simp_all)
qed (simp add: keeps_ret)

lemma keeps_locked_drive: "keeps (framed L R) (drive env k p crop addendum)"
proof -
  have finish: "keeps (framed L R) (loop_finish s r c)" for s r c
    unfolding loop_finish_def by (intro lock_intros)
  have obj: "keeps (framed L R) a \<Longrightarrow> (\<And>b. keeps (framed L R) (f b))
      \<Longrightarrow> keeps (framed L R) (\<lambda>w. case w_objects w r of None \<Rightarrow> a w | Some b \<Rightarrow> f b w)" for a f r
    by (auto simp: keeps_def split: option.splits)
  show ?thesis
    unfolding drive_def loop_load_def Let_def
    by (intro lock_intros obj finish keeps_locked_run_chain)
qed

lemma keeps_locked_loop_run: "keeps (framed L R) (loop_run env k p key crop addendum)"
  unfolding loop_run_def by (intro lock_intros keeps_locked_run_once keeps_locked_drive)

end

lemma keeps_lock_exn [lock_rules]:
  "keeps P a \<Longrightarrow> keeps P b
     \<Longrightarrow> keeps P (case e of FreeFormRejected m \<Rightarrow> a | _ \<Rightarrow> b)"
  by (simp split: py_exn.split)

lemma keeps_locked_helpers [lock_rules]:
  "keeps (framed L R) (node_session j)" "keeps (framed L R) (node_resolve svc st)"
  "keeps (framed L R) (load_face svc fk)"
  unfolding node_session_def node_resolve_def load_face_def by (intro lock_intros)+

context graph_ports
begin

lemma keeps_locked_ports:
  "keeps (framed L R) (sv_parse svc b (Some m))" "keeps (framed L R) (sv_extract svc img (Some m))"
  "keeps (framed L R) (sv_plan svc a i (Some m))" "keeps (framed L R) (sv_fill svc p ans fm (Some m))"
  by (rule keeps_locked_quiet, erule parse_quiet extract_quiet plan_quiet fill_quiet)+

lemma node_locks: "keeps (framed L R) (run_node svc n st v)"
  by (cases n; simp only: run_node.simps;
      (unfold node_defs store_inventory_def accept_fill_def Let_def)?;
      intro lock_rules keeps_intros keeps_locked_ports keeps_locked_loop_run)

lemma node_frame:
  assumes "run_node svc n st v w = (x, w')"
  shows "ms_locks (w_store w') = ms_locks (w_store w)" and "map_le (ms_idem (w_store w)) (ms_idem (w_store w'))"
  using keepsD [OF node_locks, of "ms_locks (w_store w)" "ms_idem (w_store w)" w] assms by (simp_all add: framed_def)

lemmas node_locks_eq = node_frame(1)

end

end
