(* ===== verification/Runner.thy ===== *)
theory Runner
  imports Lock_Frame
begin

text \<open>
  The session runner of \<open>src/api/deps.py\<close> and the outcome record of \<open>src/services/telemetry.py\<close>.
  A run is a background task around one \<open>ainvoke\<close> of the graph. Its life is a sequence of phases:
  \<open>Queued\<close> (the task is created, its first step has not run), \<open>Running\<close> (inside the graph, one node
  at a time, with the checkpoint after each), \<open>Leaving\<close> (the graph is over, the run lock still held)
  and \<open>Narrating\<close> (lock released, the end not yet told).
  Runs of all replicas share the store and interleave at these points; \<open>runner_step\<close> is the relation.

  From LangGraph the program relies on: a checkpoint per \<open>thread_id\<close> with the merged state and the
  pending node; an input merged into the state of an existing thread; a \<open>Command(resume)\<close> that
  executes the pending node again, fails on an unknown thread, and returns at once on a finished one.
\<close>

section \<open>Telemetry (\<open>services/telemetry.py\<close>)\<close>

record outcome_record =   \<comment> \<open>the fields of the \<open>session_terminal\<close> event\<close>
  te_fsm_state :: string
  te_preset_id :: "string option"
  te_preset_version :: "string option"
  te_library_version :: "string option"
  te_slots :: "(string, string) dict"
  te_n_iterations :: nat
  te_n_retries :: nat
  te_generations_charged :: nat
  te_n_llm_calls :: nat
  te_budget_limit :: usd
  te_cost :: usd
  te_prompt_tokens :: int
  te_completion_tokens :: int
  te_best_similarity :: "rat option"
  te_verdict :: "verdict option"
  te_risk_level :: "risk_level option"
  te_failure_reason :: "string option"
  te_failure_code :: "string option"

definition or_zero :: "int option \<Rightarrow> int" where
  "or_zero x = (case x of None \<Rightarrow> 0 | Some i \<Rightarrow> i)"

definition present :: "'a option list \<Rightarrow> 'a list" where
  "present xs = map the (filter (\<lambda>x. x \<noteq> None) xs)"

definition token_totals :: "session_state \<Rightarrow> int \<times> int" where
  "token_totals s =
     (let usages = present (map it_usage (ss_iterations s) @ map pc_usage (ss_llm_calls s))
      in (sum_list (map (\<lambda>u. or_zero (pu_prompt_tokens u)) usages),
          sum_list (map (\<lambda>u. or_zero (pu_completion_tokens u)) usages)))"

definition session_terminal :: "session_state \<Rightarrow> string option \<Rightarrow> string option \<Rightarrow> outcome_record" where
  "session_terminal s failure_reason failure_code =
     \<lparr>te_fsm_state = fsm_value (ss_fsm_state s), te_preset_id = ss_preset_id s,
      te_preset_version = ss_preset_version s, te_library_version = ss_library_version s,
      te_slots = ss_slots s, te_n_iterations = length (ss_iterations s),
      te_n_retries = nat (max 0 (int (length (ss_iterations s)) - 1)),
      te_generations_charged = generations_spent s, te_n_llm_calls = length (ss_llm_calls s),
      te_budget_limit = ss_budget_limit s, te_cost = cost_spent s,
      te_prompt_tokens = fst (token_totals s), te_completion_tokens = snd (token_totals s),
      te_best_similarity = map_option br_similarity (ss_best_result s),
      te_verdict = map_option br_verdict (ss_best_result s),
      te_risk_level = map_option br_risk_level (ss_best_result s),
      te_failure_reason = failure_reason, te_failure_code = failure_code\<rparr>"

section \<open>Runs\<close>

record thread =   \<comment> \<open>the checkpoint of one session\<close>
  th_state :: graph_state
  th_next :: "node option"

datatype payload =
    Fresh string string int        \<comment> \<open>\<open>start\<close>: face key, brief, budget in micro-dollars\<close>
  | Resume resume_value            \<comment> \<open>\<open>Command(resume=value)\<close>\<close>

datatype ending =
    Ended graph_state              \<comment> \<open>\<open>ainvoke\<close> returned without an interrupt\<close>
  | Asks question                  \<comment> \<open>with an interrupt\<close>
  | Out_Of_Time                    \<comment> \<open>\<open>TimeoutError\<close>\<close>
  | Broke_Down                     \<comment> \<open>any other exception\<close>

datatype phase =
    Queued payload
  | Running node graph_state "resume_value option"
  | Leaving ending
  | Narrating ending

record run =
  ru_replica :: nat
  ru_key :: string
  ru_token :: string
  ru_phase :: phase

record runner =
  rn_world :: world
  rn_threads :: "string \<rightharpoonup> thread"
  rn_tasks :: "nat \<Rightarrow> string \<rightharpoonup> string"    \<comment> \<open>\<open>_tasks\<close> of each replica: session key to the task's token\<close>
  rn_runs :: "run list"
  rn_telemetry :: "outcome_record list"

definition wall_clock_reason :: string where
  "wall_clock_reason = ''session run exceeded the wall-clock limit''"
definition cancelled_reason :: string where "cancelled_reason = ''cancelled by the caller''"
definition no_deliverable_reason :: string where
  "no_deliverable_reason = ''generation loop ended without a deliverable''"

definition run_lock_key :: "string \<Rightarrow> string" where   \<comment> \<open>\<open>_lock_key\<close>\<close>
  "run_lock_key session_key = ''run:'' @ session_key"

definition failed_with :: "failure_code \<Rightarrow> string \<Rightarrow> session_state option \<Rightarrow> event" where
  \<comment> \<open>\<open>FailedEvent(code, reason, **_accounting(session))\<close>\<close>
  "failed_with c reason session =
     FailedEvent c reason None
       (case session of None \<Rightarrow> 0 | Some s \<Rightarrow> length (ss_iterations s))
       (case session of None \<Rightarrow> 0 | Some s \<Rightarrow> generations_spent s)
       (case session of None \<Rightarrow> 0 | Some s \<Rightarrow> cost_spent s)"

definition merge_input :: "string \<Rightarrow> string \<Rightarrow> string \<Rightarrow> int \<Rightarrow> graph_state \<Rightarrow> graph_state" where
  "merge_input k face brief limit st =
     st\<lparr>gs_session_key := k, gs_face_key := face, gs_use_case := [], gs_brief := brief,
        gs_budget_limit := limit\<rparr>"

fun entry :: "string \<Rightarrow> payload \<Rightarrow> thread option \<Rightarrow> phase" where   \<comment> \<open>where \<open>ainvoke\<close> begins\<close>
  "entry k (Fresh face brief limit) None = Running Analyze (initial_state k face brief limit) None"
| "entry k (Fresh face brief limit) (Some th) =
     Running Analyze (merge_input k face brief limit (th_state th)) None"
| "entry k (Resume v) None = Leaving Broke_Down"
| "entry k (Resume v) (Some th) =
     (case th_next th of
        None \<Rightarrow> Leaving (Ended (th_state th))
      | Some n \<Rightarrow> Running n (th_state th) (Some v))"

definition with_store :: "(store \<Rightarrow> store) \<Rightarrow> runner \<Rightarrow> runner" where
  "with_store f r = r\<lparr>rn_world := (rn_world r)\<lparr>w_store := f (w_store (rn_world r))\<rparr>\<rparr>"

definition spawn :: "nat \<Rightarrow> string \<Rightarrow> payload \<Rightarrow> string \<Rightarrow> runner \<Rightarrow> bool \<times> runner" where
  "spawn i k p tok r =
     (case acquire_lock (run_lock_key k) tok (w_store (rn_world r)) of
        (acquired, st) \<Rightarrow>
          if \<not> acquired then (False, with_store (\<lambda>_. st) r)
          else (True,
            (with_store (\<lambda>_. st) r)
              \<lparr>rn_runs := rn_runs r @ [\<lparr>ru_replica = i, ru_key = k, ru_token = tok,
                                       ru_phase = Queued p\<rparr>],
               rn_tasks := (rn_tasks r)(i := (rn_tasks r i)(k \<mapsto> tok))\<rparr>))"

definition start_run :: "nat \<Rightarrow> string \<Rightarrow> string \<Rightarrow> string \<Rightarrow> usd \<Rightarrow> string \<Rightarrow> runner \<Rightarrow> bool \<times> runner" where
  "start_run i k face brief budget_limit tok r = spawn i k (Fresh face brief (to_micro budget_limit)) tok r"

definition resume_run :: "nat \<Rightarrow> string \<Rightarrow> resume_value \<Rightarrow> string \<Rightarrow> runner \<Rightarrow> bool \<times> runner" where
  "resume_run i k v tok r = spawn i k (Resume v) tok r"

definition set_phase :: "string \<Rightarrow> phase \<Rightarrow> runner \<Rightarrow> runner" where
  "set_phase tok ph r =
     r\<lparr>rn_runs := map (\<lambda>u. if ru_token u = tok then u\<lparr>ru_phase := ph\<rparr> else u) (rn_runs r)\<rparr>"

definition reap :: "nat \<Rightarrow> string \<Rightarrow> string \<Rightarrow> runner \<Rightarrow> runner" where
  \<comment> \<open>the task is over: \<open>_reap\<close> removes the entry only when it is still this task's\<close>
  "reap i k tok r =
     r\<lparr>rn_runs := filter (\<lambda>u. ru_token u \<noteq> tok) (rn_runs r),
       rn_tasks := (if rn_tasks r i k = Some tok
                    then (rn_tasks r)(i := (rn_tasks r i)(k := None)) else rn_tasks r)\<rparr>"

definition save_thread :: "string \<Rightarrow> graph_state \<Rightarrow> node option \<Rightarrow> runner \<Rightarrow> runner" where
  "save_thread k st next r = r\<lparr>rn_threads := (rn_threads r)(k \<mapsto> \<lparr>th_state = st, th_next = next\<rparr>)\<rparr>"

definition enter_run :: "run \<Rightarrow> runner \<Rightarrow> runner" where   \<comment> \<open>the task starts\<close>
  "enter_run u r =
     (case ru_phase u of
        Queued p \<Rightarrow> set_phase (ru_token u) (entry (ru_key u) p (rn_threads r (ru_key u))) r
      | _ \<Rightarrow> r)"

definition advance :: "'i services \<Rightarrow> run \<Rightarrow> runner \<Rightarrow> runner" where
  \<comment> \<open>one superstep of the graph inside \<open>ainvoke\<close>\<close>
  "advance svc u r =
     (case ru_phase u of
        Running n st v \<Rightarrow>
          (case run_node svc n st v (rn_world r) of
             (Inl e, w) \<Rightarrow>
               set_phase (ru_token u) (Leaving Broke_Down) (save_thread (ru_key u) st (Some n) (r\<lparr>rn_world := w\<rparr>))
           | (Inr (Interrupts q), w) \<Rightarrow>
               set_phase (ru_token u) (Leaving (Asks q)) (save_thread (ru_key u) st (Some n) (r\<lparr>rn_world := w\<rparr>))
           | (Inr (Goes st'), w) \<Rightarrow>
               (case edge n st' of
                  None \<Rightarrow>
                    set_phase (ru_token u) (Leaving (Ended st')) (save_thread (ru_key u) st' None (r\<lparr>rn_world := w\<rparr>))
                | Some n' \<Rightarrow>
                    set_phase (ru_token u) (Running n' st' None)
                      (save_thread (ru_key u) st' (Some n') (r\<lparr>rn_world := w\<rparr>))))
      | _ \<Rightarrow> r)"

definition stop_at_deadline :: "run \<Rightarrow> world \<Rightarrow> runner \<Rightarrow> runner" where
  \<comment> \<open>\<open>asyncio.timeout\<close> fires inside a node that has brought the world to \<open>w\<close>\<close>
  "stop_at_deadline u w r =
     (case ru_phase u of
        Running n st v \<Rightarrow>
          set_phase (ru_token u) (Leaving Out_Of_Time) (save_thread (ru_key u) st (Some n) (r\<lparr>rn_world := w\<rparr>))
      | _ \<Rightarrow> r)"

definition release_run :: "string \<Rightarrow> string \<Rightarrow> runner \<Rightarrow> runner" where   \<comment> \<open>\<open>_release\<close>\<close>
  "release_run k tok = with_store (\<lambda>st. snd (release_lock (run_lock_key k) tok st))"

definition leave :: "run \<Rightarrow> runner \<Rightarrow> runner" where
  "leave u r =
     (case ru_phase u of
        Leaving e \<Rightarrow> set_phase (ru_token u) (Narrating e) (release_run (ru_key u) (ru_token u) r)
      | _ \<Rightarrow> r)"

definition publish_to :: "string \<Rightarrow> event \<Rightarrow> runner \<Rightarrow> runner" where
  "publish_to k e r = r\<lparr>rn_world := snd (publish k e (rn_world r))\<rparr>"

definition mark_session ::
  "string \<Rightarrow> fsm_state \<Rightarrow> string \<Rightarrow> failure_code \<Rightarrow> runner \<Rightarrow> runner" where
  \<comment> \<open>\<open>_fail_session\<close>, and the second half of \<open>cancel\<close>\<close>
  "mark_session k state reason c r =
     (case get_session k (w_store (rn_world r)) of
        None \<Rightarrow> publish_to k (failed_with c reason None) r
      | Some s0 \<Rightarrow>
          (let s = s0\<lparr>ss_fsm_state := state\<rparr>
           in publish_to k (failed_with c reason (Some s))
                ((with_store (put_session s) r)
                   \<lparr>rn_telemetry := rn_telemetry r
                      @ [session_terminal s (Some reason) (Some (failure_code_value c))]\<rparr>)))"

definition emit_telemetry :: "string \<Rightarrow> string option \<Rightarrow> runner \<Rightarrow> runner" where
  "emit_telemetry k failure_reason r =
     (case get_session k (w_store (rn_world r)) of
        None \<Rightarrow> r
      | Some s \<Rightarrow>
          r\<lparr>rn_telemetry := rn_telemetry r @
              [session_terminal s
                 (if failure_reason = None \<and> ss_fsm_state s = FAILED
                  then Some no_deliverable_reason else failure_reason) None]\<rparr>)"

fun tell :: "string \<Rightarrow> ending \<Rightarrow> runner \<Rightarrow> runner" where
  "tell k (Asks q) r =
     publish_to k (NeedInputEvent (qu_slot q) (qu_question q) (qu_options q) (qu_default q)) r"
| "tell k (Ended st) r = emit_telemetry k (map_option fl_reason (gs_failure st)) r"
| "tell k Out_Of_Time r = mark_session k FAILED wall_clock_reason WALL_CLOCK r"
| "tell k Broke_Down r = publish_to k (FailedEvent INTERNAL ''internal error'' None 0 0 0) r"

definition narrate :: "run \<Rightarrow> runner \<Rightarrow> runner" where
  "narrate u r =
     (case ru_phase u of
        Narrating e \<Rightarrow> reap (ru_replica u) (ru_key u) (ru_token u) (tell (ru_key u) e r)
      | _ \<Rightarrow> r)"

definition stop_task :: "run \<Rightarrow> world \<Rightarrow> runner \<Rightarrow> runner" where
  \<comment> \<open>\<open>task.cancel()\<close> and the wait for it. Inside \<open>ainvoke\<close> the handler releases the lock; a task
     cancelled before its first step, or while it releases, ends without having done so\<close>
  "stop_task u w r =
     reap (ru_replica u) (ru_key u) (ru_token u)
       (case ru_phase u of
          Running n st v \<Rightarrow>
            release_run (ru_key u) (ru_token u) (save_thread (ru_key u) st (Some n) (r\<lparr>rn_world := w\<rparr>))
        | _ \<Rightarrow> r)"

definition find_task :: "nat \<Rightarrow> string \<Rightarrow> runner \<Rightarrow> run option" where   \<comment> \<open>\<open>self._tasks.get(session_key)\<close>\<close>
  "find_task i k r =
     (case rn_tasks r i k of
        None \<Rightarrow> None | Some t \<Rightarrow> List.find (\<lambda>u. ru_token u = t) (rn_runs r))"

definition cancel_run :: "nat \<Rightarrow> string \<Rightarrow> world \<Rightarrow> runner \<Rightarrow> runner" where   \<comment> \<open>\<open>cancel\<close> on replica \<open>i\<close>\<close>
  "cancel_run i k w r =
     mark_session k CANCELLED cancelled_reason CODE_CANCELLED
       (case find_task i k r of None \<Rightarrow> r | Some u \<Rightarrow> stop_task u w r)"

definition shutdown :: "nat \<Rightarrow> (run \<Rightarrow> world \<Rightarrow> world) \<Rightarrow> runner \<Rightarrow> runner" where   \<comment> \<open>\<open>aclose\<close>\<close>
  \<comment> \<open>\<open>part\<close>: what the node a task was in has done by then\<close>
  "shutdown i part r =
     (fold (\<lambda>u r. stop_task u (part u (rn_world r)) r)
        (filter (\<lambda>u. ru_replica u = i \<and> rn_tasks r i (ru_key u) = Some (ru_token u)) (rn_runs r)) r)
       \<lparr>rn_tasks := (rn_tasks r)(i := Map.empty)\<rparr>"

definition crash_replica :: "nat \<Rightarrow> runner \<Rightarrow> runner" where
  \<comment> \<open>the process of replica \<open>i\<close> dies: its tasks are gone, their locks are not\<close>
  "crash_replica i r =
     r\<lparr>rn_runs := filter (\<lambda>u. ru_replica u \<noteq> i) (rn_runs r), rn_tasks := (rn_tasks r)(i := Map.empty)\<rparr>"

section \<open>All replicas together\<close>

definition partial_run :: "string \<Rightarrow> world \<Rightarrow> world \<Rightarrow> bool" where
  \<comment> \<open>what a node of session \<open>k\<close> may have done when it is stopped midway\<close>
  "partial_run k w w' \<longleftrightarrow>
     ms_locks (w_store w') = ms_locks (w_store w)
     \<and> (\<forall>j. j \<noteq> k \<longrightarrow> get_session j (w_store w') = get_session j (w_store w) \<and> w_streams w' j = w_streams w j)"

definition fresh_token :: "string \<Rightarrow> runner \<Rightarrow> bool" where   \<comment> \<open>\<open>uuid4().hex\<close> never repeats\<close>
  "fresh_token t r \<longleftrightarrow> t \<notin> ru_token ` set (rn_runs r) \<and> t \<notin> ran (ms_locks (w_store (rn_world r)))"

inductive runner_step :: "'i services \<Rightarrow> runner \<Rightarrow> runner \<Rightarrow> bool" for svc where
  step_spawn: "fresh_token t r \<Longrightarrow> runner_step svc r (snd (spawn i k p t r))"
| step_begin: "u \<in> set (rn_runs r) \<Longrightarrow> runner_step svc r (enter_run u r)"
| step_advance: "u \<in> set (rn_runs r) \<Longrightarrow> runner_step svc r (advance svc u r)"
| step_deadline: "u \<in> set (rn_runs r) \<Longrightarrow> partial_run (ru_key u) (rn_world r) w
    \<Longrightarrow> runner_step svc r (stop_at_deadline u w r)"
| step_leave: "u \<in> set (rn_runs r) \<Longrightarrow> runner_step svc r (leave u r)"
| step_narrate: "u \<in> set (rn_runs r) \<Longrightarrow> runner_step svc r (narrate u r)"
| step_cancel: "partial_run k (rn_world r) w \<Longrightarrow> runner_step svc r (cancel_run i k w r)"
| step_stop: "u \<in> set (rn_runs r) \<Longrightarrow> partial_run (ru_key u) (rn_world r) w
    \<Longrightarrow> runner_step svc r (stop_task u w r)"   \<comment> \<open>a replica shuts down\<close>
| step_crash: "runner_step svc r (crash_replica i r)"
| step_others: "ms_locks (w_store w) = ms_locks (w_store (rn_world r)) \<Longrightarrow> runner_step svc r (r\<lparr>rn_world := w\<rparr>)"
    \<comment> \<open>the rest of the program: ingest, the event stream, requests that read\<close>

definition idle_runner :: "world \<Rightarrow> runner" where
  "idle_runner w =
     \<lparr>rn_world = w, rn_threads = Map.empty, rn_tasks = (\<lambda>_. Map.empty), rn_runs = [], rn_telemetry = []\<rparr>"

end
