(* ===== verification/Runner_Safety.thy ===== *)
theory Runner_Safety
  imports Runner
begin

text \<open>
  What holds of all replicas together, over every interleaving of \<open>runner_step\<close>: the run lock makes
  the run of a session exclusive (\<open>single\<close>), and it is given back (\<open>orderly\<close>) on every path but one,
  a task cancelled outside its handler: before its first step, or while it is giving the lock back. Then the functional behaviour of the ends of a run,
  and the whole run node by node as the graph's \<open>graph_run\<close>.
\<close>

fun holds_lock :: "phase \<Rightarrow> bool" where
  "holds_lock (Queued p) = True"
| "holds_lock (Running n st v) = True"
| "holds_lock (Leaving e) = True"
| "holds_lock (Narrating e) = False"

definition locks_of :: "runner \<Rightarrow> string \<rightharpoonup> string" where
  "locks_of r = ms_locks (w_store (rn_world r))"

definition single :: "runner \<Rightarrow> bool" where
  \<comment> \<open>tokens are distinct, and a run in its graph holds the lock of its session\<close>
  "single r \<longleftrightarrow>
     distinct (map ru_token (rn_runs r))
     \<and> (\<forall>u\<in>set (rn_runs r). holds_lock (ru_phase u) \<longrightarrow> locks_of r (run_lock_key (ru_key u)) = Some (ru_token u))"

definition orderly :: "runner \<Rightarrow> bool" where
  \<comment> \<open>a held run lock belongs to a run that is under way\<close>
  "orderly r \<longleftrightarrow>
     (\<forall>k t. locks_of r (run_lock_key k) = Some t \<longrightarrow>
        (\<exists>u\<in>set (rn_runs r). ru_key u = k \<and> ru_token u = t \<and> holds_lock (ru_phase u)))"

lemma run_lock_key_inj [simp]: "run_lock_key j = run_lock_key k \<longleftrightarrow> j = k"
  by (simp add: run_lock_key_def)

section \<open>Effects on runs and locks\<close>

named_theorems run_effects \<open>what the operations do to runs and locks\<close>

lemma set_phase_effects [run_effects]:
  "rn_runs (set_phase t ph r) = map (\<lambda>u. if ru_token u = t then u\<lparr>ru_phase := ph\<rparr> else u) (rn_runs r)"
  "locks_of (set_phase t ph r) = locks_of r"
  by (simp_all add: set_phase_def locks_of_def)

lemma save_thread_effects [run_effects]:
  "rn_runs (save_thread k st n r) = rn_runs r" "locks_of (save_thread k st n r) = locks_of r"
  by (simp_all add: save_thread_def locks_of_def)

lemma reap_effects [run_effects]:
  "rn_runs (reap i k t r) = filter (\<lambda>u. ru_token u \<noteq> t) (rn_runs r)" "locks_of (reap i k t r) = locks_of r"
  by (simp_all add: reap_def locks_of_def)

lemma world_effects [run_effects]:
  "rn_runs (r\<lparr>rn_world := w\<rparr>) = rn_runs r" "locks_of (r\<lparr>rn_world := w\<rparr>) = ms_locks (w_store w)"
  by (simp_all add: locks_of_def)

lemma release_run_effects [run_effects]:
  "rn_runs (release_run k t r) = rn_runs r"
  "locks_of (release_run k t r) =
     (if locks_of r (run_lock_key k) = Some t then (locks_of r)(run_lock_key k := None) else locks_of r)"
  by (simp_all add: release_run_def with_store_def release_lock_def locks_of_def)

lemma publish_to_effects [run_effects]:
  "rn_runs (publish_to k e r) = rn_runs r" "locks_of (publish_to k e r) = locks_of r"
  by (simp_all add: publish_to_def publish_def locks_of_def)

lemma mark_session_effects [run_effects]:
  "rn_runs (mark_session k st reason c r) = rn_runs r" "locks_of (mark_session k st reason c r) = locks_of r"
  by (auto simp: mark_session_def run_effects with_store_def Let_def split: option.splits)
     (simp_all add: locks_of_def with_store_def publish_to_def publish_def)

lemma tell_effects [run_effects]:
  "rn_runs (tell k e r) = rn_runs r" "locks_of (tell k e r) = locks_of r"
  by (cases e; simp add: run_effects; simp add: emit_telemetry_def locks_of_def split: option.split)+

lemma spawn_effects:
  "locks_of r (run_lock_key k) \<noteq> None \<Longrightarrow> spawn i k p t r = (False, r)"
  "locks_of r (run_lock_key k) = None \<Longrightarrow> fst (spawn i k p t r)
     \<and> rn_runs (snd (spawn i k p t r))
         = rn_runs r @ [\<lparr>ru_replica = i, ru_key = k, ru_token = t, ru_phase = Queued p\<rparr>]
     \<and> locks_of (snd (spawn i k p t r)) = (locks_of r)(run_lock_key k \<mapsto> t)"
  by (auto simp: spawn_def acquire_lock_def locks_of_def with_store_def)

section \<open>Exclusive runs\<close>

lemma single_cong: "rn_runs r' = rn_runs r \<Longrightarrow> locks_of r' = locks_of r \<Longrightarrow> single r' = single r"
  and orderly_cong: "rn_runs r' = rn_runs r \<Longrightarrow> locks_of r' = locks_of r \<Longrightarrow> orderly r' = orderly r"
  by (simp_all add: single_def orderly_def)

lemma single_held:
  "single r \<Longrightarrow> u \<in> set (rn_runs r) \<Longrightarrow> holds_lock (ru_phase u)
     \<Longrightarrow> locks_of r (run_lock_key (ru_key u)) = Some (ru_token u)"
  by (simp add: single_def)

lemma single_unique:
  assumes "single r" "u \<in> set (rn_runs r)" "v \<in> set (rn_runs r)" "ru_token u = ru_token v"
  shows "u = v"
  using assms by (auto simp: single_def distinct_map inj_on_def)

lemma single_exclusive:
  assumes "single r" "u \<in> set (rn_runs r)" "v \<in> set (rn_runs r)" "ru_key u = ru_key v"
    and "holds_lock (ru_phase u)" "holds_lock (ru_phase v)"
  shows "u = v"
proof -
  have "Some (ru_token u) = Some (ru_token v)" using assms unfolding single_def by metis
  then show ?thesis using single_unique [OF assms(1-3)] by simp
qed

lemma tokens_set_phase: "map ru_token (rn_runs (set_phase t ph r)) = map ru_token (rn_runs r)"
  by (simp add: set_phase_def)

lemma in_set_phase:
  assumes "single r" "u \<in> set (rn_runs r)"
  shows "v \<in> set (rn_runs (set_phase (ru_token u) ph r)) \<longleftrightarrow>
    v = u\<lparr>ru_phase := ph\<rparr> \<or> v \<in> set (rn_runs r) \<and> ru_token v \<noteq> ru_token u"
proof -
  have eq: "x \<in> set (rn_runs r) \<Longrightarrow> ru_token x = ru_token u \<longleftrightarrow> x = u" for x
    using assms single_unique by blast
  show ?thesis using assms(2) by (auto simp: set_phase_def image_iff eq)
qed

lemma single_set_phase:
  assumes s: "single r" and u: "u \<in> set (rn_runs r)" and ph: "holds_lock (ru_phase u) \<or> \<not> holds_lock ph"
  shows "single (set_phase (ru_token u) ph r)"
  using s u ph unfolding single_def
  by (auto simp: tokens_set_phase in_set_phase [OF s u] set_phase_effects(2))

lemma orderly_set_phase:
  assumes o: "orderly r" and ph: "holds_lock ph" and u: "u \<in> set (rn_runs r)" "holds_lock (ru_phase u)" and s: "single r"
  shows "orderly (set_phase (ru_token u) ph r)"
  unfolding orderly_def run_effects
proof (intro allI impI)
  fix k t assume "locks_of r (run_lock_key k) = Some t"
  with o obtain v where v: "v \<in> set (rn_runs r)" "ru_key v = k" "ru_token v = t" "holds_lock (ru_phase v)"
    by (auto simp: orderly_def)
  then show "\<exists>v\<in>set (map (\<lambda>x. if ru_token x = ru_token u then x\<lparr>ru_phase := ph\<rparr> else x) (rn_runs r)).
      ru_key v = k \<and> ru_token v = t \<and> holds_lock (ru_phase v)"
    using ph by (intro bexI [of _ "if ru_token v = ru_token u then v\<lparr>ru_phase := ph\<rparr> else v"]) auto
qed

lemma single_spawn:
  assumes "single r" "fresh_token t r"
  shows "single (snd (spawn i k p t r))"
proof (cases "locks_of r (run_lock_key k) = None")
  case True
  from spawn_effects(2) [OF this, of i p t] assms True show ?thesis
    by (auto simp: single_def fresh_token_def image_iff)
qed (simp add: spawn_effects(1) assms)

lemma entry_holds [simp]: "holds_lock (entry k p th)"
  by (cases p; cases th) (auto split: option.split)

lemma single_enter_run: "single r \<Longrightarrow> u \<in> set (rn_runs r) \<Longrightarrow> single (enter_run u r)"
  by (simp add: enter_run_def single_set_phase split: phase.split)

lemma orderly_enter_run: "single r \<Longrightarrow> orderly r \<Longrightarrow> u \<in> set (rn_runs r) \<Longrightarrow> orderly (enter_run u r)"
  by (simp add: enter_run_def orderly_set_phase split: phase.split)

lemma orderly_spawn:
  assumes "orderly r"
  shows "orderly (snd (spawn i k p t r))"
proof (cases "locks_of r (run_lock_key k) = None")
  case True
  from spawn_effects(2) [OF this, of i p t] assms show ?thesis
    unfolding orderly_def by (auto split: if_splits)
qed (simp add: spawn_effects(1) assms)

lemma leave_eq: "ru_phase u = Leaving e \<Longrightarrow>
    leave u r = release_run (ru_key u) (ru_token u) (set_phase (ru_token u) (Narrating e) r)"
  by (simp add: leave_def set_phase_def release_run_def with_store_def)

lemma single_leave:
  assumes s: "single r" and u: "u \<in> set (rn_runs r)"
  shows "single (leave u r)"
proof (cases "ru_phase u")
  case (Leaving e)
  let ?q = "set_phase (ru_token u) (Narrating e) r"
  have q: "single ?q" using single_set_phase [OF s u] by simp
  have held: "locks_of r (run_lock_key (ru_key u)) = Some (ru_token u)"
    using s u Leaving by (simp add: single_def)
  have "single (release_run (ru_key u) (ru_token u) ?q)"
    unfolding single_def release_run_effects(1)
  proof (intro conjI ballI impI)
    show "distinct (map ru_token (rn_runs ?q))" using q by (simp add: single_def)
  next
    fix v assume v: "v \<in> set (rn_runs ?q)" "holds_lock (ru_phase v)"
    then have "ru_token v \<noteq> ru_token u" by (auto simp: in_set_phase [OF s u])
    moreover have "locks_of r (run_lock_key (ru_key v)) = Some (ru_token v)"
      using q v by (simp add: single_def set_phase_effects(2))
    ultimately show "locks_of (release_run (ru_key u) (ru_token u) ?q) (run_lock_key (ru_key v)) = Some (ru_token v)"
      using held by (auto simp: run_effects)
  qed
  then show ?thesis by (simp add: leave_eq [OF Leaving])
qed (simp_all add: leave_def s)

lemma single_reap: "single r \<Longrightarrow> single (reap i k t r)"
  by (auto simp: single_def run_effects distinct_map inj_on_def)

lemma single_narrate: "single r \<Longrightarrow> single (narrate u r)"
  by (simp add: narrate_def split: phase.split)
     (metis single_reap single_cong tell_effects)

lemma single_save:
  assumes "single r" "ms_locks (w_store w) = locks_of r"
  shows "single (save_thread k st n (r\<lparr>rn_world := w\<rparr>))"
  using assms by (simp add: single_def run_effects)

lemma partial_locks: "partial_run k (rn_world r) w \<Longrightarrow> ms_locks (w_store w) = locks_of r"
  by (simp add: partial_run_def locks_of_def)

lemma single_deadline:
  assumes "single r" "u \<in> set (rn_runs r)" "partial_run (ru_key u) (rn_world r) w"
  shows "single (stop_at_deadline u w r)"
proof (cases "ru_phase u")
  case (Running n st v)
  have "single (save_thread (ru_key u) st (Some n) (r\<lparr>rn_world := w\<rparr>))"
    using single_save [OF assms(1) partial_locks [OF assms(3)]] .
  from single_set_phase [OF this, of u] assms(2) show ?thesis
    by (simp add: stop_at_deadline_def Running run_effects)
qed (simp_all add: stop_at_deadline_def assms(1))

text \<open>A task that ends gives back its own lock and nobody else's.\<close>

lemma single_release_reap:
  assumes s: "single r" and u: "u \<in> set (rn_runs r)"
  shows "single (reap i k (ru_token u) (release_run (ru_key u) (ru_token u) r))"
  using s unfolding single_def run_effects
  by (auto simp: distinct_map inj_on_def)

lemma single_stop:
  assumes s: "single r" and u: "u \<in> set (rn_runs r)" and w: "ms_locks (w_store w) = locks_of r"
  shows "single (stop_task u w r)"
proof (cases "ru_phase u")
  case (Running n st v)
  have "u \<in> set (rn_runs (save_thread (ru_key u) st (Some n) (r\<lparr>rn_world := w\<rparr>)))"
    using u by (simp add: run_effects)
  from single_release_reap [OF single_save [OF s w] this] show ?thesis
    by (simp add: stop_task_def Running)
qed (simp_all add: stop_task_def single_reap s)

lemma find_task_in: "find_task i k r = Some u \<Longrightarrow> u \<in> set (rn_runs r)"
  by (auto simp: find_task_def find_Some_iff split: option.splits)

lemma single_cancel:
  assumes "single r" "partial_run k (rn_world r) w"
  shows "single (cancel_run i k w r)"
proof -
  have "single (case find_task i k r of None \<Rightarrow> r | Some u \<Rightarrow> stop_task u w r)"
    using assms single_stop [OF assms(1) find_task_in partial_locks [OF assms(2)]]
    by (simp split: option.split)
  then show ?thesis
    unfolding cancel_run_def by (simp add: single_cong [OF mark_session_effects])
qed

lemma single_crash: "single r \<Longrightarrow> single (crash_replica i r)"
  by (auto simp: single_def crash_replica_def locks_of_def distinct_map inj_on_def)

text \<open>A shutdown stops the tasks of its own replica and leaves the others alone.\<close>

lemma stop_task_runs [run_effects]:
  "rn_runs (stop_task u w r) = filter (\<lambda>v. ru_token v \<noteq> ru_token u) (rn_runs r)"
  by (simp add: stop_task_def run_effects split: phase.split)

lemma single_stop_all:
  assumes "single r" and "set us \<subseteq> set (rn_runs r)" and "distinct (map ru_token us)"
    and "\<And>u w. partial_run (ru_key u) w (part u w)"
  shows "single (fold (\<lambda>u r. stop_task u (part u (rn_world r)) r) us r)
    \<and> set (rn_runs (fold (\<lambda>u r. stop_task u (part u (rn_world r)) r) us r)) = set (rn_runs r) - set us"
  using assms(1-3)
proof (induction us arbitrary: r)
  case (Cons u us)
  let ?r = "stop_task u (part u (rn_world r)) r"
  have u: "u \<in> set (rn_runs r)" using Cons.prems(2) by simp
  have s: "single ?r" using single_stop [OF Cons.prems(1) u partial_locks [OF assms(4)]] .
  have runs: "set (rn_runs ?r) = set (rn_runs r) - {u}"
    using Cons.prems(1) u by (auto simp: run_effects single_def distinct_map inj_on_def)
  have "set us \<subseteq> set (rn_runs ?r)" using Cons.prems(2,3) runs by auto
  from Cons.IH [OF s this] Cons.prems(3) runs show ?case by auto
qed simp

lemma shutdown_stops:
  assumes "single r" and "\<And>u w. partial_run (ru_key u) w (part u w)"
  shows "single (shutdown i part r)
    \<and> set (rn_runs (shutdown i part r))
        = set (rn_runs r) - {u. ru_replica u = i \<and> rn_tasks r i (ru_key u) = Some (ru_token u)}
    \<and> rn_tasks (shutdown i part r) i = Map.empty"
proof -
  let ?us = "filter (\<lambda>u. ru_replica u = i \<and> rn_tasks r i (ru_key u) = Some (ru_token u)) (rn_runs r)"
  have "distinct (map ru_token ?us)" using assms(1) by (auto simp: single_def distinct_map inj_on_def)
  from single_stop_all [OF assms(1) _ this assms(2)] show ?thesis
    by (auto simp: shutdown_def single_def locks_of_def)
qed

section \<open>Locks are given back\<close>

lemma orderly_advance_like:
  assumes "single r" "orderly r" "u \<in> set (rn_runs r)" "holds_lock (ru_phase u)" "holds_lock ph"
    and "ms_locks (w_store w) = locks_of r"
  shows "orderly (set_phase (ru_token u) ph (save_thread k st n (r\<lparr>rn_world := w\<rparr>)))"
proof (rule orderly_set_phase)
  show "orderly (save_thread k st n (r\<lparr>rn_world := w\<rparr>))"
    using assms(2,6) by (simp add: orderly_def run_effects)
  show "single (save_thread k st n (r\<lparr>rn_world := w\<rparr>))" using single_save [OF assms(1,6)] .
qed (simp_all add: run_effects assms)

lemma orderly_release:
  assumes s: "single r" and o: "orderly r" and u: "u \<in> set (rn_runs r)" and h: "holds_lock (ru_phase u)"
    and l: "locks_of q = locks_of r"
    and q: "\<And>v. v \<in> set (rn_runs r) \<Longrightarrow> ru_token v \<noteq> ru_token u \<Longrightarrow> v \<in> set (rn_runs q)"
  shows "orderly (release_run (ru_key u) (ru_token u) q)"
  unfolding orderly_def run_effects l
proof (intro allI impI)
  fix k t
  assume t: "(if locks_of r (run_lock_key (ru_key u)) = Some (ru_token u)
              then (locks_of r)(run_lock_key (ru_key u) := None) else locks_of r) (run_lock_key k) = Some t"
  have held: "locks_of r (run_lock_key (ru_key u)) = Some (ru_token u)" using s u h by (simp add: single_def)
  with t have k: "k \<noteq> ru_key u" "locks_of r (run_lock_key k) = Some t" by (auto split: if_splits)
  with o obtain v where v: "v \<in> set (rn_runs r)" "ru_key v = k" "ru_token v = t" "holds_lock (ru_phase v)"
    by (auto simp: orderly_def)
  then have "ru_token v \<noteq> ru_token u" using k(1) single_unique [OF s _ u] by blast
  with v q show "\<exists>u\<in>set (rn_runs q). ru_key u = k \<and> ru_token u = t \<and> holds_lock (ru_phase u)" by blast
qed

lemma orderly_leave:
  assumes s: "single r" and o: "orderly r" and u: "u \<in> set (rn_runs r)"
  shows "orderly (leave u r)"
proof (cases "ru_phase u")
  case (Leaving e)
  have "orderly (release_run (ru_key u) (ru_token u) (set_phase (ru_token u) (Narrating e) r))"
    by (rule orderly_release [OF s o u]) (simp_all add: Leaving set_phase_effects(2) in_set_phase [OF s u])
  then show ?thesis by (simp add: leave_eq [OF Leaving])
qed (simp_all add: leave_def o)

lemma orderly_reap:
  assumes s: "single r" and o: "orderly r" and u: "u \<in> set (rn_runs r)" "\<not> holds_lock (ru_phase u)"
  shows "orderly (reap i k (ru_token u) r)"
  unfolding orderly_def run_effects
proof (intro allI impI)
  fix j t assume "locks_of r (run_lock_key j) = Some t"
  with o obtain v where v: "v \<in> set (rn_runs r)" "ru_key v = j" "ru_token v = t" "holds_lock (ru_phase v)"
    by (auto simp: orderly_def)
  then have "ru_token v \<noteq> ru_token u" using u single_unique [OF s _ u(1)] by blast
  with v show "\<exists>v\<in>set (filter (\<lambda>v. ru_token v \<noteq> ru_token u) (rn_runs r)).
      ru_key v = j \<and> ru_token v = t \<and> holds_lock (ru_phase v)" by auto
qed

lemma orderly_narrate:
  assumes "single r" "orderly r" "u \<in> set (rn_runs r)"
  shows "orderly (narrate u r)"
proof (cases "ru_phase u")
  case (Narrating e)
  have "orderly (reap (ru_replica u) (ru_key u) (ru_token u) (tell (ru_key u) e r))"
    by (rule orderly_reap)
       (simp_all add: assms Narrating tell_effects single_cong [OF tell_effects] orderly_cong [OF tell_effects])
  then show ?thesis by (simp add: narrate_def Narrating)
qed (simp_all add: narrate_def assms)

fun guarded :: "phase \<Rightarrow> bool" where
  \<comment> \<open>not outside the \<open>try\<close> block with the lock held: not before its first step, not while it gives the lock back\<close>
  "guarded (Queued p) = False"
| "guarded (Running n st v) = True"
| "guarded (Leaving e) = False"
| "guarded (Narrating e) = True"

definition cancels_unguarded :: "nat \<Rightarrow> string \<Rightarrow> runner \<Rightarrow> bool" where
  \<comment> \<open>the task to cancel holds the lock where no handler gives it back\<close>
  "cancels_unguarded i k r =
     (case find_task i k r of None \<Rightarrow> False | Some u \<Rightarrow> \<not> guarded (ru_phase u))"

definition crash_leaks :: "nat \<Rightarrow> runner \<Rightarrow> bool" where
  "crash_leaks i r \<longleftrightarrow> (\<exists>u\<in>set (rn_runs r). ru_replica u = i \<and> holds_lock (ru_phase u))"

lemma orderly_crash: "orderly r \<Longrightarrow> \<not> crash_leaks i r \<Longrightarrow> orderly (crash_replica i r)"
  by (fastforce simp: orderly_def crash_leaks_def crash_replica_def locks_of_def)

lemma orderly_stop:
  assumes s: "single r" and o: "orderly r" and u: "u \<in> set (rn_runs r)" and w: "ms_locks (w_store w) = locks_of r"
    and n: "guarded (ru_phase u)"
  shows "orderly (stop_task u w r)"
proof (cases "ru_phase u")
  case (Running n st v)
  let ?q = "save_thread (ru_key u) st (Some n) (r\<lparr>rn_world := w\<rparr>)"
  have "orderly (release_run (ru_key u) (ru_token u) (reap (ru_replica u) (ru_key u) (ru_token u) ?q))"
    by (rule orderly_release [OF s o u]) (simp_all add: Running run_effects w)
  moreover have "release_run (ru_key u) (ru_token u) (reap (ru_replica u) (ru_key u) (ru_token u) ?q) = stop_task u w r"
    by (simp add: stop_task_def Running reap_def release_run_def with_store_def)
  ultimately show ?thesis by simp
next
  case (Narrating e)
  then show ?thesis using orderly_reap [OF s o u] by (simp add: stop_task_def)
qed (use n in simp_all)

lemma orderly_cancel:
  assumes "single r" "orderly r" "partial_run k (rn_world r) w" "\<not> cancels_unguarded i k r"
  shows "orderly (cancel_run i k w r)"
proof -
  have "orderly (case find_task i k r of None \<Rightarrow> r | Some u \<Rightarrow> stop_task u w r)"
  proof (cases "find_task i k r")
    case (Some u)
    have "orderly (stop_task u w r)"
      by (rule orderly_stop [OF assms(1,2) find_task_in [OF Some] partial_locks [OF assms(3)]])
         (use assms(4) Some in \<open>auto simp: cancels_unguarded_def\<close>)
    with Some show ?thesis by simp
  qed (simp add: assms(2))
  then show ?thesis
    unfolding cancel_run_def by (simp add: orderly_cong [OF mark_session_effects])
qed

context graph_ports
begin

lemma single_advance:
  assumes s: "single r" and u: "u \<in> set (rn_runs r)"
  shows "single (advance svc u r)"
proof (cases "ru_phase u")
  case (Running n st v)
  obtain x w where x: "run_node svc n st v (rn_world r) = (x, w)" by fastforce
  have "single (set_phase (ru_token u) ph (save_thread k st' n' (r\<lparr>rn_world := w\<rparr>)))" for ph k st' n'
  proof (rule single_set_phase)
    show "single (save_thread k st' n' (r\<lparr>rn_world := w\<rparr>))"
      using s node_locks_eq [OF x] by (simp add: single_def run_effects) (simp add: locks_of_def)
  qed (simp_all add: run_effects u Running)
  then show ?thesis by (simp add: advance_def Running x split: sum.split node_result.split option.split)
qed (simp_all add: advance_def s)

lemma orderly_advance:
  assumes s: "single r" and o: "orderly r" and u: "u \<in> set (rn_runs r)"
  shows "orderly (advance svc u r)"
proof (cases "ru_phase u")
  case (Running n st v)
  obtain x w where x: "run_node svc n st v (rn_world r) = (x, w)" by fastforce
  have w: "ms_locks (w_store w) = locks_of r" using node_locks_eq [OF x] by (simp add: locks_of_def)
  show ?thesis
    using orderly_advance_like [OF s o u _ _ w] Running x
    by (simp add: advance_def split: sum.split node_result.split option.split)
qed (simp_all add: advance_def o)

lemma step_single: "runner_step svc r r' \<Longrightarrow> single r \<Longrightarrow> single r'"
  by (induction rule: runner_step.induct)
     (auto intro: single_spawn single_enter_run single_advance single_deadline single_leave single_narrate single_cancel
         single_stop single_crash dest: partial_locks simp: single_cong [OF world_effects(1)] locks_of_def)

lemma reachable_single:
  assumes "(runner_step svc)\<^sup>*\<^sup>* (idle_runner w) r"
  shows "single r"
proof -
  have "single (idle_runner w)" by (simp add: single_def idle_runner_def)
  with assms show ?thesis by (induction rule: rtranclp_induct) (auto intro: step_single)
qed

lemma step_orderly:
  assumes "runner_step svc r r'" "single r" "orderly r"
    and "\<And>i k w. r' = cancel_run i k w r \<Longrightarrow> \<not> cancels_unguarded i k r"
    and "\<And>u w. r' = stop_task u w r \<Longrightarrow> u \<in> set (rn_runs r) \<Longrightarrow> guarded (ru_phase u)"
    and "\<And>i. r' = crash_replica i r \<Longrightarrow> \<not> crash_leaks i r"
  shows "orderly r'"
  using assms
proof (induction rule: runner_step.induct)
  case (step_deadline u r w)
  show ?case
  proof (cases "ru_phase u")
    case (Running n st v)
    then show ?thesis
      using orderly_advance_like [OF step_deadline.prems(1,2) step_deadline.hyps(1) _ _
          partial_locks [OF step_deadline.hyps(2)]]
      by (simp add: stop_at_deadline_def)
  qed (simp_all add: stop_at_deadline_def step_deadline.prems)
next
  case (step_others w r)
  then show ?case by (simp add: orderly_cong [OF world_effects(1)] locks_of_def)
next
  case (step_stop u r w)
  then show ?case using orderly_stop [OF _ _ _ partial_locks] by blast
next
  case (step_crash r i)
  then show ?case by (simp add: orderly_crash)
qed (auto intro: orderly_spawn orderly_enter_run orderly_advance orderly_leave orderly_narrate orderly_cancel)

end

section \<open>Admission\<close>

text \<open>In such a state a start or an answer is admitted exactly when no run of the session is under way.\<close>

lemma spawn_admits:
  assumes "single r" "orderly r"
  shows "fst (spawn i k p t r) \<longleftrightarrow> (\<forall>u\<in>set (rn_runs r). ru_key u = k \<longrightarrow> \<not> holds_lock (ru_phase u))"
proof -
  have "fst (spawn i k p t r) \<longleftrightarrow> locks_of r (run_lock_key k) = None"
    by (cases "locks_of r (run_lock_key k) = None") (simp_all add: spawn_effects del: fun_upd_apply)
  also have "\<dots> \<longleftrightarrow> (\<forall>u\<in>set (rn_runs r). ru_key u = k \<longrightarrow> \<not> holds_lock (ru_phase u))"
    using assms(2) single_held [OF assms(1)] unfolding orderly_def by (metis option.distinct(1) not_None_eq)
  finally show ?thesis .
qed

lemma spawn_refused: "\<not> fst (spawn i k p t r) \<Longrightarrow> snd (spawn i k p t r) = r"
  by (cases "locks_of r (run_lock_key k) = None") (simp_all add: spawn_effects del: fun_upd_apply)

section \<open>The graph inside the runner\<close>

fun ending_of :: "graph_outcome \<Rightarrow> ending" where
  "ending_of (Finished st) = Ended st"
| "ending_of (Paused n st q) = Asks q"
| "ending_of (Crashed n st e) = Broke_Down"

definition after_graph :: "run \<Rightarrow> graph_outcome \<Rightarrow> world \<Rightarrow> runner \<Rightarrow> runner" where
  "after_graph u res w r =
     set_phase (ru_token u) (Leaving (ending_of res))
       (save_thread (ru_key u) (fst (checkpoint_of res)) (snd (checkpoint_of res)) (r\<lparr>rn_world := w\<rparr>))"

lemma set_phase_overwrites:
  "set_phase t ph (save_thread k st n ((set_phase t ph' (save_thread k st' n' (r\<lparr>rn_world := w'\<rparr>)))\<lparr>rn_world := w\<rparr>))
     = set_phase t ph (save_thread k st n (r\<lparr>rn_world := w\<rparr>))"
  by (simp add: set_phase_def save_thread_def)

text \<open>The next turn of a task: what it does itself when the event loop resumes it.\<close>

definition own_run :: "string \<Rightarrow> runner \<Rightarrow> run option" where
  "own_run tok r = List.find (\<lambda>u. ru_token u = tok) (rn_runs r)"

definition own_turn :: "'i services \<Rightarrow> string \<Rightarrow> runner \<Rightarrow> runner" where
  "own_turn svc tok r =
     (case own_run tok r of
        None \<Rightarrow> r
      | Some u \<Rightarrow>
          (case ru_phase u of
             Queued p \<Rightarrow> enter_run u r
           | Running n st v \<Rightarrow> advance svc u r
           | Leaving e \<Rightarrow> leave u r
           | Narrating e \<Rightarrow> narrate u r))"

lemma own_run_in: "own_run tok r = Some u \<Longrightarrow> u \<in> set (rn_runs r) \<and> ru_token u = tok"
  by (auto simp: own_run_def find_Some_iff)

lemma own_turn_step: "own_turn svc tok r = r \<or> runner_step svc r (own_turn svc tok r)"
proof (cases "own_run tok r")
  case (Some u)
  then show ?thesis
    using own_run_in [OF Some] by (cases "ru_phase u") (auto simp: own_turn_def intro: runner_step.intros)
qed (simp add: own_turn_def)

lemma own_turns_reachable: "(runner_step svc)\<^sup>*\<^sup>* r ((own_turn svc tok ^^ m) r)"
proof (induction m)
  case (Suc m)
  then show ?case
    using own_turn_step [of svc tok "(own_turn svc tok ^^ m) r"] by (auto intro: rtranclp.rtrancl_into_rtrancl)
qed simp

lemma find_map: "(\<And>x. P (f x) = P x) \<Longrightarrow> List.find P (map f xs) = map_option f (List.find P xs)"
  by (induction xs) simp_all

lemma own_run_set_phase [simp]:
  "own_run tok (set_phase tok ph r) = map_option (ru_phase_update (\<lambda>_. ph)) (own_run tok r)"
proof -
  have "own_run tok (set_phase tok ph r)
      = map_option (\<lambda>u. if ru_token u = tok then u\<lparr>ru_phase := ph\<rparr> else u) (own_run tok r)"
    unfolding own_run_def set_phase_effects by (rule find_map) simp
  then show ?thesis by (cases "own_run tok r") (auto dest: own_run_in)
qed

lemma own_run_cong: "rn_runs r' = rn_runs r \<Longrightarrow> own_run tok r' = own_run tok r"
  by (simp add: own_run_def)

lemma own_run_keeps [simp]:
  "own_run tok (save_thread k st n r) = own_run tok r" "own_run tok (r\<lparr>rn_world := w\<rparr>) = own_run tok r"
  "own_run tok (release_run k t r) = own_run tok r" "own_run tok (tell k e r) = own_run tok r"
  "own_run tok (reap i k tok r) = None"
  by (simp_all add: own_run_def run_effects find_None_iff)

lemma own_turn_over: "own_run tok r = None \<Longrightarrow> (own_turn svc tok ^^ m) r = r"
  by (induction m) (simp_all add: own_turn_def)

text \<open>Left to its own turns, the task executes the graph node by node: what it does is \<open>graph_run\<close>, in
as many turns as the graph's measure allows.\<close>

lemma run_to_end:
  assumes "graph_run svc n st v w = (res, w')"
    and "own_run tok r = Some u" "ru_phase u = Running n st v" "rn_world r = w"
  shows "\<exists>m \<le> Suc (graph_measure n st). (own_turn svc tok ^^ m) r = after_graph u res w' r"
  using assms
proof (induction arbitrary: u r rule: graph_run_induct)
  case (crash n st v w e w')
  then have "own_turn svc tok r = after_graph u (Crashed n st e) w' r"
    by (simp add: own_turn_def advance_def after_graph_def)
  then show ?case by (intro exI [of _ 1]) simp
next
  case (pause n st v w q w')
  then have "own_turn svc tok r = after_graph u (Paused n st q) w' r"
    by (simp add: own_turn_def advance_def after_graph_def)
  then show ?case by (intro exI [of _ 1]) simp
next
  case (finish n st v w st' w')
  then have "own_turn svc tok r = after_graph u (Finished st') w' r"
    by (simp add: own_turn_def advance_def after_graph_def)
  then show ?case by (intro exI [of _ 1]) simp
next
  case (go n st v w st' w1 n' res w')
  let ?u = "u\<lparr>ru_phase := Running n' st' None\<rparr>" and ?r = "own_turn svc tok r"
  have tok: "ru_token u = tok" using own_run_in [OF go.prems(1)] by simp
  have adv: "?r = set_phase tok (Running n' st' None) (save_thread (ru_key u) st' (Some n') (r\<lparr>rn_world := w1\<rparr>))"
    using go.hyps(1,2) go.prems tok by (simp add: own_turn_def advance_def)
  then have "own_run tok ?r = Some ?u" using go.prems(1) by simp
  from go.IH [OF this] obtain m where m: "m \<le> Suc (graph_measure n' st')"
    "(own_turn svc tok ^^ m) ?r = after_graph ?u res w' ?r"
    by (auto simp: adv set_phase_def save_thread_def)
  have "after_graph ?u res w' ?r = after_graph u res w' r"
    unfolding after_graph_def adv using tok by (simp add: set_phase_overwrites)
  with m(2) have "(own_turn svc tok ^^ Suc m) r = after_graph u res w' r"
    by (simp add: funpow_Suc_right del: funpow.simps)
  moreover have "Suc m \<le> Suc (graph_measure n st)"
    using m(1) node_advances [OF go.hyps(1,2)] by simp
  ultimately show ?case by blast
qed

section \<open>The ends of a run\<close>

lemma tell_question:
  "w_streams (rn_world (tell k (Asks q) r)) k
     = w_streams (rn_world r) k @ [NeedInputEvent (qu_slot q) (qu_question q) (qu_options q) (qu_default q)]"
  by (simp add: publish_to_def publish_def)

lemma mark_session_told:
  assumes "get_session k (w_store (rn_world r)) = Some s" "ss_session_key s = k"
  shows "get_session k (w_store (rn_world (mark_session k state reason c r))) = Some (s\<lparr>ss_fsm_state := state\<rparr>)
    \<and> w_streams (rn_world (mark_session k state reason c r)) k = w_streams (rn_world r) k
        @ [FailedEvent c reason None (length (ss_iterations s)) (generations_spent s) (cost_spent s)]
    \<and> rn_telemetry (mark_session k state reason c r) = rn_telemetry r
        @ [session_terminal (s\<lparr>ss_fsm_state := state\<rparr>) (Some reason) (Some (failure_code_value c))]"
  using assms
  by (simp add: mark_session_def Let_def publish_to_def publish_def with_store_def failed_with_def
      generations_spent_def cost_spent_def put_session_def get_session_def)

lemma crash_told:
  "w_streams (rn_world (tell k Broke_Down r)) k
     = w_streams (rn_world r) k @ [FailedEvent INTERNAL ''internal error'' None 0 0 0]
   \<and> w_store (rn_world (tell k Broke_Down r)) = w_store (rn_world r)
   \<and> rn_telemetry (tell k Broke_Down r) = rn_telemetry r"
  by (simp add: publish_to_def publish_def)

text \<open>Once the graph is over a run takes two more steps: it releases, then tells the end.\<close>

definition told :: "run \<Rightarrow> ending \<Rightarrow> runner \<Rightarrow> runner" where
  "told u e r =
     reap (ru_replica u) (ru_key u) (ru_token u)
       (tell (ru_key u) e (set_phase (ru_token u) (Narrating e) (release_run (ru_key u) (ru_token u) r)))"

lemma ending_plays_out:
  assumes "u \<in> set (rn_runs r)" and "ru_phase u = Leaving e"
  shows "(runner_step svc ^^ 2) r (told u e r)"
proof -
  let ?v = "u\<lparr>ru_phase := Narrating e\<rparr>" and ?q = "leave u r"
  have q: "?q = set_phase (ru_token u) (Narrating e) (release_run (ru_key u) (ru_token u) r)"
    using assms(2) by (simp add: leave_def)
  have "?v \<in> set (rn_runs ?q)" using assms(1) by (auto simp: q run_effects)
  moreover have "narrate ?v ?q = told u e r" by (simp add: narrate_def told_def q)
  ultimately have "runner_step svc ?q (told u e r)" using step_narrate by metis
  with step_leave [OF assms(1)] show ?thesis
    by (auto simp: numeral_2_eq_2 relcompp_apply)
qed

lemma own_turns_play_out:
  assumes "own_run tok r = Some u" and "ru_phase u = Leaving e"
  shows "(own_turn svc tok ^^ 2) r = told u e r"
proof -
  have tok: "ru_token u = tok" using own_run_in [OF assms(1)] by simp
  let ?q = "set_phase tok (Narrating e) (release_run (ru_key u) tok r)"
  have "own_run tok ?q = Some (u\<lparr>ru_phase := Narrating e\<rparr>)" using assms(1) by simp
  then have "own_turn svc tok ?q = told u e r"
    unfolding own_turn_def by (simp only: option.case run.simps phase.case) (simp add: narrate_def told_def tok)
  moreover have "own_turn svc tok r = ?q" using assms tok by (simp add: own_turn_def leave_def)
  ultimately show ?thesis by (simp add: numeral_2_eq_2)
qed

lemma own_run_told [simp]: "ru_token u = tok \<Longrightarrow> own_run tok (told u e r) = None"
  unfolding told_def by (simp only: own_run_keeps)

lemma released_world [simp]:
  "w_streams (rn_world (release_run k t r)) = w_streams (rn_world r)"
  "get_session j (w_store (rn_world (release_run k t r))) = get_session j (w_store (rn_world r))"
  "rn_telemetry (release_run k t r) = rn_telemetry r" "rn_threads (release_run k t r) = rn_threads r"
  by (simp_all add: release_run_def with_store_def release_lock_def get_session_def)

lemma set_phase_world [simp]:
  "rn_world (set_phase t ph r) = rn_world r" "rn_telemetry (set_phase t ph r) = rn_telemetry r"
  "rn_threads (set_phase t ph r) = rn_threads r"
  by (simp_all add: set_phase_def)

lemma reap_world [simp]:
  "rn_world (reap i k t r) = rn_world r" "rn_telemetry (reap i k t r) = rn_telemetry r"
  "rn_threads (reap i k t r) = rn_threads r"
  by (simp_all add: reap_def)

lemma mark_session_threads [simp]: "rn_threads (mark_session k state reason c r) = rn_threads r"
  by (simp add: mark_session_def publish_to_def with_store_def Let_def split: option.split)

lemma deadline_to_end:
  assumes s: "single r" and u: "u \<in> set (rn_runs r)" "ru_phase u = Running n st v"
    and w: "partial_run (ru_key u) (rn_world r) w"
    and x: "get_session (ru_key u) (w_store w) = Some x" "ss_session_key x = ru_key u"
  shows "\<exists>r'. (runner_step svc ^^ 3) r r'
    \<and> get_session (ru_key u) (w_store (rn_world r')) = Some (x\<lparr>ss_fsm_state := FAILED\<rparr>)
    \<and> w_streams (rn_world r') (ru_key u) = w_streams w (ru_key u)
        @ [FailedEvent WALL_CLOCK wall_clock_reason None (length (ss_iterations x)) (generations_spent x) (cost_spent x)]
    \<and> rn_telemetry r' = rn_telemetry r
        @ [session_terminal (x\<lparr>ss_fsm_state := FAILED\<rparr>) (Some wall_clock_reason) (Some ''wall_clock'')]
    \<and> locks_of r' (run_lock_key (ru_key u)) = None
    \<and> (\<forall>y\<in>set (rn_runs r'). ru_token y \<noteq> ru_token u)
    \<and> rn_threads r' (ru_key u) = Some \<lparr>th_state = st, th_next = Some n\<rparr>"
proof -
  let ?q = "stop_at_deadline u w r" and ?u = "u\<lparr>ru_phase := Leaving Out_Of_Time\<rparr>"
  let ?m = "set_phase (ru_token u) (Narrating Out_Of_Time) (release_run (ru_key u) (ru_token u) ?q)"
  have q: "?q = set_phase (ru_token u) (Leaving Out_Of_Time) (save_thread (ru_key u) st (Some n) (r\<lparr>rn_world := w\<rparr>))"
    using u(2) by (simp add: stop_at_deadline_def)
  have world: "rn_world ?q = w" "rn_telemetry ?q = rn_telemetry r" by (simp_all add: q save_thread_def)
  have "?u \<in> set (rn_runs ?q)" using u(1) by (auto simp: q run_effects)
  from ending_plays_out [OF this, of Out_Of_Time svc] have "(runner_step svc ^^ 2) ?q (told ?u Out_Of_Time ?q)" by simp
  with step_deadline [OF u(1) w, of svc] have steps: "(runner_step svc ^^ 3) r (told ?u Out_Of_Time ?q)"
    by (auto simp: numeral_3_eq_3 numeral_2_eq_2 relcompp_apply)
  have held: "locks_of r (run_lock_key (ru_key u)) = Some (ru_token u)" using single_held [OF s u(1)] u(2) by simp
  have "get_session (ru_key u) (w_store (rn_world ?m)) = Some x" using x(1) world by simp
  from mark_session_told [OF this x(2), of FAILED wall_clock_reason WALL_CLOCK] steps held show ?thesis
    by (intro exI [of _ "told ?u Out_Of_Time ?q"])
      (simp add: told_def world run_effects partial_locks [OF w] q, simp add: save_thread_def)
qed

text \<open>Telemetry cannot tell two people apart: the record is the same whoever was photographed.\<close>

lemma telemetry_deidentified:
  "session_terminal (s\<lparr>ss_session_key := a, ss_face_key := b, ss_brief_analysis := c\<rparr>) reason ucode
     = session_terminal s reason ucode"
  by (simp add: session_terminal_def token_totals_def generations_spent_def cost_spent_def)

section \<open>Limits of \<open>cancel\<close>\<close>

lemma cancel_unguarded_leaks:
  assumes s: "single r" and f: "find_task i k r = Some u" and u: "\<not> guarded (ru_phase u)" "ru_key u = k"
  shows "locks_of (cancel_run i k w r) (run_lock_key k) = Some (ru_token u)
    \<and> (\<forall>v\<in>set (rn_runs (cancel_run i k w r)). ru_token v \<noteq> ru_token u)"
  using single_held [OF s find_task_in [OF f]] u
  by (cases "ru_phase u") (auto simp: cancel_run_def f mark_session_effects stop_task_def run_effects)

lemma cancel_elsewhere:
  assumes "find_task i k r = None"
  shows "rn_runs (cancel_run i k w r) = rn_runs r \<and> locks_of (cancel_run i k w r) = locks_of r"
  using assms by (simp add: cancel_run_def mark_session_effects)

lemma cancel_told:
  assumes "find_task i k r = Some u" and "ru_phase u = Running n st v" and "ru_key u = k"
    and "get_session k (w_store w) = Some x" and "ss_session_key x = k"
  shows "get_session k (w_store (rn_world (cancel_run i k w r))) = Some (x\<lparr>ss_fsm_state := CANCELLED\<rparr>)
    \<and> w_streams (rn_world (cancel_run i k w r)) k = w_streams w k
        @ [FailedEvent CODE_CANCELLED cancelled_reason None (length (ss_iterations x)) (generations_spent x) (cost_spent x)]
    \<and> rn_telemetry (cancel_run i k w r) = rn_telemetry r
        @ [session_terminal (x\<lparr>ss_fsm_state := CANCELLED\<rparr>) (Some cancelled_reason) (Some ''cancelled'')]"
proof -
  let ?q = "stop_task u w r"
  have q: "get_session k (w_store (rn_world ?q)) = Some x" "w_streams (rn_world ?q) = w_streams w"
    "rn_telemetry ?q = rn_telemetry r"
    using assms(2-4) by (simp_all add: stop_task_def) (simp_all add: save_thread_def)
  from mark_session_told [OF q(1) assms(5), of CANCELLED cancelled_reason CODE_CANCELLED] q(2,3) assms(1) show ?thesis
    by (simp add: cancel_run_def)
qed

lemma cancel_stops:
  assumes s: "single r" and f: "find_task i k r = Some u" and u: "ru_phase u = Running n st v" "ru_key u = k"
    and w: "partial_run k (rn_world r) w"
  shows "locks_of (cancel_run i k w r) (run_lock_key k) = None
    \<and> (\<forall>x\<in>set (rn_runs (cancel_run i k w r)). ru_key x = k \<longrightarrow> \<not> holds_lock (ru_phase x))"
proof -
  have held: "locks_of r (run_lock_key k) = Some (ru_token u)"
    using single_held [OF s find_task_in [OF f]] u by simp
  moreover have "ru_token x = ru_token u"
    if "x \<in> set (rn_runs r)" "ru_key x = k" "holds_lock (ru_phase x)" for x
    using single_held [OF s that(1,3)] that(2) held by simp
  ultimately show ?thesis
    using partial_locks [OF w]
    by (auto simp: cancel_run_def f mark_session_effects stop_task_def u run_effects)
qed

end
