(* ===== verification/Graph_Session.thy ===== *)
theory Graph_Session
  imports Graph_Laws
begin

text \<open>
  Whole runs of the session graph: what reaches the image provider and when, how the stream of a
  run closes, how many questions a session can ask.
\<close>

section \<open>The two terminal nodes\<close>

text \<open>The routing keys only ever hold wire values, so the \<open>fail\<close> node can read them back.\<close>

definition wire_reason :: "string option \<Rightarrow> bool" where
  "wire_reason r \<longleftrightarrow> r = None \<or> (\<exists>g. r = Some (gate_reason_value g))"

definition state_ok :: "graph_state \<Rightarrow> bool" where
  "state_ok st \<longleftrightarrow>
     wire_reason (gs_gate_reason st)
     \<and> (\<forall>f. gs_failure st = Some f \<longrightarrow>
          (\<exists>c. fl_code f = failure_code_value c) \<and> wire_reason (fl_gate_reason f) \<and> fl_reason f \<noteq> [])"

lemma state_ok_initial: "state_ok (initial_state k f b l)"
  by (simp add: state_ok_def initial_state_def wire_reason_def)

lemma state_ok_updates [simp]:
  "state_ok (st\<lparr>gs_use_case := a\<rparr>) = state_ok st" "state_ok (st\<lparr>gs_answer := b\<rparr>) = state_ok st"
  "state_ok (st\<lparr>gs_slots := d\<rparr>) = state_ok st" "state_ok (st\<lparr>gs_delivered := c\<rparr>) = state_ok st"
  "state_ok (st\<lparr>gs_reasks := e, gs_reask_reason := b\<rparr>) = state_ok st"
  "state_ok (st\<lparr>gs_preset_id := b, gs_slots := d, gs_addendum := b', gs_reask_reason := b''\<rparr>) = state_ok st"
  by (simp_all add: state_ok_def)

lemma state_ok_fail:
  "state_ok st \<Longrightarrow> wire_reason g \<Longrightarrow> r \<noteq> [] \<Longrightarrow> state_ok (fail_with r g c st)"
  by (auto simp: state_ok_def fail_with_def)

lemma analyze_goes_reason:
  "analyze svc st w = (Inr (Goes st'), w') \<Longrightarrow> \<exists>v g i.
     st' = st\<lparr>gs_gate_verdict := Some v, gs_gate_reason := Some (gate_reason_value g), gs_has_identity := Some i\<rparr>"
  by (auto simp: analyze_def obind_Inr Let_def)

lemma run_node_ok:
  assumes "run_node svc n st v w = (Inr (Goes st'), w')" and "state_ok st"
  shows "state_ok st'"
proof (cases n)
  case Analyze
  with assms analyze_goes_reason [of svc st w st' w'] show ?thesis
    by (auto simp: state_ok_def wire_reason_def)
next
  case Quality_Gate
  with assms have "st' = st \<or> st' = fail_with ''input photo cannot anchor the identity''
      (gs_gate_reason st) INPUT_REJECTED st"
    using quality_gate_goes by simp
  with assms(2) show ?thesis by (auto intro!: state_ok_fail) (simp add: state_ok_def)
qed (use assms in \<open>auto dest!: goes_rules intro!: state_ok_fail simp: wire_reason_def\<close>)

lemma wire_reason_parse:
  "wire_reason r \<Longrightarrow> \<exists>g. (case truthy_text r of None \<Rightarrow> Inr None
     | Some raw \<Rightarrow> bind_res (parse_gate_reason raw) (\<lambda>g. Inr (Some g))) = Inr g"
  by (auto simp: wire_reason_def truthy_text_def)

lemma fail_event_total:
  assumes "state_ok st"
  shows "\<exists>c r g. fail_event (gs_failure st) s =
    Inr (FailedEvent c r g (case s of None \<Rightarrow> 0 | Some s \<Rightarrow> length (ss_iterations s))
           (case s of None \<Rightarrow> 0 | Some s \<Rightarrow> generations_spent s) (case s of None \<Rightarrow> 0 | Some s \<Rightarrow> cost_spent s))"
proof (cases "gs_failure st")
  case None
  then show ?thesis by (auto simp: fail_event_def truthy_text_def)
next
  case (Some f)
  with assms obtain c where c: "fl_code f = failure_code_value c" and g: "wire_reason (fl_gate_reason f)"
    by (auto simp: state_ok_def)
  have "failure_code_value c \<noteq> []" by (cases c) simp_all
  with Some c wire_reason_parse [OF g] show ?thesis by (auto simp: fail_event_def truthy_text_def)
qed

text \<open>The failure a run ends with, spelled out.\<close>

lemma fail_event_of:
  assumes "gs_failure st = Some \<lparr>fl_reason = r, fl_gate_reason = g, fl_code = failure_code_value c\<rparr>"
    and "r \<noteq> []" and "g = map_option gate_reason_value gr"
  shows "fail_event (gs_failure st) s =
    Inr (FailedEvent c r gr (case s of None \<Rightarrow> 0 | Some s \<Rightarrow> length (ss_iterations s))
           (case s of None \<Rightarrow> 0 | Some s \<Rightarrow> generations_spent s) (case s of None \<Rightarrow> 0 | Some s \<Rightarrow> cost_spent s))"
proof -
  have "failure_code_value c \<noteq> []" by (cases c) simp_all
  moreover have "gate_reason_value y \<noteq> []" for y by (cases y) simp_all
  ultimately show ?thesis
    using assms by (cases gr) (auto simp: fail_event_def truthy_text_def)
qed

lemma fail_node_run:
  assumes "fail_event (gs_failure st) (map_option (\<lambda>s. s\<lparr>ss_fsm_state := FAILED\<rparr>)
      (get_session (gs_session_key st) (w_store w))) = Inr e"
  shows "fail_node st w = (Inr (Goes st),
     w\<lparr>w_store := (case get_session (gs_session_key st) (w_store w) of
                     None \<Rightarrow> w_store w | Some s \<Rightarrow> put_session (s\<lparr>ss_fsm_state := FAILED\<rparr>) (w_store w)),
       w_streams := (w_streams w)(gs_session_key st := w_streams w (gs_session_key st) @ [e])\<rparr>)"
  using assms
  by (simp add: fail_node_def obind_def op_get_session_def op_put_session_def publish_def Let_def
      split: option.splits)

definition closed_by :: "string \<Rightarrow> event \<Rightarrow> world \<Rightarrow> world \<Rightarrow> bool" where
  \<comment> \<open>the stream of \<open>k\<close> grew, \<open>e\<close> is its last event and the only \<open>done\<close> or \<open>failed\<close> of the growth\<close>
  "closed_by k e w w' \<longleftrightarrow>
     event_type e \<in> {''done'', ''failed''}
     \<and> (\<exists>es. w_streams w' k = w_streams w k @ es @ [e]
          \<and> (\<forall>x\<in>set es. event_type x \<notin> {''done'', ''failed''}))"

lemma ends_stream_type: "\<not> ends_stream e \<Longrightarrow> event_type e \<notin> {''done'', ''failed''}"
  by (cases e) simp_all

lemma steady_stream:
  assumes "steady k w w'"
  obtains es where "w_streams w' k = w_streams w k @ es"
    "\<forall>x\<in>set es. event_type x \<notin> {''done'', ''failed''}"
proof -
  from assms obtain es where es: "w_streams w' k = w_streams w k @ es" "\<forall>x\<in>set es. \<not> ends_stream x"
    by (auto simp: steady_def extends_def narrates_def)
  show thesis by (rule that [OF es(1)]) (use es(2) ends_stream_type in blast)
qed

lemma closed_after:
  assumes "steady k w w1" "closed_by k e w1 w'"
  shows "closed_by k e w w'"
proof -
  from assms(1) obtain es where es: "w_streams w1 k = w_streams w k @ es"
    "\<forall>x\<in>set es. event_type x \<notin> {''done'', ''failed''}" by (rule steady_stream)
  from assms(2) obtain fs where fs: "event_type e \<in> {''done'', ''failed''}"
    "w_streams w' k = w_streams w1 k @ fs @ [e]" "\<forall>x\<in>set fs. event_type x \<notin> {''done'', ''failed''}"
    by (auto simp: closed_by_def)
  have "w_streams w' k = w_streams w k @ (es @ fs) @ [e]" using es(1) fs(2) by simp
  moreover have "\<forall>x\<in>set (es @ fs). event_type x \<notin> {''done'', ''failed''}" using es(2) fs(3) by auto
  ultimately show ?thesis using fs(1) unfolding closed_by_def by blast
qed

lemma fail_node_closes:
  assumes ok: "state_ok st" and key: "gs_session_key st = k" and ky: "keyed w"
    and run: "fail_node st w = (r, w')"
  shows "r = Inr (Goes st) \<and> keyed w' \<and> w_gen_log w' = w_gen_log w
    \<and> (\<exists>e. closed_by k e w w' \<and> event_type e = ''failed'')
    \<and> get_session k (w_store w') = map_option (\<lambda>s. s\<lparr>ss_fsm_state := FAILED\<rparr>) (get_session k (w_store w))"
proof -
  obtain c r0 g n m d where e: "fail_event (gs_failure st) (map_option (\<lambda>s. s\<lparr>ss_fsm_state := FAILED\<rparr>)
      (get_session (gs_session_key st) (w_store w))) = Inr (FailedEvent c r0 g n m d)" (is "_ = Inr ?e")
    using fail_event_total [OF ok] by blast
  note out = fail_node_run [OF e, unfolded key]
  have k: "ss_session_key s = k" if "get_session k (w_store w) = Some s" for s
    using ky that by (simp add: keyed_def)
  have "closed_by k ?e w w'" using run out by (auto simp: closed_by_def intro!: exI [of _ "[]"])
  moreover have "keyed w'"
    using run out ky k by (auto split: option.splits intro: keyed_put)
  ultimately show ?thesis using run out k by (auto split: option.splits intro!: exI [of _ ?e])
qed

lemma done_node_closes:
  assumes key: "gs_session_key st = k" and run: "done_node st w = (r, w')"
  shows "\<exists>a b. r = Inr (Goes st) \<and> w_gen_log w' = w_gen_log w \<and> w_store w' = w_store w
    \<and> w_streams w' k = w_streams w k @ [DoneEvent a b]"
  using run key by (auto simp: done_node_def obind_def op_get_session_def publish_def Let_def)

section \<open>How the stream of a run closes\<close>

definition codec_ok :: "'i services \<Rightarrow> bool" where
  \<comment> \<open>terminal events survive their serialisation into the idempotency record\<close>
  "codec_ok svc \<longleftrightarrow> (\<forall>e. is_terminal e \<longrightarrow> le_load (sv_loop svc) (le_dump (sv_loop svc) e) = Inr e)"

definition ungenerated :: "string \<Rightarrow> world \<Rightarrow> bool" where
  "ungenerated k w \<longleftrightarrow> w_idem_get (generation_idem_key k) w = None"

lemma steady_ungenerated: "steady k w w' \<Longrightarrow> ungenerated j w' = ungenerated j w"
  by (simp add: steady_def extends_def ungenerated_def w_idem_get_def)

lemma edge_cases:
  "edge n st = Some n' \<Longrightarrow> n \<noteq> Generate \<Longrightarrow> n \<notin> {Done_Node, Fail_Node} \<and> n' \<noteq> Done_Node"
  "edge Generate st = Some n' \<Longrightarrow> n' = Done_Node \<and> gs_delivered st = Some True"
  "edge n st = None \<Longrightarrow> n \<in> {Generate, Done_Node, Fail_Node}"
  by (cases n; auto simp: route_failure_def route_resolve_def route_generate_def split: if_splits)+

lemma is_result_type: "is_result e \<longleftrightarrow> event_type e = ''result''"
  by (cases e) simp_all

definition approves :: "resume_value option \<Rightarrow> bool" where
  "approves v \<longleftrightarrow> (case v of None \<Rightarrow> False | Some d \<Rightarrow> fst (parse_decision d))"

context graph_ports
begin

lemma generate_node:
  assumes ky: "keyed w" and key: "gs_session_key st = k" and fresh: "ungenerated k w" and codec: "codec_ok svc"
    and run: "generate svc st w = (Inr (Goes st'), w')"
  shows "keyed w' \<and> (\<exists>es e. w_streams w' k = w_streams w k @ es @ [e]
      \<and> (\<forall>x\<in>set es. event_type x \<notin> {''done'', ''failed''}) \<and> is_terminal e
      \<and> gs_delivered st' = Some (is_result e))"
proof -
  let ?w1 = "w\<lparr>w_streams := (w_streams w)(k := w_streams w k @ [StageEvent GENERATING])\<rparr>"
  have find: "storage_find r v = (x, v') \<Longrightarrow> v' = v" for r v x v'
    by (auto simp: storage_find_def storage_get_def split: option.splits)
  have res: "node_resolve svc st v = (x, v') \<Longrightarrow> v' = v" for v x v'
    by (auto simp: node_resolve_def split: option.splits)
  from run key obtain crop p e a where
    l: "loop_run (sv_loop svc) k p (generation_idem_key k) crop a ?w1 = (Inr e, w')"
    and st': "st' = st\<lparr>gs_delivered := Some (is_result e)\<rparr>"
    by (auto simp: generate_def Let_def obind_Inr publish_def dest!: find res)
  have ky1: "keyed ?w1" using ky by simp
  have none: "w_idem_get (generation_idem_key k) ?w1 = None"
    using fresh by (simp add: ungenerated_def w_idem_get_def)
  obtain s f t s' v h ref b where post: "w' = snd (w_idem_put (generation_idem_key k) (le_dump (sv_loop svc) e) v)"
    "run_post h t k crop ref b s ?w1 e s' v"
    using loop_run_fresh [OF ky1 none _ l] codec unfolding codec_ok_def by blast
  from post(2) obtain es where es: "w_streams v k = w_streams ?w1 k @ es @ [e]" "\<forall>x\<in>set es. \<not> ends_stream x"
    and rep: "reports e s'" and ap: "apart k ?w1 v" and s': "get_session k (w_store v) = Some s'" "ss_session_key s' = k"
    by (auto simp: run_post_def)
  have "keyed v" by (rule apart_keyed [OF ap ky1 s'])
  then have "keyed w'" by (simp add: post(1))
  moreover have "w_streams w' k = w_streams w k @ (StageEvent GENERATING # es) @ [e]"
    using es(1) by (simp add: post(1))
  moreover have "\<forall>x\<in>set (StageEvent GENERATING # es). event_type x \<notin> {''done'', ''failed''}"
    using es(2) ends_stream_type by auto
  ultimately show ?thesis using reports_terminal [OF rep] st'
    by (intro conjI exI [of _ "StageEvent GENERATING # es"] exI [of _ e]) simp_all
qed

lemma normal_node:
  assumes "held k w w" "gs_session_key st = k" "n \<notin> {Generate, Done_Node, Fail_Node}"
    and "run_node svc n st v w = (x, w')"
  shows "keyed w' \<and> steady k w w'"
  using keepsD [OF node_keeps [OF assms(2,3)] assms(1,4)] by (simp add: held_def)

lemma run_closes:
  assumes "graph_run svc n st v w = (res, w')" and "keyed w" and "state_ok st" and "gs_session_key st = k"
    and "ungenerated k w" and "codec_ok svc" and "n \<noteq> Done_Node"
  shows "(\<forall>st'. res = Finished st' \<longrightarrow> keyed w' \<and> (\<exists>e. closed_by k e w w'))
    \<and> (\<forall>n' st' q. res = Paused n' st' q \<longrightarrow> keyed w' \<and> steady k w w')"
  using assms
proof (induction rule: graph_run_induct)
  case (crash n st v w e w')
  then show ?case by simp
next
  case (pause n st v w q w')
  then have "n \<notin> {Generate, Done_Node, Fail_Node}"
    by (auto simp: generate_def done_node_def fail_node_def Let_def obind_Inr)
  from normal_node [OF _ pause(4) this pause(1)] pause(2) show ?case by (simp add: held_def)
next
  case (finish n st v w st' w')
  from edge_cases(3) [OF finish(2)] finish(8) have "n = Generate \<or> n = Fail_Node" by auto
  then show ?case
  proof
    assume n: "n = Generate"
    with finish have g: "generate svc st w = (Inr (Goes st'), w')" by simp
    from generate_node [OF finish(3,5,6,7) g] obtain es e where e: "keyed w'"
      "w_streams w' k = w_streams w k @ es @ [e]" "\<forall>x\<in>set es. event_type x \<notin> {''done'', ''failed''}"
      "is_terminal e" "gs_delivered st' = Some (is_result e)" by blast
    have "\<not> is_result e" using finish(2) e(5) n by (auto simp: route_generate_def split: if_splits)
    with e(4) have "event_type e = ''failed''" by (cases e) simp_all
    with e show ?thesis by (auto simp: closed_by_def)
  next
    assume "n = Fail_Node"
    with finish fail_node_closes [OF finish(4,5,3)] show ?thesis by fastforce
  qed
next
  case (go n st v w st' w1 n' res w')
  have ok: "state_ok st'" and key: "gs_session_key st' = k"
    using run_node_ok [OF go(1,6)] run_node_input [OF go(1)] go(7) by (simp_all add: graph_input_def)
  show ?case
  proof (cases "n = Generate")
    case True
    with go have g: "generate svc st w = (Inr (Goes st'), w1)" by simp
    from generate_node [OF go(5,7,8,9) g] obtain es e where e: "keyed w1"
      "w_streams w1 k = w_streams w k @ es @ [e]" "\<forall>x\<in>set es. event_type x \<notin> {''done'', ''failed''}"
      "is_terminal e" "gs_delivered st' = Some (is_result e)" by blast
    from edge_cases(2) go(2) True have n': "n' = Done_Node" and del: "gs_delivered st' = Some True" by auto
    obtain r w2 where d: "done_node st' w1 = (r, w2)" by fastforce
    from done_node_closes [OF key d] obtain a b where dn: "r = Inr (Goes st')" "w_store w2 = w_store w1"
      "w_streams w2 k = w_streams w1 k @ [DoneEvent a b]" by blast
    have "graph_run svc n' st' None w1 = (Finished st', w2)"
      using d dn(1) n' by (simp add: graph_run.simps)
    with go(3) have out: "res = Finished st'" "w' = w2" by simp_all
    have "event_type e = ''result''" using e(5) del by (simp add: is_result_type)
    then have "closed_by k (DoneEvent a b) w w2"
      using dn(3) e(2,3) by (auto simp: closed_by_def intro!: exI [of _ "es @ [e]"])
    moreover have "keyed w2" using e(1) dn(2) by (simp add: keyed_def)
    ultimately show ?thesis using out by auto
  next
    case False
    with edge_cases(1) [OF go(2)] have n: "n \<notin> {Generate, Done_Node, Fail_Node}" "n' \<noteq> Done_Node" by auto
    from normal_node [OF _ go(7) n(1) go(1)] go(5) have st: "keyed w1" "steady k w w1"
      by (simp_all add: held_def)
    have "ungenerated k w1" using steady_ungenerated [OF st(2)] go(8) by simp
    from go(4) [OF st(1) ok key this go(9) n(2)] show ?thesis
      using closed_after [OF st(2)] steady_trans [OF st(2)] by blast
  qed
qed

text \<open>Without the user's approval no request goes out.\<close>

lemma node_no_request:
  assumes "run_node svc n st v w = (x, w')" and "keyed w" and "state_ok st" and "gs_session_key st = k"
    and "n \<noteq> Generate"
  shows "w_gen_log w' = w_gen_log w"
proof (cases "n \<in> {Done_Node, Fail_Node}")
  case True
  with assms fail_node_closes [OF assms(3,4,2)] done_node_closes [OF assms(4)] show ?thesis by fastforce
next
  case False
  with normal_node [OF _ assms(4) _ assms(1)] assms(2,5) show ?thesis by (simp add: held_def steady_def)
qed

lemma node_keeps_keyed:
  assumes "run_node svc n st v w = (x, w')" and "keyed w" and "state_ok st" and "gs_session_key st = k"
    and "n \<noteq> Generate"
  shows "keyed w'"
proof (cases "n \<in> {Done_Node, Fail_Node}")
  case True
  with assms fail_node_closes [OF assms(3,4,2)] done_node_closes [OF assms(4)] show ?thesis
    by (auto simp: keyed_def)
next
  case False
  with normal_node [OF _ assms(4) _ assms(1)] assms(2,5) show ?thesis by (simp add: held_def)
qed

text \<open>Nor does such a run stop in front of \<open>generate\<close>.\<close>

lemma unapproved_run:
  assumes "graph_run svc n st v w = (res, w')" and "keyed w" and "state_ok st" and "gs_session_key st = k"
    and "n \<noteq> Generate" and "\<not> (n = Approve \<and> approves v)"
  shows "w_gen_log w' = w_gen_log w \<and> keyed w' \<and> snd (checkpoint_of res) \<noteq> Some Generate"
  using assms
proof (induction rule: graph_run_induct)
  case (go n st v w st' w1 n' res w')
  have ok: "state_ok st'" and key: "gs_session_key st' = k"
    using run_node_ok [OF go(1,6)] run_node_input [OF go(1)] go(7) by (simp_all add: graph_input_def)
  from edge_cases(1) [OF go(2,8)] have n: "n \<notin> {Generate, Done_Node, Fail_Node}" using go(8) by auto
  from normal_node [OF _ go(7) n go(1)] go(5) have st: "keyed w1" "steady k w w1"
    by (simp_all add: held_def)
  have "n' \<noteq> Generate"
  proof (cases "n = Approve")
    case True
    with go(9) have "\<not> approves v" by simp
    with go(1) True have "gs_failure st' \<noteq> None"
      by (auto simp: approve_def approves_def split: option.splits prod.splits)
    with go(2) True show ?thesis by (auto simp: route_failure_def)
  next
    case False
    with go(2) n show ?thesis
      by (cases n) (auto simp: route_failure_def route_resolve_def split: if_splits)
  qed
  from go(4) [OF st(1) ok key this] have "w_gen_log w' = w_gen_log w1 \<and> keyed w'
    \<and> snd (checkpoint_of res) \<noteq> Some Generate" by (simp add: approves_def)
  with st(2) show ?case by (simp add: steady_def)
qed (simp_all add: node_no_request node_keeps_keyed)

text \<open>The checkpoint a run leaves belongs to its session.\<close>

lemma run_checkpoint:
  assumes "graph_run svc n st v w = (res, w')" and "state_ok st" and "gs_session_key st = k"
  shows "state_ok (fst (checkpoint_of res)) \<and> gs_session_key (fst (checkpoint_of res)) = k"
  using assms
proof (induction rule: graph_run_induct)
  case (finish n st v w st' w')
  from run_node_ok [OF finish(1,3)] run_node_input [OF finish(1)] finish(4) show ?case by (simp add: graph_input_def)
next
  case (go n st v w st' w1 n' res w')
  from run_node_ok [OF go(1,5)] run_node_input [OF go(1)] go(4,6) show ?case by (simp add: graph_input_def)
qed simp_all

text \<open>A run that stops or crashes before \<open>generate\<close> has told nothing final.\<close>

lemma generate_crashes:
  assumes "graph_run svc Generate st v w = (res, w')"
  shows "is_paused res \<or> is_crashed res \<Longrightarrow> snd (checkpoint_of res) = Some Generate"
  using assms
proof (cases rule: graph_run_cases)
  case (go st' n' w1)
  from edge_cases(2) [OF go(2)] have n': "n' = Done_Node" by simp
  obtain r w2 where d: "done_node st' w1 = (r, w2)" by fastforce
  from done_node_closes [OF refl d] have "r = Inr (Goes st')" by blast
  with go(3) n' d have "res = Finished st'" by (simp add: graph_run.simps)
  then show "is_paused res \<or> is_crashed res \<Longrightarrow> snd (checkpoint_of res) = Some Generate" by simp
qed simp_all

lemma run_before_generate:
  assumes "graph_run svc n st v w = (res, w')" and "is_paused res \<or> is_crashed res"
    and "snd (checkpoint_of res) \<noteq> Some Generate" and "keyed w" and "state_ok st" and "gs_session_key st = k"
    and "n \<noteq> Done_Node"
  shows "keyed w' \<and> steady k w w' \<and> snd (checkpoint_of res) \<noteq> Some Done_Node"
  using assms
proof (induction rule: graph_run_induct)
  case (crash n st v w e w')
  have "n \<noteq> Fail_Node" using crash(1) fail_node_closes [OF crash(5,6,4), of "Inl e" w'] by auto
  with crash(3,7) have "n \<notin> {Generate, Done_Node, Fail_Node}" by auto
  from normal_node [OF _ crash(6) this crash(1)] crash(4,7) show ?case by (simp add: held_def)
next
  case (pause n st v w q w')
  then have "n \<notin> {Generate, Done_Node, Fail_Node}"
    by (auto simp: generate_def done_node_def fail_node_def Let_def obind_Inr)
  from normal_node [OF _ pause(6) this pause(1)] pause(4) this show ?case by (auto simp: held_def)
next
  case (go n st v w st' w1 n' res w')
  have ok: "state_ok st'" and key: "gs_session_key st' = k"
    using run_node_ok [OF go(1,8)] run_node_input [OF go(1)] go(9) by (simp_all add: graph_input_def)
  have "n' \<noteq> Generate" using generate_crashes [of st' None w1 res w'] go(3,5,6) by auto
  have "n \<noteq> Generate"
  proof
    assume "n = Generate"
    with go(1-3) have "graph_run svc Generate st v w = (res, w')" by (simp add: graph_run.simps [of svc Generate])
    from generate_crashes [OF this go(5)] go(6) show False by simp
  qed
  with edge_cases(1) [OF go(2)] have n: "n \<notin> {Generate, Done_Node, Fail_Node}" "n' \<noteq> Done_Node" by auto
  from normal_node [OF _ go(9) n(1) go(1)] go(7) have st: "keyed w1" "steady k w w1" by (simp_all add: held_def)
  from go(4) [OF go(5,6) st(1) ok key n(2)] show ?case using steady_trans [OF st(2)] by blast
qed simp

end

end
