(* ===== verification/Event_Bus.thy ===== *)
theory Event_Bus
  imports Graph_Session
begin

text \<open>
  The event bus (\<open>protocols/event_bus.py\<close>): its in-memory form in \<open>connectors/memory_store.py\<close>, the
  Redis Streams form in \<open>connectors/redis_event_bus.py\<close>, and the relay of \<open>api/sse.py\<close>.

  \<open>tail\<close> never ends, so what a consumer has seen is what it yields on the stream as it is so far.
  The contract is the locale \<open>event_bus\<close>: ids are distinct, an append goes to the end, a tail from an
  id is exactly what follows that entry. It is interpreted on both back ends.

  Redis assigns entry ids \<open>ms-seq\<close> in increasing order, trims a stream only at its head and never below
  the cap it is given, and drops a stream whose time to live is over (documented behaviour of \<open>XADD\<close> with
  \<open>MAXLEN\<close> and of \<open>EXPIRE\<close>); \<open>XREAD\<close> returns the entries after an id. The entries one \<open>XADD\<close> trims and
  the time of every command are arguments.
\<close>

section \<open>The contract\<close>

type_synonym 'i streamed = "'i \<times> event"   \<comment> \<open>\<open>StreamedEvent\<close>\<close>

locale event_bus =
  fixes ok :: "'s \<Rightarrow> bool"
    and entries :: "string \<Rightarrow> 's \<Rightarrow> 'i streamed list"
    and append_event :: "string \<Rightarrow> event \<Rightarrow> 's \<Rightarrow> 'i \<times> 's"
    and after :: "string \<Rightarrow> 'i option \<Rightarrow> 's \<Rightarrow> 'i streamed list"
  assumes ids_distinct: "ok s \<Longrightarrow> distinct (map fst (entries k s))"
    and append_ok: "ok s \<Longrightarrow> ok (snd (append_event k e s))"
    and append_entries: "ok s \<Longrightarrow> entries j (snd (append_event k e s)) =
          (if j = k then entries k s @ [(fst (append_event k e s), e)] else entries j s)"
    and after_none: "ok s \<Longrightarrow> after k None s = entries k s"
    and after_id: "ok s \<Longrightarrow> n < length (entries k s)
          \<Longrightarrow> after k (Some (fst (entries k s ! n))) s = drop (Suc n) (entries k s)"
begin

text \<open>A consumer that reconnects with the last id it saw gets the rest: no gap, no replay.\<close>

lemma reconnect:
  assumes "ok s" "after k None s = seen @ [(i, e)] @ rest"
  shows "after k (Some i) s = rest"
proof -
  have es: "entries k s = seen @ [(i, e)] @ rest" using assms after_none by simp
  then have "fst (entries k s ! length seen) = i" "length seen < length (entries k s)" by simp_all
  with after_id [OF assms(1) this(2)] es show ?thesis by simp
qed

text \<open>What is appended while the consumer is away comes after what it missed.\<close>

fun append_all :: "string \<Rightarrow> event list \<Rightarrow> 's \<Rightarrow> 'i streamed list \<times> 's" where
  "append_all k [] s = ([], s)"
| "append_all k (e # es) s =
     (case append_event k e s of (i, s1) \<Rightarrow> case append_all k es s1 of (xs, s2) \<Rightarrow> ((i, e) # xs, s2))"

lemma append_all_spec:
  "ok s \<Longrightarrow> ok (snd (append_all k es s)) \<and> map snd (fst (append_all k es s)) = es
     \<and> entries k (snd (append_all k es s)) = entries k s @ fst (append_all k es s)"
proof (induction es arbitrary: s)
  case (Cons e es)
  obtain i s1 where a: "append_event k e s = (i, s1)" by fastforce
  from append_ok [OF Cons.prems, of k e] append_entries [OF Cons.prems, of k k e] a
  have "ok s1" "entries k s1 = entries k s @ [(i, e)]" by simp_all
  with Cons.IH [OF this(1)] a show ?case by (auto split: prod.split)
qed simp

lemma reconnect_all:
  assumes "ok s" "after k None s = seen @ [(i, e)] @ rest"
  shows "after k (Some i) (snd (append_all k es s)) = rest @ fst (append_all k es s)"
  using assms append_all_spec [OF assms(1), of k es]
  by (intro reconnect [where seen = seen and e = e]) (simp_all add: after_none)

end

section \<open>In memory (\<open>InMemoryEventBus\<close>)\<close>

type_synonym bus = "string \<Rightarrow> event list"   \<comment> \<open>\<open>_streams\<close>; the streams of the world\<close>

definition bus_publish :: "string \<Rightarrow> event \<Rightarrow> bus \<Rightarrow> nat \<times> bus" where
  "bus_publish k e b = (length (b k) + 1, b(k := b k @ [e]))"

definition with_ids :: "event list \<Rightarrow> nat streamed list" where
  "with_ids es = zip (map Suc [0..<length es]) es"

text \<open>\<open>str.isdigit\<close> on a header (Latin-1 text) also accepts the superscripts one, two and three, which
\<open>int\<close> rejects. Text is its UTF-8 bytes here.\<close>

fun latin_digits :: "string \<Rightarrow> bool" where
  "latin_digits [] = True"
| "latin_digits [c] = is_digit c"
| "latin_digits (c # d # cs) =
     (if is_digit c then latin_digits (d # cs)
      else of_char c = (194 :: nat) \<and> of_char d \<in> {178, 179, 185 :: nat} \<and> latin_digits cs)"

definition bus_cursor :: "string option \<Rightarrow> nat result" where
  \<comment> \<open>\<open>int(last_id) if last_id is not None and last_id.isdigit() else 0\<close>\<close>
  "bus_cursor last_id =
     (case last_id of
        None \<Rightarrow> Inr 0
      | Some s \<Rightarrow>
          if s \<noteq> [] \<and> latin_digits s
          then (case parse_nat s of
                  None \<Rightarrow> Inl (ValueError (''invalid literal for int() with base 10: '' @ py_repr s))
                | Some n \<Rightarrow> Inr n)
          else Inr 0)"

definition bus_tail :: "string \<Rightarrow> string option \<Rightarrow> bus \<Rightarrow> nat streamed list result" where
  \<comment> \<open>what \<open>tail\<close> yields on the stream as it is\<close>
  "bus_tail k last_id b = bind_res (bus_cursor last_id) (\<lambda>i. Inr (drop i (with_ids (b k))))"

definition bus_after :: "string \<Rightarrow> nat option \<Rightarrow> bus \<Rightarrow> nat streamed list" where
  "bus_after k i b = drop (case i of None \<Rightarrow> 0 | Some n \<Rightarrow> n) (with_ids (b k))"

fun tail_live :: "nat \<Rightarrow> event list list \<Rightarrow> nat streamed list" where
  \<comment> \<open>the generator itself: \<open>idx\<close> and the stream at each wake-up\<close>
  "tail_live idx [] = []"
| "tail_live idx (es # later) =
     (if length es \<le> idx then tail_live idx later
      else drop idx (with_ids es) @ tail_live (length es) later)"

lemma with_ids_length [simp]: "length (with_ids es) = length es"
  by (simp add: with_ids_def)

lemma with_ids_nth: "n < length es \<Longrightarrow> with_ids es ! n = (Suc n, es ! n)"
  by (simp add: with_ids_def)

lemma with_ids_append: "with_ids (xs @ ys) = with_ids xs @ zip (map Suc [length xs..<length xs + length ys]) ys"
  by (rule nth_equalityI) (simp_all add: with_ids_def nth_append)

lemma bus_tail_after: "bus_tail k (map_option show_nat i) b = Inr (bus_after k i b)"
proof -
  have digits: "list_all is_digit s \<Longrightarrow> latin_digits s" for s
    by (induction s rule: latin_digits.induct) simp_all
  show ?thesis
    by (cases i) (simp_all add: bus_tail_def bus_cursor_def bus_after_def digits show_nat_digits)
qed

interpretation memory_bus: event_bus "\<lambda>_. True" "\<lambda>k b. with_ids (b k)" bus_publish bus_after
proof
  show "bus_after k (Some (fst (with_ids (b k) ! n))) b = drop (Suc n) (with_ids (b k))"
    if "n < length (with_ids (b k))" for n b k
    using that by (simp add: bus_after_def with_ids_nth)
qed (auto simp: bus_publish_def bus_after_def with_ids_append, simp add: with_ids_def distinct_map)

fun bus_publish_all :: "string \<Rightarrow> event list \<Rightarrow> bus \<Rightarrow> nat streamed list \<times> bus" where
  "bus_publish_all k [] b = ([], b)"
| "bus_publish_all k (e # es) b =
     (case bus_publish k e b of (i, b1) \<Rightarrow> case bus_publish_all k es b1 of (xs, b2) \<Rightarrow> ((i, e) # xs, b2))"

lemma bus_publish_all_eq: "bus_publish_all k es b = memory_bus.append_all k es b"
  by (induction es arbitrary: b) (simp_all split: prod.split)

text \<open>Reading live, in any batches, gives what one read at the end gives.\<close>

lemma tail_live_once:
  assumes "sorted_wrt (\<lambda>a b. \<exists>c. b = a @ c) (snapshots @ [es])"
    and "i \<le> length es"
  shows "tail_live i (snapshots @ [es]) = drop i (with_ids es)"
  using assms
proof (induction snapshots arbitrary: i)
  case (Cons a rest)
  then obtain c where c: "es = a @ c" by auto
  show ?case
  proof (cases "length a \<le> i")
    case False
    then have "tail_live i ((a # rest) @ [es]) = drop i (with_ids a) @ drop (length a) (with_ids es)"
      using Cons c by simp
    also have "\<dots> = drop i (with_ids es)" using False by (simp add: c with_ids_append)
    finally show ?thesis .
  qed (use Cons in simp)
qed simp

section \<open>Redis Streams (\<open>RedisEventBus\<close>)\<close>

type_synonym stream_id = "nat \<times> nat"   \<comment> \<open>\<open>ms-seq\<close>\<close>

fun id_less :: "stream_id \<Rightarrow> stream_id \<Rightarrow> bool" where
  "id_less (a, b) (c, d) = (a < c \<or> a = c \<and> b < d)"

record redis_stream =
  xs_entries :: "stream_id streamed list"
  xs_last :: stream_id           \<comment> \<open>kept by Redis even when the entry is trimmed\<close>
  xs_expires :: "nat option"     \<comment> \<open>the instant, in milliseconds, at which the key is gone\<close>

definition no_stream :: redis_stream where
  "no_stream = \<lparr>xs_entries = [], xs_last = (0, 0), xs_expires = None\<rparr>"

definition stream_at :: "nat \<Rightarrow> redis_stream \<Rightarrow> redis_stream" where   \<comment> \<open>what a command at time \<open>ms\<close> finds\<close>
  "stream_at ms x =
     (case xs_expires x of None \<Rightarrow> x | Some t \<Rightarrow> if ms < t then x else no_stream)"

definition stream_key :: "string \<Rightarrow> string" where "stream_key session_key = ''events:'' @ session_key"

definition next_id :: "nat \<Rightarrow> stream_id \<Rightarrow> stream_id" where   \<comment> \<open>\<open>XADD *\<close> at time \<open>ms\<close>\<close>
  "next_id ms last_id = (if fst last_id < ms then (ms, 0) else (fst last_id, snd last_id + 1))"

definition xadd :: "nat \<Rightarrow> nat \<Rightarrow> event \<Rightarrow> redis_stream \<Rightarrow> stream_id \<times> redis_stream" where
  \<comment> \<open>\<open>trim\<close>: how many of the oldest entries the approximate cap drops\<close>
  "xadd ms trim e x =
     (let i = next_id ms (xs_last x)
      in (i, x\<lparr>xs_entries := drop trim (xs_entries x @ [(i, e)]), xs_last := i\<rparr>))"

definition may_trim :: "nat \<Rightarrow> nat \<Rightarrow> redis_stream \<Rightarrow> bool" where   \<comment> \<open>\<open>MAXLEN ~ maxlen\<close> on one more entry\<close>
  "may_trim maxlen trim x \<longleftrightarrow> trim \<le> Suc (length (xs_entries x)) - maxlen"

definition expire :: "nat \<Rightarrow> nat option \<Rightarrow> redis_stream \<Rightarrow> redis_stream" where   \<comment> \<open>\<open>EXPIRE\<close>, when there is a TTL\<close>
  "expire ms ttl x = (case ttl of None \<Rightarrow> x | Some seconds \<Rightarrow> x\<lparr>xs_expires := Some (ms + 1000 * seconds)\<rparr>)"

type_synonym redis_bus = "string \<Rightarrow> redis_stream"   \<comment> \<open>by stream key\<close>

definition redis_publish :: "nat option \<Rightarrow> nat \<Rightarrow> nat \<Rightarrow> string \<Rightarrow> event \<Rightarrow> redis_bus \<Rightarrow> stream_id \<times> redis_bus" where
  "redis_publish ttl ms trim k e b =
     (case xadd ms trim e (stream_at ms (b (stream_key k))) of
        (i, x) \<Rightarrow> (i, b(stream_key k := expire ms ttl x)))"

definition xread :: "stream_id \<Rightarrow> redis_stream \<Rightarrow> stream_id streamed list" where
  "xread cursor x = filter (\<lambda>(i, e). id_less cursor i) (xs_entries x)"

definition redis_tail :: "nat \<Rightarrow> string \<Rightarrow> stream_id option \<Rightarrow> redis_bus \<Rightarrow> stream_id streamed list" where
  \<comment> \<open>at time \<open>ms\<close>; \<open>cursor = last_id or "0"\<close>\<close>
  "redis_tail ms k last_id b =
     xread (case last_id of None \<Rightarrow> (0, 0) | Some i \<Rightarrow> i) (stream_at ms (b (stream_key k)))"

fun redis_live :: "stream_id \<Rightarrow> redis_stream list \<Rightarrow> stream_id streamed list" where
  \<comment> \<open>the generator: the cursor, and the stream at each \<open>XREAD\<close>\<close>
  "redis_live cursor [] = []"
| "redis_live cursor (x # later) =
     (let batch = xread cursor x
      in batch @ redis_live (if batch = [] then cursor else fst (last batch)) later)"

definition ids_ok :: "redis_stream \<Rightarrow> bool" where
  "ids_ok x \<longleftrightarrow> sorted_wrt id_less (map fst (xs_entries x))
     \<and> (\<forall>i\<in>set (map fst (xs_entries x)). id_less (0, 0) i \<and> (i = xs_last x \<or> id_less i (xs_last x)))"

lemma id_less_trans: "id_less a b \<Longrightarrow> id_less b c \<Longrightarrow> id_less a c"
  by (cases a; cases b; cases c) auto

lemma id_less_irrefl [simp]: "\<not> id_less a a"
  by (cases a) auto

lemma id_less_next [simp]: "id_less i (next_id ms i)"
  by (cases i) (auto simp: next_id_def)

lemma id_less_zero: "id_less (0, 0) (next_id ms i)"
  by (cases i) (auto simp: next_id_def)

lemma ids_ok_xadd: "ids_ok x \<Longrightarrow> ids_ok (snd (xadd ms trim e x))"
proof -
  assume ok: "ids_ok x"
  let ?i = "next_id ms (xs_last x)"
  have less: "id_less j ?i" if "j \<in> set (map fst (xs_entries x))" for j
  proof -
    from ok that have "j = xs_last x \<or> id_less j (xs_last x)" by (auto simp: ids_ok_def)
    with id_less_next [of "xs_last x" ms] id_less_trans [of j "xs_last x" ?i] show ?thesis by blast
  qed
  have "sorted_wrt id_less (map fst (xs_entries x @ [(?i, e)]))"
    using ok less by (auto simp: ids_ok_def sorted_wrt_append)
  then have "sorted_wrt id_less (drop trim (map fst (xs_entries x @ [(?i, e)])))"
    by (metis append_take_drop_id sorted_wrt_append)
  moreover have "id_less (0, 0) j \<and> (j = ?i \<or> id_less j ?i)"
    if "j \<in> set (drop trim (map fst (xs_entries x @ [(?i, e)])))" for j
  proof -
    from in_set_dropD [OF that] have "j = ?i \<or> j \<in> set (map fst (xs_entries x))" by auto
    then show ?thesis using ok less [of j] id_less_zero [of ms "xs_last x"] unfolding ids_ok_def by blast
  qed
  moreover have "map fst (xs_entries (snd (xadd ms trim e x))) = drop trim (map fst (xs_entries x @ [(?i, e)]))"
    and "xs_last (snd (xadd ms trim e x)) = ?i"
    by (simp_all add: xadd_def Let_def drop_map del: drop_append map_append)
  ultimately show ?thesis unfolding ids_ok_def by metis
qed

lemma filter_after:
  assumes "sorted_wrt id_less (map fst es)" "n < length es"
  shows "filter (\<lambda>(i, e). id_less (fst (es ! n)) i) es = drop (Suc n) es"
  using assms
proof (induction es arbitrary: n)
  case (Cons x es)
  obtain j e where x: "x = (j, e)" by (cases x)
  show ?case
  proof (cases n)
    case 0
    with Cons x show ?thesis by (auto simp: filter_id_conv)
  next
    case (Suc m)
    have "id_less j (fst (es ! m))" using Cons.prems x Suc by auto
    then have "\<not> id_less (fst (es ! m)) j" using id_less_trans id_less_irrefl by blast
    with Cons x Suc show ?thesis by simp
  qed
qed simp

lemma xread_all: "ids_ok x \<Longrightarrow> xread (0, 0) x = xs_entries x"
  unfolding xread_def filter_id_conv ids_ok_def by (force simp del: id_less.simps)

lemma sorted_ids_distinct: "sorted_wrt id_less is \<Longrightarrow> distinct is"
  by (induction "is") auto

lemma stream_at_kept: "xs_expires x = Some t \<Longrightarrow> ms < t \<Longrightarrow> stream_at ms x = x" "xs_expires x = None \<Longrightarrow> stream_at ms x = x"
  by (simp_all add: stream_at_def)

lemma expire_entries [simp]:
  "xs_entries (expire ms ttl x) = xs_entries x" "xs_last (expire ms ttl x) = xs_last x"
  "ids_ok (expire ms ttl x) = ids_ok x"
  by (simp_all add: expire_def ids_ok_def split: option.split)

text \<open>At one instant, with nothing trimmed, the stream satisfies the contract of the bus.\<close>

interpretation redis_bus: event_bus "\<lambda>b. \<forall>j. ids_ok (b j) \<and> stream_at ms (b j) = b j"
  "\<lambda>k b. xs_entries (b (stream_key k))" "redis_publish (Some (Suc ttl)) ms 0" "redis_tail ms" for ms ttl
proof
  fix s :: redis_bus and k j e n
  assume ok: "\<forall>j. ids_ok (s j) \<and> stream_at ms (s j) = s j"
  show "distinct (map fst (xs_entries (s (stream_key k))))"
    using ok sorted_ids_distinct unfolding ids_ok_def by blast
  show "\<forall>j. ids_ok (snd (redis_publish (Some (Suc ttl)) ms 0 k e s) j)
      \<and> stream_at ms (snd (redis_publish (Some (Suc ttl)) ms 0 k e s) j) = snd (redis_publish (Some (Suc ttl)) ms 0 k e s) j"
    using ok ids_ok_xadd [of "s (stream_key k)" ms 0 e]
    by (auto simp: redis_publish_def expire_def split: prod.splits) (simp_all add: stream_at_def ids_ok_def)
  show "xs_entries (snd (redis_publish (Some (Suc ttl)) ms 0 k e s) (stream_key j)) =
      (if j = k then xs_entries (s (stream_key k)) @ [(fst (redis_publish (Some (Suc ttl)) ms 0 k e s), e)]
       else xs_entries (s (stream_key j)))"
    using ok by (auto simp: redis_publish_def xadd_def Let_def stream_key_def)
  show "redis_tail ms k None s = xs_entries (s (stream_key k))"
    using ok by (simp add: redis_tail_def xread_all)
  show "n < length (xs_entries (s (stream_key k))) \<Longrightarrow>
      redis_tail ms k (Some (fst (xs_entries (s (stream_key k)) ! n))) s = drop (Suc n) (xs_entries (s (stream_key k)))"
    using ok filter_after [of "xs_entries (s (stream_key k))" n]
    by (simp add: redis_tail_def xread_def ids_ok_def)
qed

subsection \<open>Over time\<close>

text \<open>A stream and everything ever appended to it: the entries are the newest part of the history, the
ids grow with the clock, across trims and across a stream that expired and was begun anew.\<close>

definition history :: "nat \<Rightarrow> stream_id streamed list \<Rightarrow> redis_stream \<Rightarrow> bool" where
  "history now h x \<longleftrightarrow>
     sorted_wrt id_less (map fst h)
     \<and> (\<forall>i\<in>set (map fst h). id_less (0, 0) i \<and> (i = xs_last x \<or> id_less i (xs_last x)))
     \<and> (\<exists>n. xs_entries x = drop n h)
     \<and> fst (xs_last x) \<le> now \<and> (\<forall>t. xs_expires x = Some t \<longrightarrow> fst (xs_last x) < t)"

fun publish_all ::
  "nat option \<Rightarrow> string \<Rightarrow> (nat \<times> nat \<times> event) list \<Rightarrow> redis_bus \<Rightarrow> stream_id streamed list \<times> redis_bus" where
  \<comment> \<open>each event with the time of its \<open>XADD\<close> and what that trims\<close>
  "publish_all ttl k [] b = ([], b)"
| "publish_all ttl k ((ms, trim, e) # ps) b =
     (case redis_publish ttl ms trim k e b of
        (i, b1) \<Rightarrow> case publish_all ttl k ps b1 of (xs, b2) \<Rightarrow> ((i, e) # xs, b2))"

fun undisturbed :: "nat option \<Rightarrow> nat \<Rightarrow> string \<Rightarrow> (nat \<times> nat \<times> event) list \<Rightarrow> nat \<Rightarrow> redis_bus \<Rightarrow> bool" where
  \<comment> \<open>until the time \<open>later\<close> the stream never expires and trims respect the cap\<close>
  "undisturbed ttl maxlen k [] later b \<longleftrightarrow> stream_at later (b (stream_key k)) = b (stream_key k)"
| "undisturbed ttl maxlen k ((ms, trim, e) # ps) later b \<longleftrightarrow>
     stream_at ms (b (stream_key k)) = b (stream_key k) \<and> may_trim maxlen trim (b (stream_key k))
     \<and> undisturbed ttl maxlen k ps later (snd (redis_publish ttl ms trim k e b))"

lemma history_publish:
  assumes h: "history now h (b (stream_key k))" and ms: "now \<le> ms" and ttl: "ttl \<noteq> Some 0"
    and p: "redis_publish ttl ms trim k e b = (i, b')"
  shows "history ms (h @ [(i, e)]) (b' (stream_key k))"
proof -
  let ?x = "b (stream_key k)"
  let ?y = "stream_at ms ?x"
  have i: "i = next_id ms (xs_last ?y)" and x': "b' (stream_key k) = expire ms ttl (snd (xadd ms trim e ?y))"
    using p by (auto simp: redis_publish_def xadd_def Let_def)
  have y: "?y = ?x \<or> ?y = no_stream \<and> fst (xs_last ?x) < ms"
    using h by (auto simp: stream_at_def history_def split: option.split)
  have last: "id_less (xs_last ?x) i"
  proof (cases "?y = ?x")
    case False
    with y have "fst (xs_last ?x) < ms" "i = (ms, 0)" using i by (auto simp: no_stream_def next_id_def)
    then show ?thesis by (cases "xs_last ?x") simp
  qed (simp add: i)
  have zero: "id_less (0, 0) i" unfolding i by (rule id_less_zero)
  have now: "fst i \<le> ms"
    using y h ms unfolding i by (auto simp: next_id_def history_def no_stream_def)
  have below: "id_less j i" if "j \<in> set (map fst h)" for j
  proof -
    have "j = xs_last ?x \<or> id_less j (xs_last ?x)" using that h unfolding history_def by blast
    with last id_less_trans show ?thesis by blast
  qed
  obtain m where m: "xs_entries ?x = drop m h" using h unfolding history_def by blast
  have "xs_entries ?y = xs_entries ?x \<or> xs_entries ?y = []" using y by (metis no_stream_def redis_stream.select_convs(1))
  with m obtain n where n: "xs_entries ?y = drop n h" by (metis drop_all order_refl)
  have entries: "\<exists>m. drop trim (drop n h @ [(i, e)]) = drop m (h @ [(i, e)])"
  proof (cases "n \<le> length h")
    case True
    then have "drop n h @ [(i, e)] = drop n (h @ [(i, e)])" by simp
    then have "drop trim (drop n h @ [(i, e)]) = drop (trim + n) (h @ [(i, e)])" by (simp only: drop_drop)
    then show ?thesis by (rule exI [of _ "trim + n"])
  next
    case False
    then have "drop n h @ [(i, e)] = drop (length h) (h @ [(i, e)])" by simp
    then have "drop trim (drop n h @ [(i, e)]) = drop (trim + length h) (h @ [(i, e)])" by (simp only: drop_drop)
    then show ?thesis by (rule exI [of _ "trim + length h"])
  qed
  moreover have "sorted_wrt id_less (map fst (h @ [(i, e)]))"
    using h below by (auto simp: history_def sorted_wrt_append)
  moreover have "xs_expires (b' (stream_key k)) = Some t \<Longrightarrow> fst i < t" for t
  proof -
    assume t: "xs_expires (b' (stream_key k)) = Some t"
    show "fst i < t"
    proof (cases ttl)
      case None
      with t have e: "xs_expires ?y = Some t" by (simp add: x' expire_def xadd_def Let_def)
      then have yx: "?y = ?x" using y by (auto simp: no_stream_def)
      with e have "ms < t" by (auto simp: stream_at_def no_stream_def split: option.splits if_splits)
      with now show ?thesis by simp
    next
      case (Some s)
      with t ttl now show ?thesis by (simp add: x' expire_def)
    qed
  qed
  moreover have "xs_last (b' (stream_key k)) = i" "xs_entries (b' (stream_key k)) = drop trim (drop n h @ [(i, e)])"
    using n by (simp_all add: x' i [symmetric] xadd_def Let_def del: drop_append)
  moreover have "id_less (0, 0) j \<and> (j = i \<or> id_less j i)" if "j \<in> set (map fst (h @ [(i, e)]))" for j
  proof -
    from that have "j = i \<or> j \<in> set (map fst h)" by auto
    moreover have "id_less (0, 0) j" if "j \<in> set (map fst h)" using that h unfolding history_def by blast
    ultimately show ?thesis using zero below by blast
  qed
  ultimately show ?thesis using now unfolding history_def by (intro conjI ballI allI impI) simp_all
qed

lemma history_all:
  "history now h (b (stream_key k)) \<Longrightarrow> sorted (now # map fst ps) \<Longrightarrow> ttl \<noteq> Some 0 \<Longrightarrow>
     publish_all ttl k ps b = (new, b') \<Longrightarrow>
     history (last (now # map fst ps)) (h @ new) (b' (stream_key k)) \<and> map snd new = map (\<lambda>(ms, trim, e). e) ps"
proof (induction ps arbitrary: now h b new)
  case (Cons p ps)
  obtain ms trim e where p: "p = (ms, trim, e)" by (cases p)
  obtain i b1 where s: "redis_publish ttl ms trim k e b = (i, b1)" by fastforce
  obtain xs where xs: "publish_all ttl k ps b1 = (xs, b')" "new = (i, e) # xs"
    using Cons.prems(4) p s by (auto split: prod.splits)
  from Cons.prems(2) p have "now \<le> ms" "sorted (ms # map fst ps)" by simp_all
  from Cons.IH [OF history_publish [OF Cons.prems(1) this(1) Cons.prems(3) s] this(2) Cons.prems(3) xs(1)] xs(2) p
  show ?case by simp
qed simp

text \<open>As long as the stream does not expire, the newest \<open>maxlen\<close> entries are there.\<close>

lemma undisturbed_keeps:
  "undisturbed ttl maxlen k ps later b \<Longrightarrow> publish_all ttl k ps b = (new, b') \<Longrightarrow>
     stream_at later (b' (stream_key k)) = b' (stream_key k)
     \<and> min maxlen (length (xs_entries (b (stream_key k))) + length new) \<le> length (xs_entries (b' (stream_key k)))"
proof (induction ps arbitrary: b new)
  case (Cons p ps)
  obtain ms trim e where p: "p = (ms, trim, e)" by (cases p)
  obtain i b1 where s: "redis_publish ttl ms trim k e b = (i, b1)" by fastforce
  obtain xs where xs: "publish_all ttl k ps b1 = (xs, b')" "new = (i, e) # xs"
    using Cons.prems(2) p s by (auto split: prod.splits)
  from Cons.prems(1) p s have u: "stream_at ms (b (stream_key k)) = b (stream_key k)"
    "may_trim maxlen trim (b (stream_key k))" "undisturbed ttl maxlen k ps later b1" by simp_all
  have "length (xs_entries (b1 (stream_key k))) = Suc (length (xs_entries (b (stream_key k)))) - trim"
    using s u(1) by (auto simp: redis_publish_def xadd_def Let_def)
  with Cons.IH [OF u(3) xs(1)] u(2) xs(2) show ?case by (auto simp: may_trim_def)
qed simp

lemma filter_newer:
  assumes "sorted_wrt id_less (map fst (seen @ [(i, e)] @ rest))"
  shows "filter (\<lambda>(j, x). id_less i j) (drop n (seen @ [(i, e)] @ rest)) = drop (n - Suc (length seen)) rest"
proof -
  have old: "\<not> id_less i j" if "(j, x) \<in> set (seen @ [(i, e)])" for j x
  proof
    assume "id_less i j"
    moreover from that assms have "j = i \<or> id_less j i" by (auto simp: sorted_wrt_append)
    ultimately show False using id_less_trans id_less_irrefl by blast
  qed
  have new: "\<forall>(j, x)\<in>set rest. id_less i j" using assms by (auto simp: sorted_wrt_append)
  have "drop n (seen @ [(i, e)] @ rest) = drop n (seen @ [(i, e)]) @ drop (n - Suc (length seen)) rest"
    using drop_append [of n "seen @ [(i, e)]" rest] by (simp only: append_assoc length_append_singleton)
  moreover have "filter (\<lambda>(j, x). id_less i j) (drop n (seen @ [(i, e)])) = []"
    using old by (auto simp: filter_empty_conv dest!: in_set_dropD)
  moreover have "filter (\<lambda>(j, x). id_less i j) (drop m rest) = drop m rest" for m
    using new by (auto simp: filter_id_conv dest!: in_set_dropD)
  ultimately show ?thesis by simp
qed

text \<open>Reconnecting: what is sent is the newest part of what was missed and what came meanwhile, and all of
it when that is within the cap and the stream never expired.\<close>

lemma redis_reconnect:
  assumes h: "history now (seen @ [(i, e)] @ rest) (b (stream_key k))" "sorted (now # map fst ps)" "ttl \<noteq> Some 0"
    and p: "publish_all ttl k ps b = (new, b')"
  shows "\<exists>n. redis_tail later k (Some i) b' = drop n (rest @ new)"
    and "undisturbed ttl maxlen k ps later b \<Longrightarrow> length rest + length ps \<le> maxlen
      \<Longrightarrow> length rest \<le> length (xs_entries (b (stream_key k)))
      \<Longrightarrow> redis_tail later k (Some i) b' = rest @ new"
proof -
  let ?x = "b' (stream_key k)"
  from history_all [OF h p] have f: "history (last (now # map fst ps)) (seen @ [(i, e)] @ rest @ new) ?x"
    and len: "length new = length ps" by (simp, metis length_map)
  from f obtain n where n: "xs_entries ?x = drop n (seen @ [(i, e)] @ rest @ new)"
    and so: "sorted_wrt id_less (map fst (seen @ [(i, e)] @ rest @ new))" unfolding history_def by blast
  have read: "xread i ?x = drop (n - Suc (length seen)) (rest @ new)"
    unfolding xread_def n by (rule filter_newer [OF so])
  have "stream_at later ?x = ?x \<or> stream_at later ?x = no_stream"
    by (simp add: stream_at_def split: option.split)
  then show "\<exists>n. redis_tail later k (Some i) b' = drop n (rest @ new)"
  proof
    assume "stream_at later ?x = no_stream"
    then have "redis_tail later k (Some i) b' = drop (length (rest @ new)) (rest @ new)"
      by (simp add: redis_tail_def xread_def no_stream_def)
    then show ?thesis ..
  next
    assume "stream_at later ?x = ?x"
    with read have "redis_tail later k (Some i) b' = drop (n - Suc (length seen)) (rest @ new)"
      by (simp only: redis_tail_def option.case)
    then show ?thesis ..
  qed
  show "redis_tail later k (Some i) b' = rest @ new" if u: "undisturbed ttl maxlen k ps later b"
    "length rest + length ps \<le> maxlen" "length rest \<le> length (xs_entries (b (stream_key k)))"
  proof -
    from undisturbed_keeps [OF u(1) p] have alive: "stream_at later ?x = ?x"
      and "min maxlen (length (xs_entries (b (stream_key k))) + length new) \<le> length (xs_entries ?x)" by simp_all
    with u(2,3) len have "length rest + length new \<le> length (xs_entries ?x)" by simp
    moreover have "length (xs_entries ?x) = Suc (length seen + length rest + length new) - n" by (simp add: n)
    ultimately have "n \<le> Suc (length seen) \<or> length rest + length new = 0" by arith
    then have "drop (n - Suc (length seen)) (rest @ new) = rest @ new" by auto
    then show ?thesis using read alive by (simp only: redis_tail_def option.case)
  qed
qed

section \<open>The relay (\<open>session_event_stream\<close>)\<close>

definition terminal_types :: "string list" where "terminal_types = [''done'', ''failed'']"

record 'i frame =   \<comment> \<open>\<open>ServerSentEvent\<close>\<close>
  fr_id :: 'i
  fr_event :: string
  fr_data :: event

definition frame_of :: "'i streamed \<Rightarrow> 'i frame" where
  "frame_of x = \<lparr>fr_id = fst x, fr_event = event_type (snd x), fr_data = snd x\<rparr>"

fun relay :: "'i streamed list \<Rightarrow> 'i frame list \<times> bool" where
  \<comment> \<open>the frames sent, and whether the stream closed itself\<close>
  "relay [] = ([], False)"
| "relay (x # xs) =
     (if event_type (snd x) \<in> set terminal_types then ([frame_of x], True)
      else (case relay xs of (fs, ended) \<Rightarrow> (frame_of x # fs, ended)))"

lemma relay_append:
  "\<forall>x\<in>set xs. event_type (snd x) \<notin> set terminal_types \<Longrightarrow>
     relay (xs @ ys) = (map frame_of xs @ fst (relay ys), snd (relay ys))"
  by (induction xs) (auto split: prod.splits)

lemma relay_open: "\<forall>x\<in>set xs. event_type (snd x) \<notin> set terminal_types \<Longrightarrow> relay xs = (map frame_of xs, False)"
  using relay_append [of xs "[]"] by simp

lemma relay_closes:
  assumes "event_type (snd y) \<in> set terminal_types" "\<forall>x\<in>set xs. event_type (snd x) \<notin> set terminal_types"
  shows "relay (xs @ y # ys) = (map frame_of (xs @ [y]), True)"
  using relay_append [OF assms(2), of "y # ys"] assms(1) by simp

lemma set_with_ids: "set (map snd (with_ids es)) = set es"
  by (simp add: with_ids_def)

text \<open>The stream of a session that ran to its end relays the whole narration and then closes.\<close>

lemma relay_session:
  assumes "closed_by k e w w'" "w_streams w k = []"
  shows "snd (relay (bus_after k None (w_streams w')))
    \<and> map fr_data (fst (relay (bus_after k None (w_streams w')))) = w_streams w' k"
proof -
  from assms obtain es where es: "event_type e \<in> {''done'', ''failed''}" "w_streams w' k = es @ [e]"
    "\<forall>x\<in>set es. event_type x \<notin> {''done'', ''failed''}" by (auto simp: closed_by_def)
  have split: "bus_after k None (w_streams w') = with_ids es @ [(Suc (length es), e)]"
    by (simp add: bus_after_def es(2) with_ids_append)
  have "\<forall>x\<in>set (with_ids es). event_type (snd x) \<notin> set terminal_types"
  proof
    fix x assume "x \<in> set (with_ids es)"
    then have "snd x \<in> set es" using set_with_ids [of es] by auto
    with es(3) show "event_type (snd x) \<notin> set terminal_types" by (auto simp: terminal_types_def)
  qed
  moreover have "event_type (snd (Suc (length es), e)) \<in> set terminal_types"
    using es(1) by (auto simp: terminal_types_def)
  ultimately have "relay (with_ids es @ [(Suc (length es), e)])
      = (map frame_of (with_ids es @ [(Suc (length es), e)]), True)"
    by (intro relay_closes) simp_all
  then show ?thesis by (simp add: split es(2) frame_of_def with_ids_def comp_def)
qed

text \<open>But a client that reconnects after the last event waits on a stream that never closes.\<close>

lemma reconnect_after_end_waits:
  assumes "length (b k) = n"
  shows "relay (bus_after k (Some n) b) = ([], False)"
  using assms by (simp add: bus_after_def)

end
