(* ===== verification/Graph_Flow.thy ===== *)
theory Graph_Flow
  imports Graph_Session
begin

text \<open>
  The flow of a session: a first run and one run per answer, each from the checkpoint the last one left,
  with what the runner tells the stream in between. A run that crashed leaves its checkpoint before the
  node that raised, and a later answer executes that node again. How many questions a session can ask,
  what the gate and the user's refusal end it with, and what the session record holds once a plan is
  proposed.
\<close>

section \<open>Operations that return\<close>

lemma node_session_Inr [simp]:
  "node_session k w = (Inr s, w') \<longleftrightarrow> get_session k (w_store w) = Some s \<and> w' = w"
  by (auto simp: node_session_def obind_def op_get_session_def split: option.splits)

lemma op_get_face_eq [simp]: "op_get_face k w = (Inr f, w') \<longleftrightarrow> w' = w \<and> f = get_face k (w_store w)"
  by (auto simp: op_get_face_def)

lemma op_put_session_eq [simp]:
  "op_put_session s w = (Inr u, w') \<longleftrightarrow> w' = w\<lparr>w_store := put_session s (w_store w)\<rparr>"
  by (auto simp: op_put_session_def)

lemma publish_eq [simp]:
  "publish k e w = (Inr u, w') \<longleftrightarrow> w' = w\<lparr>w_streams := (w_streams w)(k := w_streams w k @ [e])\<rparr>"
  by (auto simp: publish_def)

lemma storage_find_eq [simp]: "storage_find r w = (Inr x, w') \<longleftrightarrow> w' = w \<and> x = w_objects w r"
  by (auto simp: storage_find_def storage_get_def split: option.splits)

lemma node_resolve_eq [simp]:
  "node_resolve svc st w = (Inr p, w') \<longleftrightarrow> w' = w \<and> resolve (sv_library svc) (gs_use_case st) = Some p"
  by (auto simp: node_resolve_def split: option.splits)

lemma op_put_face_eq [simp]:
  "op_put_face f w = (Inr u, w') \<longleftrightarrow> w' = w\<lparr>w_store := put_face f (w_store w)\<rparr>"
  by (auto simp: op_put_face_def)

section \<open>Sessions as sequences of runs\<close>

fun last_words :: "graph_outcome \<Rightarrow> event list" where
  \<comment> \<open>what the runner itself adds to the stream when \<open>ainvoke\<close> is over\<close>
  "last_words (Paused n st q) = [NeedInputEvent (qu_slot q) (qu_question q) (qu_options q) (qu_default q)]"
| "last_words (Finished st) = []"
| "last_words (Crashed n st e) = [FailedEvent INTERNAL ''internal error'' None 0 0 0]"

definition narrated :: "graph_outcome \<Rightarrow> world \<Rightarrow> world" where
  "narrated res w =
     (let k = gs_session_key (fst (checkpoint_of res))
      in w\<lparr>w_streams := (w_streams w)(k := w_streams w k @ last_words res)\<rparr>)"

fun graph_session ::
  "'i services \<Rightarrow> resume_value list \<Rightarrow> graph_outcome \<Rightarrow> world \<Rightarrow> graph_outcome \<times> world" where
  \<comment> \<open>resume with each value in turn; a thread that is finished stays as it is\<close>
  "graph_session svc [] res w = (res, narrated res w)"
| "graph_session svc (v # vs) res w =
     (case checkpoint_of res of
        (st, None) \<Rightarrow> graph_session svc vs res w
      | (st, Some n) \<Rightarrow>
          (case graph_run svc n st (Some v) (narrated res w) of (res', w') \<Rightarrow> graph_session svc vs res' w'))"

fun session_outcomes ::
  "'i services \<Rightarrow> resume_value list \<Rightarrow> graph_outcome \<Rightarrow> world \<Rightarrow> graph_outcome list" where
  \<comment> \<open>how each run of that session ended\<close>
  "session_outcomes svc [] res w = [res]"
| "session_outcomes svc (v # vs) res w =
     (case checkpoint_of res of
        (st, None) \<Rightarrow> [res]
      | (st, Some n) \<Rightarrow>
          (case graph_run svc n st (Some v) (narrated res w) of
             (res', w') \<Rightarrow> res # session_outcomes svc vs res' w'))"

lemma narrated_simps [simp]:
  "w_store (narrated res w) = w_store w" "w_objects (narrated res w) = w_objects w"
  "w_gen_log (narrated res w) = w_gen_log w" "w_llm_log (narrated res w) = w_llm_log w"
  "narrated (Finished st) w = w"
  by (simp_all add: narrated_def Let_def)

lemma outcome_cases:
  obtains (finished) st where "res = Finished st" "checkpoint_of res = (st, None)"
  | (waiting) st n where "checkpoint_of res = (st, Some n)" "\<And>st'. res \<noteq> Finished st'"
  by (cases res) auto

lemma finished_session [simp]:
  "graph_session svc vs (Finished st) w = (Finished st, w)" "session_outcomes svc vs (Finished st) w = [Finished st]"
  by (induction vs) simp_all

lemma session_outcomes_ne [simp]: "session_outcomes svc vs res w \<noteq> []"
  by (cases vs) (auto split: option.split prod.split)

lemma session_outcomes_first [simp]: "res \<in> set (session_outcomes svc vs res w)"
proof (cases vs)
  case (Cons v rest)
  show ?thesis
  proof (cases res rule: outcome_cases)
    case (waiting st n)
    obtain res1 w1 where "graph_run svc n st (Some v) (narrated res w) = (res1, w1)" by fastforce
    with waiting(1) Cons show ?thesis by simp
  qed (simp add: Cons)
qed simp

lemma session_outcomes_last: "last (session_outcomes svc vs res w) = fst (graph_session svc vs res w)"
proof (induction vs arbitrary: res w)
  case (Cons v vs)
  show ?case by (cases res rule: outcome_cases) (auto simp: Cons.IH split: prod.split)
qed simp

fun pauses_left :: "node \<Rightarrow> graph_state \<Rightarrow> nat" where
  "pauses_left Resolve_Constraints st = max_reasks - reasks_of st + 1"
| "pauses_left Plan_Steps st = 1"
| "pauses_left Approve st = 1"
| "pauses_left Generate st = 0"
| "pauses_left Done_Node st = 0"
| "pauses_left Fail_Node st = 0"
| "pauses_left _ st = max_reasks - reasks_of st + 2"

lemma node_pauses:
  assumes "run_node svc n st v w = (Inr (Interrupts q), w')"
  shows "v = None \<and> n \<in> {Ask, Approve}"
proof (cases n)
  case Ask
  with assms show ?thesis by (auto simp: ask_def obind_Inr split: option.split_asm if_split_asm)
next
  case Resolve_Constraints
  with assms obtain p f w1 where "accept_fill svc st p f w1 = (Inr (Interrupts q), w')"
    by (auto simp: resolve_constraints_def obind_Inr)
  then show ?thesis by (cases rule: accept_fill_cases) auto
next
  case Approve
  with assms show ?thesis by (auto simp: approve_def obind_Inr split: option.split_asm if_split_asm prod.split_asm)
next
  case Extract_Inventory
  with assms show ?thesis by (auto simp: extract_inventory_def obind_Inr split: if_split_asm option.split_asm)
qed (use assms in \<open>auto simp: analyze_def quality_gate_def parse_brief_def plan_steps_def generate_def
      done_node_def fail_node_def obind_Inr Let_def\<close>)

lemma pauses_step:
  assumes run: "run_node svc n st v w = (Inr (Goes st'), w')" and next_node: "edge n st' = Some n'"
  shows "pauses_left n' st' \<le> pauses_left n st" "n \<in> {Ask, Approve} \<Longrightarrow> pauses_left n' st' < pauses_left n st"
proof -
  have "pauses_left n' st' \<le> pauses_left n st \<and> (n \<in> {Ask, Approve} \<longrightarrow> pauses_left n' st' < pauses_left n st)"
  proof (cases "n = Resolve_Constraints")
    case True
    with run have "resolve_constraints svc st w = (Inr (Goes st'), w')" by simp
    from resolve_goes [OF this] next_node True show ?thesis
      by (elim disjE exE conjE)
         (auto simp: route_resolve_def has_reason_def split: if_split_asm)
  next
    case False
    with run have "gs_reasks st' = gs_reasks st" by (cases n) (auto dest!: goes_rules)
    then have "reasks_of st' = reasks_of st" by (simp add: reasks_of_def)
    with False next_node show ?thesis
      by (cases n) (auto simp: route_failure_def route_generate_def split: if_splits)
  qed
  then show "pauses_left n' st' \<le> pauses_left n st"
    "n \<in> {Ask, Approve} \<Longrightarrow> pauses_left n' st' < pauses_left n st" by auto
qed

lemma run_pauses:
  assumes "graph_run svc n st v w = (res, w')" and "res = Paused m st1 q"
  shows "m \<in> {Ask, Approve} \<and> pauses_left m st1 \<le> pauses_left n st
    \<and> (v \<noteq> None \<longrightarrow> n \<in> {Ask, Approve} \<longrightarrow> pauses_left m st1 < pauses_left n st)"
  using assms
proof (induction rule: graph_run_induct)
  case (pause n st v w q' w')
  with node_pauses [OF pause(1)] show ?case by simp
next
  case (go n st v w st' w1 n' res w')
  from go(4) [OF go(5)] pauses_step [OF go(1,2)] show ?case by fastforce
qed simp_all

text \<open>How many more questions the answer to a checkpoint can lead to.\<close>

definition questions_left :: "graph_outcome \<Rightarrow> nat" where
  "questions_left res =
     (case checkpoint_of res of
        (st, None) \<Rightarrow> 0
      | (st, Some n) \<Rightarrow> if n \<in> {Ask, Approve} then pauses_left n st - 1 else pauses_left n st)"

lemma run_questions:
  assumes "graph_run svc n st v w = (res, w')"
  shows "(if is_paused res then 1 else 0) + questions_left res
    \<le> (if v \<noteq> None \<and> n \<in> {Ask, Approve} then pauses_left n st - 1 else pauses_left n st)"
  using assms
proof (induction rule: graph_run_induct)
  case (crash n st v w e w')
  then show ?case by (simp add: questions_left_def)
next
  case (pause n st v w q w')
  from node_pauses [OF pause(1)] show ?case by (auto simp: questions_left_def)
next
  case (finish n st v w st' w')
  then show ?case by (simp add: questions_left_def)
next
  case (go n st v w st' w1 n' res w')
  from go(4) have "(if is_paused res then 1 else 0) + questions_left res \<le> pauses_left n' st'" by simp
  moreover have "pauses_left n' st' \<le> (if v \<noteq> None \<and> n \<in> {Ask, Approve} then pauses_left n st - 1 else pauses_left n st)"
    using pauses_step [OF go(1,2)] by (cases "n \<in> {Ask, Approve}") auto
  ultimately show ?case by (rule order_trans)
qed

lemma session_questions:
  "length (filter is_paused (session_outcomes svc vs res w)) \<le> (if is_paused res then 1 else 0) + questions_left res"
proof (induction vs arbitrary: res w)
  case (Cons v vs)
  show ?case
  proof (cases res rule: outcome_cases)
    case (waiting st n)
    obtain res1 w1 where r: "graph_run svc n st (Some v) (narrated res w) = (res1, w1)" by fastforce
    have "length (filter is_paused (session_outcomes svc vs res1 w1)) \<le> questions_left res"
      using Cons.IH [of res1 w1] run_questions [OF r] by (simp add: questions_left_def waiting(1))
    then show ?thesis by (simp add: waiting(1) r)
  qed simp
qed simp

lemma session_length:
  assumes "\<And>st. fst (graph_session svc vs res w) \<noteq> Finished st"
  shows "length (session_outcomes svc vs res w) = Suc (length vs)"
  using assms
proof (induction vs arbitrary: res w)
  case (Cons v vs)
  show ?case
  proof (cases res rule: outcome_cases)
    case (waiting st n)
    obtain res1 w1 where r: "graph_run svc n st (Some v) (narrated res w) = (res1, w1)" by fastforce
    with Cons.prems waiting(1) have "fst (graph_session svc vs res1 w1) \<noteq> Finished st'" for st' by simp
    from Cons.IH [OF this] show ?thesis by (simp add: waiting(1) r)
  next
    case (finished st)
    with Cons.prems [of st] show ?thesis by simp
  qed
qed simp

lemma session_unfinished:
  "o1 \<in> set (session_outcomes svc vs res w) \<Longrightarrow> (\<And>st. fst (graph_session svc vs res w) \<noteq> Finished st) \<Longrightarrow> o1 \<noteq> Finished st"
proof (induction vs arbitrary: res w)
  case (Cons v vs)
  show ?case
  proof (cases res rule: outcome_cases)
    case (waiting st' n)
    obtain res1 w1 where r: "graph_run svc n st' (Some v) (narrated res w) = (res1, w1)" by fastforce
    with Cons waiting show ?thesis by auto
  qed (use Cons.prems in simp)
qed simp

text \<open>A session that asked all its questions and did not crash is finished.\<close>

lemma session_answered:
  assumes "(if is_paused res then 1 else 0) + questions_left res \<le> length vs"
    and "list_all (\<lambda>x. \<not> is_crashed x) (session_outcomes svc vs res w)"
  obtains st where "fst (graph_session svc vs res w) = Finished st"
proof (cases "\<exists>st. fst (graph_session svc vs res w) = Finished st")
  case False
  then have open_end: "\<And>st. fst (graph_session svc vs res w) \<noteq> Finished st" by blast
  have "is_paused x" if "x \<in> set (session_outcomes svc vs res w)" for x
    using session_unfinished [OF that open_end] assms(2) that by (cases x) (auto simp: list_all_iff)
  then have "filter is_paused (session_outcomes svc vs res w) = session_outcomes svc vs res w"
    by (simp add: filter_id_conv)
  with session_questions [of svc vs res w] session_length [OF open_end] assms(1) show thesis by simp
qed (use that in blast)

section \<open>Refusals\<close>

lemma quality_gate_refuses:
  assumes "gs_gate_verdict st = Some (verdict_value BELOW_FLOOR) \<or> gs_has_identity st \<noteq> Some True"
  shows "quality_gate st w = (Inr (Goes (fail_with ''input photo cannot anchor the identity''
            (gs_gate_reason st) INPUT_REJECTED st)), w)"
  using assms by (simp add: quality_gate_def)

lemma approve_refuses:
  assumes "\<not> fst (parse_decision d)"
  shows "approve svc st (Some d) w = (Inr (Goes (fail_with ''plan rejected by the user'' None PLAN_REJECTED st)), w)"
  using assms by (cases "parse_decision d") (simp add: approve_def)

text \<open>A run that reaches \<open>fail\<close> with a failure of its own: the event is that failure.\<close>

lemma fail_node_event:
  assumes f: "gs_failure st = Some \<lparr>fl_reason = r, fl_gate_reason = map_option gate_reason_value gr,
                                    fl_code = failure_code_value c\<rparr>" "r \<noteq> []"
    and key: "gs_session_key st = k"
  shows "graph_run svc Fail_Node st v w = (Finished st,
     w\<lparr>w_store := (case get_session k (w_store w) of
                     None \<Rightarrow> w_store w | Some s \<Rightarrow> put_session (s\<lparr>ss_fsm_state := FAILED\<rparr>) (w_store w)),
       w_streams := (w_streams w)(k := w_streams w k
         @ [FailedEvent c r gr
              (case get_session k (w_store w) of None \<Rightarrow> 0 | Some s \<Rightarrow> length (ss_iterations s))
              (case get_session k (w_store w) of None \<Rightarrow> 0 | Some s \<Rightarrow> generations_spent s)
              (case get_session k (w_store w) of None \<Rightarrow> 0 | Some s \<Rightarrow> cost_spent s)])\<rparr>)"
proof -
  note e = fail_event_of [OF f(1) f(2) refl]
  have "fail_node st w = (Inr (Goes st), w\<lparr>w_store := (case get_session k (w_store w) of
                     None \<Rightarrow> w_store w | Some s \<Rightarrow> put_session (s\<lparr>ss_fsm_state := FAILED\<rparr>) (w_store w)),
       w_streams := (w_streams w)(k := w_streams w k
         @ [FailedEvent c r gr
              (case get_session k (w_store w) of None \<Rightarrow> 0 | Some s \<Rightarrow> length (ss_iterations s))
              (case get_session k (w_store w) of None \<Rightarrow> 0 | Some s \<Rightarrow> generations_spent s)
              (case get_session k (w_store w) of None \<Rightarrow> 0 | Some s \<Rightarrow> cost_spent s)])\<rparr>)"
    by (subst fail_node_run [OF e]) (simp_all add: key cost_spent_def generations_spent_def split: option.splits)
  then show ?thesis by (simp add: graph_run.simps)
qed

lemma refused_plan_run:
  assumes "\<not> fst (parse_decision d)" and key: "gs_session_key st = k"
  shows "graph_run svc Approve st (Some d) w =
    graph_run svc Fail_Node (fail_with ''plan rejected by the user'' None PLAN_REJECTED st) None w"
  using approve_refuses [OF assms(1), of svc st w] by (simp add: graph_run.simps [of svc Approve] route_failure_def)

lemma refused_photo_run:
  assumes "gs_gate_verdict st = Some (verdict_value BELOW_FLOOR) \<or> gs_has_identity st \<noteq> Some True"
  shows "graph_run svc Quality_Gate st v w =
    graph_run svc Fail_Node (fail_with ''input photo cannot anchor the identity'' (gs_gate_reason st) INPUT_REJECTED st) None w"
  using quality_gate_refuses [OF assms, of w] by (simp add: graph_run.simps [of svc Quality_Gate] route_failure_def)

section \<open>What the session holds once a plan is proposed\<close>

definition plan_shape :: "edit_step list \<Rightarrow> bool" where
  \<comment> \<open>numbered from 1, all pending, one enhance step and it is the last\<close>
  "plan_shape steps \<longleftrightarrow>
     2 \<le> length steps \<and> map st_n steps = [1..<Suc (length steps)]
     \<and> list_all (\<lambda>s. st_status s = Pending) steps
     \<and> st_is_enhance (last steps) \<and> list_all (\<lambda>s. \<not> st_is_enhance s) (butlast steps)"

lemma with_enhance_shape:
  assumes "map st_n steps = [1..<Suc (length steps)]"
    and "\<And>s. s \<in> set steps \<Longrightarrow> \<not> st_is_enhance s \<and> st_status s = Pending"
  shows "plan_shape (with_enhance p steps)"
proof (cases "steps = []")
  case True
  then show ?thesis by (simp add: with_enhance_def plan_shape_def)
next
  case False
  then have "1 \<le> length steps" by (cases steps) simp_all
  with False assms show ?thesis by (simp add: with_enhance_def plan_shape_def list_all_iff)
qed

lemma with_enhance_targets:
  "(\<Union>s\<in>set (with_enhance p steps). set (st_targets s)) = (\<Union>s\<in>set steps. set (st_targets s))"
  by (simp add: with_enhance_def)

definition proposed :: "'i services \<Rightarrow> graph_state \<Rightarrow> string \<Rightarrow> world \<Rightarrow> bool" where
  \<comment> \<open>session \<open>k\<close> holds a complete plan and the stream ends with it and its estimate\<close>
  "proposed svc st k w \<longleftrightarrow>
     (\<exists>p s pl cost es. resolve (sv_library svc) (gs_use_case st) = Some p
        \<and> get_session k (w_store w) = Some s \<and> ss_plan s = Some pl \<and> ss_cost_estimate s = Some cost
        \<and> ss_fsm_state s = AWAITING_APPROVAL \<and> plan_shape (pl_steps pl)
        \<and> ch_target ` set (ba_changes (session_analysis p s)) \<subseteq> (\<Union>x\<in>set (pl_steps pl). set (st_targets x))
        \<and> pl_planned_generations pl = int (length (pl_steps pl))
        \<and> w_streams w k = es @ [PlanEvent pl, CostEvent cost])"

lemma estimate_generations:
  "estimate_cost p b t m n e = Inr cost \<Longrightarrow> ce_generations cost = max n 1"
  by (auto simp: estimate_cost_def bind_res_Inr_iff Let_def split: if_splits)

lemma record_call_analysis [simp]:
  "ss_brief_analysis (record_call a b c s) = ss_brief_analysis s"
  by (simp add: record_call_def)

context graph_ports
begin

lemma planned_shape:
  assumes "sv_plan svc a i m w = (Inr r, w')"
  shows "plan_shape (planned_steps p a r)"
    and "ch_target ` set (ba_changes a) \<subseteq> (\<Union>s\<in>set (planned_steps p a r). set (st_targets s))"
proof -
  let ?steps = "if pn_steps r \<noteq> [] then pn_steps r else deterministic_steps a"
  have "map st_n ?steps = [1..<Suc (length ?steps)]"
    using plan_numbered [OF assms] deterministic_numbered [of a] by (simp del: upt_Suc)
  then show "plan_shape (planned_steps p a r)"
    unfolding planned_steps_def
    by (rule with_enhance_shape) (use plan_plain [OF assms] deterministic_plain [of _ a] in \<open>auto split: if_splits\<close>)
  show "ch_target ` set (ba_changes a) \<subseteq> (\<Union>s\<in>set (planned_steps p a r). set (st_targets s))"
    unfolding planned_steps_def with_enhance_targets
    using plan_covers [OF assms] deterministic_covers [of a] by auto
qed

lemma plan_steps_proposes:
  assumes run: "plan_steps svc st w = (Inr (Goes st'), w')" and key: "gs_session_key st = k" and ky: "keyed w"
  shows "proposed svc st k w'"
proof -
  from run key obtain p s f o1 w1 cost where res: "resolve (sv_library svc) (gs_use_case st) = Some p"
    and s: "get_session k (w_store w) = Some s"
    and p: "sv_plan svc (session_analysis p s) f (Some (node_meter svc st)) w = (Inr o1, w1)"
    and cost: "estimate_cost p (from_micro (gs_budget_limit st)) (sv_pricing svc) (sv_generation_model svc)
        (int (length (planned_steps p (session_analysis p s) o1))) 1 = Inr cost"
    and w': "w' = w1\<lparr>w_store := put_session (record_call SLOT_FILL (pn_cost o1) (pn_usage o1) s
          \<lparr>ss_plan := Some (proposed_plan p (session_analysis p s)
              (planned_steps p (session_analysis p s) o1) (slots_of st) cost),
           ss_cost_estimate := Some cost, ss_fsm_state := AWAITING_APPROVAL\<rparr>) (w_store w1),
        w_streams := (w_streams w1)(k := (w_streams w1 k
          @ [PlanEvent (proposed_plan p (session_analysis p s)
              (planned_steps p (session_analysis p s) o1) (slots_of st) cost)]) @ [CostEvent cost])\<rparr>"
    by (auto simp: plan_steps_def obind_Inr Let_def)
  let ?pl = "proposed_plan p (session_analysis p s) (planned_steps p (session_analysis p s) o1) (slots_of st) cost"
  define s' where "s' = record_call SLOT_FILL (pn_cost o1) (pn_usage o1) s
          \<lparr>ss_plan := Some ?pl, ss_cost_estimate := Some cost, ss_fsm_state := AWAITING_APPROVAL\<rparr>"
  have sk: "ss_session_key s' = k" using ky s by (simp add: s'_def keyed_def)
  have an: "session_analysis p s' = session_analysis p s" by (simp add: session_analysis_def s'_def)
  have sh: "plan_shape (pl_steps ?pl)"
    and cov: "ch_target ` set (ba_changes (session_analysis p s)) \<subseteq> (\<Union>x\<in>set (pl_steps ?pl). set (st_targets x))"
    using planned_shape [OF p] by (simp_all add: proposed_plan_def)
  have "pl_planned_generations ?pl = int (length (pl_steps ?pl))"
    using estimate_generations [OF cost] sh by (simp add: proposed_plan_def plan_shape_def)
  moreover have "get_session k (w_store w') = Some s'" using sk by (simp add: w' s'_def)
  moreover have "w_streams w' k = w_streams w1 k @ [PlanEvent ?pl, CostEvent cost]" by (simp add: w')
  moreover have "ss_plan s' = Some ?pl" "ss_cost_estimate s' = Some cost" "ss_fsm_state s' = AWAITING_APPROVAL"
    by (simp_all add: s'_def)
  ultimately show ?thesis using res sh cov an unfolding proposed_def by metis
qed

lemma paused_for_approval:
  assumes "graph_run svc n st v w = (res, w')" and "res = Paused Approve st1 q" and "gs_session_key st = k"
    and "keyed w" and "n \<notin> {Approve, Generate}"
  shows "proposed svc st1 k w' \<and> q = approve_payload \<and> gs_session_key st1 = k"
  using assms
proof (induction rule: graph_run_induct)
  case (go n st v w st' w1 n' res w')
  have key: "gs_session_key st' = k" using run_node_input [OF go(1)] go(6) by (simp add: graph_input_def)
  from edge_cases(1) [OF go(2)] go(8) have n: "n \<notin> {Generate, Done_Node, Fail_Node}" by auto
  from normal_node [OF _ go(6) n go(1)] go(7) have st: "keyed w1" by (simp add: held_def)
  show ?case
  proof (cases "n' = Approve")
    case True
    with go(2) have np: "n = Plan_Steps"
      by (cases n) (auto simp: route_failure_def route_resolve_def route_generate_def split: if_splits)
    with go(1) have p: "plan_steps svc st w = (Inr (Goes st'), w1)" by simp
    have "graph_run svc Approve st' None w1 = (Paused Approve st' approve_payload, w1)"
      by (simp add: graph_run.simps approve_def)
    with go(3,5) True have "w' = w1" "st1 = st'" "q = approve_payload" by auto
    with plan_steps_proposes [OF p go(6,7)] plan_steps_goes [OF p] key show ?thesis by simp
  next
    case False
    have "n' \<noteq> Generate"
      using go(2,8) n by (cases n) (auto simp: route_failure_def route_resolve_def split: if_splits)
    with go(4) [OF go(5) key st] False show ?thesis by simp
  qed
next
  case (pause n st v w q' w')
  with node_pauses [OF pause(1)] show ?case by auto
qed simp_all

text \<open>A rejected fill leaves no trace in the session record; an accepted one freezes the thresholds.\<close>

lemma resolve_outcome:
  assumes run: "resolve_constraints svc st w = (Inr (Goes st'), w')" and key: "gs_session_key st = k" and ky: "keyed w"
  shows "(\<exists>p s s' f b. resolve (sv_library svc) (gs_use_case st) = Some p
      \<and> get_session k (w_store w) = Some s \<and> get_session k (w_store w') = Some s'
      \<and> s' = resolved_session (sv_library svc) p f s \<and> check_fill p f = Inr b
      \<and> gs_reask_reason st' = None \<and> (preset_wf p \<longrightarrow> fill_ok p (ss_slots s')))
    \<or> get_session k (w_store w') = get_session k (w_store w)
      \<and> (gs_failure st' \<noteq> None \<or> gs_reask_reason st' = Some reask_text)"
proof -
  let ?w0 = "w\<lparr>w_streams := (w_streams w)(k := w_streams w k @ [StageEvent PLANNING])\<rparr>"
  from run key obtain p ans fm f w1 where res: "resolve (sv_library svc) (gs_use_case st) = Some p"
    and p: "sv_fill svc p ans fm (Some (node_meter svc st)) ?w0 = (Inr f, w1)"
    and a: "accept_fill svc st p f w1 = (Inr (Goes st'), w')"
    by (auto simp: resolve_constraints_def obind_Inr)
  have q: "get_session k (w_store w1) = get_session k (w_store w)"
    using fill_quiet [OF p] by (simp add: quiet_def get_session_def)
  from a show ?thesis
  proof (cases rule: accept_fill_cases)
    case (accepted b s)
    have "ss_session_key s = k" using accepted(2) q key ky by (simp add: keyed_def)
    then have "get_session k (w_store w') = Some (resolved_session (sv_library svc) p f s)"
      by (simp add: accepted(4))
    moreover have "preset_wf p \<longrightarrow> fill_ok p (ss_slots (resolved_session (sv_library svc) p f s))"
      using fill_in_vocabulary [OF _ p] by (simp add: resolved_session_def record_call_def)
    ultimately show ?thesis using accepted res q key by fastforce
  qed (use q in \<open>auto split: if_split_asm\<close>)
qed

end

end
