(* ===== verification/Graph_Ledger.thy ===== *)
theory Graph_Ledger
  imports Graph_Flow
begin

text \<open>
  Money across the session graph. The budget counter of a session never falls behind what the
  session record says was spent (\<open>led\<close>): every node settles a call before it records it. The two
  are not always equal: \<open>resolve_constraints\<close> drops the cost of a fill whose answer is rejected.
\<close>

definition ledger_micro :: "session_state \<Rightarrow> int" where
  "ledger_micro s = micro_calls (ss_llm_calls s) + micro_iterations (ss_iterations s)"

definition led :: "string \<Rightarrow> world \<Rightarrow> int \<Rightarrow> bool" where
  \<comment> \<open>the counter covers the record of \<open>k\<close> with \<open>c\<close> micro-dollars to spare\<close>
  "led k w c \<longleftrightarrow>
     0 \<le> used k w \<and> (\<forall>s. get_session k (w_store w) = Some s \<longrightarrow> ledger_micro s + c \<le> used k w)"

lemma ledger_micro_updates [simp]:
  "ledger_micro (s\<lparr>ss_fsm_state := a\<rparr>) = ledger_micro s"
  "ledger_micro (s\<lparr>ss_brief_analysis := b\<rparr>) = ledger_micro s"
  "ledger_micro (s\<lparr>ss_approved := c, ss_slots := d\<rparr>) = ledger_micro s"
  "ledger_micro (s\<lparr>ss_plan := e\<rparr>) = ledger_micro s"
  "ledger_micro (s\<lparr>ss_approved := c, ss_slots := d, ss_plan := e\<rparr>) = ledger_micro s"
  "ledger_micro (s\<lparr>ss_plan := e, ss_cost_estimate := f, ss_fsm_state := a\<rparr>) = ledger_micro s"
  "ledger_micro (s\<lparr>ss_plan := e, ss_cost_estimate := f\<rparr>) = ledger_micro s"
  "ledger_micro (s\<lparr>ss_thresholds := t\<rparr>) = ledger_micro s"
  "ledger_micro (s\<lparr>ss_brief_analysis := b, ss_fsm_state := a, ss_preset_id := g, ss_preset_version := h,
      ss_library_version := i, ss_slots := d\<rparr>) = ledger_micro s"
  by (simp_all add: ledger_micro_def)

lemma ledger_micro_new [simp]: "ledger_micro (new_session k f b) = 0"
  by (simp add: ledger_micro_def new_session_def micro_calls_def micro_iterations_def)

lemma ledger_record_call:
  "0 \<le> cost \<Longrightarrow> ledger_micro (record_call kind cost u s) = ledger_micro s + to_micro cost"
  by (cases "cost = 0")
     (auto simp: record_call_def ledger_micro_def micro_calls_def to_micro_def to_micro_with_def)

lemma led_mono: "led k w c \<Longrightarrow> d \<le> c \<Longrightarrow> led k w d"
  by (force simp: led_def)

lemma led_streams [simp]:
  "led k (w\<lparr>w_streams := a\<rparr>) c = led k w c" "led k (w\<lparr>w_objects := b\<rparr>) c = led k w c"
  "led k (w\<lparr>w_store := put_face f (w_store w)\<rparr>) c = led k w c"
  by (simp_all add: led_def)

lemma led_put:
  assumes "0 \<le> used k w" "ledger_micro s \<le> used k w" "ss_session_key s = k"
  shows "led k (w\<lparr>w_store := put_session s (w_store w)\<rparr>) 0"
  using assms by (simp add: led_def)

definition paid_for :: "string \<Rightarrow> usd \<Rightarrow> world \<Rightarrow> world \<Rightarrow> bool" where
  \<comment> \<open>a call of that cost was made and is not recorded yet\<close>
  "paid_for k cost w w' \<longleftrightarrow>
     led k w' (to_micro cost) \<and> 0 \<le> cost \<and> get_session k (w_store w') = get_session k (w_store w) \<and> keyed w'"

lemma paid_forI:
  assumes "led k w 0" "keyed w" "quiet k w w'" "charged True k cost w w'"
  shows "paid_for k cost w w'"
  using assms quiet_keyed [OF assms(3)]
  by (auto simp: paid_for_def led_def charged_def quiet_def get_session_def to_micro_nonneg)

lemma record_paid:
  assumes p: "paid_for k cost w w1" and s: "get_session k (w_store w) = Some s"
    and l: "ledger_micro s' = ledger_micro s + to_micro cost" and key: "ss_session_key s' = k"
  shows "led k (w1\<lparr>w_store := put_session s' (w_store w1)\<rparr>) 0"
proof -
  from p s have "ledger_micro s + to_micro cost \<le> used k w1" "0 \<le> used k w1"
    by (auto simp: paid_for_def led_def)
  then show ?thesis using l key by (intro led_put) simp_all
qed

lemma paid_for_led: "paid_for k cost w w' \<Longrightarrow> led k w' 0"
  by (auto simp: paid_for_def intro: led_mono to_micro_nonneg)

lemma led_used: "led k w c \<Longrightarrow> get_session k (w_store w) = Some s \<Longrightarrow> ledger_micro s + c \<le> used k w"
  by (simp add: led_def)

lemma led_nonneg: "led k w c \<Longrightarrow> 0 \<le> used k w"
  by (simp add: led_def)

lemma load_face_store:
  "load_face svc j w = (x, w') \<Longrightarrow> led k w' c = led k w c \<and> keyed w' = keyed w"
  by (auto simp: load_face_def obind_def op_get_face_def storage_get_def op_put_face_def storage_put_def
      split: option.splits sum.splits prod.splits)

lemma led_fsm_put:
  assumes "led k w 0" "get_session k (w_store w) = Some s" "ledger_micro s' = ledger_micro s" "ss_session_key s' = k"
  shows "led k (w\<lparr>w_store := put_session s' (w_store w)\<rparr>) 0"
  using assms by (intro led_put) (auto simp: led_def)

lemma analyze_led:
  assumes run: "analyze svc st w = (Inr r, w')" and key: "gs_session_key st = k" and l: "led k w 0" and ky: "keyed w"
  shows "led k w' 0"
proof -
  define s where "s = (case get_session k (w_store w) of
      None \<Rightarrow> new_session k (gs_face_key st) (from_micro (gs_budget_limit st)) | Some s \<Rightarrow> s)\<lparr>ss_fsm_state := FACE_CHECK\<rparr>"
  have sk: "ss_session_key s = k" using ky by (auto simp: s_def keyed_def new_session_def split: option.splits)
  have "ledger_micro s \<le> used k w" using l by (auto simp: s_def led_def split: option.splits)
  then have l1: "led k (w\<lparr>w_store := put_session s (w_store w)\<rparr>) 0"
    using l sk by (intro led_put) (simp_all add: led_def)
  from run key obtain f w1 where
    "load_face svc (gs_face_key st) (w\<lparr>w_store := put_session s (w_store w),
        w_streams := (w_streams w)(k := w_streams w k @ [StageEvent FACE_CHECK])\<rparr>) = (Inr f, w1)" "w' = w1"
    by (auto simp: analyze_def Let_def obind_Inr op_get_session_def s_def)
  with load_face_store l1 show ?thesis by (simp add: load_face_store)
qed

definition fair :: "(meter \<Rightarrow> bool) \<Rightarrow> 'i services \<Rightarrow> string \<Rightarrow> bool" where
  \<comment> \<open>no price and no bill the session can meet is negative\<close>
  "fair honest svc k \<longleftrightarrow> money_ok (sv_loop svc) \<and> (\<forall>b. honest (meter_of (sv_pricing svc) k b)
     \<and> honest (meter_of (le_pricing (sv_loop svc)) k b))"

context graph_ports
begin

lemma ports_led:
  assumes h: "honest (node_meter svc st)" and key: "gs_session_key st = k" and l: "led k w 0" and ky: "keyed w"
  shows "sv_parse svc b (Some (node_meter svc st)) w = (Inr r1, w') \<Longrightarrow> paid_for k (po_cost r1) w w'"
    and "sv_extract svc img (Some (node_meter svc st)) w = (Inr r2, w') \<Longrightarrow> paid_for k (io_cost r2) w w'"
    and "sv_plan svc a i (Some (node_meter svc st)) w = (Inr r3, w') \<Longrightarrow> paid_for k (pn_cost r3) w w'"
    and "sv_fill svc p ans fm (Some (node_meter svc st)) w = (Inr r4, w') \<Longrightarrow> paid_for k (sf_cost r4) w w'"
proof -
  note paid = paid_forI [OF l ky]
  show "sv_parse svc b (Some (node_meter svc st)) w = (Inr r1, w') \<Longrightarrow> paid_for k (po_cost r1) w w'"
    using parse_quiet [where m = "node_meter svc st"] parse_charged [where m = "node_meter svc st"] h
    by (intro paid) (simp_all add: key)
  show "sv_extract svc img (Some (node_meter svc st)) w = (Inr r2, w') \<Longrightarrow> paid_for k (io_cost r2) w w'"
    using extract_quiet [where m = "node_meter svc st"] extract_charged [where m = "node_meter svc st"] h
    by (intro paid) (simp_all add: key)
  show "sv_plan svc a i (Some (node_meter svc st)) w = (Inr r3, w') \<Longrightarrow> paid_for k (pn_cost r3) w w'"
    using plan_quiet [where m = "node_meter svc st"] plan_charged [where m = "node_meter svc st"] h
    by (intro paid) (simp_all add: key)
  show "sv_fill svc p ans fm (Some (node_meter svc st)) w = (Inr r4, w') \<Longrightarrow> paid_for k (sf_cost r4) w w'"
    using fill_quiet [where m = "node_meter svc st"] fill_charged [where m = "node_meter svc st"] h
    by (intro paid) (simp_all add: key)
qed

lemma parse_brief_led:
  assumes h: "honest (node_meter svc st)" and key: "gs_session_key st = k" and l: "led k w 0" and ky: "keyed w"
    and run: "parse_brief svc st w = (Inr r, w')"
  shows "led k w' 0"
proof -
  from run key obtain o1 w1 s where p: "sv_parse svc (gs_brief st) (Some (node_meter svc st)) w = (Inr o1, w1)"
    and s: "get_session k (w_store w1) = Some s"
    and w': "w' = w1\<lparr>w_store := put_session (record_call CLASSIFY (po_cost o1) (po_usage o1)
               (s\<lparr>ss_brief_analysis := Some (po_analysis o1)\<rparr>)) (w_store w1)\<rparr>"
    by (auto simp: parse_brief_def obind_Inr)
  note paid = ports_led(1) [OF h key l ky p]
  have "get_session k (w_store w) = Some s" "ss_session_key s = k" "0 \<le> po_cost o1"
    using paid s by (auto simp: paid_for_def keyed_def)
  then show ?thesis unfolding w' by (intro record_paid [OF paid]) (simp_all add: ledger_record_call)
qed

lemma extract_inventory_led:
  assumes h: "honest (node_meter svc st)" and key: "gs_session_key st = k" and l: "led k w 0" and ky: "keyed w"
    and run: "extract_inventory svc st w = (Inr r, w')"
  shows "led k w' 0"
proof -
  from run key obtain s where s: "get_session k (w_store w) = Some s"
    by (auto simp: extract_inventory_def obind_Inr)
  have sk: "ss_session_key s = k" using ky s by (simp add: keyed_def)
  show ?thesis
  proof (cases "w' = w")
    case False
    with run key s obtain f photo o1 w1 u where
      p: "sv_extract svc photo (Some (node_meter svc st)) w = (Inr o1, w1)"
      and eq: "store_inventory s f o1 w1 = (Inr u, w')"
      by (auto simp: extract_inventory_def obind_Inr split: if_split_asm option.split_asm)
    note paid = ports_led(2) [OF h key l ky p]
    define w2 where "w2 = (if 0 < io_cost o1
        then w1\<lparr>w_store := put_session (record_call INVENTORY (io_cost o1) (io_usage o1) s) (w_store w1)\<rparr> else w1)"
    have "0 \<le> io_cost o1" using paid by (simp add: paid_for_def)
    then have "led k w2 0"
      using record_paid [OF paid s, of "record_call INVENTORY (io_cost o1) (io_usage o1) s"] paid_for_led [OF paid] sk
      by (simp add: w2_def ledger_record_call)
    moreover have "led k w' 0 = led k w2 0"
      using eq by (auto simp: store_inventory_def w2_def obind_Inr led_def used_def split: if_split_asm)
    ultimately show ?thesis by simp
  qed (use l in simp)
qed

lemma ask_led:
  assumes key: "gs_session_key st = k" and l: "led k w 0" and ky: "keyed w" and run: "ask svc st v w = (Inr r, w')"
  shows "led k w' 0"
proof -
  have "w' = w \<or> (\<exists>s. get_session k (w_store w) = Some s
      \<and> w' = w\<lparr>w_store := put_session (s\<lparr>ss_fsm_state := NEED_INPUT\<rparr>) (w_store w)\<rparr>)"
    using run key by (auto simp: ask_def obind_Inr split: option.split_asm if_split_asm)
  with l ky show ?thesis by (auto simp: keyed_def intro!: led_fsm_put)
qed

lemma resolve_led:
  assumes h: "honest (node_meter svc st)" and key: "gs_session_key st = k" and l: "led k w 0" and ky: "keyed w"
    and run: "resolve_constraints svc st w = (Inr r, w')"
  shows "led k w' 0"
proof -
  let ?w0 = "w\<lparr>w_streams := (w_streams w)(k := w_streams w k @ [StageEvent PLANNING])\<rparr>"
  have l0: "led k ?w0 0" and ky0: "keyed ?w0" using l ky by simp_all
  from run key obtain p ans fm f w1 where
    p: "sv_fill svc p ans fm (Some (node_meter svc st)) ?w0 = (Inr f, w1)"
    and a: "accept_fill svc st p f w1 = (Inr r, w')"
    by (auto simp: resolve_constraints_def obind_Inr)
  note paid = ports_led(4) [OF h key l0 ky0 p]
  from a show ?thesis
  proof (cases rule: accept_fill_cases)
    case (accepted b s)
    have s: "get_session k (w_store ?w0) = Some s" "ss_session_key s = k" "0 \<le> sf_cost f"
      using paid accepted(2) key by (auto simp: paid_for_def keyed_def)
    then show ?thesis unfolding accepted(4)
      by (intro record_paid [OF paid s(1)]) (simp_all add: resolved_session_def ledger_record_call)
  qed (use paid_for_led [OF paid] in simp_all)
qed

lemma plan_steps_led:
  assumes h: "honest (node_meter svc st)" and key: "gs_session_key st = k" and l: "led k w 0" and ky: "keyed w"
    and run: "plan_steps svc st w = (Inr r, w')"
  shows "led k w' 0"
proof -
  from run key obtain s p f o1 w1 cost pl es where s: "get_session k (w_store w) = Some s"
    and p: "sv_plan svc (session_analysis p s) f (Some (node_meter svc st)) w = (Inr o1, w1)"
    and w': "w' = w1\<lparr>w_store := put_session (record_call SLOT_FILL (pn_cost o1) (pn_usage o1) s
          \<lparr>ss_plan := Some pl, ss_cost_estimate := Some cost, ss_fsm_state := AWAITING_APPROVAL\<rparr>) (w_store w1),
        w_streams := es\<rparr>"
    by (auto simp: plan_steps_def obind_Inr Let_def)
  note paid = ports_led(3) [OF h key l ky p]
  have "ss_session_key s = k" "0 \<le> pn_cost o1" using ky s paid by (simp_all add: keyed_def paid_for_def)
  then have "led k (w1\<lparr>w_store := put_session (record_call SLOT_FILL (pn_cost o1) (pn_usage o1) s
          \<lparr>ss_plan := Some pl, ss_cost_estimate := Some cost, ss_fsm_state := AWAITING_APPROVAL\<rparr>) (w_store w1)\<rparr>) 0"
    by (intro record_paid [OF paid s]) (simp_all add: ledger_record_call)
  then show ?thesis unfolding w' by simp
qed

lemma approve_led:
  assumes key: "gs_session_key st = k" and l: "led k w 0" and ky: "keyed w"
    and run: "approve svc st v w = (Inr r, w')"
  shows "led k w' 0"
proof -
  have "w' = w \<or> (\<exists>s c d. get_session k (w_store w) = Some s
      \<and> w' = w\<lparr>w_store := put_session (select_composition c (s\<lparr>ss_approved := True, ss_slots := d\<rparr>)) (w_store w)\<rparr>)"
    using run key
    by (auto simp: approve_def obind_Inr split: option.split_asm if_split_asm prod.split_asm)
  with l ky show ?thesis by (auto simp: keyed_def select_composition_def intro!: led_fsm_put)
qed

lemma fail_node_led:
  assumes key: "gs_session_key st = k" and l: "led k w 0" and ky: "keyed w" and run: "fail_node st w = (Inr r, w')"
  shows "led k w' 0"
proof -
  have "w_store w' = w_store w \<or> (\<exists>s. get_session k (w_store w) = Some s
      \<and> w_store w' = put_session (s\<lparr>ss_fsm_state := FAILED\<rparr>) (w_store w))"
    using run key
    by (auto simp: fail_node_def obind_Inr op_get_session_def Let_def split: option.split_asm)
  then show ?thesis
  proof (elim disjE exE conjE)
    fix s assume s: "get_session k (w_store w) = Some s"
      "w_store w' = put_session (s\<lparr>ss_fsm_state := FAILED\<rparr>) (w_store w)"
    have "led k (w\<lparr>w_store := put_session (s\<lparr>ss_fsm_state := FAILED\<rparr>) (w_store w)\<rparr>) 0"
      using s(1) ky by (intro led_fsm_put [OF l s(1)]) (simp_all add: keyed_def)
    with s(2) show ?thesis by (simp add: led_def used_def)
  qed (use l in \<open>simp add: led_def used_def\<close>)
qed

lemma loop_run_led:
  assumes f: "fair honest svc k" and codec: "codec_ok svc" and l: "led k w 0" and ky: "keyed w"
    and run: "loop_run (sv_loop svc) k p idem crop a w = (Inr e, w')"
  shows "led k w' 0"
proof (cases "w_idem_get idem w")
  case (Some payload)
  from loop_run_replay [OF this, of "sv_loop svc" k p crop a] run l show ?thesis by simp
next
  case None
  have hm: "(money_ok (sv_loop svc) \<and> honest (meter_of (le_pricing (sv_loop svc)) k x)) = True" for x
    using f by (simp add: fair_def)
  have "\<And>x. is_terminal x \<Longrightarrow> le_load (sv_loop svc) (le_dump (sv_loop svc) x) = Inr x"
    using codec by (simp add: codec_ok_def)
  from loop_run_fresh [OF ky None this run, unfolded hm]
  obtain s t s' v ref b where post: "get_session k (w_store w) = Some s"
    "w' = snd (w_idem_put idem (le_dump (sv_loop svc) e) v)" "run_post True t k crop ref b s w e s' v"
    by blast
  from post(3) obtain its reqs wa where g: "grows True t k crop s w its reqs (s'\<lparr>ss_fsm_state := GENERATING\<rparr>) wa"
    and u: "used k v = used k wa" "get_session k (w_store v) = Some s'"
    by (auto simp: run_post_def)
  from g l obtain calls where c: "ss_llm_calls s' = ss_llm_calls s @ calls" "ss_iterations s' = ss_iterations s @ its"
    "list_all (\<lambda>p. 0 < pc_cost p) calls" "list_all (\<lambda>it. 0 \<le> it_cost it) its"
    "used k wa = used k w + micro_calls calls + micro_iterations its"
    by (auto simp: grows_def led_def)
  have "0 \<le> micro_calls calls" "0 \<le> micro_iterations its" using c(3,4) by (simp_all add: micro_nonneg)
  moreover have "ledger_micro s' = ledger_micro s + micro_calls calls + micro_iterations its"
    using c(1,2) by (simp add: ledger_micro_def)
  ultimately have "led k v 0" using l u c(5) post(1) by (auto simp: led_def)
  then show ?thesis by (simp add: post(2) led_def)
qed

lemma node_led:
  assumes f: "fair honest svc k" and codec: "codec_ok svc" and key: "gs_session_key st = k" and l: "led k w 0" and ky: "keyed w"
    and run: "run_node svc n st v w = (Inr r, w')"
  shows "led k w' 0"
proof -
  have h: "honest (node_meter svc st)" using f key by (simp add: fair_def node_meter_def)
  show ?thesis
  proof (cases n)
    case Quality_Gate
    with run l show ?thesis by (simp add: quality_gate_def)
  next
    case Generate
    let ?w1 = "w\<lparr>w_streams := (w_streams w)(k := w_streams w k @ [StageEvent GENERATING])\<rparr>"
    from run key Generate obtain crop p e a where
      "loop_run (sv_loop svc) k p (generation_idem_key k) crop a ?w1 = (Inr e, w')"
      by (auto simp: generate_def Let_def obind_Inr)
    from loop_run_led [OF f codec _ _ this] l ky show ?thesis by simp
  next
    case Done_Node
    with run l show ?thesis by (auto simp: done_node_def obind_Inr op_get_session_def Let_def)
  qed (use run analyze_led [OF _ key l ky] parse_brief_led [OF h key l ky] extract_inventory_led [OF h key l ky]
      ask_led [OF key l ky] resolve_led [OF h key l ky] plan_steps_led [OF h key l ky] approve_led [OF key l ky]
      fail_node_led [OF key l ky] in auto)
qed

lemma loop_run_keyed:
  assumes codec: "codec_ok svc" and ky: "keyed w"
    and run: "loop_run (sv_loop svc) k p idem crop a w = (Inr e, w')"
  shows "keyed w'"
proof (cases "w_idem_get idem w")
  case (Some payload)
  from loop_run_replay [OF this, of "sv_loop svc" k p crop a] run ky show ?thesis by simp
next
  case None
  have "\<And>x. is_terminal x \<Longrightarrow> le_load (sv_loop svc) (le_dump (sv_loop svc) x) = Inr x"
    using codec by (simp add: codec_ok_def)
  from loop_run_fresh [OF ky None this run]
  obtain h s t s' v ref b where post: "w' = snd (w_idem_put idem (le_dump (sv_loop svc) e) v)"
    "run_post h t k crop ref b s w e s' v"
    by blast
  then have "keyed v" using apart_keyed [OF _ ky] by (auto simp: run_post_def)
  then show ?thesis by (simp add: post(1))
qed

lemma node_keyed:
  assumes key: "gs_session_key st = k" and ok: "state_ok st" and ky: "keyed w" and codec: "codec_ok svc"
    and run: "run_node svc n st v w = (Inr r, w')"
  shows "keyed w'"
proof (cases "n \<in> {Generate, Done_Node, Fail_Node}")
  case True
  then consider "n = Generate" | "n = Done_Node" | "n = Fail_Node" by auto
  then show ?thesis
  proof cases
    case 1
    let ?w1 = "w\<lparr>w_streams := (w_streams w)(k := w_streams w k @ [StageEvent GENERATING])\<rparr>"
    from run key 1 obtain crop p e a where
      "loop_run (sv_loop svc) k p (generation_idem_key k) crop a ?w1 = (Inr e, w')"
      by (auto simp: generate_def Let_def obind_Inr)
    from loop_run_keyed [OF codec _ this] ky show ?thesis by simp
  next
    case 2
    with run done_node_closes [OF key, of w "Inr r" w'] ky show ?thesis by (auto simp: keyed_def)
  next
    case 3
    with run fail_node_closes [OF ok key ky, of "Inr r" w'] show ?thesis by simp
  qed
next
  case False
  with normal_node [OF _ key False run] ky show ?thesis by (simp add: held_def)
qed

text \<open>The counter covers the record at the end of every run that does not crash.\<close>

lemma run_led:
  assumes "graph_run svc n st v w = (res, w')" and "fair honest svc k" and "codec_ok svc" and "gs_session_key st = k"
    and "state_ok st" and "keyed w" and "led k w 0" and "\<forall>m s e. res \<noteq> Crashed m s e"
  shows "keyed w' \<and> led k w' 0"
  using assms
proof (induction rule: graph_run_induct)
  case (go n st v w st' w1 n' res w')
  have ok: "state_ok st'" and key: "gs_session_key st' = k"
    using run_node_ok [OF go(1,8)] run_node_input [OF go(1)] go(7) by (simp_all add: graph_input_def)
  show ?case
    by (rule go(4) [OF go(5,6) key ok node_keyed [OF go(7-9,6,1)] node_led [OF go(5,6,7,10,9,1)] go(11)])
qed (auto intro: node_led node_keyed)

end

end
