(* ===== verification/Wiring.thy ===== *)
theory Wiring
  imports Graph_Ledger Sha256
begin

text \<open>
  What \<open>build_container\<close> (\<open>src/api/deps.py\<close>) puts behind the ports: the dev fakes of
  \<open>services/connectors/fake.py\<close>, the InsightFace connector of \<open>insightface_embedder.py\<close>, and the
  OpenRouter connectors with the model of each stage. Pillow, numpy, the InsightFace pack, the
  HTTP endpoints and the file system stay parameters (\<open>externals\<close>). Both wirings satisfy the
  contract of the session graph: they interpret \<open>graph_ports\<close>.
\<close>

section \<open>InsightFace (\<open>insightface_embedder.py\<close>)\<close>

record raw_face =   \<comment> \<open>what the model pack reports\<close>
  rf_bbox :: bbox
  rf_det_score :: rat
  rf_pose :: "(rat \<times> rat \<times> rat) option"   \<comment> \<open>pitch, yaw, roll\<close>
  rf_normed_embedding :: "rat list"

record 'i insight =
  in_pil :: "'i pil"
  in_expand :: "'i \<Rightarrow> int \<Rightarrow> 'i"            \<comment> \<open>\<open>ImageOps.expand\<close> with the grey fill\<close>
  in_app :: "'i \<Rightarrow> raw_face list"          \<comment> \<open>\<open>FaceAnalysis.get\<close> on the frame's BGR pixels\<close>

definition pad_fraction :: rat where "pad_fraction = 1 / 4"

definition to_face :: "int \<Rightarrow> raw_face \<Rightarrow> detected_face" where
  "to_face offset f =
     (case rf_bbox f of (x1, y1, x2, y2) \<Rightarrow>
      case (case rf_pose f of None \<Rightarrow> (0, 0, 0) | Some p \<Rightarrow> p) of (pitch, yaw, roll) \<Rightarrow>
        \<lparr>df_bbox = (x1 - of_int offset, y1 - of_int offset, x2 - of_int offset, y2 - of_int offset),
         df_det_score = rf_det_score f, df_yaw = yaw, df_pitch = pitch, df_roll = roll,
         df_embedding = rf_normed_embedding f\<rparr>)"

definition bbox_area :: "detected_face \<Rightarrow> rat" where
  "bbox_area f = (case df_bbox f of (x1, y1, x2, y2) \<Rightarrow> (x2 - x1) * (y2 - y1))"

definition detect_faces :: "'i insight \<Rightarrow> 'i \<Rightarrow> int \<Rightarrow> detected_face list" where   \<comment> \<open>\<open>_detect\<close>\<close>
  \<comment> \<open>\<open>sort(reverse=True)\<close> is stable, like \<open>sort_key\<close> of the opposite\<close>
  "detect_faces x frame offset =
     sort_key (\<lambda>f. - bbox_area f) (map (to_face offset) (in_app x frame))"

definition analyze_sync :: "'i insight \<Rightarrow> bytes \<Rightarrow> detected_face list result" where
  "analyze_sync x img =
     bind_res (decode_rgb (in_pil x) img) (\<lambda>frame.
       let faces = detect_faces x frame 0 in
       if faces = []
       then (let pad = half_even (of_int (max (pil_width (in_pil x) frame) (pil_height (in_pil x) frame)) * pad_fraction)
             in Inr (detect_faces x (in_expand x frame pad) pad))
       else Inr faces)"

definition insight_embed :: "'i insight \<Rightarrow> bytes \<Rightarrow> rat list result" where
  "insight_embed x img =
     bind_res (analyze_sync x img) (\<lambda>faces.
       case faces of
         [] \<Rightarrow> Inl (ValueError (''no face detected '' @ em_dash @ '' cannot embed''))
       | f # _ \<Rightarrow> Inr (df_embedding f))"

section \<open>Fakes (\<open>fake.py\<close>)\<close>

definition embed_dim :: nat where "embed_dim = 512"

definition constant_identity :: "rat list" where
  "constant_identity = (replicate embed_dim 0)[0 := 1]"

definition fake_analyze :: "'i pil \<Rightarrow> bytes \<Rightarrow> detected_face list result" where
  "fake_analyze p img =
     bind_res (decode_rgb p img) (\<lambda>frame.
       let width = of_int (pil_width p frame); height = of_int (pil_height p frame);
           side = min width height / 2; cx = width / 2; cy = height / 2
       in Inr [\<lparr>df_bbox = (cx - side / 2, cy - side / 2, cx + side / 2, cy + side / 2),
                df_det_score = 99 / 100, df_yaw = 0, df_pitch = 0, df_roll = 0,
                df_embedding = constant_identity\<rparr>])"

definition fake_embed :: "'i pil \<Rightarrow> bytes \<Rightarrow> rat list result" where
  "fake_embed p img = bind_res (decode_rgb p img) (\<lambda>_. Inr constant_identity)"

definition fake_inventory :: photo_inventory where
  "fake_inventory = empty_inventory
     \<lparr>inv_pose := ''standing, facing the camera'', inv_clothing := ''plain t-shirt'',
      inv_background := ''a plain indoor room''\<rparr>"

definition fake_extract :: "'i pil \<Rightarrow> bytes \<Rightarrow> meter option \<Rightarrow> inventory_outcome op" where
  "fake_extract p img m =
     obind (lift_res (decode_rgb p img)) (\<lambda>_.
       ret \<lparr>io_inventory = fake_inventory, io_usage = None, io_cost = 0\<rparr>)"

definition fake_generate :: "bytes \<Rightarrow> gen_request list \<Rightarrow> gen_request \<Rightarrow> gen_outcome" where
  \<comment> \<open>\<open>noise\<close>: the bytes of the fixed-seed JPEG\<close>
  "fake_generate noise sent rq =
     (if gq_reference_images rq = []
      then Gen_Failed ''reference-conditioned edit requires at least one reference image''
      else Generated \<lparr>gi_image_bytes = noise,
                      gi_provider_request_id = ''fake-'' @ take 16 (sha256_hex (gq_prompt rq)),
                      gi_usage = None\<rparr>)"

section \<open>The container (\<open>build_container\<close>)\<close>

record 'i externals =
  ex_insight :: "'i insight"
  ex_numpy :: numpy
  ex_fs :: file_system
  ex_chat :: llm                      \<comment> \<open>the chat endpoint, its retries and the JSON codec\<close>
  ex_image_post :: "gen_request list \<Rightarrow> nat \<Rightarrow> json \<Rightarrow> http_answer"
  ex_py_str :: "json \<Rightarrow> string"
  ex_noise :: bytes
  ex_parse_overrides :: "string \<Rightarrow> pricing_overrides result"
  ex_dump :: "event \<Rightarrow> bytes"
  ex_load :: "bytes \<Rightarrow> event result"

definition stage_client :: "'i externals \<Rightarrow> settings \<Rightarrow> string \<Rightarrow> llm" where
  \<comment> \<open>the shared transport with the model of one stage\<close>
  "stage_client ex s model =
     (ex_chat ex)\<lparr>ll_model := model, ll_attempts := nat (cf_openrouter_retry_attempts s)\<rparr>"

definition base_loop :: "'i externals \<Rightarrow> settings \<Rightarrow> pricing_table \<Rightarrow> 'i loop_env" where
  \<comment> \<open>\<open>GenerationLoop\<close> in the fake wiring\<close>
  "base_loop ex s t =
     \<lparr>le_pil = in_pil (ex_insight ex), le_numpy = ex_numpy ex,
      le_embed = fake_embed (in_pil (ex_insight ex)), le_generate = fake_generate (ex_noise ex),
      le_compose = (\<lambda>rq fm m. ret (deterministic_compose rq)),
      le_revise = (\<lambda>b f rq m. ret (deterministic_revise b)),
      le_pricing = t, le_max_iterations = cf_max_iterations s,
      le_generation_model = cf_generation_model s, le_upscale_factor = cf_upscale_factor s,
      le_dump = ex_dump ex, le_load = ex_load ex\<rparr>"

definition fake_services :: "'i externals \<Rightarrow> settings \<Rightarrow> library \<Rightarrow> pricing_table \<Rightarrow> 'i services" where
  "fake_services ex s lib t =
     \<lparr>sv_pil = in_pil (ex_insight ex), sv_detect = fake_analyze (in_pil (ex_insight ex)),
      sv_gate = gate_thresholds_of s, sv_library = lib,
      sv_fill = (\<lambda>p ans fm m. lift_res (default_fill p ans)),
      sv_parse = (\<lambda>b m. ret (deterministic_parse b)),
      sv_extract = fake_extract (in_pil (ex_insight ex)),
      sv_plan = (\<lambda>a i m. ret (deterministic_plan a)),
      sv_loop = with_det_writer (base_loop ex s t), sv_pricing = t,
      sv_generation_model = cf_generation_model s\<rparr>"

definition openrouter_services :: "'i externals \<Rightarrow> settings \<Rightarrow> library \<Rightarrow> pricing_table \<Rightarrow> 'i services" where
  "openrouter_services ex s lib t =
     \<lparr>sv_pil = in_pil (ex_insight ex), sv_detect = analyze_sync (ex_insight ex),
      sv_gate = gate_thresholds_of s, sv_library = lib,
      sv_fill = or_fill (stage_client ex s (cf_slot_filler_model s)),
      sv_parse = or_parse (stage_client ex s (cf_brief_parser_model s)),
      sv_extract = or_extract (stage_client ex s (cf_inventory_model s)),
      sv_plan = or_plan (stage_client ex s (cf_planner_model s)),
      sv_loop = with_or_writer (stage_client ex s (cf_prompt_writer_model s))
        ((base_loop ex s t)
           \<lparr>le_embed := insight_embed (ex_insight ex),
            le_generate := or_generate (cf_generation_model s) (nat (cf_openrouter_retry_attempts s))
                             (ex_image_post ex) (ex_py_str ex)\<rparr>),
      sv_pricing = t, sv_generation_model = cf_generation_model s\<rparr>"

definition build_services :: "'i externals \<Rightarrow> settings \<Rightarrow> 'i services result" where
  "build_services ex s =
     bind_res (load_library (ex_fs ex) s) (\<lambda>lib.
     bind_res (settings_pricing (ex_parse_overrides ex) s) (\<lambda>t.
       Inr (if cf_fake_connectors s then fake_services ex s lib t else openrouter_services ex s lib t)))"

section \<open>Both wirings satisfy the graph's contract\<close>

lemma llm_honest_model [simp]: "llm_honest (stage_client ex s model) = llm_honest (ex_chat ex)"
  by (rule ext) (simp add: llm_honest_def stage_client_def)

lemma fake_extract_free: "fake_extract p img m w = (x, w') \<Longrightarrow> w' = w \<and> (\<forall>r. x = Inr r \<longrightarrow> io_cost r = 0)"
  by (cases "decode_rgb p img") (auto simp: fake_extract_def)

lemma default_fill_free: "default_fill p ans = Inr f \<Longrightarrow> sf_cost f = 0"
  by (auto simp: default_fill_def bind_res_Inr_iff)

interpretation fake_graph: graph_ports "\<lambda>_. True" "fake_services ex s lib t" for ex s lib t
proof (rule graph_ports.intro)
  show "loop_services (\<lambda>_. True) (sv_loop (fake_services ex s lib t))"
    by (simp add: fake_services_def det_loop.loop_services_axioms)
  show "planner_contract (sv_plan (fake_services ex s lib t))"
    by (simp add: fake_services_def det_planner.planner_contract_axioms)
  show "slot_filler_contract (sv_fill (fake_services ex s lib t))"
    by (simp add: fake_services_def default_filler.slot_filler_contract_axioms)
  show "graph_ports_axioms (\<lambda>_. True) (fake_services ex s lib t)"
    by (simp add: graph_ports_axioms_def fake_services_def)
       (auto simp: deterministic_parse_def deterministic_plan_def default_fill_free dest!: fake_extract_free)
qed

interpretation or_graph: graph_ports "llm_honest (ex_chat ex)" "openrouter_services ex s lib t" for ex s lib t
proof (rule graph_ports.intro)
  show "loop_services (llm_honest (ex_chat ex)) (sv_loop (openrouter_services ex s lib t))"
    using or_loop.loop_services_axioms [of "stage_client ex s (cf_prompt_writer_model s)"]
    by (simp add: openrouter_services_def)
  show "planner_contract (sv_plan (openrouter_services ex s lib t))"
    by (simp add: openrouter_services_def or_planner.planner_contract_axioms)
  show "slot_filler_contract (sv_fill (openrouter_services ex s lib t))"
    by (simp add: openrouter_services_def or_filler.slot_filler_contract_axioms)
  show "graph_ports_axioms (llm_honest (ex_chat ex)) (openrouter_services ex s lib t)"
    unfolding graph_ports_axioms_def openrouter_services_def services.simps
    by (intro conjI allI impI;
        ((erule or_parse_money(1) or_extract_money(1) or_plan_money(1) or_fill_money(1))
          | (drule or_parse_money(2) [OF _ refl], simp) | (drule or_extract_money(2) [OF _ refl], simp)
          | (drule or_plan_money(2) [OF _ refl], simp) | (drule or_fill_money(2) [OF _ refl], simp)))
qed

section \<open>The port contract of the analyzer\<close>

text \<open>\<open>[0]\<close> is the primary face: no other detected face is larger.\<close>

lemma detect_faces_primary:
  assumes "detect_faces x frame k = f # rest" and "g \<in> set (f # rest)"
  shows "bbox_area g \<le> bbox_area f"
proof -
  have "sorted (map (\<lambda>f. - bbox_area f) (detect_faces x frame k))" by (simp add: detect_faces_def)
  with assms show ?thesis by auto
qed

lemma to_face_area: "bbox_area (to_face k f) = bbox_area (to_face 0 f)"
  by (auto simp: bbox_area_def to_face_def split: prod.splits)

text \<open>The padded retry runs exactly when the plain frame has no face.\<close>

lemma analyze_sync_found:
  assumes "decode_rgb (in_pil x) img = Inr frame" "in_app x frame \<noteq> []"
  shows "analyze_sync x img = Inr (detect_faces x frame 0)"
  using assms by (simp add: analyze_sync_def Let_def detect_faces_def)
     (metis length_0_conv length_map length_sort)

text \<open>The fake face lies inside the frame, centred, and every frame has the same identity.\<close>

lemma fake_face_inside:
  assumes "fake_analyze p img = Inr faces" "decode_rgb p img = Inr frame"
    and "0 \<le> pil_width p frame" "0 \<le> pil_height p frame"
  shows "\<exists>f x1 y1 x2 y2. faces = [f] \<and> df_bbox f = (x1, y1, x2, y2) \<and> 0 \<le> x1 \<and> x1 \<le> x2
    \<and> x2 \<le> of_int (pil_width p frame) \<and> 0 \<le> y1 \<and> y1 \<le> y2 \<and> y2 \<le> of_int (pil_height p frame)
    \<and> df_embedding f = constant_identity"
  using assms by (auto simp: fake_analyze_def Let_def min_def)

lemma constant_identity_ne: "constant_identity \<noteq> []"
  by (simp add: constant_identity_def embed_dim_def)

end
