(* ===== verification/Deployment.thy ===== *)
theory Deployment
  imports Runner_Safety Event_Bus Wiring
begin

text \<open>
  Whole sessions of a deployed process: the services \<open>build_container\<close> wires satisfy the contract of
  the graph, and the laws of single runs lift to a session, a first run and one run per answer.
\<close>

definition deployed :: "'i externals \<Rightarrow> settings \<Rightarrow> 'i services \<Rightarrow> bool" where
  \<comment> \<open>one of the two wirings, over some library and price table\<close>
  "deployed ex s svc \<longleftrightarrow> (\<exists>lib t. svc = fake_services ex s lib t \<or> svc = openrouter_services ex s lib t)"

lemma built_deployed: "build_services ex s = Inr svc \<Longrightarrow> deployed ex s svc"
  unfolding build_services_def deployed_def by (auto simp: bind_res_Inr_iff split: if_splits)

lemma deployed_ports:
  assumes "deployed ex s svc"
  obtains h where "graph_ports h svc" "\<And>m. llm_honest (ex_chat ex) m \<Longrightarrow> h m"
  using assms fake_graph.graph_ports_axioms or_graph.graph_ports_axioms unfolding deployed_def by blast

section \<open>Sessions\<close>

definition first_run :: "'i services \<Rightarrow> string \<Rightarrow> string \<Rightarrow> string \<Rightarrow> int \<Rightarrow> world \<Rightarrow> graph_outcome \<times> world" where
  "first_run svc k face brief limit w = graph_run svc Analyze (initial_state k face brief limit) None w"

fun approved_in :: "'i services \<Rightarrow> resume_value list \<Rightarrow> graph_outcome \<Rightarrow> world \<Rightarrow> bool" where
  \<comment> \<open>some answer approves the plan when the approval is what is pending\<close>
  "approved_in svc [] res w = False"
| "approved_in svc (v # vs) res w =
     (case checkpoint_of res of
        (st, None) \<Rightarrow> False
      | (st, Some n) \<Rightarrow>
          n = Approve \<and> fst (parse_decision v)
          \<or> (case graph_run svc n st (Some v) (narrated res w) of (res', w') \<Rightarrow> approved_in svc vs res' w'))"

lemma first_pause:
  assumes "first_run svc k face brief limit w = (Paused n st q, w')"
  shows "n \<in> {Ask, Approve} \<and> pauses_left n st \<le> max_reasks + 2"
  using run_pauses [OF assms [unfolded first_run_def] refl] by (simp add: reasks_of_def initial_state_def)

lemma first_questions:
  assumes "first_run svc k face brief limit w = (res, w')"
  shows "(if is_paused res then 1 else 0) + questions_left res \<le> max_reasks + 2"
  using run_questions [OF assms [unfolded first_run_def]] by (simp add: reasks_of_def initial_state_def)

section \<open>Lifting the laws of a run\<close>

text \<open>What a run leaves for the next one.\<close>

definition resumable :: "string \<Rightarrow> graph_outcome \<Rightarrow> world \<Rightarrow> bool" where
  "resumable k res w \<longleftrightarrow>
     keyed w \<and> state_ok (fst (checkpoint_of res)) \<and> gs_session_key (fst (checkpoint_of res)) = k"

lemma narrated_keeps [simp]:
  "keyed (narrated res w) = keyed w" "led k (narrated res w) c = led k w c"
  "ungenerated k (narrated res w) = ungenerated k w" "resumable k res' (narrated res w) = resumable k res' w"
  by (simp_all add: narrated_def Let_def keyed_def led_def used_def ungenerated_def w_idem_get_def resumable_def)

lemma narrated_stream:
  "resumable k res w \<Longrightarrow> w_streams (narrated res w) k = w_streams w k @ last_words res"
  by (simp add: narrated_def Let_def resumable_def)

definition final_events :: "event list \<Rightarrow> nat" where   \<comment> \<open>how many would close the stream\<close>
  "final_events es = length (filter (\<lambda>e. event_type e \<in> {''done'', ''failed''}) es)"

lemma final_events_append [simp]: "final_events (xs @ ys) = final_events xs + final_events ys" "final_events [] = 0"
  by (simp_all add: final_events_def)

lemma final_events_none: "final_events es = 0 \<longleftrightarrow> (\<forall>x\<in>set es. event_type x \<notin> {''done'', ''failed''})"
  by (auto simp: final_events_def filter_empty_conv)

lemma final_last_words: "final_events (last_words res) = (if is_crashed res then 1 else 0)"
  by (cases res) (simp_all add: final_events_def)

definition ends_with_final :: "string \<Rightarrow> nat \<Rightarrow> world \<Rightarrow> world \<Rightarrow> bool" where
  \<comment> \<open>the stream of \<open>k\<close> grew; its last event is final and \<open>n\<close> final ones precede it in the growth\<close>
  "ends_with_final k n w w' \<longleftrightarrow>
     (\<exists>es e. w_streams w' k = w_streams w k @ es @ [e] \<and> event_type e \<in> {''done'', ''failed''} \<and> final_events es = n)"

lemma closed_ends: "(\<exists>e. closed_by k e w w') \<longleftrightarrow> ends_with_final k 0 w w'"
  unfolding closed_by_def ends_with_final_def final_events_none by blast

lemma ends_after:
  assumes "w_streams w1 k = w_streams w k @ es" and "ends_with_final k n w1 w'"
  shows "ends_with_final k (final_events es + n) w w'"
proof -
  from assms(2) obtain fs e where "w_streams w' k = w_streams w1 k @ fs @ [e]" "event_type e \<in> {''done'', ''failed''}"
    "final_events fs = n" unfolding ends_with_final_def by blast
  with assms(1) show ?thesis unfolding ends_with_final_def by (intro exI [of _ "es @ fs"] exI [of _ e]) simp
qed

lemma steady_final:
  assumes "steady k w w1"
  obtains es where "w_streams w1 k = w_streams w k @ es" "final_events es = 0"
  using assms by (elim steady_stream) (simp add: final_events_none)

context graph_ports
begin

lemma first_resumable:
  assumes "first_run svc k face brief limit w = (res, w')" and "keyed w'"
  shows "resumable k res w'"
proof -
  have "gs_session_key (initial_state k face brief limit) = k" by (simp add: initial_state_def)
  from run_checkpoint [OF assms(1) [unfolded first_run_def] state_ok_initial this] assms(2) show ?thesis
    by (simp add: resumable_def)
qed

lemma run_resumable:
  assumes "graph_run svc n st v w = (res', w')" and "checkpoint_of res = (st, Some n)" and "resumable k res w"
    and "keyed w'"
  shows "resumable k res' w'"
  using run_checkpoint [OF assms(1)] assms(2-4) by (simp add: resumable_def)

text \<open>Without approval a session never comes to \<open>generate\<close>, however often it crashes on the way.\<close>

lemma session_unapproved:
  assumes "resumable k res w" and "snd (checkpoint_of res) \<noteq> Some Generate"
    and "\<not> approved_in svc vs res w" and "graph_session svc vs res w = (res', w')"
  shows "w_gen_log w' = w_gen_log w"
  using assms
proof (induction vs arbitrary: res w)
  case Nil
  then show ?case by auto
next
  case (Cons v vs)
  show ?case
  proof (cases res rule: outcome_cases)
    case (waiting st n)
    obtain res1 w1 where r: "graph_run svc n st (Some v) (narrated res w) = (res1, w1)" by fastforce
    from Cons.prems(1) waiting have p: "keyed (narrated res w)" "state_ok st" "gs_session_key st = k"
      by (simp_all add: resumable_def)
    have na: "\<not> (n = Approve \<and> approves (Some v))" using Cons.prems(3) waiting(1) by (auto simp: approves_def)
    have n: "n \<noteq> Generate" using Cons.prems(2) waiting(1) by simp
    from unapproved_run [OF r p n na] have u: "w_gen_log w1 = w_gen_log w" "keyed w1"
      "snd (checkpoint_of res1) \<noteq> Some Generate" by simp_all
    have "resumable k res1 w1" using run_resumable [OF r waiting(1) _ u(2), of k] Cons.prems(1) by simp
    from Cons.IH [OF this u(3)] Cons.prems(3,4) u(1) show ?thesis by (simp add: waiting(1) r)
  qed (use Cons.prems in simp)
qed

text \<open>The stream of a session: nothing final while it waits but the error of a crashed run, one final event
when it is over.\<close>

lemma session_ends:
  assumes "resumable k res w" and "\<And>st1. res \<noteq> Finished st1" and "snd (checkpoint_of res) \<noteq> Some Done_Node"
    and "ungenerated k w" and "codec_ok svc"
    and "\<forall>x\<in>set (session_outcomes svc vs res w). snd (checkpoint_of x) \<noteq> Some Generate"
    and "graph_session svc vs res w = (Finished st', w')"
  shows "ends_with_final k (length (filter is_crashed (session_outcomes svc vs res w))) w w'"
  using assms
proof (induction vs arbitrary: res w)
  case (Cons v vs)
  from Cons.prems(2) obtain st n where cp: "checkpoint_of res = (st, Some n)" by (cases res) auto
  obtain res1 w1 where r: "graph_run svc n st (Some v) (narrated res w) = (res1, w1)" by fastforce
  let ?w = "narrated res w"
  from Cons.prems(1) cp have p: "keyed ?w" "state_ok st" "gs_session_key st = k" by (simp_all add: resumable_def)
  have n: "n \<noteq> Done_Node" using Cons.prems(3) cp by simp
  have outs: "session_outcomes svc (v # vs) res w = res # session_outcomes svc vs res1 w1" by (simp add: cp r)
  have rest: "graph_session svc vs res1 w1 = (Finished st', w')" using Cons.prems(7) by (simp add: cp r)
  have "ends_with_final k (length (filter is_crashed (session_outcomes svc vs res1 w1))) ?w w'"
  proof (cases res1 rule: outcome_cases)
    case (finished st1)
    from run_closes [OF r p(1,2,3) _ Cons.prems(5) n] Cons.prems(4) rest show ?thesis
      by (auto simp: finished(1) closed_ends [symmetric])
  next
    case (waiting st1 m)
    have "res1 \<in> set (session_outcomes svc vs res1 w1)" by simp
    with Cons.prems(6) [unfolded outs] have g: "snd (checkpoint_of res1) \<noteq> Some Generate"
      by (blast intro: list.set_intros)
    have "is_paused res1 \<or> is_crashed res1" using waiting by (cases res1) auto
    from run_before_generate [OF r this g p(1,2,3) n] have st: "keyed w1" "steady k ?w w1"
      "snd (checkpoint_of res1) \<noteq> Some Done_Node" by blast+
    have re: "resumable k res1 w1" using run_resumable [OF r cp _ st(1), of k] Cons.prems(1) by simp
    have ug: "ungenerated k w1" using steady_ungenerated [OF st(2)] Cons.prems(4) by simp
    have "\<forall>x\<in>set (session_outcomes svc vs res1 w1). snd (checkpoint_of x) \<noteq> Some Generate"
      using Cons.prems(6) [unfolded outs] by (blast intro: list.set_intros)
    from Cons.IH [OF re waiting(2) st(3) ug Cons.prems(5) this rest]
    have "ends_with_final k (length (filter is_crashed (session_outcomes svc vs res1 w1))) w1 w'" .
    moreover obtain es where "w_streams w1 k = w_streams ?w k @ es" "final_events es = 0"
      using st(2) by (rule steady_final)
    ultimately show ?thesis using ends_after by fastforce
  qed
  from ends_after [OF narrated_stream [OF Cons.prems(1)] this] show ?case
    unfolding outs by (cases "is_crashed res") (simp_all add: final_last_words)
qed simp

lemma first_and_session_ends:
  assumes run: "first_run svc k face brief limit w = (res, w1)" and ky: "keyed w" and fresh: "ungenerated k w"
    and codec: "codec_ok svc"
    and g: "\<forall>x\<in>set (session_outcomes svc vs res w1). snd (checkpoint_of x) \<noteq> Some Generate"
    and rest: "graph_session svc vs res w1 = (Finished st', w')"
  shows "ends_with_final k (length (filter is_crashed (session_outcomes svc vs res w1))) w w'"
proof -
  note r = run [unfolded first_run_def]
  have key: "gs_session_key (initial_state k face brief limit) = k" by (simp add: initial_state_def)
  show ?thesis
  proof (cases res rule: outcome_cases)
    case (finished st1)
    from run_closes [OF r ky state_ok_initial key fresh codec] rest show ?thesis
      by (auto simp: finished(1) closed_ends [symmetric])
  next
    case (waiting st1 m)
    from g have g1: "snd (checkpoint_of res) \<noteq> Some Generate" using session_outcomes_first by blast
    have "is_paused res \<or> is_crashed res" using waiting by (cases res) auto
    from run_before_generate [OF r this g1 ky state_ok_initial key] have st: "keyed w1" "steady k w w1"
      "snd (checkpoint_of res) \<noteq> Some Done_Node" by simp_all
    have "ungenerated k w1" using steady_ungenerated [OF st(2)] fresh by simp
    from session_ends [OF first_resumable [OF run st(1)] waiting(2) st(3) this codec g rest]
    have "ends_with_final k (length (filter is_crashed (session_outcomes svc vs res w1))) w1 w'" .
    moreover obtain es where "w_streams w1 k = w_streams w k @ es" "final_events es = 0"
      using st(2) by (rule steady_final)
    ultimately show ?thesis using ends_after by fastforce
  qed
qed

text \<open>Money over a session none of whose runs crashed.\<close>

lemma session_led:
  assumes "resumable k res w" and "fair honest svc k" and "codec_ok svc" and "led k w 0"
    and "graph_session svc vs res w = (res', w')"
    and "\<forall>x\<in>set (session_outcomes svc vs res w). \<not> is_crashed x"
  shows "led k w' 0"
  using assms
proof (induction vs arbitrary: res w)
  case Nil
  then show ?case by auto
next
  case (Cons v vs)
  show ?case
  proof (cases res rule: outcome_cases)
    case (waiting st n)
    obtain res1 w1 where r: "graph_run svc n st (Some v) (narrated res w) = (res1, w1)" by fastforce
    from Cons.prems(1) waiting(1) have p: "keyed (narrated res w)" "state_ok st" "gs_session_key st = k"
      by (simp_all add: resumable_def)
    have rest: "graph_session svc vs res1 w1 = (res', w')" using Cons.prems(5) by (simp add: waiting(1) r)
    have nc: "\<forall>x\<in>set (session_outcomes svc vs res1 w1). \<not> is_crashed x" using Cons.prems(6) by (simp add: waiting(1) r)
    then have "\<not> is_crashed res1" using session_outcomes_first by blast
    then have "\<forall>m s e. res1 \<noteq> Crashed m s e" by auto
    from run_led [OF r Cons.prems(2,3) p(3,2,1) _ this] Cons.prems(4) have l: "keyed w1" "led k w1 0" by simp_all
    have "resumable k res1 w1" using run_resumable [OF r waiting(1) _ l(1), of k] Cons.prems(1) by simp
    from Cons.IH [OF this Cons.prems(2,3) l(2) rest nc] show ?thesis .
  qed (use Cons.prems in simp)
qed

lemma first_and_session_led:
  assumes run: "first_run svc k face brief limit w = (res, w1)" and ky: "keyed w" and l: "led k w 0"
    and f: "fair honest svc k" and codec: "codec_ok svc" and rest: "graph_session svc vs res w1 = (res', w')"
    and nc: "\<forall>x\<in>set (session_outcomes svc vs res w1). \<not> is_crashed x"
  shows "led k w' 0"
proof -
  have key: "gs_session_key (initial_state k face brief limit) = k" by (simp add: initial_state_def)
  from nc have "\<not> is_crashed res" using session_outcomes_first by blast
  then have "\<forall>m s e. res \<noteq> Crashed m s e" by auto
  from run_led [OF run [unfolded first_run_def] f codec key state_ok_initial ky l this]
  have l1: "keyed w1" "led k w1 0" by simp_all
  from session_led [OF first_resumable [OF run l1(1)] f codec l1(2) rest nc] show ?thesis .
qed

end

section \<open>Lock discipline over reachable states\<close>

definition careful_step :: "'i services \<Rightarrow> runner \<Rightarrow> runner \<Rightarrow> bool" where
  \<comment> \<open>a step that does not end a task with its lock: before its first step, while it gives the lock back,
     or by a crash of its process\<close>
  "careful_step svc r r' \<longleftrightarrow>
     runner_step svc r r'
     \<and> (\<forall>i k w. r' = cancel_run i k w r \<longrightarrow> \<not> cancels_unguarded i k r)
     \<and> (\<forall>u w. r' = stop_task u w r \<longrightarrow> u \<in> set (rn_runs r) \<longrightarrow> guarded (ru_phase u))
     \<and> (\<forall>i. r' = crash_replica i r \<longrightarrow> \<not> crash_leaks i r)"

context graph_ports
begin

lemma careful_reachable:
  assumes "(careful_step svc)\<^sup>*\<^sup>* (idle_runner w) r" and "ms_locks (w_store w) = Map.empty"
  shows "single r \<and> orderly r"
  using assms(1)
proof (induction rule: rtranclp_induct)
  case base
  show ?case using assms(2) by (simp add: single_def orderly_def idle_runner_def locks_of_def)
next
  case (step r r')
  then have "runner_step svc r r'" "single r" "orderly r" by (simp_all add: careful_step_def)
  moreover have "orderly r'"
    by (rule step_orderly [OF calculation]) (use step(2) in \<open>auto simp: careful_step_def\<close>)
  ultimately show ?case using step_single by blast
qed

end

end
