(* ===== verification/Samples.thy ===== *)
theory Samples
  imports Llm_Ports
begin

text \<open>
  Concrete inputs for the witnesses: a small preset, a session whose plan is half done, a face,
  a world that holds them, and providers that answer fixed values.
\<close>

definition sample_pil :: "nat pil" where
  \<comment> \<open>an image is the length of its file; every file decodes to a 1024 by 1024 frame\<close>
  "sample_pil =
     \<lparr>pil_open = (\<lambda>b. Some (length b)), pil_rgb = (\<lambda>i. i), pil_width = (\<lambda>_. 1024),
      pil_height = (\<lambda>_. 1024), pil_crop = (\<lambda>i _. i), pil_resize = (\<lambda>i _. i),
      pil_luma = (\<lambda>_. [[1, 2], [3, 4]]), pil_median = (\<lambda>i _. i), pil_jpeg = (\<lambda>i _. ''jpeg'')\<rparr>"

definition sample_numpy :: numpy where
  "sample_numpy = \<lparr>np_norm = (\<lambda>v. sum_list (map abs v)), np_dot = (\<lambda>a b. sum_list (map2 (*) a b))\<rparr>"

definition sample_pricing :: pricing_table where
  "sample_pricing = pricing_default ''gen'' ''lite''"

definition sample_env :: "nat loop_env" where
  "sample_env =
     \<lparr>le_pil = sample_pil, le_numpy = sample_numpy, le_embed = (\<lambda>_. Inr [1]),
      le_generate = (\<lambda>_ _. Gen_Failed ''offline''),
      le_compose = (\<lambda>rq _ _. ret (deterministic_compose rq)),
      le_revise = (\<lambda>b _ _ _. ret (deterministic_revise b)),
      le_pricing = sample_pricing, le_max_iterations = 8, le_generation_model = ''gen'',
      le_upscale_factor = 2, le_dump = event_type, le_load = (\<lambda>_. Inr (DoneEvent 0 0))\<rparr>"

definition sample_llm :: llm where
  "sample_llm =
     \<lparr>ll_model = ''lite'', ll_attempts = 2, ll_post = (\<lambda>_ _. Unreached ''offline''),
      ll_dumps = (\<lambda>_. []), ll_loads = (\<lambda>_. Inl (ValueError ''no json''))\<rparr>"

definition sample_thresholds :: thresholds where
  "sample_thresholds =
     \<lparr>th_similarity_threshold = 6 / 10, th_identity_floor = 45 / 100, th_K_max_retries = 2\<rparr>"

definition sample_generation :: generation where
  "sample_generation =
     \<lparr>gen_temperature = 4 / 10, gen_aspect_ratio = ''1:1'', gen_face_media_resolution = ''high'',
      gen_output_size = ''1K''\<rparr>"

definition sample_slots :: "(string, slot) dict" where
  "sample_slots =
     [(''scene'', \<lparr>sl_required = True, sl_ask = True, sl_default = Some ''a studio'', sl_enum = None,
        sl_policy = Default\<rparr>),
      (''style'', \<lparr>sl_required = True, sl_ask = True, sl_default = Some ''plain'',
        sl_enum = Some [''plain'', ''warm light''], sl_policy = Locked\<rparr>)]"

definition sample_preset :: preset where
  "sample_preset =
     \<lparr>pr_id = ''portrait'', pr_version = ''1.0.0'', pr_use_case = [''portrait''], pr_mode = Mode_edit,
      pr_identity_instruction = ''Keep the person.'', pr_prompt_structure = ''A {scene}, {style}.'',
      pr_style_notes = [], pr_negative_prompt = ''text'', pr_slots = sample_slots,
      pr_generation = sample_generation, pr_thresholds = sample_thresholds, pr_compositions = [],
      pr_anchor_examples = []\<rparr>"

definition sample_metrics :: frame_metrics where
  "sample_metrics =
     \<lparr>fm_face_count = 1, fm_face_area_ratio = 2 / 10, fm_face_side = 300, fm_secondary_face_ratio = 0,
      fm_blur_var = 100, fm_yaw = 0, fm_pitch = 0, fm_roll = 0, fm_brightness = 120,
      fm_width = 1024, fm_height = 1024\<rparr>"

definition sample_face :: face_profile where
  "sample_face =
     \<lparr>fp_face_key = ''f1'', fp_embedding = [1], fp_gate_verdict = PASSED, fp_gate_reason = OK,
      fp_metrics = sample_metrics, fp_convergence = fresh_convergence,
      fp_photo_ref = ''faces/f1/photo'', fp_inventory = None\<rparr>"

definition sample_iteration :: iteration where
  "sample_iteration =
     \<lparr>it_n = 1, it_step_n = 1, it_prompt_hash = ''h'', it_prompt_text = Some ''p'',
      it_provider_request_id = Some ''r1'', it_result_ref = Some (result_ref ''s1'' 1),
      it_similarity = Some (7 / 10), it_verdict = Some PASSED, it_charged = True, it_cost = 1 / 25,
      it_usage = None, it_risk_level = Some LOW, it_error = None\<rparr>"

definition sample_best :: best_result where
  "sample_best = best_of ''s1'' sample_thresholds 1 (7 / 10)"

definition sample_analysis :: brief_analysis where
  "sample_analysis =
     \<lparr>ba_use_case = None, ba_preserve = [],
      ba_changes = [\<lparr>ch_target = ''glasses'', ch_instruction = ''add glasses''\<rparr>,
                    \<lparr>ch_target = ''background'', ch_instruction = ''make it blue''\<rparr>],
      ba_conflicts = []\<rparr>"

definition sample_steps :: "edit_step list" where
  "sample_steps =
     [(mk_step 1 ''background'' ''make it blue'' [''background''])\<lparr>st_status := Completed\<rparr>,
      (mk_step 2 ''glasses'' ''add glasses'' [''glasses''])\<lparr>st_status := Skipped\<rparr>]"

definition sample_session :: session_state where
  "sample_session = (new_session ''s1'' ''f1'' 1)
     \<lparr>ss_thresholds := Some sample_thresholds, ss_iterations := [sample_iteration],
      ss_best_result := Some sample_best, ss_approved := True, ss_preset_id := Some ''portrait'',
      ss_brief_analysis := Some sample_analysis,
      ss_plan := Some \<lparr>pl_summary = ''plan'', pl_compositions = [], pl_selected_composition = None,
        pl_planned_generations = 2, pl_steps = sample_steps\<rparr>\<rparr>"

definition sample_store :: store where
  "sample_store = put_face sample_face (put_session sample_session empty_store)"

definition sample_world :: world where
  "sample_world =
     \<lparr>w_store = sample_store, w_streams = (\<lambda>_. []), w_objects = [''faces/f1/photo'' \<mapsto> ''raw''],
      w_gen_log = [], w_llm_log = []\<rparr>"

definition sample_result :: event where
  "sample_result = ResultEvent sample_best 1 1 (1 / 25) (Some ''portrait'', None, None)"

definition sample_meter :: meter where
  "sample_meter = meter_of sample_pricing ''s1'' 1"

lemma sample_keyed: "keyed sample_world"
  by (simp add: keyed_def sample_world_def sample_store_def empty_store_def get_session_def
      put_session_def put_face_def sample_session_def new_session_def)

lemma sample_session_stored [simp]: "get_session ''s1'' (w_store sample_world) = Some sample_session"
  by (simp add: sample_world_def sample_store_def sample_session_def new_session_def)

lemma sample_face_stored [simp]: "get_face ''f1'' (w_store sample_world) = Some sample_face"
  by (simp add: sample_world_def sample_store_def sample_face_def)

lemma sample_ratio: "nearest_aspect_ratio 1024 1024 supported_ratios = Inr ''1:1''"
  by code_simp

lemma sample_drive:
  "\<exists>w'. drive env ''s1'' sample_preset None [] sample_world = (Inr sample_result, w')"
proof -
  have f: "ss_face_key sample_session = ''f1''" "ss_thresholds sample_session = Some sample_thresholds"
    "fp_embedding sample_face = [1]" "fp_photo_ref sample_face = ''faces/f1/photo''"
    "ss_session_key sample_session = ''s1''"
    "fm_width (fp_metrics sample_face) = 1024" "fm_height (fp_metrics sample_face) = 1024"
    by (simp_all add: sample_session_def new_session_def sample_face_def sample_metrics_def)
  have o: "w_objects sample_world ''faces/f1/photo'' = Some ''raw''" by (simp add: sample_world_def)
  have l: "loop_load ''s1'' sample_world = (Inr (sample_session, sample_face), sample_world)"
    by (simp add: loop_load_def obind_def op_get_session_def op_get_face_def f)
  show ?thesis
    unfolding drive_def
    by (simp add: obind_def l f o op_put_session_def Let_def sample_ratio loop_finish_def terminal_event_def
        publish_def plan_step_list_def sample_session_def new_session_def sample_steps_def chain_step_def
        emit_step_def start_chain_def absorb_def sample_result_def generations_spent_def cost_spent_def
        sample_iteration_def)
qed

definition sample_codec_env :: "nat loop_env" where
  \<comment> \<open>an event codec that knows the one event the sample run ends in\<close>
  "sample_codec_env = (with_or_writer sample_llm sample_env)\<lparr>le_load := (\<lambda>_. Inr sample_result)\<rparr>"

lemma sample_session_thresholds: "ss_thresholds sample_session = Some sample_thresholds"
  by (simp add: sample_session_def)

lemma sample_face_key: "ss_face_key sample_session = ''f1''"
  by (simp add: sample_session_def new_session_def)

lemma sample_gen_log: "w_gen_log sample_world = []"
  by (simp add: sample_world_def)

lemma sample_best_from: "best_from sample_thresholds ''s1'' sample_session"
  by (auto simp: best_from_def sample_session_def sample_best_def delivers_def sample_iteration_def
      band_def sample_thresholds_def intro!: exI [of _ "7 / 10"])

lemma sample_attempt_bound:
  "length (plan_step_list sample_session sample_preset) * nat (step_max_attempts sample_env sample_thresholds) = 6"
  by (simp add: plan_step_list_def sample_session_def sample_steps_def step_max_attempts_def
      sample_thresholds_def sample_env_def)

lemma sample_used: "0 \<le> used ''s1'' sample_world"
  by (simp add: used_def budget_used_def sample_world_def sample_store_def put_face_def put_session_def
      empty_store_def)

lemma sample_money: "money_ok sample_env"
  by (simp add: money_ok_def bills_ok_def sample_env_def sample_pricing_def pricing_default_ok)

lemma sample_honest: "llm_honest sample_llm (meter_of (le_pricing sample_env) k b)"
  by (simp add: llm_honest_def sample_env_def sample_pricing_def pricing_default_ok meter_of_def
      sample_llm_def read_answer_def)

lemma sample_loop_run:
  "\<exists>w'. loop_run sample_codec_env ''s1'' sample_preset ''key'' None [] sample_world = (Inr sample_result, w')"
proof -
  let ?op = "obind (drive sample_codec_env ''s1'' sample_preset None []) (\<lambda>e. ret (le_dump sample_codec_env e))"
  obtain w1 where "drive sample_codec_env ''s1'' sample_preset None [] sample_world = (Inr sample_result, w1)"
    using sample_drive by blast
  then have "fst (?op sample_world) = Inr (le_dump sample_codec_env sample_result)" by (simp add: obind_def)
  from world_idem.run_once_never_vanishes [of ?op sample_world, OF this]
  obtain r w2 where "run_once w_idem_get w_idem_put ''key'' ?op sample_world = (Inr r, w2)"
    by (metis prod.collapse)
  then show ?thesis
    by (cases r) (simp add: loop_run_def obind_def sample_codec_env_def sample_result_def)
qed

end
