(* ===== verification/Http_Api.thy ===== *)
theory Http_Api
  imports Runner_Safety Event_Bus Wiring
begin

text \<open>
  The HTTP surface: the models of \<open>src/schemas/contract.py\<close> and the handlers of \<open>src/api/routes.py\<close>.
  A handler acts on the process state of \<open>Runner\<close> and returns its response or the exception it
  raises; an \<open>HTTPException\<close> is a status with its detail. FastAPI's routing is the framework's; the
  validation of a body and the JSON of a response are in \<open>Wire\<close> and \<open>App\<close>, here a codec is a parameter.
\<close>

section \<open>Request and response models (\<open>schemas/contract.py\<close>)\<close>

record ingest_request =
  iq_image_b64 :: string
  iq_idem_key :: string

record ingest_response =
  ir_face_key :: string
  ir_accepted :: bool
  ir_gate_verdict :: verdict
  ir_gate_reason :: gate_reason
  ir_metrics :: frame_metrics

record start_request =
  sq_face_key :: string
  sq_brief :: "string option"
  sq_budget_limit :: usd
  sq_idem_key :: string

record preset_ask =
  pa_slot :: string
  pa_options :: "string list option"
  pa_default :: "string option"

record preset_info =   \<comment> \<open>\<open>PresetSummary\<close>\<close>
  ps_id :: string
  ps_version :: string
  ps_label :: "string option"
  ps_use_case_tokens :: "string list"
  ps_is_fallback :: bool
  ps_asks :: "preset_ask list"

record preset_catalog =
  pg_presets :: "preset_info list"
  pg_library_version :: string

record start_response =
  sr_session_key :: string
  sr_fsm_state :: fsm_state
  sr_matched :: bool
  sr_preset_id :: "string option"

record input_request =
  nq_session_key :: string
  nq_slot :: string
  nq_value :: string
  nq_idem_key :: string

record approve_request =
  aq_session_key :: string
  aq_approved :: bool
  aq_idem_key :: string
  aq_composition_id :: "string option"

record session_ack =
  sa_session_key :: string
  sa_fsm_state :: fsm_state
  sa_accepted :: bool
  sa_message :: "string option"

record snapshot_view =   \<comment> \<open>\<open>SessionSnapshot\<close>\<close>
  sn_state :: session_state
  sn_generations_spent :: nat
  sn_cost_spent :: usd

definition ack :: "string \<Rightarrow> fsm_state \<Rightarrow> session_ack" where
  "ack k state = \<lparr>sa_session_key = k, sa_fsm_state = state, sa_accepted = True, sa_message = None\<rparr>"

section \<open>Handlers\<close>

type_synonym 'a handler = "runner \<Rightarrow> 'a result \<times> runner"
type_synonym 'r codec = "('r \<Rightarrow> bytes) \<times> (bytes \<Rightarrow> 'r result)"

record 'i container =
  ct_services :: "'i services"
  ct_settings :: settings
  ct_replica :: nat
  ct_ingest_codec :: "ingest_response codec"
  ct_start_codec :: "start_response codec"
  ct_ack_codec :: "session_ack codec"

definition http :: "int \<Rightarrow> string \<Rightarrow> py_exn" where "http status detail = HTTPException status detail"

definition on_world :: "'a op \<Rightarrow> 'a handler" where
  "on_world m r = (case m (rn_world r) of (x, w) \<Rightarrow> (x, r\<lparr>rn_world := w\<rparr>))"

definition rn_idem_get :: "string \<Rightarrow> runner \<Rightarrow> bytes option" where
  "rn_idem_get k r = idem_get k (w_store (rn_world r))"

definition rn_idem_put :: "string \<Rightarrow> bytes \<Rightarrow> runner \<Rightarrow> bool \<times> runner" where
  "rn_idem_put k v r = (case idem_put k v (w_store (rn_world r)) of (b, s) \<Rightarrow> (b, with_store (\<lambda>_. s) r))"

definition http_key :: "string \<Rightarrow> string \<Rightarrow> string" where
  "http_key scope idem_key = ''http:'' @ scope @ '':'' @ idem_key"

definition serialized :: "'r codec \<Rightarrow> 'r handler \<Rightarrow> bytes handler" where   \<comment> \<open>\<open>_serialized\<close>\<close>
  "serialized codec op r = (case op r of (Inl e, r') \<Rightarrow> (Inl e, r') | (Inr x, r') \<Rightarrow> (Inr (fst codec x), r'))"

definition idempotent :: "'r codec \<Rightarrow> string \<Rightarrow> string \<Rightarrow> 'r handler \<Rightarrow> 'r handler" where   \<comment> \<open>\<open>_idempotent\<close>\<close>
  "idempotent codec scope idem_key op r =
     (case run_once rn_idem_get rn_idem_put (http_key scope idem_key) (serialized codec op) r of
        (Inl e, r') \<Rightarrow> (Inl e, r')
      | (Inr (payload, replayed), r') \<Rightarrow> (snd codec payload, r'))"

definition session_or_404 :: "string \<Rightarrow> runner \<Rightarrow> session_state result" where
  "session_or_404 k r =
     (case get_session k (w_store (rn_world r)) of
        None \<Rightarrow> Inl (http 404 (''unknown session '' @ py_repr k))
      | Some s \<Rightarrow> Inr s)"

subsection \<open>Faces\<close>

definition ingest_response_of :: "string \<Rightarrow> face_profile \<Rightarrow> ingest_response" where
  "ingest_response_of face_key p =
     \<lparr>ir_face_key = face_key,
      ir_accepted = (fp_gate_verdict p \<noteq> BELOW_FLOOR \<and> fp_embedding p \<noteq> []),
      ir_gate_verdict = fp_gate_verdict p, ir_gate_reason = fp_gate_reason p,
      ir_metrics = fp_metrics p\<rparr>"

definition ingest_steps :: "'i container \<Rightarrow> string \<Rightarrow> bytes \<Rightarrow> face_profile op" where
  "ingest_steps c face_key photo =
     (let svc = ct_services c in
      obind (storage_put (photo_ref face_key) photo) (\<lambda>_.
      obind (lift_res (ingest (sv_pil svc) (sv_detect svc) (sv_gate svc) photo face_key (photo_ref face_key))) (\<lambda>i.
      obind (op_put_face (fi_profile i)) (\<lambda>_.
      obind (case fi_face_crop i of None \<Rightarrow> ret [] | Some crop \<Rightarrow> storage_put (face_crop_ref face_key) crop) (\<lambda>_.
        ret (fi_profile i))))))"

definition ingest_op :: "'i container \<Rightarrow> string \<Rightarrow> bytes \<Rightarrow> world option \<Rightarrow> ingest_response handler" where
  \<comment> \<open>\<open>late\<close>: \<open>asyncio.timeout\<close> fires with the world in that state\<close>
  "ingest_op c face_key photo late r =
     (case late of
        Some w \<Rightarrow> (Inl (http 504 ''photo analysis timed out''), r\<lparr>rn_world := w\<rparr>)
      | None \<Rightarrow>
          (case on_world (ingest_steps c face_key photo) r of
             (Inr p, r') \<Rightarrow> (Inr (ingest_response_of face_key p), r')
           | (Inl e, r') \<Rightarrow>
               (if is_value_error e then (Inl (http 400 ''payload is not a decodable image''), r')
                else (Inl e, r'))))"

definition ingest_photo :: "'i container \<Rightarrow> string \<Rightarrow> ingest_request \<Rightarrow> world option \<Rightarrow> ingest_response handler" where
  "ingest_photo c face_key body late r =
     (case b64decode (iq_image_b64 body) of
        None \<Rightarrow> (Inl (http 400 ''image_b64 is not valid base64''), r)
      | Some photo \<Rightarrow>
          if cf_max_photo_bytes (ct_settings c) < int (length photo)
          then (Inl (http 413 ''photo exceeds the size limit''), r)
          else if photo = [] then (Inl (http 400 ''image_b64 decodes to an empty payload''), r)
          else idempotent (ct_ingest_codec c) ''ingest'' (iq_idem_key body)
                 (ingest_op c face_key photo late) r)"

subsection \<open>Sessions\<close>

definition in_flight :: py_exn where "in_flight = http 409 ''a run for this session is in flight''"

definition check_face :: "start_request \<Rightarrow> runner \<Rightarrow> unit result" where
  \<comment> \<open>the lookup of the face in \<open>start_session\<close>\<close>
  "check_face body r =
     (case get_face (sq_face_key body) (w_store (rn_world r)) of
        None \<Rightarrow>
          (if w_objects (rn_world r) (photo_ref (sq_face_key body)) = None
           then Inl (http 404 (''unknown face_key '' @ py_repr (sq_face_key body) @ ''; ingest first''))
           else Inr ())
      | Some face \<Rightarrow>
          if fp_gate_verdict face = BELOW_FLOOR \<or> fp_embedding face = []
          then Inl (http 422 (''face_key '' @ py_repr (sq_face_key body)
                     @ '' did not pass the quality gate; re-ingest''))
          else Inr ())"

definition start_op :: "'i container \<Rightarrow> string \<Rightarrow> start_request \<Rightarrow> string \<Rightarrow> start_response handler" where
  "start_op c k body tok r =
     (if get_session k (w_store (rn_world r)) \<noteq> None
      then (Inl (http 409 (''session '' @ py_repr k @ '' already exists'')), r)
      else case check_face body r of
             Inl e \<Rightarrow> (Inl e, r)
           | Inr _ \<Rightarrow>
               (case start_run (ct_replica c) k (sq_face_key body)
                       (case sq_brief body of None \<Rightarrow> [] | Some b \<Rightarrow> b) (sq_budget_limit body) tok r of
                  (started, r') \<Rightarrow>
                    if \<not> started then (Inl in_flight, r')
                    else (let fallback = lib_fallback (sv_library (ct_services c))
                          in (Inr \<lparr>sr_session_key = k,
                                   sr_fsm_state = (if fallback \<noteq> None then CREATED else FAILED),
                                   sr_matched = (fallback \<noteq> None), sr_preset_id = None\<rparr>, r'))))"

definition start_session :: "'i container \<Rightarrow> string \<Rightarrow> start_request \<Rightarrow> string \<Rightarrow> start_response handler" where
  "start_session c k body tok =
     idempotent (ct_start_codec c) ''start'' (sq_idem_key body) (start_op c k body tok)"

definition awaiting :: "fsm_state \<Rightarrow> string \<Rightarrow> string \<Rightarrow> runner \<Rightarrow> session_state result" where
  \<comment> \<open>the session in the given stage, else 404 or 409\<close>
  "awaiting state what k r =
     bind_res (session_or_404 k r) (\<lambda>s.
       if ss_fsm_state s \<noteq> state
       then Inl (http 409 (''session is not awaiting '' @ what @ '' (state: '' @ fsm_value (ss_fsm_state s) @ '')''))
       else Inr s)"

definition resume_op ::
  "'i container \<Rightarrow> string \<Rightarrow> session_state result \<Rightarrow> resume_value \<Rightarrow> fsm_state \<Rightarrow> string \<Rightarrow> session_ack handler" where
  "resume_op c k guard v next_state tok r =
     (case guard of
        Inl e \<Rightarrow> (Inl e, r)
      | Inr _ \<Rightarrow>
          (case resume_run (ct_replica c) k v tok r of
             (resumed, r') \<Rightarrow> if \<not> resumed then (Inl in_flight, r') else (Inr (ack k next_state), r')))"

definition submit_input :: "'i container \<Rightarrow> string \<Rightarrow> input_request \<Rightarrow> string \<Rightarrow> session_ack handler" where
  "submit_input c k body tok r =
     (if nq_session_key body \<noteq> k then (Inl (http 409 ''session_key mismatch''), r)
      else idempotent (ct_ack_codec c) ''input'' (nq_idem_key body)
             (\<lambda>r. resume_op c k (awaiting NEED_INPUT ''input'' k r) (Reply (nq_value body)) PLANNING tok r) r)"

definition approve_plan :: "'i container \<Rightarrow> string \<Rightarrow> approve_request \<Rightarrow> string \<Rightarrow> session_ack handler" where
  "approve_plan c k body tok r =
     (if aq_session_key body \<noteq> k then (Inl (http 409 ''session_key mismatch''), r)
      else idempotent (ct_ack_codec c) ''approve'' (aq_idem_key body)
             (\<lambda>r. resume_op c k (awaiting AWAITING_APPROVAL ''approval'' k r)
                    (Decision (aq_approved body) (aq_composition_id body))
                    (if aq_approved body then GENERATING else FAILED) tok r) r)"

definition terminal_states :: "fsm_state list" where "terminal_states = [DONE, FAILED, CANCELLED]"

definition cancel_session :: "'i container \<Rightarrow> string \<Rightarrow> world \<Rightarrow> session_ack handler" where
  "cancel_session c k w r =
     (case session_or_404 k r of
        Inl e \<Rightarrow> (Inl e, r)
      | Inr s \<Rightarrow>
          if ss_fsm_state s \<in> set terminal_states
          then (Inl (http 409 (''session is already terminal (state: '' @ fsm_value (ss_fsm_state s) @ '')'')), r)
          else (Inr (ack k CANCELLED), cancel_run (ct_replica c) k w r))"

definition session_snapshot :: "string \<Rightarrow> runner \<Rightarrow> snapshot_view result" where
  "session_snapshot k r =
     bind_res (session_or_404 k r) (\<lambda>s.
       Inr \<lparr>sn_state = s, sn_generations_spent = generations_spent s, sn_cost_spent = cost_spent s\<rparr>)"

definition stream_events :: "string \<Rightarrow> string option \<Rightarrow> runner \<Rightarrow> (nat frame list \<times> bool) result" where
  \<comment> \<open>on the in-memory bus; what has been sent so far, and whether the response ended\<close>
  "stream_events k last_id r =
     bind_res (bus_tail k last_id (w_streams (rn_world r))) (\<lambda>items. Inr (relay items))"

subsection \<open>Presets and health\<close>

definition preset_summary :: "preset \<Rightarrow> preset_info" where
  "preset_summary p =
     \<lparr>ps_id = pr_id p, ps_version = pr_version p, ps_label = None,
      ps_use_case_tokens = pr_use_case p, ps_is_fallback = (pr_id p = ''default''),
      ps_asks = map (\<lambda>(name, s). \<lparr>pa_slot = name,
                       pa_options = (if truthy_enum s \<noteq> [] then Some (truthy_enum s) else None),
                       pa_default = sl_default s\<rparr>)
                  (filter (\<lambda>(_, s). sl_ask s) (pr_slots p))\<rparr>"

definition list_presets :: "library \<Rightarrow> preset_catalog" where
  "list_presets l =
     \<lparr>pg_presets = map preset_summary (map the (filter (\<lambda>p. p \<noteq> None) (map (lib_get l) (lib_ids l)))),
      pg_library_version = lib_version l\<rparr>"

definition healthz :: "(string \<times> string) list" where "healthz = [(''status'', ''ok'')]"

datatype redis_check = In_Memory | Redis_Check bool

record readiness =
  ry_status :: string
  ry_redis :: redis_check
  ry_count :: nat
  ry_library_version :: string
  ry_source :: string

definition readyz :: "bool option \<Rightarrow> library \<Rightarrow> readiness \<times> int" where
  \<comment> \<open>\<open>None\<close>: no Redis configured; otherwise whether the ping returned\<close>
  "readyz ping l =
     (let redis_ok = (ping \<noteq> Some False)
      in (\<lparr>ry_status = (if redis_ok then ''ready'' else ''unavailable''),
           ry_redis = (case ping of None \<Rightarrow> In_Memory | Some ok \<Rightarrow> Redis_Check ok),
           ry_count = lib_len l, ry_library_version = lib_version l, ry_source = lib_source l\<rparr>,
          if redis_ok then 200 else 503))"

section \<open>Idempotent mutations\<close>

interpretation runner_idem: idem_store rn_idem_get rn_idem_put
proof
  fix j k v and r :: runner
  show "fst (rn_idem_put k v r) \<longleftrightarrow> rn_idem_get k r = None"
    by (simp add: rn_idem_put_def rn_idem_get_def idem_put_def idem_get_def)
  show "rn_idem_get j (snd (rn_idem_put k v r))
      = (if rn_idem_get k r = None \<and> j = k then Some v else rn_idem_get j r)"
    by (auto simp: rn_idem_put_def rn_idem_get_def idem_put_def idem_get_def with_store_def)
qed

definition scopes :: "string list" where "scopes = [''ingest'', ''start'', ''input'', ''approve'']"

text \<open>The records of different endpoints, and of the generation loop, never meet.\<close>

lemma http_key_inj:
  assumes "s \<in> set scopes" "s' \<in> set scopes" "http_key s k = http_key s' k'"
  shows "s = s' \<and> k = k'"
  using assms by (auto simp: scopes_def http_key_def)

lemma http_key_generation: "http_key s k \<noteq> generation_idem_key j"
  by (simp add: http_key_def generation_idem_key_def)

lemma idempotent_cases:
  assumes "idempotent codec scope key op r = (x, r')"
  obtains (replay) payload where "rn_idem_get (http_key scope key) r = Some payload" "x = snd codec payload" "r' = r"
  | (rejected) e where "rn_idem_get (http_key scope key) r = None" "op r = (Inl e, r')" "x = Inl e"
  | (first) y r1 payload replayed where "rn_idem_get (http_key scope key) r = None" "op r = (Inr y, r1)"
      "run_once rn_idem_get rn_idem_put (http_key scope key) (serialized codec op) r
         = (Inr (payload, replayed), r')" "x = snd codec payload"
      "rn_idem_get (http_key scope key) r' = Some payload"
proof (cases "rn_idem_get (http_key scope key) r")
  case (Some v)
  with assms show ?thesis
    by (intro that(1)) (auto simp: idempotent_def runner_idem.run_once_replay)
next
  case None
  show ?thesis
  proof (cases "op r")
    case (Pair z r1)
    show ?thesis
    proof (cases z)
      case (Inl e)
      with Pair None assms show ?thesis
        by (intro that(2)) (auto simp: idempotent_def serialized_def runner_idem.run_once_error)
    next
      case (Inr y)
      with Pair have "fst (serialized codec op r) = Inr (fst codec y)" by (simp add: serialized_def)
      from runner_idem.run_once_never_vanishes [where op = "serialized codec op", OF this] obtain payload replayed r2 where
        ro: "run_once rn_idem_get rn_idem_put (http_key scope key) (serialized codec op) r = (Inr (payload, replayed), r2)"
        by (metis prod.collapse)
      with assms have eq: "x = snd codec payload" "r' = r2" by (simp_all add: idempotent_def)
      show ?thesis
        using that(3) [OF None] Pair Inr ro eq runner_idem.run_once_returns_record [OF ro] by simp
    qed
  qed
qed

lemma idempotent_replays:
  assumes "idempotent codec scope key op r = (Inr x, r')"
  shows "idempotent codec scope key op' r' = (Inr x, r')"
  using assms
proof (cases rule: idempotent_cases)
  case (replay payload)
  then show ?thesis by (simp add: idempotent_def runner_idem.run_once_replay)
next
  case (first y r1 payload replayed)
  from first(4,5) show ?thesis by (simp add: idempotent_def runner_idem.run_once_replay)
qed simp

text \<open>The first execution, when the handler itself writes no HTTP record.\<close>

lemma idempotent_first:
  assumes "rn_idem_get (http_key scope key) r = None" "op r = (Inr y, r1)"
    and "rn_idem_get (http_key scope key) r1 = None" "snd codec (fst codec y) = Inr y"
  shows "idempotent codec scope key op r = (Inr y, snd (rn_idem_put (http_key scope key) (fst codec y) r1))"
proof -
  have "serialized codec op r = (Inr (fst codec y), r1)" using assms(2) by (simp add: serialized_def)
  from runner_idem.run_once_first [where op = "serialized codec op", OF assms(1) this assms(3)] assms(4) show ?thesis
    by (simp add: idempotent_def)
qed

lemma idempotent_rejects:
  "rn_idem_get (http_key scope key) r = None \<Longrightarrow> op r = (Inl e, r1) \<Longrightarrow> idempotent codec scope key op r = (Inl e, r1)"
  by (simp add: idempotent_def serialized_def runner_idem.run_once_error)

section \<open>Starting and answering\<close>

lemma spawn_idem [simp]: "rn_idem_get j (snd (spawn i k p t r)) = rn_idem_get j r"
  by (simp add: spawn_def acquire_lock_def rn_idem_get_def idem_get_def with_store_def)

lemma spawn_refusal: "spawn i k p t r = (False, r') \<Longrightarrow> r' = r"
  using spawn_refused [of i k p t r] by simp

lemma start_op_rejected: "start_op c k body t r = (Inl e, r') \<Longrightarrow> r' = r"
  by (auto simp: start_op_def start_run_def Let_def split: if_splits sum.splits prod.splits
      dest!: spawn_refusal)

lemma resume_op_rejected: "resume_op c k g v n t r = (Inl e, r') \<Longrightarrow> r' = r"
  by (auto simp: resume_op_def resume_run_def split: if_splits sum.splits prod.splits dest!: spawn_refusal)

lemma start_op_accepted:
  assumes "start_op c k body t r = (Inr y, r')"
  shows "get_session k (w_store (rn_world r)) = None \<and> check_face body r = Inr ()
    \<and> start_run (ct_replica c) k (sq_face_key body) (case sq_brief body of None \<Rightarrow> [] | Some b \<Rightarrow> b)
        (sq_budget_limit body) t r = (True, r')
    \<and> (sr_matched y \<longleftrightarrow> lib_fallback (sv_library (ct_services c)) \<noteq> None)"
  using assms by (auto simp: start_op_def Let_def split: if_splits sum.splits prod.splits)

lemma resume_op_accepted:
  assumes "resume_op c k g v n t r = (Inr y, r')"
  shows "(\<exists>s. g = Inr s) \<and> resume_run (ct_replica c) k v t r = (True, r') \<and> y = ack k n"
  using assms by (auto simp: resume_op_def split: if_splits sum.splits prod.splits)

lemma awaiting_Inr:
  "awaiting state what k r = Inr s \<longleftrightarrow> get_session k (w_store (rn_world r)) = Some s \<and> ss_fsm_state s = state"
  by (auto simp: awaiting_def session_or_404_def bind_res_Inr_iff split: option.splits)

lemma spawn_in_flight:
  assumes "spawn i k p t r = (True, r')"
  shows "rn_runs r' = rn_runs r @ [\<lparr>ru_replica = i, ru_key = k, ru_token = t, ru_phase = Queued p\<rparr>]
    \<and> rn_world r' = (rn_world r)\<lparr>w_store := (w_store (rn_world r))
          \<lparr>ms_locks := (ms_locks (w_store (rn_world r)))(run_lock_key k \<mapsto> t)\<rparr>\<rparr>
    \<and> rn_threads r' = rn_threads r"
  using assms by (auto simp: spawn_def acquire_lock_def with_store_def split: if_splits)

text \<open>A mutation that is not committed changes nothing and leaves no record, so a retry executes.\<close>

lemma start_rejected:
  assumes codec: "\<And>y. snd (ct_start_codec c) (fst (ct_start_codec c) y) = Inr y"
    and "start_session c k body t r = (Inl e, r')"
  shows "r' = r"
  using assms(2) unfolding start_session_def
proof (cases rule: idempotent_cases)
  case (rejected e')
  then show ?thesis by (simp add: start_op_rejected)
next
  case (first y r1 payload replayed)
  have "rn_idem_get (http_key ''start'' (sq_idem_key body)) r1 = None"
    using first(1,2) start_op_accepted [OF first(2)] spawn_idem [of _ "ct_replica c" k _ t r]
    unfolding start_run_def by (metis snd_conv)
  from idempotent_first [where codec = "ct_start_codec c" and op = "start_op c k body t", OF first(1,2) this codec] assms(2) show ?thesis by (simp add: start_session_def)
qed

section \<open>Ingest\<close>

text \<open>The photo is stored before it is looked at: a payload that is not an image is answered with a
400, but it has replaced the reference photo of the face.\<close>

lemma bad_ingest_replaces_photo:
  assumes "b64decode (iq_image_b64 body) = Some photo" "photo \<noteq> []"
    and "int (length photo) \<le> cf_max_photo_bytes (ct_settings c)"
    and "rn_idem_get (http_key ''ingest'' (iq_idem_key body)) r = None"
    and "sv_detect (ct_services c) photo = Inl (ValueError m)"
  shows "ingest_photo c face_key body None r =
      (Inl (http 400 ''payload is not a decodable image''),
       r\<lparr>rn_world := (rn_world r)\<lparr>w_objects := (w_objects (rn_world r))(photo_ref face_key \<mapsto> photo)\<rparr>\<rparr>)"
proof -
  have "ingest_op c face_key photo None r = (Inl (http 400 ''payload is not a decodable image''),
       r\<lparr>rn_world := (rn_world r)\<lparr>w_objects := (w_objects (rn_world r))(photo_ref face_key \<mapsto> photo)\<rparr>\<rparr>)"
    using assms(5)
    by (simp add: ingest_op_def on_world_def ingest_steps_def Let_def obind_def storage_put_def ingest_def)
  from idempotent_rejects [where op = "ingest_op c face_key photo None", OF assms(4) this] assms(1-3)
  show ?thesis by (simp add: ingest_photo_def)
qed

lemma ingest_accepts:
  assumes "ingest_op c face_key photo None r = (Inr y, r')"
  shows "\<exists>f. get_face face_key (w_store (rn_world r')) = Some f \<and> y = ingest_response_of face_key f
    \<and> w_objects (rn_world r') (photo_ref face_key) = Some photo"
proof -
  from assms obtain p where p: "on_world (ingest_steps c face_key photo) r = (Inr p, r')"
    and y: "y = ingest_response_of face_key p"
    by (auto simp: ingest_op_def split: if_splits sum.splits prod.splits)
  from p obtain i where i: "ingest (sv_pil (ct_services c)) (sv_detect (ct_services c)) (sv_gate (ct_services c)) photo
      face_key (photo_ref face_key) = Inr i" "p = fi_profile i"
    and w: "rn_world r' = (case fi_face_crop i of None \<Rightarrow> (\<lambda>w. w) | Some crop \<Rightarrow>
        (\<lambda>w. w\<lparr>w_objects := (w_objects w)(face_crop_ref face_key \<mapsto> crop)\<rparr>))
       ((rn_world r)\<lparr>w_objects := (w_objects (rn_world r))(photo_ref face_key \<mapsto> photo),
                    w_store := put_face (fi_profile i) (w_store (rn_world r))\<rparr>)"
    by (auto simp: on_world_def ingest_steps_def Let_def obind_Inr storage_put_def op_put_face_def
        split: prod.splits option.splits)
  have "fp_face_key (fi_profile i) = face_key"
    using i(1) by (auto simp: ingest_def bind_res_Inr_iff Let_def split: prod.splits)
  with w y i(2) show ?thesis
    by (intro exI [of _ "fi_profile i"])
       (auto simp: get_face_def put_face_def photo_ref_def face_crop_ref_def split: option.splits)
qed

section \<open>Cancel\<close>

lemma cancelled_twice:
  assumes "cancel_session c k w r = (Inr a, r')" "keyed (rn_world r')"
    and "get_session k (w_store (rn_world (case find_task (ct_replica c) k r of None \<Rightarrow> r | Some u \<Rightarrow> stop_task u w r)))
          = Some s" "ss_session_key s = k"
  shows "\<exists>d. cancel_session c k w' r' = (Inl (http 409 d), r')"
proof -
  let ?q = "case find_task (ct_replica c) k r of None \<Rightarrow> r | Some u \<Rightarrow> stop_task u w r"
  from assms(1) have r': "r' = cancel_run (ct_replica c) k w r"
    by (auto simp: cancel_session_def split: sum.splits if_splits)
  from mark_session_told [OF assms(3,4)] have
    "get_session k (w_store (rn_world r')) = Some (s\<lparr>ss_fsm_state := CANCELLED\<rparr>)"
    by (simp add: r' cancel_run_def)
  then show ?thesis by (auto simp: cancel_session_def session_or_404_def terminal_states_def)
qed

section \<open>Catalog\<close>

lemma catalog_complete:
  assumes "dict_ok (lib_by_id l)"
  shows "pg_presets (list_presets l) = map (\<lambda>(k, p). preset_summary p) (lib_by_id l)"
proof -
  have get: "map (lib_get l) (lib_ids l) = map (\<lambda>(k, p). Some p) (lib_by_id l)"
    using assms by (auto simp: lib_get_def lib_ids_def dict_keys_def)
  have "map the (filter (\<lambda>p. p \<noteq> None) (map (\<lambda>(k, p). Some p) ps)) = map snd ps" for ps :: "(string \<times> preset) list"
    by (induction ps) auto
  then show ?thesis
    unfolding list_presets_def preset_catalog.simps get by (simp add: split_beta comp_def)
qed

end
