(* ===== verification/Store_Refinement.thy ===== *)
theory Store_Refinement
  imports Store
begin

text \<open>
  The Redis state store implements the in-memory one. A client sees the store only through the
  methods of the port (\<open>protocols/state_store.py\<close>): \<open>store_command\<close> has one constructor per method,
  and any sequence of commands gets the same replies from both, related states going to related ones.
\<close>

datatype store_command =
    Get_Face string
  | Put_Face face_profile
  | Get_Session string
  | Put_Session session_state
  | Acquire_Lock string string
  | Release_Lock string string
  | Idem_Get string
  | Idem_Put string bytes
  | Budget_Reserve string int int
  | Budget_Adjust string int

datatype store_reply =
    Face_Reply "face_profile option"
  | Session_Reply "session_state option"
  | Bytes_Reply "bytes option"
  | Bool_Reply bool
  | Int_Reply int
  | No_Reply

record store_codec =
  sc_dump_face :: "face_profile \<Rightarrow> bytes"
  sc_load_face :: "bytes \<Rightarrow> face_profile result"
  sc_dump_session :: "session_state \<Rightarrow> bytes"
  sc_load_session :: "bytes \<Rightarrow> session_state result"

fun mem_command :: "store_command \<Rightarrow> store \<Rightarrow> store_reply \<times> store" where
  "mem_command (Get_Face k) s = (Face_Reply (get_face k s), s)"
| "mem_command (Put_Face f) s = (No_Reply, put_face f s)"
| "mem_command (Get_Session k) s = (Session_Reply (get_session k s), s)"
| "mem_command (Put_Session x) s = (No_Reply, put_session x s)"
| "mem_command (Acquire_Lock k t) s = (case acquire_lock k t s of (b, s') \<Rightarrow> (Bool_Reply b, s'))"
| "mem_command (Release_Lock k t) s = (case release_lock k t s of (b, s') \<Rightarrow> (Bool_Reply b, s'))"
| "mem_command (Idem_Get k) s = (Bytes_Reply (idem_get k s), s)"
| "mem_command (Idem_Put k v) s = (case idem_put k v s of (b, s') \<Rightarrow> (Bool_Reply b, s'))"
| "mem_command (Budget_Reserve k e l) s = (case budget_reserve k e l s of (b, s') \<Rightarrow> (Bool_Reply b, s'))"
| "mem_command (Budget_Adjust k d) s = (case budget_adjust k d s of (n, s') \<Rightarrow> (Int_Reply n, s'))"

fun redis_command :: "store_codec \<Rightarrow> store_command \<Rightarrow> redis \<Rightarrow> (store_reply \<times> redis) result" where
  "redis_command c (Get_Face k) r = bind_res (redis_get_face (sc_load_face c) k r) (\<lambda>f. Inr (Face_Reply f, r))"
| "redis_command c (Put_Face f) r = Inr (No_Reply, redis_put_face (sc_dump_face c) f r)"
| "redis_command c (Get_Session k) r =
     bind_res (redis_get_session (sc_load_session c) k r) (\<lambda>x. Inr (Session_Reply x, r))"
| "redis_command c (Put_Session x) r = Inr (No_Reply, redis_put_session (sc_dump_session c) x r)"
| "redis_command c (Acquire_Lock k t) r = (case redis_acquire_lock k t r of (b, r') \<Rightarrow> Inr (Bool_Reply b, r'))"
| "redis_command c (Release_Lock k t) r = (case redis_release_lock k t r of (b, r') \<Rightarrow> Inr (Bool_Reply b, r'))"
| "redis_command c (Idem_Get k) r = Inr (Bytes_Reply (redis_idem_get k r), r)"
| "redis_command c (Idem_Put k v) r = (case redis_idem_put k v r of (b, r') \<Rightarrow> Inr (Bool_Reply b, r'))"
| "redis_command c (Budget_Reserve k e l) r =
     bind_res (redis_budget_reserve k e l r) (\<lambda>(b, r'). Inr (Bool_Reply b, r'))"
| "redis_command c (Budget_Adjust k d) r =
     bind_res (redis_budget_adjust k d r) (\<lambda>(n, r'). Inr (Int_Reply n, r'))"

fun mem_commands :: "store_command list \<Rightarrow> store \<Rightarrow> store_reply list \<times> store" where
  "mem_commands [] s = ([], s)"
| "mem_commands (x # xs) s =
     (case mem_command x s of (y, s1) \<Rightarrow> case mem_commands xs s1 of (ys, s2) \<Rightarrow> (y # ys, s2))"

fun redis_commands :: "store_codec \<Rightarrow> store_command list \<Rightarrow> redis \<Rightarrow> (store_reply list \<times> redis) result" where
  "redis_commands c [] r = Inr ([], r)"
| "redis_commands c (x # xs) r =
     bind_res (redis_command c x r) (\<lambda>(y, r1).
     bind_res (redis_commands c xs r1) (\<lambda>(ys, r2). Inr (y # ys, r2)))"

fun survives :: "store_codec \<Rightarrow> store_command \<Rightarrow> bool" where
  \<comment> \<open>what the command writes survives its serialisation\<close>
  "survives c (Put_Face f) = (sc_load_face c (sc_dump_face c f) = Inr f)"
| "survives c (Put_Session x) = (sc_load_session c (sc_dump_session c x) = Inr x)"
| "survives c _ = True"

abbreviation codec_rel :: "store_codec \<Rightarrow> redis \<Rightarrow> store \<Rightarrow> bool" where
  "codec_rel c \<equiv> store_rel (sc_load_face c) (sc_load_session c)"

lemma rel_empty: "store_rel lf ls Map.empty empty_store"
  by (simp add: rel_defs empty_store_def lua_number_def)

lemma rel_reads:
  assumes "store_rel lf ls r s"
  shows "redis_get_face lf k r = Inr (get_face k s)" "redis_get_session ls k r = Inr (get_session k s)"
    "redis_idem_get k r = idem_get k s"
  using assms by (simp_all add: store_rel_def)

lemma command_simulation:
  assumes "codec_rel c r s" and "survives c x"
  shows "\<exists>r'. redis_command c x r = Inr (fst (mem_command x s), r') \<and> codec_rel c r' (snd (mem_command x s))"
proof (cases x)
  case (Acquire_Lock k t)
  with rel_acquire [OF assms(1), of k t] show ?thesis by (auto split: prod.splits)
next
  case (Release_Lock k t)
  with rel_release [OF assms(1), of k t] show ?thesis by (auto split: prod.splits)
next
  case (Idem_Put k v)
  with rel_idem_put [OF assms(1), of k v] show ?thesis by (auto split: prod.splits)
next
  case (Budget_Reserve k e l)
  with rel_reserve [OF assms(1), of k e l] show ?thesis by (auto split: prod.splits)
next
  case (Budget_Adjust k d)
  with rel_adjust [OF assms(1), of k d] show ?thesis by (auto split: prod.splits)
qed (use assms in \<open>simp_all add: rel_reads rel_put_face rel_put_session\<close>)

lemma commands_simulation:
  assumes "codec_rel c r s" and "list_all (survives c) xs"
  shows "\<exists>r'. redis_commands c xs r = Inr (fst (mem_commands xs s), r') \<and> codec_rel c r' (snd (mem_commands xs s))"
  using assms
proof (induction xs arbitrary: r s)
  case (Cons x xs)
  then have "survives c x" "list_all (survives c) xs" by simp_all
  from command_simulation [OF Cons.prems(1) this(1)] obtain r1 where
    r1: "redis_command c x r = Inr (fst (mem_command x s), r1)" "codec_rel c r1 (snd (mem_command x s))" by blast
  from Cons.IH [OF r1(2) \<open>list_all (survives c) xs\<close>] r1(1) show ?case by (auto split: prod.splits)
qed simp

end
