(* ===== verification/Expiry.thy ===== *)
theory Expiry
  imports Store_Refinement Runner_Safety
begin

text \<open>
  Expiry of keys: what \<open>services/connectors/redis_store.py\<close> and the scripts of \<open>utils/lua.py\<close> do with
  their \<open>ttl_seconds\<close>, which the in-memory store ignores. A timed key space gives every key a value and
  the second at which Redis stops serving it; \<open>live\<close> is what a reader sees at an instant. All writers of
  the program set a TTL, and Redis only accepts positive ones.

  Shown: at a frozen instant the timed commands are the untimed ones; over time they are the in-memory
  store with spontaneous forgetting (\<open>forgetful\<close>), and without it while nothing can have expired. Then
  the run lock as a lease (\<open>lease_step\<close>): a run that keeps to the wall clock of \<open>api/deps.py\<close> and the grace
  holds its lock, and a lock whose holder crashed or is late is free again after its TTL.
\<close>

type_synonym timed = "string \<rightharpoonup> bytes \<times> nat"

definition live :: "nat \<Rightarrow> timed \<Rightarrow> redis" where
  "live now t = (\<lambda>k. case t k of None \<Rightarrow> None | Some (v, e) \<Rightarrow> if now < e then Some v else None)"

definition set_ex :: "nat \<Rightarrow> nat \<Rightarrow> string \<Rightarrow> bytes \<Rightarrow> timed \<Rightarrow> timed" where   \<comment> \<open>\<open>SET k v EX ttl\<close>\<close>
  "set_ex now ttl k v t = t(k \<mapsto> (v, now + ttl))"

definition set_nx_ex :: "nat \<Rightarrow> nat \<Rightarrow> string \<Rightarrow> bytes \<Rightarrow> timed \<Rightarrow> bool \<times> timed" where
  \<comment> \<open>\<open>SET k v NX EX ttl\<close>\<close>
  "set_nx_ex now ttl k v t = (if live now t k = None then (True, set_ex now ttl k v t) else (False, t))"

definition timed_acquire :: "nat \<Rightarrow> nat \<Rightarrow> string \<Rightarrow> string \<Rightarrow> timed \<Rightarrow> bool \<times> timed" where
  "timed_acquire now ttl k tok t = set_nx_ex now ttl (lock_key k) tok t"

definition timed_release :: "nat \<Rightarrow> string \<Rightarrow> string \<Rightarrow> timed \<Rightarrow> bool \<times> timed" where
  "timed_release now k tok t =
     (if live now t (lock_key k) = Some tok then (True, t(lock_key k := None)) else (False, t))"

definition timed_reserve :: "nat \<Rightarrow> nat \<Rightarrow> string \<Rightarrow> int \<Rightarrow> int \<Rightarrow> timed \<Rightarrow> (bool \<times> timed) result" where
  \<comment> \<open>\<open>BUDGET_RESERVE\<close>: \<open>EXPIRE\<close> only after an accepted reservation\<close>
  "timed_reserve now ttl k estimate limit t =
     bind_res (lua_number (live now t (budget_key k))) (\<lambda>used.
       if limit < used + estimate then Inr (False, t)
       else Inr (True, set_ex now ttl (budget_key k) (show_int (used + estimate)) t))"

definition timed_adjust :: "nat \<Rightarrow> nat \<Rightarrow> string \<Rightarrow> int \<Rightarrow> timed \<Rightarrow> (int \<times> timed) result" where
  "timed_adjust now ttl k delta t =
     bind_res (lua_number (live now t (budget_key k))) (\<lambda>u.
       let v = max 0 (u + delta) in Inr (v, set_ex now ttl (budget_key k) (show_int v) t))"

fun timed_command ::
  "store_codec \<Rightarrow> nat \<Rightarrow> nat \<Rightarrow> store_command \<Rightarrow> timed \<Rightarrow> (store_reply \<times> timed) result" where
  "timed_command c now ttl (Get_Face k) t =
     bind_res (redis_get_face (sc_load_face c) k (live now t)) (\<lambda>f. Inr (Face_Reply f, t))"
| "timed_command c now ttl (Put_Face f) t =
     Inr (No_Reply, set_ex now ttl (face_key_of (fp_face_key f)) (sc_dump_face c f) t)"
| "timed_command c now ttl (Get_Session k) t =
     bind_res (redis_get_session (sc_load_session c) k (live now t)) (\<lambda>x. Inr (Session_Reply x, t))"
| "timed_command c now ttl (Put_Session x) t =
     Inr (No_Reply, set_ex now ttl (sess_key (ss_session_key x)) (sc_dump_session c x) t)"
| "timed_command c now ttl (Acquire_Lock k tok) t =
     (case timed_acquire now ttl k tok t of (b, t') \<Rightarrow> Inr (Bool_Reply b, t'))"
| "timed_command c now ttl (Release_Lock k tok) t =
     (case timed_release now k tok t of (b, t') \<Rightarrow> Inr (Bool_Reply b, t'))"
| "timed_command c now ttl (Idem_Get k) t = Inr (Bytes_Reply (redis_idem_get k (live now t)), t)"
| "timed_command c now ttl (Idem_Put k v) t =
     (case set_nx_ex now ttl (idemp_key k) v t of (b, t') \<Rightarrow> Inr (Bool_Reply b, t'))"
| "timed_command c now ttl (Budget_Reserve k e l) t =
     bind_res (timed_reserve now ttl k e l t) (\<lambda>(b, t'). Inr (Bool_Reply b, t'))"
| "timed_command c now ttl (Budget_Adjust k d) t =
     bind_res (timed_adjust now ttl k d t) (\<lambda>(n, t'). Inr (Int_Reply n, t'))"

text \<open>A trace gives each command its instant and its TTL.\<close>

type_synonym timed_trace = "(nat \<times> nat \<times> store_command) list"

fun timed_commands :: "store_codec \<Rightarrow> timed_trace \<Rightarrow> timed \<Rightarrow> (store_reply list \<times> timed) result" where
  "timed_commands c [] t = Inr ([], t)"
| "timed_commands c ((now, ttl, x) # xs) t =
     bind_res (timed_command c now ttl x t) (\<lambda>(y, t1).
     bind_res (timed_commands c xs t1) (\<lambda>(ys, t2). Inr (y # ys, t2)))"

abbreviation commands_of :: "timed_trace \<Rightarrow> store_command list" where
  "commands_of xs \<equiv> map (\<lambda>(now, ttl, x). x) xs"

section \<open>At one instant\<close>

lemma live_set_ex [simp]: "0 < ttl \<Longrightarrow> live now (set_ex now ttl k v t) = (live now t)(k \<mapsto> v)"
  by (auto simp: live_def set_ex_def)

lemma live_delete [simp]: "live now (t(k := None)) = (live now t)(k := None)"
  by (auto simp: live_def)

lemma live_empty [simp]: "live now Map.empty = Map.empty"
  by (simp add: live_def)

lemma timed_command_live:
  assumes "0 < ttl"
  shows "(case timed_command c now ttl x t of Inl e \<Rightarrow> Inl e | Inr (y, t') \<Rightarrow> Inr (y, live now t'))
    = redis_command c x (live now t)"
  using assms
  by (cases x)
    (auto simp: bind_res_def redis_put_face_def redis_put_session_def redis_set_def timed_acquire_def
      redis_acquire_lock_def set_nx_ex_def redis_set_nx_def timed_release_def redis_release_lock_def
      lua_release_lock_def redis_idem_put_def timed_reserve_def redis_budget_reserve_def
      lua_budget_reserve_def timed_adjust_def redis_budget_adjust_def lua_budget_adjust_def Let_def max_def
      split: sum.splits)

lemma timed_command_simulates:
  assumes "0 < ttl" and "codec_rel c (live now t) s" and "survives c x"
  obtains t' where "timed_command c now ttl x t = Inr (fst (mem_command x s), t')"
    and "codec_rel c (live now t') (snd (mem_command x s))"
proof -
  obtain r' where "redis_command c x (live now t) = Inr (fst (mem_command x s), r')"
    "codec_rel c r' (snd (mem_command x s))"
    using command_simulation [OF assms(2,3)] by blast
  with timed_command_live [OF assms(1), where c = c and now = now and x = x and t = t] show ?thesis
    by (auto intro: that split: sum.splits prod.splits)
qed

section \<open>Over time\<close>

lemma live_later: "now \<le> now' \<Longrightarrow> live now' t \<subseteq>\<^sub>m live now t"
  by (auto simp: live_def map_le_def split: option.splits)

definition forgets :: "store \<Rightarrow> store \<Rightarrow> bool" where
  "forgets s s' \<longleftrightarrow>
     ms_faces s' \<subseteq>\<^sub>m ms_faces s \<and> ms_sessions s' \<subseteq>\<^sub>m ms_sessions s \<and> ms_locks s' \<subseteq>\<^sub>m ms_locks s
     \<and> ms_idem s' \<subseteq>\<^sub>m ms_idem s \<and> ms_budget s' \<subseteq>\<^sub>m ms_budget s"

definition remaining :: "redis \<Rightarrow> store \<Rightarrow> store" where   \<comment> \<open>the records whose key is still there\<close>
  "remaining r s =
     \<lparr>ms_faces = (\<lambda>k. if r (face_key_of k) = None then None else ms_faces s k),
      ms_sessions = (\<lambda>k. if r (sess_key k) = None then None else ms_sessions s k),
      ms_locks = (\<lambda>k. if r (lock_key k) = None then None else ms_locks s k),
      ms_idem = (\<lambda>k. if r (idemp_key k) = None then None else ms_idem s k),
      ms_budget = (\<lambda>k. if r (budget_key k) = None then None else ms_budget s k)\<rparr>"

lemma remaining_forgets: "forgets s (remaining r s)"
  by (auto simp: forgets_def remaining_def map_le_def dom_def)

lemma submap: "r' \<subseteq>\<^sub>m r \<Longrightarrow> r' k \<noteq> None \<Longrightarrow> r' k = r k"
  by (auto simp: map_le_def dom_def)

lemma remaining_rel:
  assumes "store_rel lf ls r s" and "r' \<subseteq>\<^sub>m r"
  shows "store_rel lf ls r' (remaining r' s)"
proof -
  have gone: "r' k = None \<or> r' k = r k" for k using submap [OF assms(2)] by blast
  have "redis_get_face lf k r' = Inr (get_face k (remaining r' s))" for k
    using rel_reads(1) [OF assms(1), of k] gone [of "face_key_of k"]
    by (auto simp: redis_get_face_def get_face_def remaining_def)
  moreover have "redis_get_session ls k r' = Inr (get_session k (remaining r' s))" for k
    using rel_reads(2) [OF assms(1), of k] gone [of "sess_key k"]
    by (auto simp: redis_get_session_def get_session_def remaining_def)
  moreover have "r' (lock_key k) = ms_locks (remaining r' s) k" for k
    using assms(1) gone [of "lock_key k"] by (auto simp: rel_defs remaining_def)
  moreover have "redis_idem_get k r' = idem_get k (remaining r' s)" for k
    using assms(1) gone [of "idemp_key k"] by (auto simp: rel_defs remaining_def)
  moreover have "lua_number (r' (budget_key k)) = Inr (budget_used k (remaining r' s))" for k
  proof (cases "r' (budget_key k) = None")
    case True
    then show ?thesis by (simp add: lua_number_def budget_used_def remaining_def)
  next
    case False
    with gone [of "budget_key k"] assms(1) show ?thesis
      by (auto simp: store_rel_def budget_used_def remaining_def)
  qed
  ultimately show ?thesis by (simp add: store_rel_def)
qed

inductive forgetful :: "store \<Rightarrow> (store_command \<times> store_reply) list \<Rightarrow> store \<Rightarrow> bool" where
  \<comment> \<open>runs of the in-memory store that may lose records before each command\<close>
  finish: "forgets s s' \<Longrightarrow> forgetful s [] s'"
| command: "forgets s s1 \<Longrightarrow> mem_command x s1 = (y, s2) \<Longrightarrow> forgetful s2 xys s3
    \<Longrightarrow> forgetful s ((x, y) # xys) s3"

inductive_cases forgetful_ConsE: "forgetful s ((x, y) # xys) s'"

definition trace_ok :: "store_codec \<Rightarrow> timed_trace \<Rightarrow> bool" where
  "trace_ok c xs \<longleftrightarrow> list_all (\<lambda>(now, ttl, x). 0 < ttl \<and> survives c x) xs"

lemma timed_refines_forgetful:
  assumes "codec_rel c (live now t) s" and "sorted (now # map fst xs)" and "trace_ok c xs"
  shows "\<exists>ys t' s'. timed_commands c xs t = Inr (ys, t') \<and> length ys = length xs
    \<and> forgetful s (zip (commands_of xs) ys) s' \<and> codec_rel c (live (last (now # map fst xs)) t') s'"
  using assms
proof (induction xs arbitrary: now t s)
  case Nil
  have "forgets s s" by (simp add: forgets_def)
  with Nil show ?case by (auto intro: forgetful.finish)
next
  case (Cons z xs)
  obtain now' ttl x where z: "z = (now', ttl, x)" by (cases z)
  from Cons.prems z have ok: "now \<le> now'" "0 < ttl" "survives c x" "sorted (now' # map fst xs)" "trace_ok c xs"
    by (simp_all add: trace_ok_def)
  let ?s = "remaining (live now' t) s"
  have "codec_rel c (live now' t) ?s"
    using remaining_rel [OF Cons.prems(1) live_later [OF ok(1)]] .
  from timed_command_simulates [OF ok(2) this ok(3)] obtain t1 where
    t1: "timed_command c now' ttl x t = Inr (fst (mem_command x ?s), t1)"
      "codec_rel c (live now' t1) (snd (mem_command x ?s))" by blast
  from Cons.IH [OF t1(2) ok(4,5)] obtain ys t' s' where
    rest: "timed_commands c xs t1 = Inr (ys, t')" "length ys = length xs"
      "forgetful (snd (mem_command x ?s)) (zip (commands_of xs) ys) s'"
      "codec_rel c (live (last (now' # map fst xs)) t') s'" by blast
  have "forgetful s ((x, fst (mem_command x ?s)) # zip (commands_of xs) ys) s'"
    using remaining_forgets prod.collapse [symmetric] rest(3) by (rule forgetful.command)
  with t1(1) rest z show ?case by auto
qed

text \<open>While nothing can have expired, nothing is forgotten.\<close>

definition fresh_until :: "nat \<Rightarrow> timed \<Rightarrow> bool" where
  "fresh_until T t \<longleftrightarrow> (\<forall>k v e. t k = Some (v, e) \<longrightarrow> T < e)"

lemma live_fresh: "fresh_until T t \<Longrightarrow> now \<le> T \<Longrightarrow> live now t = live T t"
  by (force simp: live_def fresh_until_def fun_eq_iff split: option.splits)

lemma set_ex_fresh: "fresh_until T t \<Longrightarrow> T < now + ttl \<Longrightarrow> fresh_until T (set_ex now ttl k v t)"
  by (auto simp: fresh_until_def set_ex_def)

lemma timed_command_fresh:
  assumes "timed_command c now ttl x t = Inr (y, t')" and "fresh_until T t" and "T < now + ttl"
  shows "fresh_until T t'"
proof -
  have del: "fresh_until T (t(k := None))" for k using assms(2) by (simp add: fresh_until_def)
  show ?thesis
    using assms(1,2) set_ex_fresh [OF assms(2,3)] del
    by (cases x)
      (auto simp: bind_res_def timed_acquire_def set_nx_ex_def timed_release_def timed_reserve_def
        timed_adjust_def Let_def split: sum.splits prod.splits if_splits)
qed

lemma timed_within_horizon:
  assumes "codec_rel c (live T t) s" and "fresh_until T t" and "trace_ok c xs"
    and "list_all (\<lambda>(now, ttl, x). now \<le> T \<and> T < now + ttl) xs"
  shows "\<exists>t'. timed_commands c xs t = Inr (fst (mem_commands (commands_of xs) s), t')
    \<and> codec_rel c (live T t') (snd (mem_commands (commands_of xs) s)) \<and> fresh_until T t'"
  using assms
proof (induction xs arbitrary: t s)
  case (Cons z xs)
  obtain now ttl x where z: "z = (now, ttl, x)" by (cases z)
  from Cons.prems z have ok: "0 < ttl" "survives c x" "now \<le> T" "T < now + ttl" "trace_ok c xs"
    "list_all (\<lambda>(now, ttl, x). now \<le> T \<and> T < now + ttl) xs"
    by (simp_all add: trace_ok_def)
  have "codec_rel c (live now t) s" using Cons.prems(1) live_fresh [OF Cons.prems(2) ok(3)] by simp
  from timed_command_simulates [OF ok(1) this ok(2)] obtain t1 where
    t1: "timed_command c now ttl x t = Inr (fst (mem_command x s), t1)"
      "codec_rel c (live now t1) (snd (mem_command x s))" by blast
  have f: "fresh_until T t1" using timed_command_fresh [OF t1(1) Cons.prems(2) ok(4)] .
  have "codec_rel c (live T t1) (snd (mem_command x s))" using t1(2) live_fresh [OF f ok(3)] by simp
  from Cons.IH [OF this f ok(5,6)] t1(1) z show ?case by (auto split: prod.splits)
qed simp

section \<open>The run lock as a lease\<close>

text \<open>
  Processes that take, hold and give back run locks on one Redis, with time. A run waits until its task
  starts, drives its graph and stops; time passes for all of them, and a process may die at any moment.
  Nothing in the code bounds the time a run holds its lock outside \<open>asyncio.timeout\<close>, so a run may
  outlive its lease; \<open>in_time\<close> says of a run that it has not: it drove its graph for at most the wall clock,
  as \<open>asyncio.timeout\<close> is there to make it, and spent less than the grace around it.
\<close>

definition run_lock_grace_seconds :: nat where "run_lock_grace_seconds = 60"

definition run_lock_ttl :: "nat \<Rightarrow> nat" where   \<comment> \<open>the \<open>ttl_seconds\<close> of \<open>_spawn\<close>\<close>
  "run_lock_ttl wall_clock = wall_clock + run_lock_grace_seconds"

datatype stage = Waiting | Driving | Stopped

record holder =
  ho_key :: string
  ho_token :: string
  ho_since :: nat
  ho_stage :: stage
  ho_driven :: nat   \<comment> \<open>seconds inside \<open>asyncio.timeout\<close>\<close>
  ho_idle :: nat     \<comment> \<open>seconds with the lock outside of it\<close>

record lease =
  le_now :: nat
  le_redis :: timed
  le_holders :: "holder list"

abbreviation lease_key :: "string \<Rightarrow> string" where
  "lease_key k \<equiv> lock_key (run_lock_key k)"

definition take_lease :: "nat \<Rightarrow> string \<Rightarrow> string \<Rightarrow> lease \<Rightarrow> lease" where   \<comment> \<open>the first half of \<open>_spawn\<close>\<close>
  "take_lease wall_clock k tok l =
     (case timed_acquire (le_now l) (run_lock_ttl wall_clock) (run_lock_key k) tok (le_redis l) of
        (acquired, t) \<Rightarrow>
          if \<not> acquired then l
          else l\<lparr>le_redis := t,
                 le_holders := \<lparr>ho_key = k, ho_token = tok, ho_since = le_now l, ho_stage = Waiting,
                                 ho_driven = 0, ho_idle = 0\<rparr> # le_holders l\<rparr>)"

definition in_time :: "nat \<Rightarrow> holder \<Rightarrow> bool" where
  "in_time wall_clock h \<longleftrightarrow> ho_driven h \<le> wall_clock \<and> ho_idle h < run_lock_grace_seconds"

definition new_token :: "string \<Rightarrow> lease \<Rightarrow> bool" where   \<comment> \<open>\<open>uuid4().hex\<close> never repeats\<close>
  "new_token tok l \<longleftrightarrow>
     tok \<notin> ho_token ` set (le_holders l) \<and> (\<forall>k e. le_redis l (lease_key k) \<noteq> Some (tok, e))"

definition wait_second :: "holder \<Rightarrow> holder" where
  "wait_second h =
     (if ho_stage h = Driving then h\<lparr>ho_driven := Suc (ho_driven h)\<rparr> else h\<lparr>ho_idle := Suc (ho_idle h)\<rparr>)"

inductive lease_step :: "nat \<Rightarrow> lease \<Rightarrow> lease \<Rightarrow> bool" for wall_clock where
  take: "new_token tok l \<Longrightarrow> lease_step wall_clock l (take_lease wall_clock k tok l)"
| move: "le_holders l = xs @ h # ys \<Longrightarrow> (ho_stage h, stage) \<in> {(Waiting, Driving), (Driving, Stopped)}
    \<Longrightarrow> lease_step wall_clock l (l\<lparr>le_holders := xs @ h\<lparr>ho_stage := stage\<rparr> # ys\<rparr>)"
| release: "le_holders l = xs @ h # ys \<Longrightarrow> ho_stage h = Stopped
    \<Longrightarrow> timed_release (le_now l) (run_lock_key (ho_key h)) (ho_token h) (le_redis l) = (b, t)
    \<Longrightarrow> lease_step wall_clock l (l\<lparr>le_redis := t, le_holders := xs @ ys\<rparr>)"
| crash: "le_holders l = xs @ h # ys \<Longrightarrow> lease_step wall_clock l (l\<lparr>le_holders := xs @ ys\<rparr>)"
| tick: "lease_step wall_clock l (l\<lparr>le_now := Suc (le_now l), le_holders := map wait_second (le_holders l)\<rparr>)"
| other: "(\<And>k. t (lease_key k) = le_redis l (lease_key k)) \<Longrightarrow> lease_step wall_clock l (l\<lparr>le_redis := t\<rparr>)"

definition holder_ok :: "nat \<Rightarrow> nat \<Rightarrow> timed \<Rightarrow> holder \<Rightarrow> bool" where
  "holder_ok wall_clock now t h \<longleftrightarrow>
     now = ho_since h + ho_driven h + ho_idle h
     \<and> (in_time wall_clock h \<longrightarrow> t (lease_key (ho_key h)) = Some (ho_token h, ho_since h + run_lock_ttl wall_clock))"

definition lease_inv :: "nat \<Rightarrow> lease \<Rightarrow> bool" where
  "lease_inv wall_clock l \<longleftrightarrow>
     list_all (holder_ok wall_clock (le_now l) (le_redis l)) (le_holders l)
     \<and> distinct (map ho_token (le_holders l))
     \<and> (\<forall>k v e. le_redis l (lease_key k) = Some (v, e) \<longrightarrow> e \<le> le_now l + run_lock_ttl wall_clock)"

lemma holder_live:
  "holder_ok wall_clock now t h \<Longrightarrow> in_time wall_clock h \<Longrightarrow> live now t (lease_key (ho_key h)) = Some (ho_token h)"
  by (auto simp: holder_ok_def in_time_def live_def run_lock_ttl_def)

text \<open>Two holders that are in time hold different locks.\<close>

lemma lease_exclusive:
  assumes "lease_inv wall_clock l" and "g \<in> set (le_holders l)" and "h \<in> set (le_holders l)"
    and "in_time wall_clock g" and "in_time wall_clock h" and "ho_key g = ho_key h"
  shows "g = h"
proof -
  have "ho_token g = ho_token h"
    using assms holder_live [of wall_clock "le_now l" "le_redis l" g] holder_live [of wall_clock "le_now l" "le_redis l" h]
    by (simp add: lease_inv_def list_all_iff)
  with assms(1-3) show ?thesis by (simp add: lease_inv_def distinct_map inj_on_def)
qed

lemma take_inv:
  assumes inv: "lease_inv wall_clock l" and tok: "new_token tok l"
  shows "lease_inv wall_clock (take_lease wall_clock k tok l)"
proof (cases "live (le_now l) (le_redis l) (lease_key k) = None")
  case True
  have "ho_key h \<noteq> k" if "h \<in> set (le_holders l)" "in_time wall_clock h" for h
    using inv that True holder_live [of wall_clock "le_now l" "le_redis l" h]
    by (auto simp: lease_inv_def list_all_iff)
  then show ?thesis
    using inv True tok
    by (auto simp: lease_inv_def take_lease_def timed_acquire_def set_nx_ex_def set_ex_def holder_ok_def
        list_all_iff new_token_def)
qed (use inv in \<open>auto simp: take_lease_def timed_acquire_def set_nx_ex_def\<close>)

text \<open>A release takes back the holder's own lock and nobody else's, however late it is.\<close>

lemma release_inv:
  assumes inv: "lease_inv wall_clock l" and l: "le_holders l = xs @ h # ys"
    and t: "timed_release (le_now l) (run_lock_key (ho_key h)) (ho_token h) (le_redis l) = (b, t)"
  shows "lease_inv wall_clock (l\<lparr>le_redis := t, le_holders := xs @ ys\<rparr>)"
proof -
  have t': "t = (if live (le_now l) (le_redis l) (lease_key (ho_key h)) = Some (ho_token h)
      then (le_redis l)(lease_key (ho_key h) := None) else le_redis l)"
    using t by (auto simp: timed_release_def split: if_splits)
  have "holder_ok wall_clock (le_now l) t g" if g: "g \<in> set (xs @ ys)" for g
  proof -
    have ok: "holder_ok wall_clock (le_now l) (le_redis l) g" using inv l g by (auto simp: lease_inv_def list_all_iff)
    have "ho_token h \<notin> ho_token ` set (xs @ ys)" using inv l by (auto simp: lease_inv_def)
    with g have "ho_token g \<noteq> ho_token h" by (metis imageI)
    then have "in_time wall_clock g \<Longrightarrow> ho_key g = ho_key h
        \<Longrightarrow> live (le_now l) (le_redis l) (lease_key (ho_key h)) \<noteq> Some (ho_token h)"
      using holder_live [OF ok] by auto
    with ok show ?thesis by (auto simp: t' holder_ok_def)
  qed
  moreover have "distinct (map ho_token (xs @ ys))" using inv l by (simp add: lease_inv_def)
  moreover have "e \<le> le_now l + run_lock_ttl wall_clock" if "t (lease_key k) = Some (v, e)" for k v e
    using inv that by (auto simp: lease_inv_def t' split: if_splits)
  ultimately show ?thesis by (auto simp: lease_inv_def list_all_iff)
qed

lemma wait_ok: "holder_ok wall_clock now t h \<Longrightarrow> holder_ok wall_clock (Suc now) t (wait_second h)"
  by (auto simp: holder_ok_def in_time_def wait_second_def)

lemma wait_token [simp]: "ho_token (wait_second h) = ho_token h"
  by (simp add: wait_second_def)

lemma tick_inv:
  assumes inv: "lease_inv wall_clock l"
  shows "lease_inv wall_clock (l\<lparr>le_now := Suc (le_now l), le_holders := map wait_second (le_holders l)\<rparr>)"
proof -
  have "list_all (holder_ok wall_clock (Suc (le_now l)) (le_redis l)) (map wait_second (le_holders l))"
    using inv wait_ok by (auto simp: lease_inv_def list_all_iff)
  moreover have "map ho_token (map wait_second (le_holders l)) = map ho_token (le_holders l)" by simp
  ultimately show ?thesis using inv by (auto simp: lease_inv_def intro: le_SucI simp del: map_map)
qed

lemma lease_step_inv:
  assumes "lease_step wall_clock l l'" and "lease_inv wall_clock l"
  shows "lease_inv wall_clock l'"
  using assms
proof (induction rule: lease_step.induct)
  case (move l xs h ys stage)
  then show ?case by (auto simp: lease_inv_def holder_ok_def in_time_def)
next
  case (crash l xs h ys)
  then show ?case by (auto simp: lease_inv_def)
next
  case (other t l)
  then show ?case by (auto simp: lease_inv_def holder_ok_def list_all_iff)
qed (simp_all add: take_inv release_inv tick_inv)

definition new_lease :: "nat \<Rightarrow> timed \<Rightarrow> lease" where
  "new_lease now t = \<lparr>le_now = now, le_redis = t, le_holders = []\<rparr>"

lemma lease_reachable:
  assumes "(lease_step wall_clock)\<^sup>*\<^sup>* (new_lease now t) l" and "\<And>k. t (lease_key k) = None"
  shows "lease_inv wall_clock l"
  using assms(1)
proof (induction rule: rtranclp_induct)
  case base
  show ?case using assms(2) by (simp add: lease_inv_def new_lease_def)
qed (rule lease_step_inv)

text \<open>With the TTL of the session on both, a counter that is not touched after the session's last write
expires before the session, and the whole limit can be reserved again.\<close>

lemma counter_expires_first:
  assumes "sc_load_session c (sc_dump_session c s) = Inr s" and "1 < ttl"
  shows "\<exists>t. timed_commands c
      [(0, ttl, Budget_Reserve (ss_session_key s) 10 10), (1, ttl, Put_Session s),
       (ttl, ttl, Get_Session (ss_session_key s)), (ttl, ttl, Budget_Reserve (ss_session_key s) 10 10)] Map.empty
    = Inr ([Bool_Reply True, No_Reply, Session_Reply (Some s), Bool_Reply True], t)"
  using assms
  by (simp add: timed_reserve_def lua_number_def redis_get_session_def set_ex_def live_def)

end
