(* ===== verification/Log_Scrub.thy ===== *)
theory Log_Scrub
  imports Prelude
begin

text \<open>
  The redaction of log events (\<open>src/utils/logging.py\<close>). A bound value is a text, a nested mapping, a
  list or something else; keys are text. \<open>configure_logging\<close> only puts the processors in order.
\<close>

datatype log_value =
    Log_Text string
  | Log_Dict "(string \<times> log_value) list"
  | Log_List "log_value list"
  | Log_Other

definition sensitive_keys :: "string list" where
  "sensitive_keys = [''embedding'', ''image'', ''image_b64'', ''photo'', ''face_crop'', ''reference_images'',
     ''answer'', ''value'', ''prompt'', ''api_key'', ''authorization'', ''secret'']"

definition redacted :: log_value where "redacted = Log_Text ''[redacted]''"

fun scrub :: "(string \<times> log_value) list \<Rightarrow> (string \<times> log_value) list" where   \<comment> \<open>\<open>_scrub\<close>\<close>
  "scrub [] = []"
| "scrub ((key, v) # rest) =
     (key, if lower key \<in> set sensitive_keys then redacted
           else (case v of Log_Dict d \<Rightarrow> Log_Dict (scrub d) | _ \<Rightarrow> v)) # scrub rest"

definition scrub_sensitive :: "(string \<times> log_value) list \<Rightarrow> (string \<times> log_value) list" where
  "scrub_sensitive event = scrub event"

text \<open>Everything that can be reached through mappings only.\<close>

inductive reaches :: "(string \<times> log_value) list \<Rightarrow> string \<Rightarrow> log_value \<Rightarrow> bool" where
  here: "(key, v) \<in> set d \<Longrightarrow> reaches d key v"
| inside: "(key', Log_Dict d') \<in> set d \<Longrightarrow> reaches d' key v \<Longrightarrow> reaches d key v"

inductive_cases reachesE: "reaches d key v"

lemma scrub_keys: "map fst (scrub d) = map fst d"
  by (induction d rule: scrub.induct) simp_all

lemma scrub_in:
  assumes "(key, v) \<in> set (scrub d)"
  shows "lower key \<in> set sensitive_keys \<and> v = redacted
    \<or> lower key \<notin> set sensitive_keys
      \<and> (\<exists>u. (key, u) \<in> set d \<and> v = (case u of Log_Dict e \<Rightarrow> Log_Dict (scrub e) | _ \<Rightarrow> u))"
  using assms by (induction d rule: scrub.induct) (auto split: if_splits)

lemma scrubbed_dict:
  "Log_Dict d' = (case u of Log_Dict e \<Rightarrow> Log_Dict (scrub e) | _ \<Rightarrow> u) \<Longrightarrow> (\<And>e. d' = scrub e \<Longrightarrow> thesis) \<Longrightarrow> thesis"
  by (cases u) auto

lemma scrubbed_reaches:
  assumes "reaches s key v" "s = scrub d" "lower key \<in> set sensitive_keys"
  shows "v = redacted"
  using assms
proof (induction arbitrary: d rule: reaches.induct)
  case (here key v s)
  then show ?case using scrub_in [of key v d] by auto
next
  case (inside key' d' s key v)
  from inside.hyps(1) inside.prems(1) have "(key', Log_Dict d') \<in> set (scrub d)" by simp
  from scrub_in [OF this] obtain e where "d' = scrub e"
    by (auto simp: redacted_def elim: scrubbed_dict)
  then show ?case using inside.IH inside.prems(2) by blast
qed

lemma scrub_idempotent: "scrub (scrub d) = scrub d"
proof (induction d rule: scrub.induct)
  case (2 key v rest)
  then show ?case by (cases v) (auto simp: redacted_def)
qed simp

text \<open>A mapping inside a list is not visited.\<close>

lemma lists_not_scrubbed:
  "scrub [(''items'', Log_List [Log_Dict [(''prompt'', Log_Text ''text'')]])]
     = [(''items'', Log_List [Log_Dict [(''prompt'', Log_Text ''text'')]])]"
  by code_simp

end
