(* ===== verification/Log_Pipeline.thy ===== *)
theory Log_Pipeline
  imports Log_Scrub Config Runner
begin

text \<open>
  The logging set-up (\<open>configure_logging\<close> of \<open>src/utils/logging.py\<close>) and the event the telemetry of
  \<open>services/telemetry.py\<close> sends through it. structlog's processors and renderers are a parameter, and so
  are the context variables: a processor may put anything into an event. Filtering by level comes first,
  the processors run in the configured order, the renderer last.
\<close>

type_synonym log_event = "(string \<times> log_value) list"

record structlog =   \<comment> \<open>the processors of the library; each gets the method's name and the event\<close>
  lo_merge_contextvars :: "string \<Rightarrow> log_event \<Rightarrow> log_event"
  lo_add_log_level :: "string \<Rightarrow> log_event \<Rightarrow> log_event"
  lo_time_stamper :: "string \<Rightarrow> log_event \<Rightarrow> log_event"
  lo_stack_info :: "string \<Rightarrow> log_event \<Rightarrow> log_event"
  lo_format_exc_info :: "string \<Rightarrow> log_event \<Rightarrow> log_event"
  lo_json_renderer :: "log_event \<Rightarrow> string"
  lo_console_renderer :: "log_event \<Rightarrow> string"

record log_config =
  lc_processors :: "(string \<Rightarrow> log_event \<Rightarrow> log_event) list"
  lc_renderer :: "log_event \<Rightarrow> string"
  lc_min_level :: nat

definition level_names :: "(string, nat) dict" where   \<comment> \<open>\<open>logging.getLevelNamesMapping()\<close>\<close>
  "level_names =
     [(''CRITICAL'', 50), (''FATAL'', 50), (''ERROR'', 40), (''WARN'', 30), (''WARNING'', 30),
      (''INFO'', 20), (''DEBUG'', 10), (''NOTSET'', 0)]"

definition method_levels :: "(string, nat) dict" where   \<comment> \<open>of a filtering bound logger\<close>
  "method_levels =
     [(''critical'', 50), (''error'', 40), (''exception'', 40), (''warning'', 30), (''info'', 20), (''debug'', 10)]"

definition configure_logging :: "structlog \<Rightarrow> settings \<Rightarrow> log_config result" where
  "configure_logging lib s =
     (case dict_get level_names (cf_log_level s) of
        None \<Rightarrow> Inl (KeyError (cf_log_level s))
      | Some level \<Rightarrow> Inr
          \<lparr>lc_processors =
             [lo_merge_contextvars lib, lo_add_log_level lib, lo_time_stamper lib, lo_stack_info lib,
              lo_format_exc_info lib, \<lambda>_. scrub_sensitive],
           lc_renderer = (if cf_log_json s then lo_json_renderer lib else lo_console_renderer lib),
           lc_min_level = level\<rparr>)"

definition log_line :: "log_config \<Rightarrow> string \<Rightarrow> log_event \<Rightarrow> string option" where
  \<comment> \<open>what a call of the logger's \<open>method\<close> writes\<close>
  "log_line c method event =
     (case dict_get method_levels method of
        None \<Rightarrow> None
      | Some level \<Rightarrow>
          if level < lc_min_level c then None
          else Some (lc_renderer c (fold (\<lambda>p. p method) (lc_processors c) event)))"

fun risk_value :: "risk_level \<Rightarrow> string" where
  "risk_value LOW = ''low''"
| "risk_value MEDIUM = ''medium''"
| "risk_value HIGH = ''high''"

definition text_or_none :: "string option \<Rightarrow> log_value" where
  "text_or_none x = (case x of None \<Rightarrow> Log_Other | Some s \<Rightarrow> Log_Text s)"

definition outcome_event :: "outcome_record \<Rightarrow> log_event" where
  \<comment> \<open>the keywords of \<open>logger.info("session_terminal", ...)\<close>; numbers are \<open>Log_Other\<close>\<close>
  "outcome_event r =
     [(''event'', Log_Text ''session_terminal''), (''fsm_state'', Log_Text (te_fsm_state r)),
      (''preset_id'', text_or_none (te_preset_id r)),
      (''preset_version'', text_or_none (te_preset_version r)),
      (''library_version'', text_or_none (te_library_version r)),
      (''slots'', Log_Dict (map (\<lambda>(n, v). (n, Log_Text v)) (te_slots r))),
      (''n_iterations'', Log_Other), (''n_retries'', Log_Other), (''generations_charged'', Log_Other),
      (''n_llm_calls'', Log_Other), (''budget_limit'', Log_Other), (''cost'', Log_Other),
      (''prompt_tokens'', Log_Other), (''completion_tokens'', Log_Other), (''best_similarity'', Log_Other),
      (''verdict'', text_or_none (map_option verdict_value (te_verdict r))),
      (''risk_level'', text_or_none (map_option risk_value (te_risk_level r))),
      (''failure_reason'', text_or_none (te_failure_reason r)),
      (''failure_code'', text_or_none (te_failure_code r))]"

text \<open>Whatever the library and the context put into an event, the renderer gets it scrubbed.\<close>

lemma configured_line:
  assumes "configure_logging lib s = Inr c" and "log_line c method event = Some line"
  shows "\<exists>e. line = lc_renderer c (scrub e)
    \<and> lc_renderer c = (if cf_log_json s then lo_json_renderer lib else lo_console_renderer lib)"
  using assms
  by (auto simp: configure_logging_def log_line_def scrub_sensitive_def split: option.splits if_splits)

lemma scrub_clean: "reaches (scrub e) key v \<Longrightarrow> lower key \<in> set sensitive_keys \<Longrightarrow> v = redacted"
  using scrubbed_reaches by blast

text \<open>The level is one of the five names, so the set-up does not fail.\<close>

lemma configure_logging_total:
  assumes "cf_log_level s \<in> set [''DEBUG'', ''INFO'', ''WARNING'', ''ERROR'', ''CRITICAL'']"
  shows "\<exists>c. configure_logging lib s = Inr c"
  using assms by (auto simp: configure_logging_def level_names_def)

text \<open>The user's own words in a free-form slot are part of the outcome event and not redacted.\<close>

lemma scrub_keeps: "(k, v) \<in> set d \<Longrightarrow> lower k \<notin> set sensitive_keys
    \<Longrightarrow> (k, case v of Log_Dict e \<Rightarrow> Log_Dict (scrub e) | _ \<Rightarrow> v) \<in> set (scrub d)"
  by (induction d rule: scrub.induct) auto

lemma slots_not_sensitive: "lower ''slots'' \<notin> set sensitive_keys"
  by code_simp

lemma slot_text_is_logged:
  assumes "(n, answer) \<in> set (ss_slots s)" and "lower n \<notin> set sensitive_keys"
  shows "reaches (scrub (outcome_event (session_terminal s r c))) n (Log_Text answer)"
proof -
  have "(''slots'', Log_Dict (map (\<lambda>(n, v). (n, Log_Text v)) (ss_slots s)))
      \<in> set (outcome_event (session_terminal s r c))"
    by (simp add: outcome_event_def session_terminal_def)
  from scrub_keeps [OF this slots_not_sensitive] have top:
    "(''slots'', Log_Dict (scrub (map (\<lambda>(n, v). (n, Log_Text v)) (ss_slots s))))
      \<in> set (scrub (outcome_event (session_terminal s r c)))"
    by simp
  have "(n, Log_Text answer) \<in> set (map (\<lambda>(n, v). (n, Log_Text v)) (ss_slots s))"
    using assms(1) by force
  from scrub_keeps [OF this assms(2)] top show ?thesis by (auto intro: reaches.intros)
qed

end
