(* ===== verification/Wire.thy ===== *)
theory Wire
  imports Http_Api Expiry Log_Pipeline
begin

text \<open>
  What goes over the wire and into Redis: the pydantic models of \<open>src/schemas/\<close> as JSON. For every model
  its dump (\<open>model_dump_json\<close>: the fields in declaration order, \<open>schema_v\<close> first, absent values as
  \<open>null\<close>) and its validation (\<open>model_validate_json\<close> in pydantic's lax mode: unknown keys are refused
  everywhere, missing fields take their defaults). The JSON text, and numbers and times inside strings,
  are a parameter (\<open>wire\<close>). A counter that is negative has no image in the model and is refused.
\<close>

section \<open>Reading JSON\<close>

record wire =
  wi_dumps :: "json \<Rightarrow> bytes"
  wi_loads :: "bytes \<Rightarrow> json result"
  wi_show_decimal :: "usd \<Rightarrow> string"              \<comment> \<open>\<open>str\<close> of a \<open>Decimal\<close>\<close>
  wi_decimal :: "string \<Rightarrow> usd option"            \<comment> \<open>\<open>Decimal\<close> of a text, if finite\<close>
  wi_float :: "string \<Rightarrow> rat option"
  wi_int :: "string \<Rightarrow> int option"
  wi_time :: "json \<Rightarrow> bool"                       \<comment> \<open>reads as a \<open>datetime\<close>\<close>

definition invalid :: "'a result" where   \<comment> \<open>\<open>ValidationError\<close>, a \<open>ValueError\<close>\<close>
  "invalid = Inl (ValueError ''ValidationError'')"

definition or_invalid :: "'a option \<Rightarrow> 'a result" where
  "or_invalid x = (case x of None \<Rightarrow> invalid | Some y \<Rightarrow> Inr y)"

fun read_str :: "json \<Rightarrow> string result" where
  "read_str (JStr s) = Inr s"
| "read_str _ = invalid"

fun read_bool :: "json \<Rightarrow> bool result" where
  "read_bool (JBool b) = Inr b"
| "read_bool (JInt i) = (if i = 0 then Inr False else if i = 1 then Inr True else invalid)"
| "read_bool (JFloat x) = (if x = 0 then Inr False else if x = 1 then Inr True else invalid)"
| "read_bool (JStr s) =
     (if lower s \<in> set [''0'', ''off'', ''f'', ''false'', ''n'', ''no''] then Inr False
      else if lower s \<in> set [''1'', ''on'', ''t'', ''true'', ''y'', ''yes''] then Inr True else invalid)"
| "read_bool _ = invalid"

fun read_int :: "wire \<Rightarrow> json \<Rightarrow> int result" where
  "read_int w (JInt i) = Inr i"
| "read_int w (JBool b) = Inr (if b then 1 else 0)"
| "read_int w (JFloat x) = (if x = of_int \<lfloor>x\<rfloor> then Inr \<lfloor>x\<rfloor> else invalid)"
| "read_int w (JStr s) = or_invalid (wi_int w s)"
| "read_int w _ = invalid"

definition read_nat :: "wire \<Rightarrow> json \<Rightarrow> nat result" where
  "read_nat w j = bind_res (read_int w j) (\<lambda>i. if 0 \<le> i then Inr (nat i) else invalid)"

fun read_float :: "wire \<Rightarrow> json \<Rightarrow> rat result" where
  "read_float w (JFloat x) = Inr x"
| "read_float w (JInt i) = Inr (of_int i)"
| "read_float w (JBool b) = Inr (if b then 1 else 0)"
| "read_float w (JStr s) = or_invalid (wi_float w s)"
| "read_float w _ = invalid"

fun read_decimal :: "wire \<Rightarrow> json \<Rightarrow> usd result" where
  "read_decimal w (JStr s) = or_invalid (wi_decimal w s)"
| "read_decimal w (JInt i) = Inr (of_int i)"
| "read_decimal w (JFloat x) = Inr x"
| "read_decimal w _ = invalid"

definition read_opt :: "(json \<Rightarrow> 'a result) \<Rightarrow> json \<Rightarrow> 'a option result" where
  "read_opt r j = (if j = JNull then Inr None else bind_res (r j) (\<lambda>x. Inr (Some x)))"

fun read_list :: "(json \<Rightarrow> 'a result) \<Rightarrow> json \<Rightarrow> 'a list result" where
  "read_list r (JArr js) = map_res r js"
| "read_list r _ = invalid"

fun read_text_dict :: "json \<Rightarrow> (string, string) dict result" where   \<comment> \<open>\<open>dict[str, str]\<close>\<close>
  "read_text_dict (JObj d) = map_res (\<lambda>(k, j). bind_res (read_str j) (\<lambda>s. Inr (k, s))) d"
| "read_text_dict _ = invalid"

definition read_time :: "wire \<Rightarrow> json \<Rightarrow> unit result" where   \<comment> \<open>the model has no use for the value\<close>
  "read_time w j = (if j = JNull \<or> wi_time w j then Inr () else invalid)"

definition read_literal :: "string \<Rightarrow> json \<Rightarrow> unit result" where
  "read_literal s j = (if j = JStr s then Inr () else invalid)"

definition read_enum :: "('a \<Rightarrow> string) \<Rightarrow> 'a list \<Rightarrow> json \<Rightarrow> 'a result" where
  "read_enum val members j =
     bind_res (read_str j) (\<lambda>s. or_invalid (List.find (\<lambda>x. val x = s) members))"

text \<open>Objects: \<open>extra="forbid"\<close>, then field by field.\<close>

definition fields_of :: "string list \<Rightarrow> json \<Rightarrow> (string, json) dict result" where
  "fields_of names j =
     (case j of JObj d \<Rightarrow> if list_all (\<lambda>(k, _). k \<in> set names) d then Inr d else invalid | _ \<Rightarrow> invalid)"

definition required :: "string \<Rightarrow> (json \<Rightarrow> 'a result) \<Rightarrow> (string, json) dict \<Rightarrow> 'a result" where
  "required k r d = (case dict_get d k of None \<Rightarrow> invalid | Some j \<Rightarrow> r j)"

definition optional :: "string \<Rightarrow> 'a \<Rightarrow> (json \<Rightarrow> 'a result) \<Rightarrow> (string, json) dict \<Rightarrow> 'a result" where
  "optional k x r d = (case dict_get d k of None \<Rightarrow> Inr x | Some j \<Rightarrow> r j)"

text \<open>Writing.\<close>

definition nat_json :: "nat \<Rightarrow> json" where "nat_json n = JInt (int n)"

definition decimal_json :: "wire \<Rightarrow> usd \<Rightarrow> json" where "decimal_json w x = JStr (wi_show_decimal w x)"

definition list_json :: "('a \<Rightarrow> json) \<Rightarrow> 'a list \<Rightarrow> json" where "list_json f xs = JArr (map f xs)"

definition text_dict_json :: "(string, string) dict \<Rightarrow> json" where
  "text_dict_json d = JObj (map (\<lambda>(k, s). (k, JStr s)) d)"

fun call_kind_value :: "paid_call_kind \<Rightarrow> string" where
  "call_kind_value GENERATION = ''generation''"
| "call_kind_value SLOT_FILL = ''slot_fill''"
| "call_kind_value CLASSIFY = ''classify''"
| "call_kind_value INVENTORY = ''inventory''"

fun status_value :: "step_status \<Rightarrow> string" where   \<comment> \<open>\<open>StepStatus\<close>\<close>
  "status_value Pending = ''pending''"
| "status_value Completed = ''completed''"
| "status_value Skipped = ''skipped''"

abbreviation "verdict_json v \<equiv> JStr (verdict_value v)"
abbreviation "gate_reason_json v \<equiv> JStr (gate_reason_value v)"
abbreviation "fsm_json v \<equiv> JStr (fsm_value v)"
abbreviation "risk_json v \<equiv> JStr (risk_value v)"
abbreviation "failure_json v \<equiv> JStr (failure_code_value v)"
abbreviation "call_kind_json v \<equiv> JStr (call_kind_value v)"
abbreviation "status_json v \<equiv> JStr (status_value v)"

definition read_verdict :: "json \<Rightarrow> verdict result" where
  "read_verdict = read_enum verdict_value [PASSED, SOFT, BELOW_FLOOR]"

definition read_gate_reason :: "json \<Rightarrow> gate_reason result" where
  "read_gate_reason = read_enum gate_reason_value all_gate_reasons"

definition read_fsm :: "json \<Rightarrow> fsm_state result" where
  "read_fsm = read_enum fsm_value
     [CREATED, FACE_CHECK, NEED_INPUT, PLANNING, AWAITING_APPROVAL, GENERATING, DONE, FAILED, CANCELLED]"

definition read_risk :: "json \<Rightarrow> risk_level result" where
  "read_risk = read_enum risk_value [LOW, MEDIUM, HIGH]"

definition read_failure :: "json \<Rightarrow> failure_code result" where
  "read_failure = read_enum failure_code_value all_failure_codes"

definition read_call_kind :: "json \<Rightarrow> paid_call_kind result" where
  "read_call_kind = read_enum call_kind_value [GENERATION, SLOT_FILL, CLASSIFY, INVENTORY]"

definition read_status :: "json \<Rightarrow> step_status result" where
  "read_status = read_enum status_value [Pending, Completed, Skipped]"

subsection \<open>Reading what was written\<close>

named_theorems read_simps \<open>reading back a dumped value\<close>

definition decimals_ok :: "wire \<Rightarrow> bool" where   \<comment> \<open>\<open>Decimal(str(x)) == x\<close>\<close>
  "decimals_ok w \<longleftrightarrow> (\<forall>x. wi_decimal w (wi_show_decimal w x) = Some x)"

lemma read_decimal_json [read_simps]: "decimals_ok w \<Longrightarrow> read_decimal w (decimal_json w x) = Inr x"
  by (simp add: decimal_json_def decimals_ok_def or_invalid_def)

lemma read_nat_json [read_simps]: "read_nat w (nat_json n) = Inr n"
  by (simp add: read_nat_def nat_json_def)

lemma map_res_inverse: "(\<And>x. r (f x) = Inr x) \<Longrightarrow> map_res r (map f xs) = Inr xs"
  by (induction xs) simp_all

lemma read_list_json [read_simps]: "(\<And>x. r (f x) = Inr x) \<Longrightarrow> read_list r (list_json f xs) = Inr xs"
  by (simp add: list_json_def map_res_inverse)

lemma read_text_dict_json [read_simps]: "read_text_dict (text_dict_json d) = Inr d"
  by (induction d) (auto simp: text_dict_json_def)

lemma read_opt_json [read_simps]:
  "(\<And>x. r (f x) = Inr x) \<Longrightarrow> (\<And>x. f x \<noteq> JNull) \<Longrightarrow> read_opt r (js_opt f x) = Inr x"
  by (simp add: read_opt_def js_opt_def split: option.split)

lemma read_opt_null [read_simps]: "read_opt r JNull = Inr None" "read_time w JNull = Inr ()"
  "read_literal s (JStr s) = Inr ()"
  by (simp_all add: read_opt_def read_time_def read_literal_def)

lemma json_not_null [simp]:
  "nat_json n \<noteq> JNull" "decimal_json w x \<noteq> JNull" "list_json f xs \<noteq> JNull"
  by (simp_all add: nat_json_def decimal_json_def list_json_def)

lemma read_enums [read_simps]:
  "read_verdict (verdict_json v) = Inr v" "read_gate_reason (gate_reason_json g) = Inr g"
  "read_fsm (fsm_json s) = Inr s" "read_risk (risk_json r) = Inr r" "read_failure (failure_json c) = Inr c"
  "read_call_kind (call_kind_json k) = Inr k" "read_status (status_json t) = Inr t"
proof -
  show "read_verdict (verdict_json v) = Inr v" by (cases v) (simp_all add: read_verdict_def read_enum_def or_invalid_def)
  show "read_gate_reason (gate_reason_json g) = Inr g"
    by (cases g) (simp_all add: read_gate_reason_def read_enum_def or_invalid_def all_gate_reasons_def)
  show "read_fsm (fsm_json s) = Inr s" by (cases s) (simp_all add: read_fsm_def read_enum_def or_invalid_def)
  show "read_risk (risk_json r) = Inr r" by (cases r) (simp_all add: read_risk_def read_enum_def or_invalid_def)
  show "read_failure (failure_json c) = Inr c"
    by (cases c) (simp_all add: read_failure_def read_enum_def or_invalid_def all_failure_codes_def)
  show "read_call_kind (call_kind_json k) = Inr k"
    by (cases k) (simp_all add: read_call_kind_def read_enum_def or_invalid_def)
  show "read_status (status_json t) = Inr t" by (cases t) (simp_all add: read_status_def read_enum_def or_invalid_def)
qed

lemma fields_of_obj [read_simps]:
  "list_all (\<lambda>(k, _). k \<in> set names) d \<Longrightarrow> fields_of names (JObj d) = Inr d"
  by (simp add: fields_of_def)

lemma required_Cons [read_simps]: "required k r ((k', j) # d) = (if k = k' then r j else required k r d)"
  by (simp add: required_def)

lemma optional_Cons [read_simps]: "optional k x r ((k', j) # d) = (if k = k' then r j else optional k x r d)"
  by (simp add: optional_def)

section \<open>State (\<open>schemas/state.py\<close>, \<open>brief.py\<close>, \<open>inventory.py\<close>)\<close>

definition thresholds_json :: "wire \<Rightarrow> thresholds \<Rightarrow> json" where
  "thresholds_json w x =
     JObj
       [(''similarity_threshold'', JFloat (th_similarity_threshold x)),
        (''identity_floor'', JFloat (th_identity_floor x)),
        (''K_max_retries'', JInt (th_K_max_retries x))]"

definition read_thresholds :: "wire \<Rightarrow> json \<Rightarrow> thresholds result" where
  "read_thresholds w j =
     bind_res (fields_of [''similarity_threshold'', ''identity_floor'', ''K_max_retries''] j) (\<lambda>d.
     bind_res (required ''similarity_threshold'' (read_float w) d) (\<lambda>similarity_threshold.
     bind_res (required ''identity_floor'' (read_float w) d) (\<lambda>identity_floor.
     bind_res (required ''K_max_retries'' (read_int w) d) (\<lambda>K_max_retries.
       Inr \<lparr>th_similarity_threshold = similarity_threshold, th_identity_floor = identity_floor,
            th_K_max_retries = K_max_retries\<rparr>))))"

lemma thresholds_json_not_null [simp]: "thresholds_json w x \<noteq> JNull"
  by (simp add: thresholds_json_def)

lemma read_thresholds_json [simp]: "decimals_ok w \<Longrightarrow> read_thresholds w (thresholds_json w x) = Inr x"
  by (cases x) (simp add: read_thresholds_def thresholds_json_def read_simps)

definition change_json :: "wire \<Rightarrow> change \<Rightarrow> json" where
  "change_json w x =
     JObj
       [(''target'', JStr (ch_target x)), (''instruction'', JStr (ch_instruction x))]"

definition read_change :: "wire \<Rightarrow> json \<Rightarrow> change result" where
  "read_change w j =
     bind_res (fields_of [''target'', ''instruction''] j) (\<lambda>d.
     bind_res (required ''target'' read_str d) (\<lambda>target.
     bind_res (required ''instruction'' read_str d) (\<lambda>instruction.
       Inr \<lparr>ch_target = target, ch_instruction = instruction\<rparr>)))"

lemma change_json_not_null [simp]: "change_json w x \<noteq> JNull"
  by (simp add: change_json_def)

lemma read_change_json [simp]: "decimals_ok w \<Longrightarrow> read_change w (change_json w x) = Inr x"
  by (cases x) (simp add: read_change_def change_json_def read_simps)

definition brief_analysis_json :: "wire \<Rightarrow> brief_analysis \<Rightarrow> json" where
  "brief_analysis_json w x =
     JObj
       [(''schema_v'', JInt 1), (''mode'', JStr ''edit''),
        (''use_case'', js_opt JStr (ba_use_case x)), (''preserve'', list_json JStr (ba_preserve x)),
        (''changes'', list_json (change_json w) (ba_changes x)),
        (''conflicts'', list_json JStr (ba_conflicts x))]"

definition read_brief_analysis :: "wire \<Rightarrow> json \<Rightarrow> brief_analysis result" where
  "read_brief_analysis w j =
     bind_res (fields_of [''schema_v'', ''mode'', ''use_case'', ''preserve'', ''changes'', ''conflicts''] j) (\<lambda>d.
     bind_res (optional ''schema_v'' 1 (read_int w) d) (\<lambda>_.
     bind_res (optional ''mode'' () (read_literal ''edit'') d) (\<lambda>_.
     bind_res (optional ''use_case'' None (read_opt read_str) d) (\<lambda>use_case.
     bind_res (optional ''preserve'' [] (read_list read_str) d) (\<lambda>preserve.
     bind_res (optional ''changes'' [] (read_list (read_change w)) d) (\<lambda>changes.
     bind_res (optional ''conflicts'' [] (read_list read_str) d) (\<lambda>conflicts.
       Inr \<lparr>ba_use_case = use_case, ba_preserve = preserve, ba_changes = changes,
            ba_conflicts = conflicts\<rparr>)))))))"

lemma brief_analysis_json_not_null [simp]: "brief_analysis_json w x \<noteq> JNull"
  by (simp add: brief_analysis_json_def)

lemma read_brief_analysis_json [simp]: "decimals_ok w \<Longrightarrow> read_brief_analysis w (brief_analysis_json w x) = Inr x"
  by (cases x) (simp add: read_brief_analysis_def brief_analysis_json_def read_simps)

definition inventory_json :: "wire \<Rightarrow> photo_inventory \<Rightarrow> json" where
  "inventory_json w x =
     JObj
       [(''schema_v'', JInt 1), (''pose'', JStr (inv_pose x)), (''hands'', JStr (inv_hands x)),
        (''accessories'', list_json JStr (inv_accessories x)),
        (''clothing'', JStr (inv_clothing x)), (''hair'', JStr (inv_hair x)),
        (''facial_hair'', JStr (inv_facial_hair x)), (''framing'', JStr (inv_framing x)),
        (''lighting'', JStr (inv_lighting x)), (''background'', JStr (inv_background x))]"

definition read_inventory :: "wire \<Rightarrow> json \<Rightarrow> photo_inventory result" where
  "read_inventory w j =
     bind_res (fields_of [''schema_v'', ''pose'', ''hands'', ''accessories'', ''clothing'', ''hair'',
          ''facial_hair'', ''framing'', ''lighting'', ''background''] j) (\<lambda>d.
     bind_res (optional ''schema_v'' 1 (read_int w) d) (\<lambda>_.
     bind_res (optional ''pose'' [] read_str d) (\<lambda>pose.
     bind_res (optional ''hands'' [] read_str d) (\<lambda>hd_s.
     bind_res (optional ''accessories'' [] (read_list read_str) d) (\<lambda>accessories.
     bind_res (optional ''clothing'' [] read_str d) (\<lambda>clothing.
     bind_res (optional ''hair'' [] read_str d) (\<lambda>hair.
     bind_res (optional ''facial_hair'' [] read_str d) (\<lambda>facial_hair.
     bind_res (optional ''framing'' [] read_str d) (\<lambda>framing.
     bind_res (optional ''lighting'' [] read_str d) (\<lambda>lighting.
     bind_res (optional ''background'' [] read_str d) (\<lambda>background.
       Inr \<lparr>inv_pose = pose, inv_hands = hd_s, inv_accessories = accessories,
            inv_clothing = clothing, inv_hair = hair, inv_facial_hair = facial_hair,
            inv_framing = framing, inv_lighting = lighting, inv_background = background\<rparr>)))))))))))"

lemma inventory_json_not_null [simp]: "inventory_json w x \<noteq> JNull"
  by (simp add: inventory_json_def)

lemma read_inventory_json [simp]: "decimals_ok w \<Longrightarrow> read_inventory w (inventory_json w x) = Inr x"
  by (cases x) (simp add: read_inventory_def inventory_json_def read_simps)

definition metrics_json :: "wire \<Rightarrow> frame_metrics \<Rightarrow> json" where
  "metrics_json w x =
     JObj
       [(''face_count'', JInt (fm_face_count x)),
        (''face_area_ratio'', JFloat (fm_face_area_ratio x)),
        (''face_side'', JFloat (fm_face_side x)),
        (''secondary_face_ratio'', JFloat (fm_secondary_face_ratio x)),
        (''blur_var'', JFloat (fm_blur_var x)), (''yaw'', JFloat (fm_yaw x)),
        (''pitch'', JFloat (fm_pitch x)), (''roll'', JFloat (fm_roll x)),
        (''brightness'', JFloat (fm_brightness x)), (''width'', JInt (fm_width x)),
        (''height'', JInt (fm_height x))]"

definition read_metrics :: "wire \<Rightarrow> json \<Rightarrow> frame_metrics result" where
  "read_metrics w j =
     bind_res (fields_of [''face_count'', ''face_area_ratio'', ''face_side'', ''secondary_face_ratio'',
          ''blur_var'', ''yaw'', ''pitch'', ''roll'', ''brightness'', ''width'', ''height''] j) (\<lambda>d.
     bind_res (required ''face_count'' (read_int w) d) (\<lambda>face_count.
     bind_res (required ''face_area_ratio'' (read_float w) d) (\<lambda>face_area_ratio.
     bind_res (optional ''face_side'' 0 (read_float w) d) (\<lambda>face_side.
     bind_res (optional ''secondary_face_ratio'' 0 (read_float w) d) (\<lambda>secondary_face_ratio.
     bind_res (required ''blur_var'' (read_float w) d) (\<lambda>blur_var.
     bind_res (required ''yaw'' (read_float w) d) (\<lambda>yaw.
     bind_res (required ''pitch'' (read_float w) d) (\<lambda>pitch.
     bind_res (required ''roll'' (read_float w) d) (\<lambda>roll.
     bind_res (required ''brightness'' (read_float w) d) (\<lambda>brightness.
     bind_res (required ''width'' (read_int w) d) (\<lambda>width.
     bind_res (required ''height'' (read_int w) d) (\<lambda>height.
       Inr \<lparr>fm_face_count = face_count, fm_face_area_ratio = face_area_ratio,
            fm_face_side = face_side, fm_secondary_face_ratio = secondary_face_ratio,
            fm_blur_var = blur_var, fm_yaw = yaw, fm_pitch = pitch, fm_roll = roll,
            fm_brightness = brightness, fm_width = width, fm_height = height\<rparr>))))))))))))"

lemma metrics_json_not_null [simp]: "metrics_json w x \<noteq> JNull"
  by (simp add: metrics_json_def)

lemma read_metrics_json [simp]: "decimals_ok w \<Longrightarrow> read_metrics w (metrics_json w x) = Inr x"
  by (cases x) (simp add: read_metrics_def metrics_json_def read_simps)

definition convergence_json :: "wire \<Rightarrow> convergence_stats \<Rightarrow> json" where
  "convergence_json w x =
     JObj
       [(''attempts'', nat_json (cv_attempts x)),
        (''best_similarity'', js_opt JFloat (cv_best_similarity x)),
        (''last_similarity'', js_opt JFloat (cv_last_similarity x)),
        (''improved_last'', js_opt JBool (cv_improved_last x))]"

definition read_convergence :: "wire \<Rightarrow> json \<Rightarrow> convergence_stats result" where
  "read_convergence w j =
     bind_res (fields_of [''attempts'', ''best_similarity'', ''last_similarity'', ''improved_last''] j) (\<lambda>d.
     bind_res (optional ''attempts'' 0 (read_nat w) d) (\<lambda>attempts.
     bind_res (optional ''best_similarity'' None (read_opt (read_float w)) d) (\<lambda>best_similarity.
     bind_res (optional ''last_similarity'' None (read_opt (read_float w)) d) (\<lambda>last_similarity.
     bind_res (optional ''improved_last'' None (read_opt read_bool) d) (\<lambda>improved_last.
       Inr \<lparr>cv_attempts = attempts, cv_best_similarity = best_similarity,
            cv_last_similarity = last_similarity, cv_improved_last = improved_last\<rparr>)))))"

lemma convergence_json_not_null [simp]: "convergence_json w x \<noteq> JNull"
  by (simp add: convergence_json_def)

lemma read_convergence_json [simp]: "decimals_ok w \<Longrightarrow> read_convergence w (convergence_json w x) = Inr x"
  by (cases x) (simp add: read_convergence_def convergence_json_def read_simps)

definition face_json :: "wire \<Rightarrow> face_profile \<Rightarrow> json" where
  "face_json w x =
     JObj
       [(''schema_v'', JInt 3), (''face_key'', JStr (fp_face_key x)),
        (''embedding'', list_json JFloat (fp_embedding x)),
        (''gate_verdict'', verdict_json (fp_gate_verdict x)),
        (''gate_reason'', gate_reason_json (fp_gate_reason x)),
        (''metrics'', metrics_json w (fp_metrics x)),
        (''convergence'', convergence_json w (fp_convergence x)),
        (''photo_ref'', JStr (fp_photo_ref x)),
        (''inventory'', js_opt (inventory_json w) (fp_inventory x))]"

definition read_face :: "wire \<Rightarrow> json \<Rightarrow> face_profile result" where
  "read_face w j =
     bind_res (fields_of [''schema_v'', ''face_key'', ''embedding'', ''gate_verdict'', ''gate_reason'',
          ''metrics'', ''convergence'', ''photo_ref'', ''inventory''] j) (\<lambda>d.
     bind_res (optional ''schema_v'' 3 (read_int w) d) (\<lambda>_.
     bind_res (required ''face_key'' read_str d) (\<lambda>fk.
     bind_res (required ''embedding'' (read_list (read_float w)) d) (\<lambda>embedding.
     bind_res (required ''gate_verdict'' read_verdict d) (\<lambda>gate_verdict.
     bind_res (required ''gate_reason'' read_gate_reason d) (\<lambda>gate_reason.
     bind_res (required ''metrics'' (read_metrics w) d) (\<lambda>m.
     bind_res (optional ''convergence'' fresh_convergence (read_convergence w) d) (\<lambda>cv.
     bind_res (required ''photo_ref'' read_str d) (\<lambda>ref.
     bind_res (optional ''inventory'' None (read_opt (read_inventory w)) d) (\<lambda>inv.
       Inr \<lparr>fp_face_key = fk, fp_embedding = embedding, fp_gate_verdict = gate_verdict,
            fp_gate_reason = gate_reason, fp_metrics = m, fp_convergence = cv, fp_photo_ref = ref,
            fp_inventory = inv\<rparr>))))))))))"

lemma face_json_not_null [simp]: "face_json w x \<noteq> JNull"
  by (simp add: face_json_def)

lemma read_face_json [simp]: "decimals_ok w \<Longrightarrow> read_face w (face_json w x) = Inr x"
  by (cases x) (simp add: read_face_def face_json_def read_simps)

definition usage_json :: "wire \<Rightarrow> provider_usage \<Rightarrow> json" where
  "usage_json w x =
     JObj
       [(''prompt_tokens'', js_opt JInt (pu_prompt_tokens x)),
        (''completion_tokens'', js_opt JInt (pu_completion_tokens x)),
        (''cost'', js_opt (decimal_json w) (pu_cost x))]"

definition read_usage :: "wire \<Rightarrow> json \<Rightarrow> provider_usage result" where
  "read_usage w j =
     bind_res (fields_of [''prompt_tokens'', ''completion_tokens'', ''cost''] j) (\<lambda>d.
     bind_res (optional ''prompt_tokens'' None (read_opt (read_int w)) d) (\<lambda>prompt_tokens.
     bind_res (optional ''completion_tokens'' None (read_opt (read_int w)) d) (\<lambda>completion_tokens.
     bind_res (optional ''cost'' None (read_opt (read_decimal w)) d) (\<lambda>c.
       Inr \<lparr>pu_prompt_tokens = prompt_tokens, pu_completion_tokens = completion_tokens, pu_cost = c\<rparr>))))"

lemma usage_json_not_null [simp]: "usage_json w x \<noteq> JNull"
  by (simp add: usage_json_def)

lemma read_usage_json [simp]: "decimals_ok w \<Longrightarrow> read_usage w (usage_json w x) = Inr x"
  by (cases x) (simp add: read_usage_def usage_json_def read_simps)

definition paid_call_json :: "wire \<Rightarrow> paid_call_record \<Rightarrow> json" where
  "paid_call_json w x =
     JObj
       [(''kind'', call_kind_json (pc_kind x)), (''cost'', decimal_json w (pc_cost x)),
        (''usage'', js_opt (usage_json w) (pc_usage x))]"

definition read_paid_call :: "wire \<Rightarrow> json \<Rightarrow> paid_call_record result" where
  "read_paid_call w j =
     bind_res (fields_of [''kind'', ''cost'', ''usage''] j) (\<lambda>d.
     bind_res (required ''kind'' read_call_kind d) (\<lambda>kind.
     bind_res (required ''cost'' (read_decimal w) d) (\<lambda>c.
     bind_res (optional ''usage'' None (read_opt (read_usage w)) d) (\<lambda>u.
       Inr \<lparr>pc_kind = kind, pc_cost = c, pc_usage = u\<rparr>))))"

lemma paid_call_json_not_null [simp]: "paid_call_json w x \<noteq> JNull"
  by (simp add: paid_call_json_def)

lemma read_paid_call_json [simp]: "decimals_ok w \<Longrightarrow> read_paid_call w (paid_call_json w x) = Inr x"
  by (cases x) (simp add: read_paid_call_def paid_call_json_def read_simps)

definition iteration_json :: "wire \<Rightarrow> iteration \<Rightarrow> json" where
  "iteration_json w x =
     JObj
       [(''schema_v'', JInt 3), (''n'', nat_json (it_n x)), (''step_n'', nat_json (it_step_n x)),
        (''prompt_hash'', JStr (it_prompt_hash x)),
        (''prompt_text'', js_opt JStr (it_prompt_text x)),
        (''provider_request_id'', js_opt JStr (it_provider_request_id x)),
        (''result_ref'', js_opt JStr (it_result_ref x)),
        (''similarity'', js_opt JFloat (it_similarity x)),
        (''verdict'', js_opt verdict_json (it_verdict x)), (''charged'', JBool (it_charged x)),
        (''cost'', decimal_json w (it_cost x)), (''usage'', js_opt (usage_json w) (it_usage x)),
        (''risk_level'', js_opt risk_json (it_risk_level x)), (''error'', js_opt JStr (it_error x))]"

definition read_iteration :: "wire \<Rightarrow> json \<Rightarrow> iteration result" where
  "read_iteration w j =
     bind_res (fields_of [''schema_v'', ''n'', ''step_n'', ''prompt_hash'', ''prompt_text'',
          ''provider_request_id'', ''result_ref'', ''similarity'', ''verdict'', ''charged'',
          ''cost'', ''usage'', ''risk_level'', ''error''] j) (\<lambda>d.
     bind_res (optional ''schema_v'' 3 (read_int w) d) (\<lambda>_.
     bind_res (required ''n'' (read_nat w) d) (\<lambda>n.
     bind_res (optional ''step_n'' 1 (read_nat w) d) (\<lambda>step_n.
     bind_res (required ''prompt_hash'' read_str d) (\<lambda>prompt_hash.
     bind_res (optional ''prompt_text'' None (read_opt read_str) d) (\<lambda>prompt_text.
     bind_res (optional ''provider_request_id'' None (read_opt read_str) d) (\<lambda>provider_request_id.
     bind_res (optional ''result_ref'' None (read_opt read_str) d) (\<lambda>ref.
     bind_res (optional ''similarity'' None (read_opt (read_float w)) d) (\<lambda>similarity.
     bind_res (optional ''verdict'' None (read_opt read_verdict) d) (\<lambda>verdict.
     bind_res (optional ''charged'' False read_bool d) (\<lambda>paid.
     bind_res (optional ''cost'' 0 (read_decimal w) d) (\<lambda>c.
     bind_res (optional ''usage'' None (read_opt (read_usage w)) d) (\<lambda>u.
     bind_res (optional ''risk_level'' None (read_opt read_risk) d) (\<lambda>risk_level.
     bind_res (optional ''error'' None (read_opt read_str) d) (\<lambda>error.
       Inr \<lparr>it_n = n, it_step_n = step_n, it_prompt_hash = prompt_hash,
            it_prompt_text = prompt_text, it_provider_request_id = provider_request_id,
            it_result_ref = ref, it_similarity = similarity, it_verdict = verdict,
            it_charged = paid, it_cost = c, it_usage = u, it_risk_level = risk_level,
            it_error = error\<rparr>)))))))))))))))"

lemma iteration_json_not_null [simp]: "iteration_json w x \<noteq> JNull"
  by (simp add: iteration_json_def)

lemma read_iteration_json [simp]: "decimals_ok w \<Longrightarrow> read_iteration w (iteration_json w x) = Inr x"
  by (cases x) (simp add: read_iteration_def iteration_json_def read_simps)

definition choice_json :: "wire \<Rightarrow> composition_choice \<Rightarrow> json" where
  "choice_json w x =
     JObj
       [(''id'', JStr (cc_id x)), (''label'', JStr (cc_label x)),
        (''preview_asset'', js_opt JStr (cc_preview_asset x))]"

definition read_choice :: "wire \<Rightarrow> json \<Rightarrow> composition_choice result" where
  "read_choice w j =
     bind_res (fields_of [''id'', ''label'', ''preview_asset''] j) (\<lambda>d.
     bind_res (required ''id'' read_str d) (\<lambda>ident.
     bind_res (required ''label'' read_str d) (\<lambda>l.
     bind_res (optional ''preview_asset'' None (read_opt read_str) d) (\<lambda>preview_asset.
       Inr \<lparr>cc_id = ident, cc_label = l, cc_preview_asset = preview_asset\<rparr>))))"

lemma choice_json_not_null [simp]: "choice_json w x \<noteq> JNull"
  by (simp add: choice_json_def)

lemma read_choice_json [simp]: "decimals_ok w \<Longrightarrow> read_choice w (choice_json w x) = Inr x"
  by (cases x) (simp add: read_choice_def choice_json_def read_simps)

definition step_json :: "wire \<Rightarrow> edit_step \<Rightarrow> json" where
  "step_json w x =
     JObj
       [(''n'', nat_json (st_n x)), (''title'', JStr (st_title x)),
        (''instruction'', JStr (st_instruction x)), (''targets'', list_json JStr (st_targets x)),
        (''applied'', JStr (st_applied x)), (''status'', status_json (st_status x)),
        (''result_ref'', js_opt JStr (st_result_ref x)), (''is_enhance'', JBool (st_is_enhance x))]"

definition read_step :: "wire \<Rightarrow> json \<Rightarrow> edit_step result" where
  "read_step w j =
     bind_res (fields_of [''n'', ''title'', ''instruction'', ''targets'', ''applied'', ''status'',
          ''result_ref'', ''is_enhance''] j) (\<lambda>d.
     bind_res (required ''n'' (read_nat w) d) (\<lambda>n.
     bind_res (required ''title'' read_str d) (\<lambda>title.
     bind_res (required ''instruction'' read_str d) (\<lambda>instruction.
     bind_res (optional ''targets'' [] (read_list read_str) d) (\<lambda>targets.
     bind_res (optional ''applied'' [] read_str d) (\<lambda>applied.
     bind_res (optional ''status'' Pending read_status d) (\<lambda>stat.
     bind_res (optional ''result_ref'' None (read_opt read_str) d) (\<lambda>ref.
     bind_res (optional ''is_enhance'' False read_bool d) (\<lambda>is_enhance.
       Inr \<lparr>st_n = n, st_title = title, st_instruction = instruction, st_targets = targets,
            st_applied = applied, st_status = stat, st_result_ref = ref, st_is_enhance = is_enhance\<rparr>)))))))))"

lemma step_json_not_null [simp]: "step_json w x \<noteq> JNull"
  by (simp add: step_json_def)

lemma read_step_json [simp]: "decimals_ok w \<Longrightarrow> read_step w (step_json w x) = Inr x"
  by (cases x) (simp add: read_step_def step_json_def read_simps)

definition plan_json :: "wire \<Rightarrow> plan \<Rightarrow> json" where
  "plan_json w x =
     JObj
       [(''summary'', JStr (pl_summary x)),
        (''compositions'', list_json (choice_json w) (pl_compositions x)),
        (''selected_composition'', js_opt JStr (pl_selected_composition x)),
        (''planned_generations'', JInt (pl_planned_generations x)),
        (''steps'', list_json (step_json w) (pl_steps x))]"

definition read_plan :: "wire \<Rightarrow> json \<Rightarrow> plan result" where
  "read_plan w j =
     bind_res (fields_of [''summary'', ''compositions'', ''selected_composition'', ''planned_generations'',
          ''steps''] j) (\<lambda>d.
     bind_res (required ''summary'' read_str d) (\<lambda>summary.
     bind_res (optional ''compositions'' [] (read_list (read_choice w)) d) (\<lambda>compositions.
     bind_res (optional ''selected_composition'' None (read_opt read_str) d) (\<lambda>selected_composition.
     bind_res (required ''planned_generations'' (read_int w) d) (\<lambda>planned_generations.
     bind_res (optional ''steps'' [] (read_list (read_step w)) d) (\<lambda>steps.
       Inr \<lparr>pl_summary = summary, pl_compositions = compositions,
            pl_selected_composition = selected_composition,
            pl_planned_generations = planned_generations, pl_steps = steps\<rparr>))))))"

lemma plan_json_not_null [simp]: "plan_json w x \<noteq> JNull"
  by (simp add: plan_json_def)

lemma read_plan_json [simp]: "decimals_ok w \<Longrightarrow> read_plan w (plan_json w x) = Inr x"
  by (cases x) (simp add: read_plan_def plan_json_def read_simps)

definition estimate_json :: "wire \<Rightarrow> cost_estimate \<Rightarrow> json" where
  "estimate_json w x =
     JObj
       [(''generations'', JInt (ce_generations x)),
        (''budget_limit'', decimal_json w (ce_budget_limit x)),
        (''per_generation_cost'', decimal_json w (ce_per_generation_cost x)),
        (''llm_overhead_cost'', decimal_json w (ce_llm_overhead_cost x)),
        (''total_cost'', decimal_json w (ce_total_cost x)),
        (''minimum_cost'', decimal_json w (ce_minimum_cost x)), (''note'', js_opt JStr (ce_note x))]"

definition read_estimate :: "wire \<Rightarrow> json \<Rightarrow> cost_estimate result" where
  "read_estimate w j =
     bind_res (fields_of [''generations'', ''budget_limit'', ''per_generation_cost'', ''llm_overhead_cost'',
          ''total_cost'', ''minimum_cost'', ''note''] j) (\<lambda>d.
     bind_res (required ''generations'' (read_int w) d) (\<lambda>generations.
     bind_res (optional ''budget_limit'' 0 (read_decimal w) d) (\<lambda>limit.
     bind_res (optional ''per_generation_cost'' 0 (read_decimal w) d) (\<lambda>per_generation_cost.
     bind_res (optional ''llm_overhead_cost'' 0 (read_decimal w) d) (\<lambda>llm_overhead_cost.
     bind_res (optional ''total_cost'' 0 (read_decimal w) d) (\<lambda>total_cost.
     bind_res (optional ''minimum_cost'' 0 (read_decimal w) d) (\<lambda>minimum_cost.
     bind_res (optional ''note'' None (read_opt read_str) d) (\<lambda>note.
       Inr \<lparr>ce_generations = generations, ce_budget_limit = limit,
            ce_per_generation_cost = per_generation_cost, ce_llm_overhead_cost = llm_overhead_cost,
            ce_total_cost = total_cost, ce_minimum_cost = minimum_cost, ce_note = note\<rparr>))))))))"

lemma estimate_json_not_null [simp]: "estimate_json w x \<noteq> JNull"
  by (simp add: estimate_json_def)

lemma read_estimate_json [simp]: "decimals_ok w \<Longrightarrow> read_estimate w (estimate_json w x) = Inr x"
  by (cases x) (simp add: read_estimate_def estimate_json_def read_simps)

definition best_json :: "wire \<Rightarrow> best_result \<Rightarrow> json" where
  "best_json w x =
     JObj
       [(''iteration_n'', nat_json (br_iteration_n x)), (''result_ref'', JStr (br_result_ref x)),
        (''similarity'', JFloat (br_similarity x)), (''verdict'', verdict_json (br_verdict x)),
        (''risk_level'', risk_json (br_risk_level x))]"

definition read_best :: "wire \<Rightarrow> json \<Rightarrow> best_result result" where
  "read_best w j =
     bind_res (fields_of [''iteration_n'', ''result_ref'', ''similarity'', ''verdict'', ''risk_level''] j) (\<lambda>d.
     bind_res (required ''iteration_n'' (read_nat w) d) (\<lambda>iteration_n.
     bind_res (required ''result_ref'' read_str d) (\<lambda>ref.
     bind_res (required ''similarity'' (read_float w) d) (\<lambda>similarity.
     bind_res (required ''verdict'' read_verdict d) (\<lambda>verdict.
     bind_res (required ''risk_level'' read_risk d) (\<lambda>risk_level.
       Inr \<lparr>br_iteration_n = iteration_n, br_result_ref = ref, br_similarity = similarity,
            br_verdict = verdict, br_risk_level = risk_level\<rparr>))))))"

lemma best_json_not_null [simp]: "best_json w x \<noteq> JNull"
  by (simp add: best_json_def)

lemma read_best_json [simp]: "decimals_ok w \<Longrightarrow> read_best w (best_json w x) = Inr x"
  by (cases x) (simp add: read_best_def best_json_def read_simps)

definition session_json :: "wire \<Rightarrow> session_state \<Rightarrow> json" where
  "session_json w x =
     JObj
       [(''schema_v'', JInt 3), (''session_key'', JStr (ss_session_key x)),
        (''face_key'', JStr (ss_face_key x)), (''fsm_state'', fsm_json (ss_fsm_state x)),
        (''preset_id'', js_opt JStr (ss_preset_id x)),
        (''preset_version'', js_opt JStr (ss_preset_version x)),
        (''library_version'', js_opt JStr (ss_library_version x)),
        (''brief_analysis'', js_opt (brief_analysis_json w) (ss_brief_analysis x)),
        (''slots'', text_dict_json (ss_slots x)), (''plan'', js_opt (plan_json w) (ss_plan x)),
        (''cost_estimate'', js_opt (estimate_json w) (ss_cost_estimate x)),
        (''approved'', JBool (ss_approved x)),
        (''iterations'', list_json (iteration_json w) (ss_iterations x)),
        (''llm_calls'', list_json (paid_call_json w) (ss_llm_calls x)),
        (''thresholds'', js_opt (thresholds_json w) (ss_thresholds x)),
        (''best_result'', js_opt (best_json w) (ss_best_result x)),
        (''budget_limit'', decimal_json w (ss_budget_limit x)), (''created_at'', JNull),
        (''updated_at'', JNull)]"

definition read_session :: "wire \<Rightarrow> json \<Rightarrow> session_state result" where
  "read_session w j =
     bind_res (fields_of [''schema_v'', ''session_key'', ''face_key'', ''fsm_state'', ''preset_id'',
          ''preset_version'', ''library_version'', ''brief_analysis'', ''slots'', ''plan'',
          ''cost_estimate'', ''approved'', ''iterations'', ''llm_calls'', ''thresholds'',
          ''best_result'', ''budget_limit'', ''created_at'', ''updated_at''] j) (\<lambda>d.
     bind_res (optional ''schema_v'' 3 (read_int w) d) (\<lambda>_.
     bind_res (required ''session_key'' read_str d) (\<lambda>sk.
     bind_res (required ''face_key'' read_str d) (\<lambda>fk.
     bind_res (optional ''fsm_state'' CREATED read_fsm d) (\<lambda>fsm_state.
     bind_res (optional ''preset_id'' None (read_opt read_str) d) (\<lambda>preset_id.
     bind_res (optional ''preset_version'' None (read_opt read_str) d) (\<lambda>preset_version.
     bind_res (optional ''library_version'' None (read_opt read_str) d) (\<lambda>library_version.
     bind_res (optional ''brief_analysis'' None (read_opt (read_brief_analysis w)) d) (\<lambda>brief_analysis.
     bind_res (optional ''slots'' [] read_text_dict d) (\<lambda>sls.
     bind_res (optional ''plan'' None (read_opt (read_plan w)) d) (\<lambda>p.
     bind_res (optional ''cost_estimate'' None (read_opt (read_estimate w)) d) (\<lambda>cost_estimate.
     bind_res (optional ''approved'' False read_bool d) (\<lambda>ok.
     bind_res (optional ''iterations'' [] (read_list (read_iteration w)) d) (\<lambda>its.
     bind_res (optional ''llm_calls'' [] (read_list (read_paid_call w)) d) (\<lambda>llm_calls.
     bind_res (optional ''thresholds'' None (read_opt (read_thresholds w)) d) (\<lambda>th.
     bind_res (optional ''best_result'' None (read_opt (read_best w)) d) (\<lambda>best_result.
     bind_res (optional ''budget_limit'' 0 (read_decimal w) d) (\<lambda>limit.
     bind_res (optional ''created_at'' () (read_time w) d) (\<lambda>_.
     bind_res (optional ''updated_at'' () (read_time w) d) (\<lambda>_.
       Inr \<lparr>ss_session_key = sk, ss_face_key = fk, ss_fsm_state = fsm_state,
            ss_preset_id = preset_id, ss_preset_version = preset_version,
            ss_library_version = library_version, ss_brief_analysis = brief_analysis,
            ss_slots = sls, ss_plan = p, ss_cost_estimate = cost_estimate, ss_approved = ok,
            ss_iterations = its, ss_llm_calls = llm_calls, ss_thresholds = th,
            ss_best_result = best_result, ss_budget_limit = limit\<rparr>))))))))))))))))))))"

lemma session_json_not_null [simp]: "session_json w x \<noteq> JNull"
  by (simp add: session_json_def)

lemma read_session_json [simp]: "decimals_ok w \<Longrightarrow> read_session w (session_json w x) = Inr x"
  by (cases x) (simp add: read_session_def session_json_def read_simps)

section \<open>Events (\<open>EventAdapter\<close> of \<open>schemas/events.py\<close>)\<close>

fun event_json :: "wire \<Rightarrow> event \<Rightarrow> json" where
  "event_json w (StageEvent sg) =
     JObj
       [(''schema_v'', JInt 1), (''type'', JStr ''stage''), (''stage'', fsm_json sg),
        (''detail'', JNull)]"
| "event_json w (NeedInputEvent sl question options dflt) =
     JObj
       [(''schema_v'', JInt 1), (''type'', JStr ''need_input''), (''slot'', JStr sl),
        (''question'', JStr question), (''options'', js_opt (list_json JStr) options),
        (''default'', js_opt JStr dflt)]"
| "event_json w (PlanEvent p) =
     JObj
       [(''schema_v'', JInt 1), (''type'', JStr ''plan''), (''plan'', plan_json w p)]"
| "event_json w (CostEvent c) =
     JObj
       [(''schema_v'', JInt 1), (''type'', JStr ''cost''), (''cost'', estimate_json w c)]"
| "event_json w (StepStartedEvent n title targets) =
     JObj
       [(''schema_v'', JInt 1), (''type'', JStr ''step_started''), (''n'', nat_json n),
        (''title'', JStr title), (''targets'', list_json JStr targets)]"
| "event_json w (StepResultEvent n stat ref similarity) =
     JObj
       [(''schema_v'', JInt 1), (''type'', JStr ''step_result''), (''n'', nat_json n),
        (''status'', status_json stat), (''result_ref'', js_opt JStr ref),
        (''similarity'', js_opt JFloat similarity)]"
| "event_json w (IterationStartEvent n) =
     JObj
       [(''schema_v'', JInt 1), (''type'', JStr ''iteration_start''), (''n'', nat_json n)]"
| "event_json w (IterationResultEvent n paid c similarity verdict risk_level ref error (preset_id, preset_version, library_version)) =
     JObj
       [(''schema_v'', JInt 3), (''type'', JStr ''iteration_result''), (''n'', nat_json n),
        (''charged'', JBool paid), (''cost'', decimal_json w c),
        (''similarity'', js_opt JFloat similarity), (''verdict'', js_opt verdict_json verdict),
        (''risk_level'', js_opt risk_json risk_level), (''result_ref'', js_opt JStr ref),
        (''error'', js_opt JStr error), (''preset_id'', js_opt JStr preset_id),
        (''preset_version'', js_opt JStr preset_version),
        (''library_version'', js_opt JStr library_version)]"
| "event_json w (RetryEvent n reason previous_verdict) =
     JObj
       [(''schema_v'', JInt 1), (''type'', JStr ''retry''), (''n'', nat_json n),
        (''reason'', JStr reason), (''previous_verdict'', js_opt verdict_json previous_verdict)]"
| "event_json w (ResultEvent b iterations_used gens spent (preset_id, preset_version, library_version)) =
     JObj
       [(''schema_v'', JInt 3), (''type'', JStr ''result''), (''best'', best_json w b),
        (''iterations_used'', nat_json iterations_used), (''generations_spent'', nat_json gens),
        (''cost_spent'', decimal_json w spent), (''preset_id'', js_opt JStr preset_id),
        (''preset_version'', js_opt JStr preset_version),
        (''library_version'', js_opt JStr library_version)]"
| "event_json w (FailedEvent cd reason gate_reason iterations_used gens spent) =
     JObj
       [(''schema_v'', JInt 3), (''type'', JStr ''failed''), (''code'', failure_json cd),
        (''reason'', JStr reason), (''gate_reason'', js_opt gate_reason_json gate_reason),
        (''iterations_used'', nat_json iterations_used), (''generations_spent'', nat_json gens),
        (''cost_spent'', decimal_json w spent)]"
| "event_json w (DoneEvent steps_completed steps_total) =
     JObj
       [(''schema_v'', JInt 2), (''type'', JStr ''done''), (''detail'', JNull),
        (''steps_completed'', nat_json steps_completed), (''steps_total'', nat_json steps_total)]"

definition read_stage_event :: "wire \<Rightarrow> json \<Rightarrow> event result" where
  "read_stage_event w j =
     bind_res (fields_of [''schema_v'', ''type'', ''stage'', ''detail''] j) (\<lambda>d.
     bind_res (optional ''schema_v'' 1 (read_int w) d) (\<lambda>_.
     bind_res (required ''stage'' read_fsm d) (\<lambda>sg.
     bind_res (optional ''detail'' None (read_opt read_str) d) (\<lambda>_.
       Inr (StageEvent sg)))))"

definition read_need_input_event :: "wire \<Rightarrow> json \<Rightarrow> event result" where
  "read_need_input_event w j =
     bind_res (fields_of [''schema_v'', ''type'', ''slot'', ''question'', ''options'', ''default''] j) (\<lambda>d.
     bind_res (optional ''schema_v'' 1 (read_int w) d) (\<lambda>_.
     bind_res (required ''slot'' read_str d) (\<lambda>sl.
     bind_res (required ''question'' read_str d) (\<lambda>question.
     bind_res (optional ''options'' None (read_opt (read_list read_str)) d) (\<lambda>options.
     bind_res (optional ''default'' None (read_opt read_str) d) (\<lambda>dflt.
       Inr (NeedInputEvent sl question options dflt)))))))"

definition read_plan_event :: "wire \<Rightarrow> json \<Rightarrow> event result" where
  "read_plan_event w j =
     bind_res (fields_of [''schema_v'', ''type'', ''plan''] j) (\<lambda>d.
     bind_res (optional ''schema_v'' 1 (read_int w) d) (\<lambda>_.
     bind_res (required ''plan'' (read_plan w) d) (\<lambda>p.
       Inr (PlanEvent p))))"

definition read_cost_event :: "wire \<Rightarrow> json \<Rightarrow> event result" where
  "read_cost_event w j =
     bind_res (fields_of [''schema_v'', ''type'', ''cost''] j) (\<lambda>d.
     bind_res (optional ''schema_v'' 1 (read_int w) d) (\<lambda>_.
     bind_res (required ''cost'' (read_estimate w) d) (\<lambda>c.
       Inr (CostEvent c))))"

definition read_step_started_event :: "wire \<Rightarrow> json \<Rightarrow> event result" where
  "read_step_started_event w j =
     bind_res (fields_of [''schema_v'', ''type'', ''n'', ''title'', ''targets''] j) (\<lambda>d.
     bind_res (optional ''schema_v'' 1 (read_int w) d) (\<lambda>_.
     bind_res (required ''n'' (read_nat w) d) (\<lambda>n.
     bind_res (required ''title'' read_str d) (\<lambda>title.
     bind_res (optional ''targets'' [] (read_list read_str) d) (\<lambda>targets.
       Inr (StepStartedEvent n title targets))))))"

definition read_step_result_event :: "wire \<Rightarrow> json \<Rightarrow> event result" where
  "read_step_result_event w j =
     bind_res (fields_of [''schema_v'', ''type'', ''n'', ''status'', ''result_ref'', ''similarity''] j) (\<lambda>d.
     bind_res (optional ''schema_v'' 1 (read_int w) d) (\<lambda>_.
     bind_res (required ''n'' (read_nat w) d) (\<lambda>n.
     bind_res (required ''status'' read_status d) (\<lambda>stat.
     bind_res (optional ''result_ref'' None (read_opt read_str) d) (\<lambda>ref.
     bind_res (optional ''similarity'' None (read_opt (read_float w)) d) (\<lambda>similarity.
       Inr (StepResultEvent n stat ref similarity)))))))"

definition read_iteration_start_event :: "wire \<Rightarrow> json \<Rightarrow> event result" where
  "read_iteration_start_event w j =
     bind_res (fields_of [''schema_v'', ''type'', ''n''] j) (\<lambda>d.
     bind_res (optional ''schema_v'' 1 (read_int w) d) (\<lambda>_.
     bind_res (required ''n'' (read_nat w) d) (\<lambda>n.
       Inr (IterationStartEvent n))))"

definition read_iteration_result_event :: "wire \<Rightarrow> json \<Rightarrow> event result" where
  "read_iteration_result_event w j =
     bind_res (fields_of [''schema_v'', ''type'', ''n'', ''charged'', ''cost'', ''similarity'', ''verdict'',
          ''risk_level'', ''result_ref'', ''error'', ''preset_id'', ''preset_version'',
          ''library_version''] j) (\<lambda>d.
     bind_res (optional ''schema_v'' 3 (read_int w) d) (\<lambda>_.
     bind_res (required ''n'' (read_nat w) d) (\<lambda>n.
     bind_res (required ''charged'' read_bool d) (\<lambda>paid.
     bind_res (optional ''cost'' 0 (read_decimal w) d) (\<lambda>c.
     bind_res (optional ''similarity'' None (read_opt (read_float w)) d) (\<lambda>similarity.
     bind_res (optional ''verdict'' None (read_opt read_verdict) d) (\<lambda>verdict.
     bind_res (optional ''risk_level'' None (read_opt read_risk) d) (\<lambda>risk_level.
     bind_res (optional ''result_ref'' None (read_opt read_str) d) (\<lambda>ref.
     bind_res (optional ''error'' None (read_opt read_str) d) (\<lambda>error.
     bind_res (optional ''preset_id'' None (read_opt read_str) d) (\<lambda>preset_id.
     bind_res (optional ''preset_version'' None (read_opt read_str) d) (\<lambda>preset_version.
     bind_res (optional ''library_version'' None (read_opt read_str) d) (\<lambda>library_version.
       Inr (IterationResultEvent n paid c similarity verdict risk_level ref error (preset_id, preset_version, library_version)))))))))))))))"

definition read_retry_event :: "wire \<Rightarrow> json \<Rightarrow> event result" where
  "read_retry_event w j =
     bind_res (fields_of [''schema_v'', ''type'', ''n'', ''reason'', ''previous_verdict''] j) (\<lambda>d.
     bind_res (optional ''schema_v'' 1 (read_int w) d) (\<lambda>_.
     bind_res (required ''n'' (read_nat w) d) (\<lambda>n.
     bind_res (required ''reason'' read_str d) (\<lambda>reason.
     bind_res (optional ''previous_verdict'' None (read_opt read_verdict) d) (\<lambda>previous_verdict.
       Inr (RetryEvent n reason previous_verdict))))))"

definition read_result_event :: "wire \<Rightarrow> json \<Rightarrow> event result" where
  "read_result_event w j =
     bind_res (fields_of [''schema_v'', ''type'', ''best'', ''iterations_used'', ''generations_spent'',
          ''cost_spent'', ''preset_id'', ''preset_version'', ''library_version''] j) (\<lambda>d.
     bind_res (optional ''schema_v'' 3 (read_int w) d) (\<lambda>_.
     bind_res (required ''best'' (read_best w) d) (\<lambda>b.
     bind_res (required ''iterations_used'' (read_nat w) d) (\<lambda>iterations_used.
     bind_res (required ''generations_spent'' (read_nat w) d) (\<lambda>gens.
     bind_res (required ''cost_spent'' (read_decimal w) d) (\<lambda>spent.
     bind_res (optional ''preset_id'' None (read_opt read_str) d) (\<lambda>preset_id.
     bind_res (optional ''preset_version'' None (read_opt read_str) d) (\<lambda>preset_version.
     bind_res (optional ''library_version'' None (read_opt read_str) d) (\<lambda>library_version.
       Inr (ResultEvent b iterations_used gens spent (preset_id, preset_version, library_version)))))))))))"

definition read_failed_event :: "wire \<Rightarrow> json \<Rightarrow> event result" where
  "read_failed_event w j =
     bind_res (fields_of [''schema_v'', ''type'', ''code'', ''reason'', ''gate_reason'', ''iterations_used'',
          ''generations_spent'', ''cost_spent''] j) (\<lambda>d.
     bind_res (optional ''schema_v'' 3 (read_int w) d) (\<lambda>_.
     bind_res (required ''code'' read_failure d) (\<lambda>cd.
     bind_res (required ''reason'' read_str d) (\<lambda>reason.
     bind_res (optional ''gate_reason'' None (read_opt read_gate_reason) d) (\<lambda>gate_reason.
     bind_res (optional ''iterations_used'' 0 (read_nat w) d) (\<lambda>iterations_used.
     bind_res (optional ''generations_spent'' 0 (read_nat w) d) (\<lambda>gens.
     bind_res (optional ''cost_spent'' 0 (read_decimal w) d) (\<lambda>spent.
       Inr (FailedEvent cd reason gate_reason iterations_used gens spent)))))))))"

definition read_done_event :: "wire \<Rightarrow> json \<Rightarrow> event result" where
  "read_done_event w j =
     bind_res (fields_of [''schema_v'', ''type'', ''detail'', ''steps_completed'', ''steps_total''] j) (\<lambda>d.
     bind_res (optional ''schema_v'' 2 (read_int w) d) (\<lambda>_.
     bind_res (optional ''detail'' None (read_opt read_str) d) (\<lambda>_.
     bind_res (optional ''steps_completed'' 0 (read_nat w) d) (\<lambda>steps_completed.
     bind_res (optional ''steps_total'' 0 (read_nat w) d) (\<lambda>steps_total.
       Inr (DoneEvent steps_completed steps_total))))))"

definition event_readers :: "(string, wire \<Rightarrow> json \<Rightarrow> event result) dict" where
  "event_readers =
     [(''stage'', read_stage_event), (''need_input'', read_need_input_event),
      (''plan'', read_plan_event), (''cost'', read_cost_event),
      (''step_started'', read_step_started_event), (''step_result'', read_step_result_event),
      (''iteration_start'', read_iteration_start_event),
      (''iteration_result'', read_iteration_result_event), (''retry'', read_retry_event),
      (''result'', read_result_event), (''failed'', read_failed_event), (''done'', read_done_event)]"

definition read_event :: "wire \<Rightarrow> json \<Rightarrow> event result" where   \<comment> \<open>\<open>Field(discriminator="type")\<close>\<close>
  "read_event w j =
     (case j of
        JObj d \<Rightarrow>
          (case dict_get d ''type'' of
             Some (JStr t) \<Rightarrow> (case dict_get event_readers t of None \<Rightarrow> invalid | Some r \<Rightarrow> r w j)
           | _ \<Rightarrow> invalid)
      | _ \<Rightarrow> invalid)"

lemmas event_reader_defs =
  read_stage_event_def read_need_input_event_def read_plan_event_def read_cost_event_def
  read_step_started_event_def read_step_result_event_def read_iteration_start_event_def
  read_iteration_result_event_def read_retry_event_def read_result_event_def read_failed_event_def
  read_done_event_def

lemma event_json_type: "\<exists>d. event_json w e = JObj d \<and> dict_get d ''type'' = Some (JStr (event_type e))"
  by (cases "(w, e)" rule: event_json.cases) simp_all

lemma read_event_json [simp]:
  assumes "decimals_ok w"
  shows "read_event w (event_json w e) = Inr e"
  using assms
  by (cases "(w, e)" rule: event_json.cases)
    (simp_all add: read_event_def event_readers_def event_reader_defs read_simps)

section \<open>The HTTP contract (\<open>schemas/contract.py\<close>)\<close>

subsection \<open>Responses\<close>

definition ingest_response_json :: "wire \<Rightarrow> ingest_response \<Rightarrow> json" where
  "ingest_response_json w x =
     JObj
       [(''schema_v'', JInt 1), (''face_key'', JStr (ir_face_key x)),
        (''accepted'', JBool (ir_accepted x)), (''gate_verdict'', verdict_json (ir_gate_verdict x)),
        (''gate_reason'', gate_reason_json (ir_gate_reason x)),
        (''metrics'', metrics_json w (ir_metrics x))]"

definition read_ingest_response :: "wire \<Rightarrow> json \<Rightarrow> ingest_response result" where
  "read_ingest_response w j =
     bind_res (fields_of [''schema_v'', ''face_key'', ''accepted'', ''gate_verdict'', ''gate_reason'',
          ''metrics''] j) (\<lambda>d.
     bind_res (optional ''schema_v'' 1 (read_int w) d) (\<lambda>_.
     bind_res (required ''face_key'' read_str d) (\<lambda>fk.
     bind_res (required ''accepted'' read_bool d) (\<lambda>accepted.
     bind_res (required ''gate_verdict'' read_verdict d) (\<lambda>gate_verdict.
     bind_res (required ''gate_reason'' read_gate_reason d) (\<lambda>gate_reason.
     bind_res (required ''metrics'' (read_metrics w) d) (\<lambda>m.
       Inr \<lparr>ir_face_key = fk, ir_accepted = accepted, ir_gate_verdict = gate_verdict,
            ir_gate_reason = gate_reason, ir_metrics = m\<rparr>)))))))"

lemma read_ingest_response_json [simp]: "decimals_ok w \<Longrightarrow> read_ingest_response w (ingest_response_json w x) = Inr x"
  by (cases x) (simp add: read_ingest_response_def ingest_response_json_def read_simps)

definition start_response_json :: "wire \<Rightarrow> start_response \<Rightarrow> json" where
  "start_response_json w x =
     JObj
       [(''schema_v'', JInt 1), (''session_key'', JStr (sr_session_key x)),
        (''fsm_state'', fsm_json (sr_fsm_state x)), (''matched'', JBool (sr_matched x)),
        (''preset_id'', js_opt JStr (sr_preset_id x))]"

definition read_start_response :: "wire \<Rightarrow> json \<Rightarrow> start_response result" where
  "read_start_response w j =
     bind_res (fields_of [''schema_v'', ''session_key'', ''fsm_state'', ''matched'', ''preset_id''] j) (\<lambda>d.
     bind_res (optional ''schema_v'' 1 (read_int w) d) (\<lambda>_.
     bind_res (required ''session_key'' read_str d) (\<lambda>sk.
     bind_res (required ''fsm_state'' read_fsm d) (\<lambda>fsm_state.
     bind_res (required ''matched'' read_bool d) (\<lambda>mt.
     bind_res (optional ''preset_id'' None (read_opt read_str) d) (\<lambda>preset_id.
       Inr \<lparr>sr_session_key = sk, sr_fsm_state = fsm_state, sr_matched = mt, sr_preset_id = preset_id\<rparr>))))))"

lemma read_start_response_json [simp]: "decimals_ok w \<Longrightarrow> read_start_response w (start_response_json w x) = Inr x"
  by (cases x) (simp add: read_start_response_def start_response_json_def read_simps)

definition ack_json :: "wire \<Rightarrow> session_ack \<Rightarrow> json" where
  "ack_json w x =
     JObj
       [(''schema_v'', JInt 1), (''session_key'', JStr (sa_session_key x)),
        (''fsm_state'', fsm_json (sa_fsm_state x)), (''accepted'', JBool (sa_accepted x)),
        (''message'', js_opt JStr (sa_message x))]"

definition read_ack :: "wire \<Rightarrow> json \<Rightarrow> session_ack result" where
  "read_ack w j =
     bind_res (fields_of [''schema_v'', ''session_key'', ''fsm_state'', ''accepted'', ''message''] j) (\<lambda>d.
     bind_res (optional ''schema_v'' 1 (read_int w) d) (\<lambda>_.
     bind_res (required ''session_key'' read_str d) (\<lambda>sk.
     bind_res (required ''fsm_state'' read_fsm d) (\<lambda>fsm_state.
     bind_res (optional ''accepted'' True read_bool d) (\<lambda>accepted.
     bind_res (optional ''message'' None (read_opt read_str) d) (\<lambda>message.
       Inr \<lparr>sa_session_key = sk, sa_fsm_state = fsm_state, sa_accepted = accepted,
            sa_message = message\<rparr>))))))"

lemma read_ack_json [simp]: "decimals_ok w \<Longrightarrow> read_ack w (ack_json w x) = Inr x"
  by (cases x) (simp add: read_ack_def ack_json_def read_simps)

subsection \<open>Requests\<close>

definition read_ingest_request :: "wire \<Rightarrow> json \<Rightarrow> ingest_request result" where
  "read_ingest_request w j =
     bind_res (fields_of [''schema_v'', ''image_b64'', ''idem_key''] j) (\<lambda>d.
     bind_res (optional ''schema_v'' 1 (read_int w) d) (\<lambda>_.
     bind_res (required ''image_b64'' read_str d) (\<lambda>image_b64.
     bind_res (required ''idem_key'' read_str d) (\<lambda>idem_key.
       Inr \<lparr>iq_image_b64 = image_b64, iq_idem_key = idem_key\<rparr>))))"

definition read_start_request :: "wire \<Rightarrow> json \<Rightarrow> start_request result" where
  "read_start_request w j =
     bind_res (fields_of [''schema_v'', ''face_key'', ''brief'', ''budget_limit'', ''idem_key''] j) (\<lambda>d.
     bind_res (optional ''schema_v'' 2 (read_int w) d) (\<lambda>_.
     bind_res (required ''face_key'' read_str d) (\<lambda>fk.
     bind_res (optional ''brief'' None (read_opt read_str) d) (\<lambda>brief.
     bind_res (required ''budget_limit'' (read_decimal w) d) (\<lambda>limit.
     bind_res (required ''idem_key'' read_str d) (\<lambda>idem_key.
       Inr \<lparr>sq_face_key = fk, sq_brief = brief, sq_budget_limit = limit, sq_idem_key = idem_key\<rparr>))))))"

definition read_input_request :: "wire \<Rightarrow> json \<Rightarrow> input_request result" where
  "read_input_request w j =
     bind_res (fields_of [''schema_v'', ''session_key'', ''slot'', ''value'', ''idem_key''] j) (\<lambda>d.
     bind_res (optional ''schema_v'' 1 (read_int w) d) (\<lambda>_.
     bind_res (required ''session_key'' read_str d) (\<lambda>sk.
     bind_res (required ''slot'' read_str d) (\<lambda>sl.
     bind_res (required ''value'' read_str d) (\<lambda>val.
     bind_res (required ''idem_key'' read_str d) (\<lambda>idem_key.
       Inr \<lparr>nq_session_key = sk, nq_slot = sl, nq_value = val, nq_idem_key = idem_key\<rparr>))))))"

definition read_approve_request :: "wire \<Rightarrow> json \<Rightarrow> approve_request result" where
  "read_approve_request w j =
     bind_res (fields_of [''schema_v'', ''session_key'', ''approved'', ''idem_key'', ''composition_id''] j) (\<lambda>d.
     bind_res (optional ''schema_v'' 1 (read_int w) d) (\<lambda>_.
     bind_res (required ''session_key'' read_str d) (\<lambda>sk.
     bind_res (required ''approved'' read_bool d) (\<lambda>ok.
     bind_res (required ''idem_key'' read_str d) (\<lambda>idem_key.
     bind_res (optional ''composition_id'' None (read_opt read_str) d) (\<lambda>composition_id.
       Inr \<lparr>aq_session_key = sk, aq_approved = ok, aq_idem_key = idem_key,
            aq_composition_id = composition_id\<rparr>))))))"

definition read_body :: "wire \<Rightarrow> (wire \<Rightarrow> json \<Rightarrow> 'a result) \<Rightarrow> bytes \<Rightarrow> 'a result" where
  \<comment> \<open>a request body: text that is not JSON is refused like a body that does not fit its model\<close>
  "read_body w read raw = bind_res (wi_loads w raw) (read w)"

text \<open>An object with a key its model does not name is never accepted.\<close>

lemma unknown_key:
  "(k, v) \<in> set d \<Longrightarrow> k \<notin> set names \<Longrightarrow> bind_res (fields_of names (JObj d)) f = invalid"
  by (auto simp: fields_of_def invalid_def list_all_iff)

lemma unknown_key_refused:
  assumes "(k, v) \<in> set d" and "k \<notin> {''schema_v'', ''face_key'', ''brief'', ''budget_limit'', ''idem_key''}"
  shows "read_start_request w (JObj d) = invalid"
  using assms(2) unfolding read_start_request_def by (intro unknown_key [OF assms(1)]) simp

section \<open>As text\<close>

fun distinct_keys :: "json \<Rightarrow> bool" where
  "distinct_keys (JObj d) = (distinct (map fst d) \<and> list_all (\<lambda>(k, j). distinct_keys j) d)"
| "distinct_keys (JArr js) = list_all distinct_keys js"
| "distinct_keys _ = True"

definition wire_ok :: "wire \<Rightarrow> bool" where   \<comment> \<open>of Python's \<open>json\<close> and \<open>decimal\<close>\<close>
  "wire_ok w \<longleftrightarrow> decimals_ok w \<and> (\<forall>j. distinct_keys j \<longrightarrow> wi_loads w (wi_dumps w j) = Inr j)"

lemma distinct_keys_parts [simp]:
  "distinct_keys (nat_json n)" "distinct_keys (decimal_json w x)"
  "(\<And>x. distinct_keys (f x)) \<Longrightarrow> distinct_keys (js_opt f y)"
  "(\<And>x. distinct_keys (f x)) \<Longrightarrow> distinct_keys (list_json f xs)"
  "distinct_keys (text_dict_json d) \<longleftrightarrow> distinct (map fst d)"
  by (auto simp: nat_json_def decimal_json_def js_opt_def list_json_def text_dict_json_def list_all_iff
      comp_def case_prod_beta split: option.split)

lemma distinct_keys_models [simp]:
  "distinct_keys (thresholds_json w x1)" "distinct_keys (change_json w x2)"
  "distinct_keys (inventory_json w x3)" "distinct_keys (metrics_json w x4)"
  "distinct_keys (convergence_json w x5)" "distinct_keys (usage_json w x6)"
  "distinct_keys (choice_json w x7)" "distinct_keys (step_json w x8)"
  "distinct_keys (estimate_json w x9)" "distinct_keys (best_json w x10)"
  by (simp_all add: thresholds_json_def change_json_def inventory_json_def metrics_json_def convergence_json_def
      usage_json_def choice_json_def step_json_def estimate_json_def best_json_def)

lemma distinct_keys_aggregates [simp]:
  "distinct_keys (brief_analysis_json w y1)" "distinct_keys (face_json w y2)" "distinct_keys (paid_call_json w y3)"
  "distinct_keys (iteration_json w y4)" "distinct_keys (plan_json w y5)"
  "distinct_keys (ingest_response_json w y6)" "distinct_keys (start_response_json w y7)"
  "distinct_keys (ack_json w y8)"
  by (simp_all add: brief_analysis_json_def face_json_def paid_call_json_def iteration_json_def plan_json_def
      ingest_response_json_def start_response_json_def ack_json_def)

lemma distinct_keys_session [simp]: "distinct_keys (session_json w s) \<longleftrightarrow> distinct (map fst (ss_slots s))"
  by (simp add: session_json_def)

lemma distinct_keys_event [simp]: "distinct_keys (event_json w e)"
  by (cases "(w, e)" rule: event_json.cases) simp_all

definition dump_text :: "wire \<Rightarrow> (wire \<Rightarrow> 'a \<Rightarrow> json) \<Rightarrow> 'a \<Rightarrow> bytes" where   \<comment> \<open>\<open>model_dump_json\<close>\<close>
  "dump_text w json_of x = wi_dumps w (json_of w x)"

definition load_text :: "wire \<Rightarrow> (wire \<Rightarrow> json \<Rightarrow> 'a result) \<Rightarrow> bytes \<Rightarrow> 'a result" where   \<comment> \<open>\<open>model_validate_json\<close>\<close>
  "load_text w read text = bind_res (wi_loads w text) (read w)"

lemma load_dump_text:
  "wire_ok w \<Longrightarrow> distinct_keys (json_of w x) \<Longrightarrow> read w (json_of w x) = Inr x
    \<Longrightarrow> load_text w read (dump_text w json_of x) = Inr x"
  by (simp add: load_text_def dump_text_def wire_ok_def)

section \<open>The codecs of the program\<close>

definition redis_codec :: "wire \<Rightarrow> store_codec" where   \<comment> \<open>what \<open>RedisStateStore\<close> writes and reads\<close>
  "redis_codec w =
     \<lparr>sc_dump_face = dump_text w face_json, sc_load_face = load_text w read_face,
      sc_dump_session = dump_text w session_json, sc_load_session = load_text w read_session\<rparr>"

definition dump_event :: "wire \<Rightarrow> event \<Rightarrow> bytes" where   \<comment> \<open>\<open>EventAdapter.dump_json\<close>\<close>
  "dump_event w = dump_text w event_json"

definition load_event :: "wire \<Rightarrow> bytes \<Rightarrow> event result" where   \<comment> \<open>\<open>EventAdapter.validate_json\<close>\<close>
  "load_event w = load_text w read_event"

definition contract_codecs ::
  "wire \<Rightarrow> ingest_response codec \<times> start_response codec \<times> session_ack codec" where
  "contract_codecs w =
     ((dump_text w ingest_response_json, load_text w read_ingest_response),
      (dump_text w start_response_json, load_text w read_start_response),
      (dump_text w ack_json, load_text w read_ack))"

lemma wire_decimals: "wire_ok w \<Longrightarrow> decimals_ok w"
  by (simp add: wire_ok_def)

lemma contract_survives:
  assumes "wire_ok w" and "contract_codecs w = (ci, cs, ca)"
  shows "snd ci (fst ci i) = Inr i" "snd cs (fst cs s) = Inr s" "snd ca (fst ca a) = Inr a"
  using assms wire_decimals [OF assms(1)] by (auto simp: contract_codecs_def intro!: load_dump_text)

lemma event_survives: "wire_ok w \<Longrightarrow> load_event w (dump_event w e) = Inr e"
  unfolding load_event_def dump_event_def by (intro load_dump_text) (simp_all add: wire_decimals)

lemma session_survives:
  "wire_ok w \<Longrightarrow> distinct (map fst (ss_slots s))
    \<Longrightarrow> load_text w read_session (dump_text w session_json s) = Inr s"
  by (intro load_dump_text) (simp_all add: wire_decimals)

lemma face_survives: "wire_ok w \<Longrightarrow> load_text w read_face (dump_text w face_json f) = Inr f"
  by (intro load_dump_text) (simp_all add: wire_decimals)

definition storable :: "store_command \<Rightarrow> bool" where   \<comment> \<open>the slots of a session are a dict\<close>
  "storable x = (case x of Put_Session s \<Rightarrow> distinct (map fst (ss_slots s)) | _ \<Rightarrow> True)"

lemma redis_codec_survives: "wire_ok w \<Longrightarrow> storable x \<Longrightarrow> survives (redis_codec w) x"
  by (cases x) (simp_all add: storable_def redis_codec_def face_survives session_survives)

lemma redis_trace_ok:
  "wire_ok w \<Longrightarrow> list_all (\<lambda>(i, ttl, x). 0 < ttl \<and> storable x) xs \<Longrightarrow> trace_ok (redis_codec w) xs"
  by (auto simp: trace_ok_def list_all_iff intro: redis_codec_survives)

end
