(* ===== verification/Graph_Samples.thy ===== *)
theory Graph_Samples
  imports Samples Wire "HOL-Library.Countable"
begin

text \<open>
  Concrete inputs for the witnesses about whole sessions: a library with the fallback preset, the
  fake wiring over it, a wire that reads back what it wrote, a world with one ingested face, and a
  process with one run.
\<close>

section \<open>A wire\<close>

text \<open>JSON texts and decimals numbered, so that both read back.\<close>

instance json :: countable by countable_datatype

definition numbered :: "'a::countable \<Rightarrow> string" where "numbered x = show_nat (to_nat x)"

definition unnumbered :: "string \<Rightarrow> 'a::countable option" where "unnumbered s = map_option from_nat (parse_nat s)"

lemma unnumbered [simp]: "unnumbered (numbered x) = Some x"
  by (simp add: numbered_def unnumbered_def)

definition sample_wire :: wire where
  "sample_wire =
     \<lparr>wi_dumps = numbered, wi_loads = (\<lambda>s. or_invalid (unnumbered s)), wi_show_decimal = numbered,
      wi_decimal = unnumbered, wi_float = (\<lambda>_. None), wi_int = (\<lambda>_. None), wi_time = (\<lambda>_. False)\<rparr>"

lemma sample_wire_ok: "wire_ok sample_wire"
  by (simp add: wire_ok_def decimals_ok_def sample_wire_def or_invalid_def)

section \<open>Services\<close>

definition sample_fallback :: preset where
  "sample_fallback = sample_preset\<lparr>pr_id := ''default'', pr_use_case := [''default'']\<rparr>"

definition sample_library :: library where
  "sample_library =
     \<lparr>lib_version = ''1.0.0'', lib_source = ''path:library'',
      lib_by_id = [(''portrait'', sample_preset), (''default'', sample_fallback)]\<rparr>"

definition sample_externals :: "nat externals" where
  "sample_externals =
     \<lparr>ex_insight = \<lparr>in_pil = sample_pil, in_expand = (\<lambda>i _. i), in_app = (\<lambda>_. [])\<rparr>,
      ex_numpy = sample_numpy,
      ex_fs = \<lparr>fs_is_dir = (\<lambda>_. True), fs_package_root = (\<lambda>p. p), fs_dist_version = (\<lambda>_. None),
               fs_module_version = (\<lambda>_. ''1.0.0''), fs_resolve = (\<lambda>p. p), fs_examples_dir = ''examples'',
               fs_yaml_files = (\<lambda>_. [])\<rparr>,
      ex_chat = sample_llm, ex_image_post = (\<lambda>_ _ _. Unreached ''offline''), ex_py_str = (\<lambda>_. []),
      ex_noise = ''noise'', ex_parse_overrides = (\<lambda>_. Inl (ValueError ''no overrides'')),
      ex_dump = dump_event sample_wire, ex_load = load_event sample_wire\<rparr>"

definition sample_settings :: settings where
  "sample_settings = default_settings\<lparr>cf_generation_model := ''gen''\<rparr>"

definition sample_services :: "nat services" where
  "sample_services = fake_services sample_externals sample_settings sample_library sample_pricing"

definition ready_world :: world where
  \<comment> \<open>one ingested face with its photo, no session\<close>
  "ready_world =
     \<lparr>w_store = put_face (sample_face\<lparr>fp_photo_ref := photo_ref ''f1''\<rparr>) empty_store, w_streams = (\<lambda>_. []),
      w_objects = [photo_ref ''f1'' \<mapsto> ''raw''], w_gen_log = [], w_llm_log = []\<rparr>"

definition sample_start :: graph_state where
  "sample_start = initial_state ''s1'' ''f1'' ''on a beach'' 1000000"

definition started_world :: world where
  \<comment> \<open>session \<open>s1\<close> exists, its brief is read\<close>
  "started_world = ready_world\<lparr>w_store := put_session
     ((new_session ''s1'' ''f1'' 1)\<lparr>ss_brief_analysis := Some sample_analysis, ss_fsm_state := PLANNING\<rparr>)
     (w_store ready_world)\<rparr>"

lemma started_session [simp]: "get_session ''s1'' (w_store started_world) =
    Some ((new_session ''s1'' ''f1'' 1)\<lparr>ss_brief_analysis := Some sample_analysis, ss_fsm_state := PLANNING\<rparr>)"
  by (simp add: started_world_def new_session_def)

lemma started_face [simp]: "get_face ''f1'' (w_store started_world) = Some (sample_face\<lparr>fp_photo_ref := photo_ref ''f1''\<rparr>)"
  by (simp add: started_world_def ready_world_def sample_face_def)

lemma started_logs [simp]:
  "w_gen_log started_world = []" "w_llm_log started_world = []" "w_streams started_world = (\<lambda>_. [])"
  by (simp_all add: started_world_def ready_world_def)

lemma ready_keyed: "keyed ready_world" and started_keyed: "keyed started_world"
  by (simp_all add: keyed_def ready_world_def started_world_def empty_store_def get_session_def
      put_session_def put_face_def new_session_def)

lemma sample_start_fields [simp]:
  "gs_session_key sample_start = ''s1''" "gs_face_key sample_start = ''f1''" "gs_use_case sample_start = []"
  "gs_budget_limit sample_start = 1000000" "gs_slots sample_start = None" "gs_failure sample_start = None"
  by (simp_all add: sample_start_def initial_state_def)

lemma sample_state_ok: "state_ok sample_start"
  unfolding sample_start_def by (rule state_ok_initial)

lemma sample_resolves: "resolve sample_library [] = Some sample_fallback"
  by code_simp

lemma sample_estimate:
  "\<exists>cost. estimate_cost sample_fallback (from_micro 1000000) sample_pricing ''gen'' n e = Inr cost"
  unfolding sample_pricing_def
  by (rule default_estimate)
     (simp_all add: known_detail_def sample_fallback_def sample_preset_def sample_generation_def from_micro_eq)

lemma sample_service_fields [simp]:
  "sv_library sample_services = sample_library" "sv_pricing sample_services = sample_pricing"
  "sv_generation_model sample_services = ''gen''"
  "sv_fill sample_services = (\<lambda>p ans fm m. lift_res (default_fill p ans))"
  "sv_plan sample_services = (\<lambda>a i m. ret (deterministic_plan a))"
  "sv_loop sample_services = with_det_writer (base_loop sample_externals sample_settings sample_pricing)"
  by (simp_all add: sample_services_def fake_services_def sample_settings_def)

lemma sample_plan_length: "length (planned_steps p sample_analysis (deterministic_plan sample_analysis)) = 3"
proof -
  have l: "length (deterministic_steps sample_analysis) = 2" by (simp add: sample_analysis_def)
  then have "deterministic_steps sample_analysis \<noteq> []" by (metis list.size(3) zero_neq_numeral)
  with l show ?thesis by (simp add: planned_steps_def with_enhance_def deterministic_plan_def Let_def)
qed

lemma sample_planned:
  "\<exists>w'. graph_run sample_services Plan_Steps sample_start None started_world
     = (Paused Approve sample_start approve_payload, w')"
proof -
  obtain cost where cost: "estimate_cost sample_fallback (from_micro 1000000) sample_pricing ''gen'' 3 1 = Inr cost"
    using sample_estimate by blast
  have an: "session_analysis sample_fallback ((new_session ''s1'' ''f1'' 1)
      \<lparr>ss_brief_analysis := Some sample_analysis, ss_fsm_state := PLANNING\<rparr>) = sample_analysis"
    by (simp add: session_analysis_def)
  obtain w' where "plan_steps sample_services sample_start started_world = (Inr (Goes sample_start), w')"
    by (simp add: plan_steps_def obind_def Let_def node_resolve_def sample_resolves node_session_def
        op_get_session_def op_get_face_def an sample_plan_length cost op_put_session_def publish_def)
  then show ?thesis
    by (simp add: graph_run.simps [of sample_services Plan_Steps] graph_run.simps [of sample_services Approve]
        approve_def)
qed

lemma sample_codec_ok: "codec_ok sample_services"
  by (simp add: codec_ok_def with_det_writer_def base_loop_def sample_externals_def
      event_survives [OF sample_wire_ok])

lemma sample_fair: "fair (\<lambda>_. True) sample_services k"
  by (simp add: fair_def money_ok_def bills_ok_def with_det_writer_def base_loop_def fake_generate_def
      sample_pricing_def pricing_default_ok usage_cost_def)

lemma sample_rejected: "\<not> fst (parse_decision (Decision False None))"
  by simp

text \<open>The slots of the fallback preset, filled from the defaults.\<close>

definition sample_fill :: slot_fill where
  "sample_fill =
     \<lparr>sf_slots = [(''scene'', ''a studio''), (''style'', ''plain'')], sf_addendum = [], sf_usage = None, sf_cost = 0\<rparr>"

lemma sample_filled: "default_fill sample_fallback None = Inr sample_fill"
  by code_simp

lemma sample_fill_valid: "validate_slots sample_fallback (sf_slots sample_fill) False = Inr ()"
  by code_simp

lemma sample_resolved:
  "\<exists>st' w'. resolve_constraints sample_services sample_start started_world = (Inr (Goes st'), w')"
proof -
  have a: "gs_answer sample_start = None" by (simp add: sample_start_def initial_state_def)
  obtain body where body: "fill_template sample_fallback (sf_slots sample_fill) (sf_addendum sample_fill) = Inr body"
    using fill_template_total [OF sample_fill_valid] by blast
  have "\<exists>st' w'. accept_fill sample_services sample_start sample_fallback sample_fill
      (snd (publish ''s1'' (StageEvent PLANNING) started_world)) = (Inr (Goes st'), w')"
  proof (cases "assemble_prompt sample_fallback body []")
    case (Inl e)
    with assemble_prompt_errors obtain m where "e = FreeFormRejected m" by blast
    with Inl body show ?thesis by (simp add: accept_fill_def check_fill_def)
  next
    case (Inr b)
    with body show ?thesis
      by (simp add: accept_fill_def check_fill_def obind_def node_session_def op_get_session_def
          op_put_session_def publish_def)
  qed
  then show ?thesis
    by (simp add: resolve_constraints_def obind_def publish_def node_resolve_def sample_resolves op_get_face_def
        a sample_filled)
qed

section \<open>A container\<close>

definition sample_container :: "nat container" where
  "sample_container =
     \<lparr>ct_services = sample_services, ct_settings = sample_settings, ct_replica = 0,
      ct_ingest_codec = fst (contract_codecs sample_wire), ct_start_codec = fst (snd (contract_codecs sample_wire)),
      ct_ack_codec = snd (snd (contract_codecs sample_wire))\<rparr>"

lemma sample_codecs:
  "snd (ct_start_codec sample_container) (fst (ct_start_codec sample_container) y) = Inr y"
  "snd (ct_ack_codec sample_container) (fst (ct_ack_codec sample_container) a) = Inr a"
  "snd (ct_ingest_codec sample_container) (fst (ct_ingest_codec sample_container) i) = Inr i"
  using contract_survives [OF sample_wire_ok, of "fst (contract_codecs sample_wire)"
      "fst (snd (contract_codecs sample_wire))" "snd (snd (contract_codecs sample_wire))"]
  by (simp_all add: sample_container_def)

definition sample_body :: start_request where
  "sample_body = \<lparr>sq_face_key = ''f1'', sq_brief = Some ''on a beach'', sq_budget_limit = 1, sq_idem_key = ''i1''\<rparr>"

end
