(* ===== verification/Session_Theorems.thy ===== *)
theory Session_Theorems
  imports Deployment Graph_Samples
begin

text \<open>
  The properties of a session as a whole: what the graph, the user's answers and the runner
  guarantee together, for both wirings of the services. Each is followed by a concrete instance.
\<close>

lemma sample_deployed: "deployed sample_externals sample_settings sample_services"
  by (auto simp: deployed_def sample_services_def)

lemma sample_ports: "graph_ports (\<lambda>_. True) sample_services"
  unfolding sample_services_def by (rule fake_graph.graph_ports_axioms)

definition refused_face :: face_profile where
  "refused_face = sample_face\<lparr>fp_photo_ref := photo_ref ''f1'', fp_gate_verdict := BELOW_FLOOR,
     fp_gate_reason := FACE_TOO_SMALL\<rparr>"

definition refused_world :: world where   \<comment> \<open>the ingested photo did not pass the gate\<close>
  "refused_world = ready_world\<lparr>w_store := put_face refused_face empty_store\<rparr>"

lemma refused_facts [simp]:
  "get_face ''f1'' (w_store refused_world) = Some refused_face" "fp_face_key refused_face = ''f1''"
  "get_session ''s1'' (w_store refused_world) = None" "w_streams refused_world = (\<lambda>_. [])"
  by (simp_all add: refused_world_def refused_face_def sample_face_def ready_world_def get_session_def
      empty_store_def put_face_def get_face_def)

lemma refused_keyed: "keyed refused_world"
  by (simp add: keyed_def refused_world_def ready_world_def empty_store_def get_session_def put_face_def)


lemma refused_led: "led ''s1'' refused_world 0"
  by (simp add: led_def used_def budget_used_def refused_world_def empty_store_def put_face_def get_session_def)

lemma sample_fair': "fair (llm_honest (ex_chat sample_externals)) sample_services k"
  using sample_fair [of k]
  by (simp add: fair_def sample_externals_def with_det_writer_def base_loop_def llm_honest_def
      sample_pricing_def pricing_default_ok meter_of_def sample_llm_def read_answer_def)

lemma refused_run:
  "\<exists>st w' session. first_run sample_services ''s1'' ''f1'' ''on a beach'' 1000000 refused_world = (Finished st, w')
    \<and> get_session ''s1'' (w_store w') = Some session"
proof -
  obtain st1 w1 where a: "analyze sample_services (initial_state ''s1'' ''f1'' ''on a beach'' 1000000) refused_world
      = (Inr (Goes st1), w1)" and g: "gs_gate_verdict st1 = Some (verdict_value BELOW_FLOOR)"
    and s1: "get_session ''s1'' (w_store w1) \<noteq> None" "gs_session_key st1 = ''s1''"
    by (simp add: analyze_def obind_def op_get_session_def Let_def op_put_session_def publish_def load_face_def
        op_get_face_def initial_state_def new_session_def refused_face_def)
  have ok: "state_ok st1"
    using run_node_ok [of sample_services Analyze _ None refused_world st1 w1] a state_ok_initial by simp
  let ?f = "fail_with ''input photo cannot anchor the identity'' (gs_gate_reason st1) INPUT_REJECTED st1"
  have "state_ok ?f" using ok by (auto intro!: state_ok_fail) (simp add: state_ok_def)
  moreover obtain r w2 where "fail_node ?f w1 = (r, w2)" by fastforce
  moreover have "keyed w1"
    using graph_ports.normal_node [OF sample_ports, of "''s1''" refused_world
        "initial_state ''s1'' ''f1'' ''on a beach'' 1000000" Analyze None "Inr (Goes st1)" w1] a refused_keyed
    by (simp add: held_def) (simp add: initial_state_def)
  moreover have "gs_session_key ?f = ''s1''" using s1(2) by (simp add: fail_with_def)
  ultimately have "r = Inr (Goes ?f)" "get_session ''s1'' (w_store w2) \<noteq> None"
    using fail_node_closes [of ?f "''s1''" w1 r w2] s1(1) by auto
  with \<open>fail_node ?f w1 = (r, w2)\<close> have "graph_run sample_services Fail_Node ?f None w1 = (Finished ?f, w2)"
    by (simp add: graph_run.simps)
  moreover have "first_run sample_services ''s1'' ''f1'' ''on a beach'' 1000000 refused_world
      = graph_run sample_services Quality_Gate st1 None w1"
    using a by (simp add: first_run_def graph_run.simps [of _ Analyze])
  ultimately show ?thesis using refused_photo_run [of st1 sample_services None w1] g
      \<open>get_session ''s1'' (w_store w2) \<noteq> None\<close> by auto
qed

section \<open>Approval, answers, and the end of a session\<close>

text \<open>C7: Nothing is generated without approval. A session, from its first run through any sequence
of answers none of which approves the plan when asked to, sends no request to the image provider,
whatever the LLM ports answer, and also when runs of it crash and are resumed.\<close>

theorem unapproved_session_generates_nothing:
  assumes "deployed ex s svc" and "keyed w"
    and "first_run svc k face brief limit w = (res, w1)" and "\<not> approved_in svc vs res w1"
    and "graph_session svc vs res w1 = (res', w')"
  shows "w_gen_log w' = w_gen_log w"
proof -
  from assms(1) obtain h where h: "graph_ports h svc" using deployed_ports by blast
  have key: "gs_session_key (initial_state k face brief limit) = k" by (simp add: initial_state_def)
  from graph_ports.unapproved_run [OF h assms(3) [unfolded first_run_def] assms(2) state_ok_initial key]
  have u: "w_gen_log w1 = w_gen_log w" "keyed w1" "snd (checkpoint_of res) \<noteq> Some Generate" by simp_all
  from graph_ports.session_unapproved [OF h graph_ports.first_resumable [OF h assms(3) u(2)] u(3) assms(4,5)] u(1)
  show ?thesis by simp
qed

theorem unapproved_session_generates_nothing_witness:
  "\<exists>res w1 res' w'. first_run sample_services ''s1'' ''f1'' ''on a beach'' 1000000 ready_world = (res, w1)
    \<and> graph_session sample_services [Decision False None] res w1 = (res', w') \<and> w_gen_log w' = []"
proof -
  obtain res w1 where r: "first_run sample_services ''s1'' ''f1'' ''on a beach'' 1000000 ready_world = (res, w1)"
    by fastforce
  obtain res' w' where g: "graph_session sample_services [Decision False None] res w1 = (res', w')" by fastforce
  have "\<not> approved_in sample_services [Decision False None] res w1"
    by (cases res) (auto split: prod.splits)
  from unapproved_session_generates_nothing [OF sample_deployed ready_keyed r this g] r g
  show ?thesis by (auto simp: ready_world_def)
qed





text \<open>C10: Money across a session. At every point where a session none of whose runs crashed waits or is
over, the budget counter covers every cost the session record holds, generations and auxiliary calls, in
micro-dollars: no recorded spend escapes the counter the cap is enforced on.\<close>

theorem counter_covers_record:
  assumes "deployed ex s svc" and "fair (llm_honest (ex_chat ex)) svc k"
    and "codec_ok svc" and "keyed w" and "led k w 0"
    and "first_run svc k face brief limit w = (res, w1)" and "graph_session svc vs res w1 = (res', w')"
    and "\<forall>x\<in>set (session_outcomes svc vs res w1). \<not> is_crashed x"
    and "get_session k (w_store w') = Some session"
  shows "ledger_micro session \<le> used k w'"
proof -
  from assms(1) obtain h where h: "graph_ports h svc" "\<And>m. llm_honest (ex_chat ex) m \<Longrightarrow> h m"
    using deployed_ports by blast
  with assms(2) have "fair h svc k" by (simp add: fair_def)
  from graph_ports.first_and_session_led [OF h(1) assms(6,4,5) this assms(3,7,8)] led_used assms(9)
  show ?thesis by fastforce
qed

theorem counter_covers_record_witness:
  "\<exists>st w' session. first_run sample_services ''s1'' ''f1'' ''on a beach'' 1000000 refused_world = (Finished st, w')
    \<and> get_session ''s1'' (w_store w') = Some session \<and> ledger_micro session \<le> used ''s1'' w'"
proof -
  from refused_run obtain st w' session where
    r: "first_run sample_services ''s1'' ''f1'' ''on a beach'' 1000000 refused_world = (Finished st, w')"
    "get_session ''s1'' (w_store w') = Some session" by blast
  then have "graph_session sample_services [] (Finished st) w' = (Finished st, w')" by simp
  from counter_covers_record [OF sample_deployed sample_fair' sample_codec_ok refused_keyed refused_led r(1) this _ r(2)] r
  show ?thesis by force
qed

section \<open>What a plan proposes and what a refusal leaves\<close>

text \<open>C11: What the user is asked to approve. When a run pauses for approval, the session holds a
complete plan and the stream ends with it and its estimate: steps numbered from 1, all pending, every
change of the brief targeted by some step, one enhance step and it is the last, the forecast equal to
the number of steps; the preset is the one the library resolves.\<close>

theorem approval_shows_a_complete_plan:
  assumes "deployed ex s svc" and "keyed w" and "gs_session_key st = k" and "n \<notin> {Approve, Generate}"
    and "graph_run svc n st v w = (Paused Approve st' q, w')"
  shows "proposed svc st' k w' \<and> q = approve_payload"
proof -
  from assms(1) obtain h where h: "graph_ports h svc" using deployed_ports by blast
  from graph_ports.paused_for_approval [OF h assms(5) refl assms(3,2,4)] show ?thesis by blast
qed

theorem approval_shows_a_complete_plan_witness:
  "\<exists>w'. graph_run sample_services Plan_Steps sample_start None started_world
      = (Paused Approve sample_start approve_payload, w') \<and> proposed sample_services sample_start ''s1'' w'"
proof -
  obtain w' where r: "graph_run sample_services Plan_Steps sample_start None started_world
      = (Paused Approve sample_start approve_payload, w')" using sample_planned by blast
  from approval_shows_a_complete_plan [OF sample_deployed started_keyed _ _ r, of "''s1''"] r show ?thesis by auto
qed

text \<open>C12: A refused plan. The run that receives the refusal calls no port and spends nothing: it marks
the session failed and publishes one event, \<open>failed\<close> with \<open>plan_rejected\<close> and the session's own
counts, and it is over.\<close>

theorem refusal_ends_the_session:
  assumes "\<not> fst (parse_decision d)" and "get_session (gs_session_key st) (w_store w) = Some s"
  shows "graph_run svc Approve st (Some d) w =
    (Finished (fail_with ''plan rejected by the user'' None PLAN_REJECTED st),
     w\<lparr>w_store := put_session (s\<lparr>ss_fsm_state := FAILED\<rparr>) (w_store w),
       w_streams := (w_streams w)(gs_session_key st := w_streams w (gs_session_key st)
         @ [FailedEvent PLAN_REJECTED ''plan rejected by the user'' None
              (length (ss_iterations s)) (generations_spent s) (cost_spent s)])\<rparr>)"
proof -
  let ?f = "fail_with ''plan rejected by the user'' None PLAN_REJECTED st"
  have f: "gs_failure ?f = Some \<lparr>fl_reason = ''plan rejected by the user'',
      fl_gate_reason = map_option gate_reason_value None, fl_code = failure_code_value PLAN_REJECTED\<rparr>"
    "gs_session_key ?f = gs_session_key st"
    by (simp_all add: fail_with_def)
  show ?thesis
    unfolding refused_plan_run [OF assms(1) refl] by (subst fail_node_event [OF f(1) _ f(2)]) (simp_all add: assms(2))
qed

theorem refusal_ends_the_session_witness:
  "w_streams (snd (graph_run sample_services Approve sample_start (Some (Reply ''no'')) started_world)) ''s1''
     = [FailedEvent PLAN_REJECTED ''plan rejected by the user'' None 0 0 0]"
proof -
  have n: "\<not> fst (parse_decision (Reply ''no''))" by code_simp
  have st: "get_session (gs_session_key sample_start) (w_store started_world) = Some
      ((new_session ''s1'' ''f1'' 1)\<lparr>ss_brief_analysis := Some sample_analysis, ss_fsm_state := PLANNING\<rparr>)" by simp
  show ?thesis
    by (subst refusal_ends_the_session [OF n st])
       (simp add: new_session_def generations_spent_def cost_spent_def)
qed

text \<open>C13: A photo that cannot anchor an identity ends the session at the gate, before any paid call: no
request to any model, one \<open>failed\<close> event with \<open>input_rejected\<close> and the gate's reason.\<close>

theorem refused_photo_ends_the_session:
  assumes "gs_gate_verdict st = Some (verdict_value BELOW_FLOOR) \<or> gs_has_identity st \<noteq> Some True"
    and "gs_gate_reason st = map_option gate_reason_value g"
    and "get_session (gs_session_key st) (w_store w) = Some s"
  shows "\<exists>st' w'. graph_run svc Quality_Gate st v w = (Finished st', w')
    \<and> w_gen_log w' = w_gen_log w \<and> w_llm_log w' = w_llm_log w
    \<and> w_store w' = put_session (s\<lparr>ss_fsm_state := FAILED\<rparr>) (w_store w)
    \<and> w_streams w' (gs_session_key st) = w_streams w (gs_session_key st)
        @ [FailedEvent INPUT_REJECTED ''input photo cannot anchor the identity'' g
             (length (ss_iterations s)) (generations_spent s) (cost_spent s)]"
proof -
  let ?f = "fail_with ''input photo cannot anchor the identity'' (gs_gate_reason st) INPUT_REJECTED st"
  have f: "gs_failure ?f = Some \<lparr>fl_reason = ''input photo cannot anchor the identity'',
      fl_gate_reason = map_option gate_reason_value g, fl_code = failure_code_value INPUT_REJECTED\<rparr>"
    "gs_session_key ?f = gs_session_key st"
    using assms(2) by (simp_all add: fail_with_def)
  show ?thesis
    unfolding refused_photo_run [OF assms(1)] by (subst fail_node_event [OF f(1) _ f(2)]) (simp_all add: assms(3))
qed

theorem refused_photo_ends_the_session_witness:
  "\<exists>st' w'. graph_run sample_services Quality_Gate (sample_start\<lparr>gs_gate_verdict := Some (verdict_value BELOW_FLOOR),
       gs_gate_reason := Some (gate_reason_value BLURRY)\<rparr>) None started_world = (Finished st', w')
     \<and> w_gen_log w' = [] \<and> w_llm_log w' = []"
  using refused_photo_ends_the_session [where st = "sample_start\<lparr>gs_gate_verdict := Some (verdict_value BELOW_FLOOR),
      gs_gate_reason := Some (gate_reason_value BLURRY)\<rparr>" and g = "Some BLURRY" and w = started_world
      and svc = sample_services and v = None]
  by auto

text \<open>C14: The slots of a session. When the fill of the preset's slots is accepted, the session record
holds the preset's id and version, its thresholds frozen, and slot values inside the preset's
vocabulary; when it is not, the record is unchanged and the run either asks again with a reason or fails.\<close>

theorem accepted_slots_are_in_vocabulary:
  assumes "deployed ex s svc" and "keyed w" and "gs_session_key st = k"
    and "resolve_constraints svc st w = (Inr (Goes st'), w')"
  shows "(\<exists>p s0 s1 f b. resolve (sv_library svc) (gs_use_case st) = Some p
      \<and> get_session k (w_store w) = Some s0 \<and> get_session k (w_store w') = Some s1
      \<and> s1 = resolved_session (sv_library svc) p f s0 \<and> check_fill p f = Inr b
      \<and> gs_reask_reason st' = None \<and> (preset_wf p \<longrightarrow> fill_ok p (ss_slots s1)))
    \<or> get_session k (w_store w') = get_session k (w_store w)
      \<and> (gs_failure st' \<noteq> None \<or> gs_reask_reason st' = Some reask_text)"
proof -
  from assms(1) obtain h where h: "graph_ports h svc" using deployed_ports by blast
  from graph_ports.resolve_outcome [OF h assms(4,3,2)] show ?thesis .
qed

theorem accepted_slots_are_in_vocabulary_witness:
  "\<exists>st' w'. resolve_constraints sample_services sample_start started_world = (Inr (Goes st'), w')
    \<and> (gs_reask_reason st' = None \<longrightarrow> gs_failure st' = None \<longrightarrow>
         (\<exists>s1. get_session ''s1'' (w_store w') = Some s1))"
proof -
  obtain st' w' where r: "resolve_constraints sample_services sample_start started_world = (Inr (Goes st'), w')"
    using sample_resolved by blast
  from accepted_slots_are_in_vocabulary [OF sample_deployed started_keyed sample_start_fields(1) r] r
  show ?thesis by (auto simp: reask_text_def)
qed

end
