(* ===== verification/Object_Storage.thy ===== *)
theory Object_Storage
  imports World
begin

text \<open>
  The object storage port (\<open>protocols/object_storage.py\<close>) and its local-directory form
  (\<open>connectors/local_storage.py\<close>). Paths are lists of components, a file system is a map from paths to
  folders and files with the errors the operating system gives a path that runs through a file or
  names a folder. \<open>Path.resolve\<close> is taken without symbolic links; a full disk, missing rights, names
  that are too long and null characters are not modelled. Then the S3 form (\<open>connectors/s3_storage.py\<close>):
  the calls of the client are a parameter, with the error codes S3 documents, and the client is opened
  on first use.

  The contract of the port, for the keys of a set and the states that have room for them, is the locale
  \<open>object_store\<close>: what was put is what is got, a miss is a \<open>KeyError\<close>, other keys keep their value. The
  world's own map satisfies it for all keys, the S3 form when the bucket keeps what it acknowledges, the
  directory for plain relative keys none of which names a folder of another.
\<close>

locale object_store =
  fixes keys :: "string set"
    and room :: "'s \<Rightarrow> bool"
    and put :: "string \<Rightarrow> bytes \<Rightarrow> 's \<Rightarrow> string result \<times> 's"
    and fetch :: "string \<Rightarrow> 's \<Rightarrow> bytes result"
  assumes put_echoes: "room s \<Longrightarrow> k \<in> keys \<Longrightarrow> fst (put k d s) = Inr k"
    and put_room: "room s \<Longrightarrow> k \<in> keys \<Longrightarrow> room (snd (put k d s))"
    and fetch_put: "room s \<Longrightarrow> k \<in> keys \<Longrightarrow> j \<in> keys \<Longrightarrow>
          fetch j (snd (put k d s)) = (if j = k then Inr d else fetch j s)"
    and fetch_miss: "room s \<Longrightarrow> k \<in> keys \<Longrightarrow> fetch k s = Inl e \<Longrightarrow> e = KeyError k"
begin

text \<open>Any sequence of puts: every one is acknowledged, and a key has the last value put there.\<close>

fun put_all :: "(string \<times> bytes) list \<Rightarrow> 's \<Rightarrow> string result list \<times> 's" where
  "put_all [] s = ([], s)"
| "put_all ((k, d) # ps) s =
     (case put k d s of (x, s1) \<Rightarrow> case put_all ps s1 of (xs, s2) \<Rightarrow> (x # xs, s2))"

lemma put_all_spec:
  "room s \<Longrightarrow> fst ` set ps \<subseteq> keys \<Longrightarrow>
     fst (put_all ps s) = map (\<lambda>(k, d). Inr k) ps \<and> room (snd (put_all ps s))
     \<and> (\<forall>j\<in>keys. fetch j (snd (put_all ps s)) = (case map_of (rev ps) j of Some d \<Rightarrow> Inr d | None \<Rightarrow> fetch j s))"
proof (induction ps arbitrary: s)
  case (Cons p ps)
  obtain k d where p: "p = (k, d)" by (cases p)
  obtain x s1 where s1: "put k d s = (x, s1)" by fastforce
  have k: "k \<in> keys" "fst ` set ps \<subseteq> keys" using Cons.prems(2) p by auto
  have "room s1" "x = Inr k" using put_room [OF Cons.prems(1) k(1), of d] put_echoes [OF Cons.prems(1) k(1), of d] s1
    by simp_all
  with Cons.IH [of s1] k fetch_put [OF Cons.prems(1) k(1), of _ d] s1 p show ?case
    by (auto simp: map_add_def split: prod.split option.split)
qed simp

end

definition storage_fetch :: "string \<Rightarrow> world \<Rightarrow> bytes result" where
  "storage_fetch k w = fst (storage_get k w)"

interpretation world_objects: object_store UNIV "\<lambda>_. True" storage_put storage_fetch
  by unfold_locales (auto simp: storage_put_def storage_fetch_def storage_get_def split: option.splits)

section \<open>A local directory\<close>

type_synonym path = "string list"

datatype entry = Folder | Blob bytes

type_synonym directory = "path \<rightharpoonup> entry"   \<comment> \<open>everything below \<open>/\<close>, which is \<open>[]\<close> and always a folder\<close>

definition is_folder :: "path \<Rightarrow> directory \<Rightarrow> bool" where
  "is_folder p fs \<longleftrightarrow> p = [] \<or> fs p = Some Folder"

definition blocked :: "path \<Rightarrow> directory \<Rightarrow> bool" where   \<comment> \<open>some proper ancestor is a file\<close>
  "blocked p fs \<longleftrightarrow> list_ex (\<lambda>n. case fs (take n p) of Some (Blob _) \<Rightarrow> True | _ \<Rightarrow> False) [1..<length p]"

fun make_dirs :: "path \<Rightarrow> path \<Rightarrow> directory \<Rightarrow> unit result \<times> directory" where
  \<comment> \<open>\<open>mkdir(parents=True, exist_ok=True)\<close>, from the folder \<open>q\<close> down\<close>
  "make_dirs q [] fs = (Inr (), fs)"
| "make_dirs q (c # cs) fs =
     (case fs (q @ [c]) of
        None \<Rightarrow> make_dirs (q @ [c]) cs (fs(q @ [c] \<mapsto> Folder))
      | Some Folder \<Rightarrow> make_dirs (q @ [c]) cs fs
      | Some (Blob _) \<Rightarrow>
          (Inl (OtherError (if cs = [] then ''FileExistsError'' else ''NotADirectoryError'')), fs))"

definition write_file :: "path \<Rightarrow> bytes \<Rightarrow> directory \<Rightarrow> unit result \<times> directory" where   \<comment> \<open>\<open>write_bytes\<close>\<close>
  "write_file p data fs =
     (if is_folder p fs then (Inl (OtherError ''IsADirectoryError''), fs) else (Inr (), fs(p \<mapsto> Blob data)))"

definition replace_file :: "path \<Rightarrow> path \<Rightarrow> directory \<Rightarrow> unit result \<times> directory" where   \<comment> \<open>\<open>os.replace\<close>\<close>
  "replace_file tmp p fs =
     (if is_folder p fs then (Inl (OtherError ''IsADirectoryError''), fs)
      else (Inr (), fs(p := fs tmp, tmp := None)))"

definition read_file :: "path \<Rightarrow> directory \<Rightarrow> bytes result" where   \<comment> \<open>\<open>read_bytes\<close>\<close>
  "read_file p fs =
     (if is_folder p fs then Inl (OtherError ''IsADirectoryError'')
      else case fs p of
        Some (Blob d) \<Rightarrow> Inr d
      | _ \<Rightarrow> Inl (OtherError (if blocked p fs then ''NotADirectoryError'' else ''FileNotFoundError'')))"

fun split_slash_aux :: "string \<Rightarrow> string \<Rightarrow> string list" where
  "split_slash_aux acc [] = [rev acc]"
| "split_slash_aux acc (c # cs) =
     (if c = CHR ''/'' then rev acc # split_slash_aux [] cs else split_slash_aux (c # acc) cs)"

definition split_slash :: "string \<Rightarrow> string list" where "split_slash s = split_slash_aux [] s"

definition walk :: "path \<Rightarrow> string \<Rightarrow> path" where   \<comment> \<open>one component of a path that is resolved\<close>
  "walk p c = (if c = [] \<or> c = ''.'' then p else if c = ''..'' then butlast p else p @ [c])"

definition resolve_path :: "path \<Rightarrow> string \<Rightarrow> path" where   \<comment> \<open>\<open>(root / key).resolve()\<close>\<close>
  "resolve_path root_dir key =
     foldl walk (if take 1 key = ''/'' then [] else root_dir) (split_slash key)"

definition local_path :: "path \<Rightarrow> string \<Rightarrow> path result" where   \<comment> \<open>\<open>_path\<close>\<close>
  "local_path root_dir key =
     (let p = resolve_path root_dir key in
      if take (length root_dir) p \<noteq> root_dir
      then Inl (ValueError (''object key escapes storage root: '' @ py_repr key))
      else Inr p)"

definition tmp_of :: "path \<Rightarrow> path" where   \<comment> \<open>\<open>path.with_name(path.name + ".tmp")\<close>\<close>
  "tmp_of p = butlast p @ [last p @ ''.tmp'']"

definition local_write :: "path \<Rightarrow> bytes \<Rightarrow> directory \<Rightarrow> unit result \<times> directory" where
  "local_write p data fs =
     (case make_dirs [] (butlast p) fs of
        (Inl e, fs1) \<Rightarrow> (Inl e, fs1)
      | (Inr _, fs1) \<Rightarrow>
          if p = [] then (Inl (ValueError (''PosixPath('' @ py_repr ''/'' @ '') has an empty name'')), fs1)
          else (case write_file (tmp_of p) data fs1 of
                  (Inl e, fs2) \<Rightarrow> (Inl e, fs2)
                | (Inr _, fs2) \<Rightarrow> replace_file (tmp_of p) p fs2))"

definition local_put :: "path \<Rightarrow> string \<Rightarrow> bytes \<Rightarrow> directory \<Rightarrow> string result \<times> directory" where
  "local_put root_dir key data fs =
     (case local_path root_dir key of
        Inl e \<Rightarrow> (Inl e, fs)
      | Inr p \<Rightarrow>
          (case local_write p data fs of
             (Inl e, fs') \<Rightarrow> (Inl e, fs')
           | (Inr _, fs') \<Rightarrow> (Inr key, fs')))"

definition local_get :: "path \<Rightarrow> string \<Rightarrow> directory \<Rightarrow> bytes result" where
  "local_get root_dir key fs =
     bind_res (local_path root_dir key) (\<lambda>p.
       case read_file p fs of
         Inr d \<Rightarrow> Inr d
       | Inl e \<Rightarrow> Inl (if e = OtherError ''FileNotFoundError'' then KeyError key else e))"

section \<open>What a put does to the file system\<close>

fun on_the_way :: "path \<Rightarrow> path \<Rightarrow> path \<Rightarrow> bool" where   \<comment> \<open>what \<open>make_dirs q cs\<close> visits\<close>
  "on_the_way q [] y = False"
| "on_the_way q (c # cs) y = (y = q @ [c] \<or> on_the_way (q @ [c]) cs y)"

lemma on_the_way_iff: "on_the_way q cs y \<longleftrightarrow> (\<exists>n. 0 < n \<and> n \<le> length cs \<and> y = q @ take n cs)"
proof (induction q cs y rule: on_the_way.induct)
  case (2 q c cs y)
  show ?case
  proof
    assume "on_the_way q (c # cs) y"
    with 2 consider "y = q @ [c]" | n where "0 < n" "n \<le> length cs" "y = (q @ [c]) @ take n cs" by auto
    then show "\<exists>n. 0 < n \<and> n \<le> length (c # cs) \<and> y = q @ take n (c # cs)"
    proof cases
      case 1
      then show ?thesis by (intro exI [of _ 1]) simp
    next
      case (2 n)
      then show ?thesis by (intro exI [of _ "Suc n"]) simp
    qed
  next
    assume "\<exists>n. 0 < n \<and> n \<le> length (c # cs) \<and> y = q @ take n (c # cs)"
    then obtain m where m: "m \<le> length cs" "y = (q @ [c]) @ take m cs"
      by (metis Suc_le_mono append_Cons append_Nil append_assoc gr0_implies_Suc length_Cons take_Suc_Cons)
    with 2 show "on_the_way q (c # cs) y" by (cases "m = 0") auto
  qed
qed simp

lemma on_the_way_butlast:
  assumes "p \<noteq> []"
  shows "on_the_way [] (butlast p) y \<longleftrightarrow> (\<exists>n. 0 < n \<and> n < length p \<and> y = take n p)"
  using assms by (cases p rule: rev_cases) (auto simp: on_the_way_iff less_Suc_eq_le)

lemma make_dirs_adds:
  "make_dirs q cs fs = (x, fs') \<Longrightarrow> fs' y \<noteq> fs y \<Longrightarrow> fs y = None \<and> fs' y = Some Folder \<and> on_the_way q cs y"
proof (induction q cs fs rule: make_dirs.induct)
  case (2 q c cs fs)
  show ?case
  proof (cases "fs (q @ [c])")
    case None
    with 2(3) have r: "make_dirs (q @ [c]) cs (fs(q @ [c] \<mapsto> Folder)) = (x, fs')" by simp
    show ?thesis
    proof (cases "fs' y = (fs(q @ [c] \<mapsto> Folder)) y")
      case True
      with 2(4) None show ?thesis by (cases "y = q @ [c]") simp_all
    next
      case False
      from 2(1) [OF None r False] show ?thesis by (cases "y = q @ [c]") simp_all
    qed
  next
    case (Some a)
    with 2(3,4) have a: "a = Folder" by (cases a) auto
    with 2(3) Some have "make_dirs (q @ [c]) cs fs = (x, fs')" by simp
    from 2(2) [OF Some a this 2(4)] show ?thesis by simp
  qed
qed simp

lemma make_dirs_ok:
  "(\<And>y b. on_the_way q cs y \<Longrightarrow> fs y \<noteq> Some (Blob b)) \<Longrightarrow>
     make_dirs q cs fs = (Inr (), \<lambda>y. if on_the_way q cs y then Some Folder else fs y)"
proof (induction cs arbitrary: q fs)
  case (Cons c cs)
  let ?fs = "fs(q @ [c] \<mapsto> Folder)"
  have first: "fs (q @ [c]) \<noteq> Some (Blob b)" for b using Cons.prems by simp
  have rest: "?fs y \<noteq> Some (Blob b)" if "on_the_way (q @ [c]) cs y" for y b using Cons.prems that by simp
  have step: "make_dirs q (c # cs) fs = make_dirs (q @ [c]) cs ?fs"
  proof (cases "fs (q @ [c])")
    case (Some a)
    with first have "a = Folder" by (cases a) auto
    with Some show ?thesis by (simp add: fun_upd_idem)
  qed simp
  have "(\<lambda>y. if on_the_way (q @ [c]) cs y then Some Folder else ?fs y)
      = (\<lambda>y. if on_the_way q (c # cs) y then Some Folder else fs y)" by (simp add: fun_eq_iff)
  with step Cons.IH [of "q @ [c]" ?fs, OF rest] show ?case by (simp only:)
qed simp

lemma blocked_iff: "blocked p fs \<longleftrightarrow> (\<exists>n b. 0 < n \<and> n < length p \<and> fs (take n p) = Some (Blob b))"
proof -
  have "(case x of Some (Blob _) \<Rightarrow> True | _ \<Rightarrow> False) \<longleftrightarrow> (\<exists>b. x = Some (Blob b))" for x
    by (auto split: option.split entry.split)
  then show ?thesis by (auto simp: blocked_def list_ex_iff Suc_le_eq)
qed

lemma make_dirs_blocked: "on_the_way q cs y \<Longrightarrow> fs y = Some (Blob b) \<Longrightarrow> \<exists>e. fst (make_dirs q cs fs) = Inl (OtherError e)"
proof (induction q cs fs rule: make_dirs.induct)
  case (2 q c cs fs)
  show ?case
  proof (cases "y = q @ [c]")
    case False
    with 2(3) have y: "on_the_way (q @ [c]) cs y" by simp
    have "(fs(q @ [c] \<mapsto> Folder)) y = Some (Blob b)" using False 2(4) by simp
    with 2(1) [OF _ y] 2(2) [OF _ _ y 2(4)] show ?thesis by (auto simp del: fun_upd_apply split: option.split entry.split)
  qed (use 2(4) in simp)
qed simp

definition has_room :: "path \<Rightarrow> directory \<Rightarrow> bool" where
  \<comment> \<open>no file on the way, no folder in the place\<close>
  "has_room p fs \<longleftrightarrow> p \<noteq> [] \<and> \<not> blocked p fs \<and> fs p \<noteq> Some Folder \<and> fs (tmp_of p) \<noteq> Some Folder"

lemma tmp_of_facts [simp]: "p \<noteq> [] \<Longrightarrow> length (tmp_of p) = length p" "p \<noteq> [] \<Longrightarrow> tmp_of p \<noteq> p" "tmp_of p \<noteq> []"
proof -
  show "tmp_of p \<noteq> p" if "p \<noteq> []"
  proof
    assume "tmp_of p = p"
    then have "last (tmp_of p) = last p" by simp
    then show False by (simp add: tmp_of_def)
  qed
qed (simp_all add: tmp_of_def)

lemma local_write_ok:
  assumes "has_room p fs"
  shows "local_write p d fs = (Inr (), \<lambda>y. if y = p then Some (Blob d) else if y = tmp_of p then None
    else if \<exists>n. 0 < n \<and> n < length p \<and> y = take n p then Some Folder else fs y)"
proof -
  from assms have p: "p \<noteq> []" "\<not> blocked p fs" "fs p \<noteq> Some Folder" "fs (tmp_of p) \<noteq> Some Folder"
    by (simp_all add: has_room_def)
  let ?way = "on_the_way [] (butlast p)"
  have "fs y \<noteq> Some (Blob b)" if "?way y" for y b
    using that p(2) by (auto simp: on_the_way_butlast [OF p(1)] blocked_iff)
  from make_dirs_ok [OF this]
  have m: "make_dirs [] (butlast p) fs = (Inr (), \<lambda>y. if ?way y then Some Folder else fs y)" .
  have len: "length y < length p" if "?way y" for y using that by (auto simp: on_the_way_butlast [OF p(1)])
  have off: "\<not> ?way p" "\<not> ?way (tmp_of p)" using len [of p] len [of "tmp_of p"] p(1) by auto
  have "local_write p d fs = (Inr (), (\<lambda>y. if ?way y then Some Folder else fs y)
      (tmp_of p \<mapsto> Blob d, p \<mapsto> Blob d, tmp_of p := None))"
    using p off by (simp add: local_write_def m write_file_def replace_file_def is_folder_def)
  then show ?thesis
    using p(1) off by (simp add: fun_eq_iff on_the_way_butlast [OF p(1)])
qed

text \<open>Whatever the key and the file system: what a put may touch.\<close>

lemma local_put_touches:
  assumes "local_put r k d fs = (x, fs')" and "fs' y \<noteq> fs y"
  obtains p where "local_path r k = Inr p"
    and "y = p \<and> x = Inr k \<and> fs' y = Some (Blob d) \<or> y = tmp_of p \<and> p \<noteq> []
      \<or> fs y = None \<and> fs' y = Some Folder \<and> (\<exists>n. 0 < n \<and> n < length p \<and> y = take n p)"
proof -
  from assms obtain p where p: "local_path r k = Inr p" by (auto simp: local_put_def split: sum.splits)
  obtain z fs1 where m: "make_dirs [] (butlast p) fs = (z, fs1)" by fastforce
  have dirs: "fs y = None \<and> fs1 y = Some Folder \<and> (\<exists>n. 0 < n \<and> n < length p \<and> y = take n p)" if ch: "fs1 y \<noteq> fs y"
  proof -
    from make_dirs_adds [OF m ch] show ?thesis
      by (cases "p = []") (simp_all add: on_the_way_butlast)
  qed
  show thesis
  proof (cases "y = tmp_of p \<and> p \<noteq> [] \<or> y = p \<and> x = Inr k \<and> fs' y = Some (Blob d)")
    case False
    then have "fs' y = fs1 y"
      using assms(1) p m
      by (auto simp: local_put_def local_write_def write_file_def replace_file_def split: sum.splits if_splits)
    with dirs assms(2) p that show ?thesis by metis
  qed (use p that in blast)
qed

section \<open>Plain keys\<close>

text \<open>Plain keys: no empty, \<open>.\<close>, \<open>..\<close> component and no temporary name.\<close>

definition plain_component :: "string \<Rightarrow> bool" where
  "plain_component c \<longleftrightarrow> c \<noteq> [] \<and> c \<noteq> ''.'' \<and> c \<noteq> ''..'' \<and> drop (length c - 4) c \<noteq> ''.tmp''"

definition plain_keys :: "string set" where
  "plain_keys = {k. list_all plain_component (split_slash k)}"

lemma split_slash_join:
  "join ''/'' (split_slash_aux acc s) = rev acc @ s"
proof (induction acc s rule: split_slash_aux.induct)
  case (2 acc c cs)
  have ne: "split_slash_aux a t \<noteq> []" for a t by (induction a t rule: split_slash_aux.induct) auto
  show ?case
  proof (cases "c = CHR ''/''")
    case True
    obtain x xs where x: "split_slash_aux [] cs = x # xs" using ne by (cases "split_slash_aux [] cs") auto
    from 2(1) [OF True] True show ?thesis by (simp add: x)
  qed (use 2 in simp)
qed simp

lemma split_slash_inj: "split_slash s = split_slash t \<Longrightarrow> s = t"
  by (metis append_Nil rev.simps(1) split_slash_def split_slash_join)

lemma walk_component: "plain_component c \<Longrightarrow> walk p c = p @ [c]"
  by (simp add: plain_component_def walk_def)

lemma walk_plain: "list_all plain_component cs \<Longrightarrow> foldl walk p cs = p @ cs"
  by (induction cs arbitrary: p) (simp_all add: walk_component)

lemma not_plain [simp]: "\<not> plain_component []" "\<not> plain_component (x @ ''.tmp'')"
  by (simp_all add: plain_component_def)

lemma plain_not_rooted:
  assumes "k \<in> plain_keys"
  shows "take 1 k \<noteq> ''/''"
  using assms by (cases k) (auto simp: plain_keys_def split_slash_def)

lemma plain_path: "k \<in> plain_keys \<Longrightarrow> local_path r k = Inr (r @ split_slash k)"
  using plain_not_rooted [of k]
  by (simp add: local_path_def resolve_path_def walk_plain plain_keys_def)

lemma split_slash_ne [simp]: "split_slash s \<noteq> []"
proof -
  have "split_slash_aux a t \<noteq> []" for a t by (induction a t rule: split_slash_aux.induct) auto
  then show ?thesis by (simp add: split_slash_def)
qed

definition apart_keys :: "string set \<Rightarrow> string set" where
  \<comment> \<open>the plain keys of \<open>K\<close> that name no folder above another key of \<open>K\<close> and lie below none\<close>
  "apart_keys K = {k \<in> K \<inter> plain_keys. \<forall>j\<in>K. \<forall>n. take n (split_slash k) = split_slash j \<or> take n (split_slash j) = split_slash k
     \<longrightarrow> j = k}"

lemma apart_plain: "k \<in> apart_keys K \<Longrightarrow> k \<in> plain_keys \<and> k \<in> K"
  by (simp add: apart_keys_def)

lemma apart_above:
  assumes "k \<in> apart_keys K" "j \<in> apart_keys K" "take n (r @ split_slash k) = r @ split_slash j"
  shows "j = k \<and> length (r @ split_slash k) \<le> n"
proof -
  have len: "length r + length (split_slash j) = min n (length r + length (split_slash k))"
    using arg_cong [OF assms(3), of length] by simp
  then have "take (n - length r) (split_slash k) = split_slash j"
    using assms(3) by (cases "n < length r") simp_all
  with assms(1,2) have "j = k" by (auto simp: apart_keys_def)
  with len show ?thesis by simp
qed

lemma plain_room_ne [simp]: "r @ split_slash k \<noteq> []"
  by simp

lemma plain_tmp:
  assumes "k \<in> plain_keys" "j \<in> plain_keys" "take n (r @ split_slash k) = tmp_of (r @ split_slash j)"
  shows False
proof -
  have l: "length (tmp_of (r @ split_slash j)) = length r + length (split_slash j)" by simp
  have "0 < length (split_slash j)" by simp
  with l assms(3) have n: "length r < n" by (metis length_take min.strict_boundedE nat_less_le less_add_same_cancel1)
  have "last (take n (r @ split_slash k)) \<in> set (split_slash k)"
    using n last_in_set [of "take (n - length r) (split_slash k)"] in_set_takeD by fastforce
  moreover have "last (take n (r @ split_slash k)) = last (r @ split_slash j) @ ''.tmp''"
    unfolding assms(3) by (simp add: tmp_of_def)
  ultimately have "plain_component (last (r @ split_slash j) @ ''.tmp'')"
    using assms(1) by (metis (mono_tags, lifting) plain_keys_def mem_Collect_eq list_all_iff)
  then show False by simp
qed

lemma plain_put:
  assumes "k \<in> plain_keys" "has_room (r @ split_slash k) fs"
  shows "local_put r k d fs = (Inr k, \<lambda>y. if y = r @ split_slash k then Some (Blob d)
    else if y = tmp_of (r @ split_slash k) then None
    else if \<exists>n. 0 < n \<and> n < length (r @ split_slash k) \<and> y = take n (r @ split_slash k) then Some Folder else fs y)"
  by (simp add: local_put_def plain_path [OF assms(1)] local_write_ok [OF assms(2)])

lemma plain_get:
  assumes "k \<in> plain_keys" "has_room (r @ split_slash k) fs"
  shows "local_get r k fs = (case fs (r @ split_slash k) of Some (Blob d) \<Rightarrow> Inr d | _ \<Rightarrow> Inl (KeyError k))"
  using assms(2)
  by (auto simp: local_get_def plain_path [OF assms(1)] read_file_def is_folder_def has_room_def
      split: option.split entry.split)

text \<open>A put of a plain key succeeds exactly when there is room for it.\<close>

lemma plain_put_iff:
  assumes "k \<in> plain_keys"
  shows "fst (local_put r k d fs) = Inr k \<longleftrightarrow> has_room (r @ split_slash k) fs"
proof
  let ?p = "r @ split_slash k"
  assume ok: "fst (local_put r k d fs) = Inr k"
  obtain z fs1 where m: "make_dirs [] (butlast ?p) fs = (z, fs1)" by fastforce
  have ne: "?p \<noteq> []" by simp
  have z: "z = Inr ()" using ok m by (cases z) (auto simp: local_put_def plain_path [OF assms] local_write_def)
  have "\<not> blocked ?p fs"
  proof
    assume "blocked ?p fs"
    then obtain y b where "on_the_way [] (butlast ?p) y" "fs y = Some (Blob b)"
      unfolding blocked_iff on_the_way_butlast [OF ne] by blast
    from make_dirs_blocked [of "[]" "butlast ?p" y fs, OF this] m z show False by simp
  qed
  moreover have "fs y = Some Folder \<Longrightarrow> fs1 y = Some Folder" for y
    using make_dirs_adds [OF m, of y] by fastforce
  moreover have "\<not> is_folder ?p fs1 \<and> \<not> is_folder (tmp_of ?p) fs1"
    using ok m z ne
    by (auto simp: local_put_def plain_path [OF assms] local_write_def write_file_def replace_file_def is_folder_def
        split: if_splits)
  ultimately show "has_room ?p fs" using ne by (auto simp: has_room_def is_folder_def)
qed (simp add: plain_put [OF assms])

interpretation local_directory: object_store "apart_keys K" "\<lambda>fs. \<forall>k\<in>apart_keys K. has_room (r @ split_slash k) fs"
  "local_put r" "local_get r" for r K
proof
  fix fs :: directory and k d
  assume room: "\<forall>k\<in>apart_keys K. has_room (r @ split_slash k) fs" and k: "k \<in> apart_keys K"
  note kp = apart_plain [OF k, THEN conjunct1]
  note put = plain_put [OF kp room [rule_format, OF k], of d]
  show "fst (local_put r k d fs) = Inr k" by (simp add: put)
  let ?q = "\<lambda>j. r @ split_slash j"
  have keep: "snd (local_put r k d fs) (?q j) = (if j = k then Some (Blob d) else fs (?q j))" if "j \<in> apart_keys K" for j
  proof -
    have "split_slash j = split_slash k \<longleftrightarrow> j = k" using split_slash_inj [of j k] by auto
    moreover have "?q j \<noteq> tmp_of (?q k)"
      using plain_tmp [of j k "length (?q j)" r] apart_plain [OF that] kp by auto
    moreover have "j = k" if "?q j = take n (?q k)" "n < length (?q k)" for n
      using apart_above [OF k \<open>j \<in> apart_keys K\<close>, of n r] that by simp
    moreover have "?q k \<noteq> take n (?q k)" if "n < length (?q k)" for n
    proof
      assume "?q k = take n (?q k)"
      then have "length (?q k) = length (take n (?q k))" by (rule arg_cong)
      with that show False by simp
    qed
    ultimately show ?thesis by (auto simp: put)
  qed
  show "\<forall>j\<in>apart_keys K. has_room (?q j) (snd (local_put r k d fs))"
  proof
    fix j assume j: "j \<in> apart_keys K"
    have old: "has_room (?q j) fs" using room j by blast
    have "\<not> blocked (?q j) (snd (local_put r k d fs))"
    proof
      assume "blocked (?q j) (snd (local_put r k d fs))"
      then obtain n b where n: "0 < n" "n < length (?q j)" "snd (local_put r k d fs) (take n (?q j)) = Some (Blob b)"
        by (auto simp: blocked_iff)
      from old n(1,2) have "fs (take n (?q j)) \<noteq> Some (Blob b)" by (auto simp: has_room_def blocked_iff)
      with n(3) have "take n (?q j) = ?q k" by (auto simp: put split: if_splits)
      with apart_above [OF j k, of n r] n(2) show False by auto
    qed
    moreover have "snd (local_put r k d fs) (?q j) \<noteq> Some Folder" using keep [OF j] old by (auto simp: has_room_def)
    moreover have "snd (local_put r k d fs) (tmp_of (?q j)) \<noteq> Some Folder"
      using plain_tmp [of k j _ r] kp apart_plain [OF j] old
      by (auto simp: put has_room_def) metis+
    ultimately show "has_room (?q j) (snd (local_put r k d fs))" by (simp add: has_room_def)
  qed
  then have room': "has_room (?q j) (snd (local_put r k d fs))" if "j \<in> apart_keys K" for j using that by blast
  show "local_get r j (snd (local_put r k d fs)) = (if j = k then Inr d else local_get r j fs)"
    if "j \<in> apart_keys K" for j
    using plain_get [OF apart_plain [OF that, THEN conjunct1]] room' [OF that] room that keep [OF that]
    by (auto split: option.split entry.split)
  show "e = KeyError k" if "local_get r k fs = Inl e" for e
    using that plain_get [OF kp room [rule_format, OF k]] by (auto split: option.splits entry.splits)
qed

fun local_put_all :: "path \<Rightarrow> (string \<times> bytes) list \<Rightarrow> directory \<Rightarrow> string result list \<times> directory" where
  \<comment> \<open>one put after the other, each with its reply\<close>
  "local_put_all r [] fs = ([], fs)"
| "local_put_all r ((k, d) # ps) fs =
     (case local_put r k d fs of (x, fs1) \<Rightarrow> case local_put_all r ps fs1 of (xs, fs2) \<Rightarrow> (x # xs, fs2))"

lemma local_put_all_eq: "local_put_all r ps fs = local_directory.put_all r ps fs"
  by (induction ps arbitrary: fs) (auto split: prod.split)

section \<open>Every key\<close>

lemma local_path_confined: "local_path r k = Inr p \<Longrightarrow> \<exists>q. p = r @ q"
  by (auto simp: local_path_def Let_def split: if_splits) (metis append_take_drop_id)

text \<open>A put touches the root, what is below it and missing folders on the way to it, with one exception:
a key that resolves to the root itself leaves its temporary file beside the root.\<close>

lemma local_put_confined:
  assumes "local_put r k d fs = (x, fs')" "fs' y \<noteq> fs y"
  shows "(\<exists>q. y = r @ q) \<or> fs y = None \<and> fs' y = Some Folder \<and> (\<exists>n. y = take n r)
    \<or> resolve_path r k = r \<and> y = tmp_of r"
proof -
  from assms obtain p where p: "local_path r k = Inr p" and
    y: "y = p \<and> x = Inr k \<and> fs' y = Some (Blob d) \<or> y = tmp_of p \<and> p \<noteq> []
      \<or> fs y = None \<and> fs' y = Some Folder \<and> (\<exists>n. 0 < n \<and> n < length p \<and> y = take n p)"
    by (rule local_put_touches)
  from local_path_confined [OF p] obtain q where q: "p = r @ q" by blast
  have pr: "p = resolve_path r k" using p by (auto simp: local_path_def Let_def split: if_splits)
  from y show ?thesis
  proof (elim disjE conjE exE)
    assume "y = tmp_of p" "p \<noteq> []"
    with q pr show ?thesis by (cases "q = []") (auto simp: tmp_of_def butlast_append)
  next
    fix n assume "fs y = None" "fs' y = Some Folder" "y = take n p"
    with q show ?thesis by (cases "n \<le> length r") (auto intro: exI [of _ n])
  qed (use q in blast)
qed

text \<open>The exception exists: the key \<open>.\<close> writes outside the root.\<close>

lemma dot_key_escapes:
  "local_put [''data''] ''.'' d [[''data''] \<mapsto> Folder]
     = (Inl (OtherError ''IsADirectoryError''), [[''data''] \<mapsto> Folder, [''data.tmp''] \<mapsto> Blob d])"
  by (simp add: local_put_def local_path_def resolve_path_def split_slash_def walk_def local_write_def write_file_def
      replace_file_def is_folder_def tmp_of_def)

text \<open>A put is all or nothing: files other than its own and its temporary one stay, and after an error its
own file is what it was.\<close>

lemma local_put_atomic:
  assumes "local_put r k d fs = (x, fs')" "fs y = Some (Blob b)"
  shows "fs' y = Some (Blob b) \<or> local_path r k = Inr y \<and> x = Inr k \<and> fs' y = Some (Blob d)
    \<or> (\<exists>p. local_path r k = Inr p \<and> y = tmp_of p)"
proof (cases "fs' y = fs y")
  case False
  from local_put_touches [OF assms(1) False] assms(2) show ?thesis by (metis option.distinct(1))
qed (use assms(2) in simp)

text \<open>Inside the root, different keys may name one object: a \<open>face_key\<close> of a request body can reach
another face's objects.\<close>

lemma keys_alias: "local_get r ''photos/../faces/a/crop'' fs = Inr d \<longleftrightarrow> local_get r ''faces/a/crop'' fs = Inr d"
  by (simp add: local_get_def local_path_def resolve_path_def split_slash_def walk_def Let_def butlast_append
      split: sum.split)

text \<open>And a key below another cannot be put.\<close>

lemma key_below_file:
  "fst (local_put [''data''] ''a/b'' d (snd (local_put [''data''] ''a'' d' Map.empty))) = Inl (OtherError ''FileExistsError'')"
  by (simp add: local_put_def local_path_def resolve_path_def split_slash_def walk_def local_write_def write_file_def
      replace_file_def is_folder_def tmp_of_def)

section \<open>An S3 bucket\<close>

datatype s3_failure =
    Client_Error "string option"   \<comment> \<open>\<open>ClientError\<close>, with \<open>response.get("Error", {}).get("Code")\<close>\<close>
  | Transport_Error py_exn         \<comment> \<open>anything else the client raises\<close>

record 'b s3_client =   \<comment> \<open>aioboto3, on a bucket of type \<open>'b\<close>\<close>
  s3_put_object :: "string \<Rightarrow> bytes \<Rightarrow> 'b \<Rightarrow> s3_failure option \<times> 'b"
  s3_get_object :: "string \<Rightarrow> 'b \<Rightarrow> s3_failure + bytes"   \<comment> \<open>with the body read to its end\<close>

record 'b s3_storage =
  so_bucket :: 'b
  so_client :: bool       \<comment> \<open>\<open>_client\<close> is not \<open>None\<close>\<close>
  so_opened :: nat        \<comment> \<open>clients entered into \<open>_stack\<close> so far\<close>
  so_closed :: nat        \<comment> \<open>clients the stack has closed\<close>

definition new_s3_storage :: "'b \<Rightarrow> 'b s3_storage" where
  "new_s3_storage b = \<lparr>so_bucket = b, so_client = False, so_opened = 0, so_closed = 0\<rparr>"

definition s3_connect :: "'b s3_storage \<Rightarrow> 'b s3_storage" where   \<comment> \<open>\<open>_s3\<close>\<close>
  "s3_connect st = (if so_client st then st else st\<lparr>so_client := True, so_opened := Suc (so_opened st)\<rparr>)"

fun s3_exn :: "s3_failure \<Rightarrow> py_exn" where
  "s3_exn (Client_Error x) = OtherError ''ClientError''"
| "s3_exn (Transport_Error e) = e"

fun s3_missing :: "s3_failure \<Rightarrow> bool" where
  "s3_missing (Client_Error (Some x)) = (x = ''NoSuchKey'' \<or> x = ''404'')"
| "s3_missing _ = False"

definition s3_put :: "'b s3_client \<Rightarrow> string \<Rightarrow> bytes \<Rightarrow> 'b s3_storage \<Rightarrow> string result \<times> 'b s3_storage" where
  "s3_put c key data st0 =
     (let st = s3_connect st0 in
      case s3_put_object c key data (so_bucket st) of
        (Some f, b) \<Rightarrow> (Inl (s3_exn f), st\<lparr>so_bucket := b\<rparr>)
      | (None, b) \<Rightarrow> (Inr key, st\<lparr>so_bucket := b\<rparr>))"

definition s3_get :: "'b s3_client \<Rightarrow> string \<Rightarrow> 'b s3_storage \<Rightarrow> bytes result \<times> 'b s3_storage" where
  "s3_get c key st0 =
     (let st = s3_connect st0 in
      (case s3_get_object c key (so_bucket st) of
         Inr data \<Rightarrow> Inr data
       | Inl f \<Rightarrow> if s3_missing f then Inl (KeyError key) else Inl (s3_exn f), st))"

definition s3_aclose :: "'b s3_storage \<Rightarrow> 'b s3_storage" where
  "s3_aclose st = st\<lparr>so_client := False, so_closed := so_opened st\<rparr>"

definition s3_fetch :: "'b s3_client \<Rightarrow> string \<Rightarrow> 'b s3_storage \<Rightarrow> bytes result" where
  "s3_fetch c key st = fst (s3_get c key st)"

text \<open>What S3 documents: a put that is acknowledged is read back, other objects stay, and the only
failure of a read is the missing key's code.\<close>

definition keeps_objects :: "'b s3_client \<Rightarrow> bool" where
  "keeps_objects c \<longleftrightarrow>
     (\<forall>k d b. fst (s3_put_object c k d b) = None)
     \<and> (\<forall>k d b j. s3_get_object c j (snd (s3_put_object c k d b))
                  = (if j = k then Inr d else s3_get_object c j b))
     \<and> (\<forall>k b f. s3_get_object c k b = Inl f \<longrightarrow> s3_missing f)"

lemma s3_connect_bucket [simp]: "so_bucket (s3_connect st) = so_bucket st"
  by (simp add: s3_connect_def)

lemma s3_object_store:
  assumes "keeps_objects c"
  shows "object_store UNIV (\<lambda>_. True) (s3_put c) (s3_fetch c)"
proof
  have put: "fst (s3_put_object c k d b) = None" for k d b
    using assms by (simp add: keeps_objects_def)
  have effect: "fst (s3_put c k d st) = Inr k
      \<and> so_bucket (snd (s3_put c k d st)) = snd (s3_put_object c k d (so_bucket st))" for k d st
    using put [of k d "so_bucket st"] by (auto simp: s3_put_def Let_def split: prod.split option.split)
  then show "fst (s3_put c k d s) = Inr k" for k d s by blast
  show "s3_fetch c j (snd (s3_put c k d s)) = (if j = k then Inr d else s3_fetch c j s)" for k j d s
    using assms by (simp add: s3_fetch_def s3_get_def Let_def effect keeps_objects_def)
  show "e = KeyError k" if "s3_fetch c k s = Inl e" for k s e
    using that assms
    by (auto simp: s3_fetch_def s3_get_def Let_def keeps_objects_def split: sum.splits if_splits)
qed

text \<open>One client serves any number of calls, and none is left open after \<open>aclose\<close>; a later call opens
a new one.\<close>

inductive s3_step :: "'b s3_client \<Rightarrow> 'b s3_storage \<Rightarrow> 'b s3_storage \<Rightarrow> bool" for c where
  "s3_step c st (snd (s3_put c k d st))"
| "s3_step c st (snd (s3_get c k st))"
| "s3_step c st (s3_aclose st)"

definition s3_clients_inv :: "'b s3_storage \<Rightarrow> bool" where
  "s3_clients_inv st \<longleftrightarrow> so_opened st = so_closed st + (if so_client st then 1 else 0)"

lemma s3_clients_kept:
  "s3_clients_inv st \<Longrightarrow> s3_clients_inv (snd (s3_put c k d st))"
  "s3_clients_inv st \<Longrightarrow> s3_clients_inv (snd (s3_get c k st))"
  "s3_clients_inv (s3_aclose st)"
proof -
  have connect: "s3_clients_inv (s3_connect st)" if "s3_clients_inv st"
    using that by (simp add: s3_clients_inv_def s3_connect_def)
  have bucket: "s3_clients_inv (st\<lparr>so_bucket := b\<rparr>) = s3_clients_inv st" for st :: "'a s3_storage" and b
    by (simp add: s3_clients_inv_def)
  show "s3_clients_inv st \<Longrightarrow> s3_clients_inv (snd (s3_put c k d st))"
    using connect by (auto simp: s3_put_def Let_def bucket split: prod.split option.split)
  show "s3_clients_inv st \<Longrightarrow> s3_clients_inv (snd (s3_get c k st))"
    using connect by (simp add: s3_get_def Let_def)
qed (simp add: s3_clients_inv_def s3_aclose_def)

lemma s3_clients:
  assumes "(s3_step c)\<^sup>*\<^sup>* (new_s3_storage b) st"
  shows "s3_clients_inv st"
  using assms
proof (induction rule: rtranclp_induct)
  case base
  show ?case by (simp add: s3_clients_inv_def new_s3_storage_def)
next
  case (step y z)
  then show ?case by (auto elim!: s3_step.cases intro: s3_clients_kept)
qed

definition map_bucket :: "(string \<rightharpoonup> bytes) s3_client" where   \<comment> \<open>a bucket as a map\<close>
  "map_bucket =
     \<lparr>s3_put_object = (\<lambda>k d b. (None, b(k \<mapsto> d))),
      s3_get_object = (\<lambda>k b. case b k of None \<Rightarrow> Inl (Client_Error (Some ''NoSuchKey'')) | Some d \<Rightarrow> Inr d)\<rparr>"

lemma map_bucket_keeps [simp]: "keeps_objects map_bucket"
  by (auto simp: keeps_objects_def map_bucket_def split: option.splits)

end
