(* ===== verification/Throttle.thy ===== *)
theory Throttle
  imports World
begin

text \<open>
  Backpressure (\<open>connectors/throttle.py\<close>): every call to the image generator goes through an
  \<open>asyncio.Semaphore\<close>. The semaphore of the standard library is modelled with its queue: a caller
  enters when the value is positive and nobody waits, otherwise it waits; a finished call wakes the
  first waiter. \<open>throttle_step\<close> is the relation over any number of concurrent callers.
\<close>

record throttle =
  tr_value :: int
  tr_waiting :: "nat list"     \<comment> \<open>callers in the order they came\<close>
  tr_active :: "nat list"      \<comment> \<open>callers inside \<open>inner.generate\<close>\<close>
  tr_done :: "nat list"

definition new_throttle :: "int \<Rightarrow> throttle result" where
  "new_throttle max_concurrent =
     (if max_concurrent < 0 then Inl (ValueError ''Semaphore initial value must be >= 0'')
      else Inr \<lparr>tr_value = max_concurrent, tr_waiting = [], tr_active = [], tr_done = []\<rparr>)"

definition enter :: "nat \<Rightarrow> throttle \<Rightarrow> throttle" where   \<comment> \<open>\<open>async with self._sem\<close>\<close>
  "enter c t =
     (if 0 < tr_value t \<and> tr_waiting t = []
      then t\<lparr>tr_value := tr_value t - 1, tr_active := tr_active t @ [c]\<rparr>
      else t\<lparr>tr_waiting := tr_waiting t @ [c]\<rparr>)"

definition wake :: "throttle \<Rightarrow> throttle" where
  "wake t =
     (case tr_waiting t of
        [] \<Rightarrow> t\<lparr>tr_value := tr_value t + 1\<rparr>
      | c # rest \<Rightarrow> t\<lparr>tr_waiting := rest, tr_active := tr_active t @ [c]\<rparr>)"

definition leave_throttle :: "nat \<Rightarrow> throttle \<Rightarrow> throttle" where
  \<comment> \<open>the call returned, raised, or was cancelled inside\<close>
  "leave_throttle c t = wake (t\<lparr>tr_active := remove1 c (tr_active t), tr_done := tr_done t @ [c]\<rparr>)"

definition give_up :: "nat \<Rightarrow> throttle \<Rightarrow> throttle" where   \<comment> \<open>cancelled while waiting\<close>
  "give_up c t = t\<lparr>tr_waiting := remove1 c (tr_waiting t)\<rparr>"

inductive throttle_step :: "throttle \<Rightarrow> throttle \<Rightarrow> bool" where
  step_enter: "throttle_step t (enter c t)"
| step_leave: "c \<in> set (tr_active t) \<Longrightarrow> throttle_step t (leave_throttle c t)"
| step_give_up: "c \<in> set (tr_waiting t) \<Longrightarrow> throttle_step t (give_up c t)"

definition throttle_inv :: "int \<Rightarrow> throttle \<Rightarrow> bool" where
  \<comment> \<open>every slot is free or taken, and nobody waits while one is free\<close>
  "throttle_inv m t \<longleftrightarrow>
     0 \<le> tr_value t \<and> tr_value t + int (length (tr_active t)) = m \<and> (tr_waiting t \<noteq> [] \<longrightarrow> tr_value t = 0)"

lemma length_remove1_in: "c \<in> set xs \<Longrightarrow> int (length (remove1 c xs)) = int (length xs) - 1"
  by (induction xs) auto

lemma throttle_step_inv: "throttle_step t t' \<Longrightarrow> throttle_inv m t \<Longrightarrow> throttle_inv m t'"
proof (induction rule: throttle_step.induct)
  case (step_enter t c)
  then show ?case by (auto simp: throttle_inv_def enter_def)
next
  case (step_leave c t)
  then show ?case
    by (cases "tr_waiting t") (auto simp: throttle_inv_def leave_throttle_def wake_def length_remove1_in)
next
  case (step_give_up c t)
  then have "tr_waiting t \<noteq> []" by auto
  with step_give_up show ?case by (simp add: throttle_inv_def give_up_def)
qed

lemma throttle_reachable:
  assumes "throttle_step\<^sup>*\<^sup>* t0 t" "new_throttle m = Inr t0"
  shows "throttle_inv m t"
proof -
  have "throttle_inv m t0" using assms(2) by (auto simp: new_throttle_def throttle_inv_def split: if_splits)
  with assms(1) show ?thesis by (induction rule: rtranclp_induct) (auto intro: throttle_step_inv)
qed

text \<open>First come, first served: the caller at position \<open>n\<close> of the queue is inside after \<open>n + 1\<close>
calls have left, whatever callers come in the meantime.\<close>

fun leave_all :: "nat list \<Rightarrow> throttle \<Rightarrow> throttle" where
  "leave_all [] t = t"
| "leave_all (c # cs) t = leave_all cs (leave_throttle c t)"

lemma leave_all_waiting: "tr_waiting (leave_all cs t) = drop (length cs) (tr_waiting t)"
proof (induction cs arbitrary: t)
  case (Cons c cs)
  then show ?case by (cases "tr_waiting t") (simp_all add: leave_throttle_def wake_def)
qed simp

lemma leave_admits_first:
  "tr_waiting t = c # rest \<Longrightarrow> tr_active (leave_throttle d t) = remove1 d (tr_active t) @ [c]
     \<and> tr_waiting (leave_throttle d t) = rest"
  by (simp add: leave_throttle_def wake_def)

lemma queue_served:
  assumes "n < length (tr_waiting t)" "length cs = n"
  shows "tr_waiting t ! n \<in> set (tr_active (leave_throttle d (leave_all cs t)))"
proof -
  obtain rest where "tr_waiting (leave_all cs t) = tr_waiting t ! n # rest"
    using assms Cons_nth_drop_Suc [of n "tr_waiting t"] by (simp add: leave_all_waiting) metis
  from leave_admits_first [OF this] show ?thesis by simp
qed

text \<open>A limit of zero, which the settings admit, lets no call through.\<close>

lemma zero_limit_starves:
  assumes "throttle_step\<^sup>*\<^sup>* t0 t" "new_throttle 0 = Inr t0"
  shows "tr_active t = []"
proof -
  from throttle_reachable [OF assms] have "int (length (tr_active t)) \<le> 0" unfolding throttle_inv_def by linarith
  then show ?thesis by simp
qed

end
