(* ===== verification/App.thy ===== *)
theory App
  imports Wire Deployment Object_Storage Throttle
begin

text \<open>
  The application around the handlers: \<open>create_app\<close> of \<open>src/api/app.py\<close> with its routes, exception
  handlers and lifespan, \<open>astart\<close> and \<open>aclose\<close> of the container (\<open>api/deps.py\<close>), and the entry point
  \<open>src/main.py\<close>. A request is the route with the text of its body, which is validated before the
  handler is entered; FastAPI turns an \<open>HTTPException\<close> into its
  status, an exception of a registered type into that handler's response, and anything else into a 500.
  Which exceptions are instances of the two registered Redis types is a parameter.
\<close>

section \<open>Requests and responses\<close>

datatype http_request =
    Ingest_Photo string bytes "world option"
  | Start_Session string bytes string     \<comment> \<open>with the token \<open>uuid4\<close> gives the run\<close>
  | Submit_Input string bytes string
  | Approve_Plan string bytes string
  | Cancel_Session string world
  | Session_Snapshot string
  | Stream_Events string "string option"
  | List_Presets
  | Healthz
  | Readyz "bool option"

datatype reply_body =
    Ingested ingest_response
  | Started start_response
  | Acked session_ack
  | Snapshot_Of snapshot_view
  | Streamed "nat frame list" bool
  | Broken_Stream            \<comment> \<open>the body of the stream raised; the status line is already sent\<close>
  | Catalog preset_catalog
  | Alive "(string \<times> string) list"
  | Readiness readiness
  | Unprocessable            \<comment> \<open>what is wrong with the body, field by field\<close>
  | Detail string            \<comment> \<open>\<open>{"detail": ...}\<close>\<close>

record response =
  re_status :: int
  re_body :: reply_body

definition error_response :: "(py_exn \<Rightarrow> bool) \<Rightarrow> py_exn \<Rightarrow> response" where
  \<comment> \<open>the exception handlers: \<open>HTTPException\<close>, the two Redis types (\<open>_store_unavailable\<close>), the rest\<close>
  "error_response lost e =
     (case e of
        HTTPException status detail \<Rightarrow> \<lparr>re_status = status, re_body = Detail detail\<rparr>
      | _ \<Rightarrow> if lost e then \<lparr>re_status = 503, re_body = Detail ''state store unavailable''\<rparr>
             else \<lparr>re_status = 500, re_body = Detail ''Internal Server Error''\<rparr>)"

definition respond ::
  "(py_exn \<Rightarrow> bool) \<Rightarrow> int \<Rightarrow> ('a \<Rightarrow> reply_body) \<Rightarrow> 'a result \<times> runner \<Rightarrow> response \<times> runner" where
  "respond lost status f p =
     (case p of
        (Inl e, r') \<Rightarrow> (error_response lost e, r')
      | (Inr x, r') \<Rightarrow> (\<lparr>re_status = status, re_body = f x\<rparr>, r'))"

definition with_body ::
  "wire \<Rightarrow> (wire \<Rightarrow> json \<Rightarrow> 'b result) \<Rightarrow> bytes \<Rightarrow> ('b \<Rightarrow> response \<times> runner) \<Rightarrow> runner \<Rightarrow> response \<times> runner" where
  "with_body w read raw handle r =
     (case read_body w read raw of
        Inl _ \<Rightarrow> (\<lparr>re_status = 422, re_body = Unprocessable\<rparr>, r)
      | Inr body \<Rightarrow> handle body)"

fun serve :: "wire \<Rightarrow> (py_exn \<Rightarrow> bool) \<Rightarrow> 'i container \<Rightarrow> http_request \<Rightarrow> runner \<Rightarrow> response \<times> runner" where
  \<comment> \<open>as long as the store and the storage answer: their calls inside the handlers return\<close>
  "serve w lost c (Ingest_Photo k raw late) r =
     with_body w read_ingest_request raw (\<lambda>body. respond lost 200 Ingested (ingest_photo c k body late r)) r"
| "serve w lost c (Start_Session k raw tok) r =
     with_body w read_start_request raw (\<lambda>body. respond lost 202 Started (start_session c k body tok r)) r"
| "serve w lost c (Submit_Input k raw tok) r =
     with_body w read_input_request raw (\<lambda>body. respond lost 202 Acked (submit_input c k body tok r)) r"
| "serve w lost c (Approve_Plan k raw tok) r =
     with_body w read_approve_request raw (\<lambda>body. respond lost 202 Acked (approve_plan c k body tok r)) r"
| "serve w lost c (Cancel_Session k v) r = respond lost 202 Acked (cancel_session c k v r)"
| "serve w lost c (Session_Snapshot k) r = respond lost 200 Snapshot_Of (session_snapshot k r, r)"
| "serve w lost c (Stream_Events k last_id) r =
     (\<lparr>re_status = 200,
       re_body = (case stream_events k last_id r of
                    Inl e \<Rightarrow> Broken_Stream | Inr (frames, over) \<Rightarrow> Streamed frames over)\<rparr>, r)"
| "serve w lost c List_Presets r =
     (\<lparr>re_status = 200, re_body = Catalog (list_presets (sv_library (ct_services c)))\<rparr>, r)"
| "serve w lost c Healthz r = (\<lparr>re_status = 200, re_body = Alive healthz\<rparr>, r)"
| "serve w lost c (Readyz ping) r =
     (case readyz ping (sv_library (ct_services c)) of
        (body, status) \<Rightarrow> (\<lparr>re_status = status, re_body = Readiness body\<rparr>, r))"

section \<open>Start and end of the process\<close>

datatype back_end =
    Memory_Back_End
  | Redis_Back_End string int int rat bool
      \<comment> \<open>the URL, the stream cap and its TTL, the TTL of checkpoints in minutes, refreshed on read\<close>

record ('i, 'b) app =
  ap_container :: "'i container"
  ap_runner :: runner                      \<comment> \<open>shared with the other replicas when there is a Redis\<close>
  ap_back_end :: back_end
  ap_throttle :: throttle
  ap_indices :: bool                       \<comment> \<open>\<open>asetup\<close> has run\<close>
  ap_openrouter :: "bool option"           \<comment> \<open>the transport, if there is one: open or closed\<close>
  ap_s3 :: "'b s3_storage option"
  ap_redis :: "bool option"

definition back_end_of :: "settings \<Rightarrow> back_end" where
  "back_end_of s =
     (case cf_redis_url s of
        None \<Rightarrow> Memory_Back_End
      | Some url \<Rightarrow>
          if url = [] then Memory_Back_End
          else Redis_Back_End url (cf_event_stream_maxlen s) (cf_session_ttl_seconds s)
                 (of_int (cf_session_ttl_seconds s) / 60) True)"

definition storage_of :: "'b \<Rightarrow> settings \<Rightarrow> 'b s3_storage option result" where
  "storage_of bucket s =
     (if cf_object_storage s = Storage_s3
      then if cf_s3_bucket s = None then Inl (OtherError ''AssertionError'')
           else Inr (Some (new_s3_storage bucket))
      else Inr None)"

record model_disk =
  md_expanduser :: "string \<Rightarrow> string"      \<comment> \<open>\<open>Path.expanduser\<close>\<close>
  md_files :: "string \<Rightarrow> string list"      \<comment> \<open>the names in a directory, none if it is missing\<close>

definition model_pack_dir :: "model_disk \<Rightarrow> string \<Rightarrow> string \<Rightarrow> string" where
  "model_pack_dir disk root_dir pack = md_expanduser disk root_dir @ ''/models/'' @ pack"

definition weights_present :: "model_disk \<Rightarrow> string \<Rightarrow> string \<Rightarrow> bool" where
  "weights_present disk root_dir pack =
     list_ex (\<lambda>f. drop (length f - 5) f = ''.onnx'') (md_files disk (model_pack_dir disk root_dir pack))"

definition check_weights :: "model_disk \<Rightarrow> settings \<Rightarrow> unit result" where
  \<comment> \<open>\<open>InsightFaceEmbedder.__init__\<close>: the pack is on disk; it is never fetched\<close>
  "check_weights disk s =
     (if weights_present disk (cf_insightface_root s) (cf_insightface_model s) then Inr ()
      else Inl (RuntimeError (''InsightFace pack '' @ [char_of (39::nat)] @ cf_insightface_model s @ [char_of (39::nat)] @ '' not found at ''
             @ model_pack_dir disk (cf_insightface_root s) (cf_insightface_model s)
             @ '' '' @ em_dash @ '' run `make models` to download it (weights are never fetched implicitly)'')))"

definition download_models ::
  "(string \<Rightarrow> string \<Rightarrow> string \<Rightarrow> model_disk \<Rightarrow> string result \<times> model_disk) \<Rightarrow> settings \<Rightarrow> model_disk
     \<Rightarrow> string result \<times> model_disk" where
  \<comment> \<open>\<open>main\<close> of \<open>scripts/download_models.py\<close> with the line it prints; the fetch is InsightFace's \<open>ensure_available\<close>\<close>
  "download_models ensure_available s disk =
     (case ensure_available ''models'' (cf_insightface_model s) (cf_insightface_root s) disk of
        (Inl e, disk') \<Rightarrow> (Inl e, disk')
      | (Inr dest, disk') \<Rightarrow>
          (Inr (''InsightFace pack '' @ [char_of (39::nat)] @ cf_insightface_model s @ [char_of (39::nat)]
                @ '' ready at '' @ dest), disk'))"

definition wired :: "wire \<Rightarrow> 'i externals \<Rightarrow> 'i externals" where
  "wired w ex = ex\<lparr>ex_dump := dump_event w, ex_load := load_event w\<rparr>"

definition build_container ::
  "'i externals \<Rightarrow> model_disk \<Rightarrow> wire \<Rightarrow> settings \<Rightarrow> nat \<Rightarrow> 'b \<Rightarrow> runner \<Rightarrow> ('i, 'b) app result" where
  "build_container ex disk w s replica bucket r =
     bind_res (storage_of bucket s) (\<lambda>s3.
     bind_res (if cf_fake_connectors s then Inr () else check_weights disk s) (\<lambda>_.
     bind_res (new_throttle (cf_max_concurrent_generations s)) (\<lambda>throttle.
     bind_res (build_services (wired w ex) s) (\<lambda>svc. Inr
       \<lparr>ap_container =
          \<lparr>ct_services = svc, ct_settings = s, ct_replica = replica,
           ct_ingest_codec = fst (contract_codecs w), ct_start_codec = fst (snd (contract_codecs w)),
           ct_ack_codec = snd (snd (contract_codecs w))\<rparr>,
        ap_runner = r, ap_back_end = back_end_of s, ap_throttle = throttle, ap_indices = False,
        ap_openrouter = (if cf_fake_connectors s then None else Some True), ap_s3 = s3,
        ap_redis = (if back_end_of s = Memory_Back_End then None else Some True)\<rparr>))))"

definition container_astart :: "('i, 'b) app \<Rightarrow> ('i, 'b) app" where
  "container_astart a = (if ap_redis a \<noteq> None then a\<lparr>ap_indices := True\<rparr> else a)"

definition container_aclose :: "(run \<Rightarrow> world \<Rightarrow> world) \<Rightarrow> ('i, 'b) app \<Rightarrow> ('i, 'b) app" where
  "container_aclose part a =
     a\<lparr>ap_runner := shutdown (ct_replica (ap_container a)) part (ap_runner a),
       ap_openrouter := map_option (\<lambda>_. False) (ap_openrouter a),
       ap_s3 := map_option s3_aclose (ap_s3 a),
       ap_redis := map_option (\<lambda>_. False) (ap_redis a)\<rparr>"

definition lifespan ::
  "(run \<Rightarrow> world \<Rightarrow> world) \<Rightarrow> (('i, 'b) app \<Rightarrow> ('i, 'b) app) \<Rightarrow> ('i, 'b) app \<Rightarrow> ('i, 'b) app" where
  \<comment> \<open>\<open>serving\<close>: what happens between start-up and shutdown\<close>
  "lifespan part serving a = container_aclose part (serving (container_astart a))"

definition main :: "structlog \<Rightarrow> (string \<Rightarrow> log_value) \<Rightarrow> settings \<Rightarrow> (log_config \<times> string option \<times> string \<times> int \<times> bool) result" where
  \<comment> \<open>the configured logger, the line it writes, and what uvicorn is run with\<close>
  "main lib env s =
     bind_res (configure_logging lib s) (\<lambda>c. Inr
       (c, log_line c ''info''
             [(''event'', Log_Text ''starting''), (''env'', env (case cf_app_env s of Env_dev \<Rightarrow> ''dev'' | Env_prod \<Rightarrow> ''prod'')),
              (''host'', Log_Text (cf_host s)), (''port'', Log_Other)],
        cf_host s, cf_port s, cf_reload s))"

section \<open>What a client can rely on\<close>

definition codecs_ok :: "'i container \<Rightarrow> bool" where
  \<comment> \<open>a stored response reads back as it was\<close>
  "codecs_ok c \<longleftrightarrow>
     (\<forall>y. snd (ct_ingest_codec c) (fst (ct_ingest_codec c) y) = Inr y)
     \<and> (\<forall>y. snd (ct_start_codec c) (fst (ct_start_codec c) y) = Inr y)
     \<and> (\<forall>y. snd (ct_ack_codec c) (fst (ct_ack_codec c) y) = Inr y)"

text \<open>An idempotent handler whose operation writes no record and fails cleanly.\<close>

lemma idempotent_clean:
  assumes "idempotent codec scope key op r = (Inl e, r')"
    and "\<And>y. snd codec (fst codec y) = Inr y"
    and "\<And>e r1. op r = (Inl e, r1) \<Longrightarrow> P r1"
    and "\<And>y r1 j. op r = (Inr y, r1) \<Longrightarrow> rn_idem_get j r1 = rn_idem_get j r" and "P r"
  shows "P r'"
  using assms(1)
proof (cases rule: idempotent_cases)
  case (first y r1 payload replayed)
  have "rn_idem_get (http_key scope key) r1 = None" using assms(4) [OF first(2)] first(1) by simp
  from idempotent_first [where codec = codec and op = op, OF first(1,2) this assms(2)] assms(1) show ?thesis by simp
qed (use assms(3,5) in auto)

lemma start_clean:
  "codecs_ok c \<Longrightarrow> start_session c k body t r = (Inl e, r') \<Longrightarrow> r' = r"
  by (rule start_rejected) (simp_all add: codecs_ok_def)

lemma resume_clean:
  assumes "codecs_ok c"
    and "idempotent (ct_ack_codec c) scope key (\<lambda>r. resume_op c k (g r) v n t r) r = (Inl e, r')"
  shows "r' = r"
proof (rule idempotent_clean [OF assms(2)])
  show "snd (ct_ack_codec c) (fst (ct_ack_codec c) y) = Inr y" for y using assms(1) by (simp add: codecs_ok_def)
  show "rn_idem_get j r1 = rn_idem_get j r" if "resume_op c k (g r) v n t r = (Inr y, r1)" for y r1 j
    using resume_op_accepted [OF that] spawn_idem [of j "ct_replica c" k _ t r]
    unfolding resume_run_def by (metis snd_conv)
qed (simp_all add: resume_op_rejected)

lemma ingest_op_effect:
  assumes "ingest_op c k photo None r = (x, r')"
  shows "rn_idem_get j r' = rn_idem_get j r"
    and "x = Inl e \<Longrightarrow> r' = r\<lparr>rn_world := (rn_world r)\<lparr>w_objects := (w_objects (rn_world r))(photo_ref k \<mapsto> photo)\<rparr>\<rparr>"
  using assms
  by (auto simp: ingest_op_def on_world_def ingest_steps_def Let_def obind_def storage_put_def lift_res_def
      op_put_face_def put_face_def ret_def rn_idem_get_def idem_get_def
      split: prod.splits sum.splits option.splits if_splits)

lemma ingest_op_keeps:
  assumes "ingest_op c k photo None r = (x, r')"
  shows "get_session j (w_store (rn_world r')) = get_session j (w_store (rn_world r))" "locks_of r' = locks_of r"
  using assms
  by (auto simp: ingest_op_def on_world_def ingest_steps_def Let_def obind_def storage_put_def lift_res_def
      op_put_face_def put_face_def ret_def get_session_def locks_of_def
      split: prod.splits sum.splits option.splits if_splits)

text \<open>The gate of the ingest is the gate of the start.\<close>

lemma ingest_first:
  assumes "codecs_ok c" and "ingest_photo c k body None r = (Inr y, r')"
    and "rn_idem_get (http_key ''ingest'' (iq_idem_key body)) r = None"
  obtains photo r1 where "b64decode (iq_image_b64 body) = Some photo" "ingest_op c k photo None r = (Inr y, r1)"
    "r' = snd (rn_idem_put (http_key ''ingest'' (iq_idem_key body)) (fst (ct_ingest_codec c) y) r1)"
proof -
  from assms(2) obtain photo where p: "b64decode (iq_image_b64 body) = Some photo"
    "idempotent (ct_ingest_codec c) ''ingest'' (iq_idem_key body) (ingest_op c k photo None) r = (Inr y, r')"
    by (auto simp: ingest_photo_def split: option.splits if_splits)
  have codec: "snd (ct_ingest_codec c) (fst (ct_ingest_codec c) z) = Inr z" for z
    using assms(1) by (simp add: codecs_ok_def)
  from p(2) show ?thesis
  proof (cases rule: idempotent_cases)
    case (first z r1 payload replayed)
    have "rn_idem_get (http_key ''ingest'' (iq_idem_key body)) r1 = None"
      using ingest_op_effect(1) [OF first(2)] assms(3) by simp
    from idempotent_first [where codec = "ct_ingest_codec c" and op = "ingest_op c k photo None", OF first(1,2) this codec]
      p(2) first(2) that [OF p(1)] show ?thesis by simp
  qed (use assms(3) in auto)
qed

lemma record_keeps:
  "get_face k (w_store (rn_world (snd (rn_idem_put j v r)))) = get_face k (w_store (rn_world r))"
  "get_session k (w_store (rn_world (snd (rn_idem_put j v r)))) = get_session k (w_store (rn_world r))"
  "w_objects (rn_world (snd (rn_idem_put j v r))) = w_objects (rn_world r)"
  "locks_of (snd (rn_idem_put j v r)) = locks_of r"
  "i \<noteq> j \<Longrightarrow> rn_idem_get i (snd (rn_idem_put j v r)) = rn_idem_get i r"
  by (auto simp: rn_idem_put_def idem_put_def with_store_def get_face_def get_session_def locks_of_def
      rn_idem_get_def idem_get_def)

lemma ingest_leaves:
  assumes "codecs_ok c" and "ingest_photo c face body None r = (Inr y, r')"
    and "rn_idem_get (http_key ''ingest'' (iq_idem_key body)) r = None"
  obtains f photo where "get_face face (w_store (rn_world r')) = Some f" "y = ingest_response_of face f"
    "b64decode (iq_image_b64 body) = Some photo" "w_objects (rn_world r') (photo_ref face) = Some photo"
    "get_session k (w_store (rn_world r')) = get_session k (w_store (rn_world r))" "locks_of r' = locks_of r"
    "rn_idem_get (http_key ''start'' key) r' = rn_idem_get (http_key ''start'' key) r"
proof -
  from ingest_first [OF assms] obtain photo r1 where p: "b64decode (iq_image_b64 body) = Some photo"
    and o: "ingest_op c face photo None r = (Inr y, r1)"
    and r': "r' = snd (rn_idem_put (http_key ''ingest'' (iq_idem_key body)) (fst (ct_ingest_codec c) y) r1)" .
  from ingest_accepts [OF o] obtain f where f: "get_face face (w_store (rn_world r1)) = Some f"
    "y = ingest_response_of face f" "w_objects (rn_world r1) (photo_ref face) = Some photo" by blast
  have "http_key ''start'' key \<noteq> http_key ''ingest'' (iq_idem_key body)" by (simp add: http_key_def)
  from record_keeps(5) [OF this] p f ingest_op_keeps [OF o] ingest_op_effect(1) [OF o] show ?thesis
    by (intro that) (simp_all add: r' record_keeps)
qed

lemma spawn_free:
  assumes "locks_of r (run_lock_key k) = None"
  obtains r2 where "spawn i k p t r = (True, r2)" "\<exists>u\<in>set (rn_runs r2). ru_key u = k \<and> ru_token u = t"
  using spawn_effects(2) [OF assms, of i p t] by (cases "spawn i k p t r") auto

lemma start_on_face:
  assumes "codecs_ok c" and "get_face (sq_face_key q) (w_store (rn_world r)) = Some f"
    and "get_session k (w_store (rn_world r)) = None" and "locks_of r (run_lock_key k) = None"
    and "rn_idem_get (http_key ''start'' (sq_idem_key q)) r = None"
  shows "if fp_gate_verdict f \<noteq> BELOW_FLOOR \<and> fp_embedding f \<noteq> []
         then \<exists>a r2. start_session c k q t r = (Inr a, r2) \<and> sr_session_key a = k
           \<and> (\<exists>u\<in>set (rn_runs r2). ru_key u = k \<and> ru_token u = t)
         else \<exists>d. start_session c k q t r = (Inl (http 422 d), r)"
proof (cases "fp_gate_verdict f \<noteq> BELOW_FLOOR \<and> fp_embedding f \<noteq> []")
  case False
  with assms(2,3) obtain d where "start_op c k q t r = (Inl (http 422 d), r)"
    by (auto simp: start_op_def check_face_def)
  from idempotent_rejects [where op = "start_op c k q t", OF assms(5) this] False show ?thesis
    by (auto simp: start_session_def)
next
  case True
  obtain r2 where r2: "start_run (ct_replica c) k (sq_face_key q) (case sq_brief q of None \<Rightarrow> [] | Some b \<Rightarrow> b)
      (sq_budget_limit q) t r = (True, r2)" "\<exists>u\<in>set (rn_runs r2). ru_key u = k \<and> ru_token u = t"
    unfolding start_run_def using spawn_free [OF assms(4)] .
  with True assms(2,3) obtain a where a: "start_op c k q t r = (Inr a, r2)" "sr_session_key a = k"
    by (simp add: start_op_def check_face_def Let_def)
  have "rn_idem_get (http_key ''start'' (sq_idem_key q)) r2 = None"
    using r2(1) assms(5) spawn_idem unfolding start_run_def by (metis snd_conv)
  from idempotent_first [where codec = "ct_start_codec c" and op = "start_op c k q t", OF assms(5) a(1) this]
    assms(1) a(2) r2(2) True show ?thesis
    by (auto simp: start_session_def codecs_ok_def rn_idem_put_def with_store_def split: prod.splits)
qed

lemma ingest_clean:
  assumes "codecs_ok c" and "ingest_photo c k body None r = (Inl e, r')"
  shows "r' = r \<or> (\<exists>photo. b64decode (iq_image_b64 body) = Some photo
    \<and> r' = r\<lparr>rn_world := (rn_world r)\<lparr>w_objects := (w_objects (rn_world r))(photo_ref k \<mapsto> photo)\<rparr>\<rparr>)"
proof -
  consider "r' = r" | photo where "b64decode (iq_image_b64 body) = Some photo"
    "idempotent (ct_ingest_codec c) ''ingest'' (iq_idem_key body) (ingest_op c k photo None) r = (Inl e, r')"
    using assms(2) by (auto simp: ingest_photo_def split: option.splits if_splits)
  then show ?thesis
  proof cases
    case 2
    have codec: "snd (ct_ingest_codec c) (fst (ct_ingest_codec c) y) = Inr y" for y
      using assms(1) by (simp add: codecs_ok_def)
    show ?thesis
      by (rule idempotent_clean [OF 2(2) codec]) (use 2(1) ingest_op_effect in blast)+
  qed simp
qed

lemma with_body_cases:
  assumes "with_body w read raw handle r = (resp, r')"
  obtains "r' = r" | body where "read_body w read raw = Inr body" "handle body = (resp, r')"
  using assms by (auto simp: with_body_def split: sum.splits)

lemma respond_refused:
  assumes "respond lost status f p = (resp, r')" and "400 \<le> re_status resp" and "status < 400"
  obtains e where "p = (Inl e, r')"
  using assms by (auto simp: respond_def split: prod.splits sum.splits)

text \<open>The worlds an ingest passes through; a timeout leaves one of them.\<close>

definition ingest_stages :: "'i container \<Rightarrow> string \<Rightarrow> bytes \<Rightarrow> world \<Rightarrow> world list" where
  "ingest_stages c k photo w =
     (let svc = ct_services c; w1 = w\<lparr>w_objects := (w_objects w)(photo_ref k \<mapsto> photo)\<rparr>
      in w # w1 #
         (case ingest (sv_pil svc) (sv_detect svc) (sv_gate svc) photo k (photo_ref k) of
            Inl e \<Rightarrow> []
          | Inr i \<Rightarrow>
              (let w2 = w1\<lparr>w_store := put_face (fi_profile i) (w_store w1)\<rparr>
               in w2 # (case fi_face_crop i of
                          None \<Rightarrow> []
                        | Some crop \<Rightarrow> [w2\<lparr>w_objects := (w_objects w2)(face_crop_ref k \<mapsto> crop)\<rparr>]))))"

definition face_only :: "string \<Rightarrow> runner \<Rightarrow> runner \<Rightarrow> bool" where
  \<comment> \<open>nothing differs but the photo, the crop and the profile of face \<open>k\<close>\<close>
  "face_only k r r' \<longleftrightarrow>
     (\<exists>objects store. r' = r\<lparr>rn_world := (rn_world r)\<lparr>w_objects := objects, w_store := store\<rparr>\<rparr>
        \<and> (\<forall>j. j \<notin> {photo_ref k, face_crop_ref k} \<longrightarrow> objects j = w_objects (rn_world r) j)
        \<and> (store = w_store (rn_world r) \<or> (\<exists>f. fp_face_key f = k \<and> store = put_face f (w_store (rn_world r)))))"

lemma ingest_profile_key: "ingest pil detect gate photo k ref = Inr i \<Longrightarrow> fp_face_key (fi_profile i) = k"
  by (auto simp: ingest_def bind_res_Inr_iff Let_def split: prod.splits if_splits)

lemma stages_face_only: "w \<in> set (ingest_stages c k photo (rn_world r)) \<Longrightarrow> face_only k r (r\<lparr>rn_world := w\<rparr>)"
  unfolding face_only_def
  by (rule exI [of _ "w_objects w"], rule exI [of _ "w_store w"])
     (auto simp: ingest_stages_def Let_def dest!: ingest_profile_key [OF sym] split: sum.splits option.splits)

lemma ingest_stops:
  assumes "codecs_ok c" and "ingest_photo c k body late r = (Inl e, r')"
  shows "r' = r \<or> (\<exists>photo. b64decode (iq_image_b64 body) = Some photo
    \<and> (case late of None \<Rightarrow> r' = r\<lparr>rn_world := (rn_world r)\<lparr>w_objects := (w_objects (rn_world r))(photo_ref k \<mapsto> photo)\<rparr>\<rparr>
       | Some v \<Rightarrow> r' = r\<lparr>rn_world := v\<rparr>))"
proof (cases late)
  case None
  with ingest_clean [OF assms(1)] assms(2) show ?thesis by auto
next
  case (Some v)
  from assms(2) consider "r' = r" | photo where "b64decode (iq_image_b64 body) = Some photo"
    "idempotent (ct_ingest_codec c) ''ingest'' (iq_idem_key body) (ingest_op c k photo late) r = (Inl e, r')"
    by (auto simp: ingest_photo_def split: option.splits if_splits)
  then show ?thesis
  proof cases
    case 2
    have codec: "snd (ct_ingest_codec c) (fst (ct_ingest_codec c) y) = Inr y" for y
      using assms(1) by (simp add: codecs_ok_def)
    have "r' = r \<or> r' = r\<lparr>rn_world := v\<rparr>"
      by (rule idempotent_clean [OF 2(2) codec]) (simp_all add: ingest_op_def Some)
    with 2(1) Some show ?thesis by auto
  qed simp
qed

lemma refused_clean:
  assumes "codecs_ok c" and "serve w lost c q r = (resp, r')" and "400 \<le> re_status resp"
    and late: "\<And>k raw v body photo. q = Ingest_Photo k raw (Some v) \<Longrightarrow> read_body w read_ingest_request raw = Inr body
      \<Longrightarrow> b64decode (iq_image_b64 body) = Some photo \<Longrightarrow> v \<in> set (ingest_stages c k photo (rn_world r))"
  shows "r' = r \<or> (\<exists>k raw late body photo. q = Ingest_Photo k raw late
    \<and> read_body w read_ingest_request raw = Inr body \<and> b64decode (iq_image_b64 body) = Some photo
    \<and> face_only k r r'
    \<and> (late = None \<longrightarrow>
         r' = r\<lparr>rn_world := (rn_world r)\<lparr>w_objects := (w_objects (rn_world r))(photo_ref k \<mapsto> photo)\<rparr>\<rparr>))"
proof (cases q)
  case (Ingest_Photo k raw late)
  with assms(2) consider "r' = r" | body where "read_body w read_ingest_request raw = Inr body"
    "respond lost 200 Ingested (ingest_photo c k body late r) = (resp, r')"
    by (auto elim: with_body_cases)
  then show ?thesis
  proof cases
    case 2
    then obtain e where "ingest_photo c k body late r = (Inl e, r')"
      using assms(3) by (auto elim: respond_refused)
    from ingest_stops [OF assms(1) this] consider "r' = r" | photo w' where
      "b64decode (iq_image_b64 body) = Some photo" "w' \<in> set (ingest_stages c k photo (rn_world r))"
      "r' = r\<lparr>rn_world := w'\<rparr>"
      "late = None \<Longrightarrow> w' = (rn_world r)\<lparr>w_objects := (w_objects (rn_world r))(photo_ref k \<mapsto> photo)\<rparr>"
    proof (cases late)
      case None
      with \<open>r' = r \<or> _\<close> show ?thesis by (auto intro: that simp: ingest_stages_def Let_def)
    next
      case (Some v)
      with \<open>r' = r \<or> _\<close> consider "r' = r" | photo where "b64decode (iq_image_b64 body) = Some photo"
        "r' = r\<lparr>rn_world := v\<rparr>" by auto
      then show ?thesis
      proof cases
        case (2 photo)
        from late [OF _ \<open>read_body w read_ingest_request raw = Inr body\<close> 2(1)] Some Ingest_Photo 2 show ?thesis
          by (intro that(2)) simp_all
      qed (rule that(1))
    qed
    then show ?thesis
    proof cases
      case 2
      then show ?thesis
        using stages_face_only [OF 2(2)] Ingest_Photo \<open>read_body w read_ingest_request raw = Inr body\<close> by auto
    qed simp
  qed simp
next
  case (Start_Session k raw t)
  with assms(2,3) show ?thesis
    by (auto elim!: with_body_cases respond_refused dest: start_clean [OF assms(1)])
next
  case (Submit_Input k raw t)
  with assms(2,3) show ?thesis
    by (auto simp: submit_input_def elim!: with_body_cases respond_refused dest!: resume_clean [OF assms(1)]
        split: if_splits)
next
  case (Approve_Plan k raw t)
  with assms(2,3) show ?thesis
    by (auto simp: approve_plan_def elim!: with_body_cases respond_refused dest!: resume_clean [OF assms(1)]
        split: if_splits)
next
  case (Cancel_Session k v)
  with assms(2,3) show ?thesis
    by (auto simp: cancel_session_def elim!: respond_refused split: sum.splits if_splits)
qed (use assms(2) in \<open>auto simp: respond_def split: sum.splits prod.splits\<close>)

text \<open>A start whose record is lost after the run was created (the store goes away in between) is a 503 to the
caller, and its retry is refused.\<close>

lemma unrecorded_start_blocks:
  assumes "start_op c k body t r = (Inr y, r1)" and "rn_idem_get (http_key ''start'' (sq_idem_key body)) r1 = None"
  shows "start_session c k body t' r1 = (Inl in_flight, r1)"
proof -
  from start_op_accepted [OF assms(1)] have st: "start_run (ct_replica c) k (sq_face_key body)
      (case sq_brief body of None \<Rightarrow> [] | Some b \<Rightarrow> b) (sq_budget_limit body) t r = (True, r1)" by blast
  then have locked: "locks_of r1 (run_lock_key k) \<noteq> None"
    unfolding start_run_def by (auto dest!: spawn_in_flight simp: locks_of_def)
  from st have same: "get_session k (w_store (rn_world r1)) = get_session k (w_store (rn_world r))"
    "check_face body r1 = check_face body r"
    unfolding start_run_def by (auto dest!: spawn_in_flight simp: get_session_def get_face_def check_face_def)
  from assms(1) have "get_session k (w_store (rn_world r)) = None" "check_face body r = Inr ()"
    by (auto simp: start_op_def split: if_splits sum.splits)
  with same locked have "start_op c k body t' r1 = (Inl in_flight, r1)"
    by (simp add: start_op_def start_run_def spawn_effects(1))
  from idempotent_rejects [where op = "start_op c k body t'", OF assms(2) this [unfolded in_flight_def]] show ?thesis
    by (simp add: start_session_def in_flight_def)
qed

text \<open>The download script is what the process asks for: after it succeeded the weights are found, when the
fetch leaves the files of a pack under the root it is given.\<close>

lemma downloaded_weights:
  assumes "\<And>pack root_dir d dest d'. fetch ''models'' pack root_dir d = (Inr dest, d') \<Longrightarrow> weights_present d' root_dir pack"
    and "download_models fetch s disk = (Inr line, disk')"
  shows "check_weights disk' s = Inr ()"
  using assms by (auto simp: download_models_def check_weights_def split: prod.splits sum.splits)

text \<open>Losing Redis is a 503, on a request and on the readiness probe, never an answer from other state.\<close>

lemma redis_loss_is_503:
  "lost (OtherError e) \<Longrightarrow> re_status (error_response lost (OtherError e)) = 503"
  "re_status (fst (serve w lost c (Readyz (Some False)) r)) = 503"
  by (simp_all add: error_response_def readyz_def Let_def)

text \<open>A process that starts is usable: its services are one of the two wirings, priced and with a
library, the throttle lets somebody in unless it is configured to zero, and it has state to share
exactly when a Redis is configured.\<close>

lemma built_container:
  assumes "build_container ex disk w s replica bucket r = Inr a"
  shows "deployed (wired w ex) s (ct_services (ap_container a)) \<and> ct_settings (ap_container a) = s
    \<and> tr_value (ap_throttle a) = cf_max_concurrent_generations s
    \<and> (ap_redis a = None \<longleftrightarrow> falsy (cf_redis_url s)) \<and> (ap_openrouter a = None \<longleftrightarrow> cf_fake_connectors s)
    \<and> (\<not> cf_fake_connectors s \<longrightarrow> weights_present disk (cf_insightface_root s) (cf_insightface_model s))"
  using assms
  by (auto simp: build_container_def bind_res_Inr_iff new_throttle_def back_end_of_def check_weights_def falsy_def
      intro: built_deployed split: if_splits option.splits)

text \<open>Its codecs are those of the contract, and its loop records events as \<open>EventAdapter\<close> writes them.\<close>

lemma built_codecs:
  assumes "build_container ex disk w s replica bucket r = Inr a" and "wire_ok w"
  shows "codecs_ok (ap_container a)" and "codec_ok (ct_services (ap_container a))"
proof -
  from assms(1) obtain svc where svc: "build_services (wired w ex) s = Inr svc" "ct_services (ap_container a) = svc"
    and c: "ct_ingest_codec (ap_container a) = fst (contract_codecs w)"
      "ct_start_codec (ap_container a) = fst (snd (contract_codecs w))"
      "ct_ack_codec (ap_container a) = snd (snd (contract_codecs w))"
    by (auto simp: build_container_def bind_res_Inr_iff)
  from contract_survives [OF assms(2), of "fst (contract_codecs w)" "fst (snd (contract_codecs w))"
      "snd (snd (contract_codecs w))"] c
  show "codecs_ok (ap_container a)" by (simp add: codecs_ok_def)
  from svc(1) have "le_dump (sv_loop svc) = dump_event w" "le_load (sv_loop svc) = load_event w"
    by (auto simp: build_services_def bind_res_Inr_iff fake_services_def openrouter_services_def base_loop_def
        with_det_writer_def with_or_writer_def wired_def split: if_splits)
  with svc(2) event_survives [OF assms(2)] show "codec_ok (ct_services (ap_container a))"
    by (simp add: codec_ok_def)
qed

text \<open>After the lifespan nothing of the replica is left: no task, no open client, and the runs of the
other replicas are untouched.\<close>

lemma lifespan_closes:
  assumes "single (ap_runner (serving (container_astart a)))" and "\<And>u w. partial_run (ru_key u) w (part u w)"
    and "lifespan part serving a = z"
  shows "ap_openrouter z \<noteq> Some True \<and> ap_redis z \<noteq> Some True \<and> (\<forall>st. ap_s3 z = Some st \<longrightarrow> \<not> so_client st)
    \<and> rn_tasks (ap_runner z) (ct_replica (ap_container z)) = Map.empty
    \<and> {u \<in> set (rn_runs (ap_runner (serving (container_astart a)))). ru_replica u \<noteq> ct_replica (ap_container z)}
        \<subseteq> set (rn_runs (ap_runner z))"
  using shutdown_stops [OF assms(1,2)] assms(3)
  by (auto simp: lifespan_def container_aclose_def s3_aclose_def)

end
