(* ===== verification/Gate_Check.thy ===== *)
theory Gate_Check
  imports Images Config
begin

text \<open>
  The command-line gate check (\<open>scripts/gate_check.py\<close>): the thresholds of the settings, one line of
  metrics and verdict per photo, in Python's format specifications. A photo comes with the name, the
  stem and the text of its path and what reading it gives; \<open>str\<close> of a float is a parameter.
\<close>

section \<open>Format specifications\<close>

definition pad_right :: "nat \<Rightarrow> string \<Rightarrow> string" where   \<comment> \<open>\<open>{s:30s}\<close>\<close>
  "pad_right n s = s @ replicate (n - nat (py_len s)) (CHR '' '')"

definition zero_pad :: "nat \<Rightarrow> nat \<Rightarrow> string" where
  "zero_pad d n = replicate (d - length (show_nat n)) (CHR ''0'') @ show_nat n"

definition fixed_abs :: "nat \<Rightarrow> rat \<Rightarrow> string" where
  "fixed_abs d x =
     (let n = nat (half_even (\<bar>x\<bar> * 10 ^ d))
      in show_nat (n div 10 ^ d) @ (if d = 0 then [] else ''.'' @ zero_pad d (n mod 10 ^ d)))"

definition fixed :: "nat \<Rightarrow> rat \<Rightarrow> string" where   \<comment> \<open>\<open>{x:.2f}\<close>\<close>
  "fixed d x = (if x < 0 then ''-'' else []) @ fixed_abs d x"

definition signed_fixed :: "nat \<Rightarrow> rat \<Rightarrow> string" where   \<comment> \<open>\<open>{x:+.0f}\<close>\<close>
  "signed_fixed d x = (if x < 0 then ''-'' else ''+'') @ fixed_abs d x"

section \<open>The script\<close>

definition gate_from_settings :: "settings \<Rightarrow> gate_thresholds" where
  "gate_from_settings s =
     \<lparr>gt_min_side = cf_gate_min_side s,
      gt_max_secondary_face_ratio = cf_gate_max_secondary_face_ratio s,
      gt_min_face_side = cf_gate_min_face_side s, gt_floor_face_side = cf_gate_floor_face_side s,
      gt_min_blur_var = cf_gate_min_blur_var s, gt_floor_blur_var = cf_gate_floor_blur_var s,
      gt_min_brightness = cf_gate_min_brightness s, gt_max_brightness = cf_gate_max_brightness s,
      gt_floor_min_brightness = cf_gate_floor_min_brightness s,
      gt_floor_max_brightness = cf_gate_floor_max_brightness s,
      gt_risk_max_abs_yaw = cf_gate_risk_max_abs_yaw s\<rparr>"

definition gate_banner :: "(rat \<Rightarrow> string) \<Rightarrow> gate_thresholds \<Rightarrow> string" where
  "gate_banner str t =
     ''pass: frame>='' @ show_int (gt_min_side t) @ ''px face>='' @ fixed 0 (gt_min_face_side t)
     @ ''px secondary<='' @ str (gt_max_secondary_face_ratio t) @ '' blur>='' @ str (gt_min_blur_var t)
     @ '' brightness '' @ fixed 0 (gt_min_brightness t) @ ''..'' @ fixed 0 (gt_max_brightness t)
     @ '' |yaw|<='' @ fixed 0 (gt_risk_max_abs_yaw t) @ [char_of (10::nat)]
     @ ''hard floors: face>='' @ fixed 0 (gt_floor_face_side t) @ ''px blur>='' @ str (gt_floor_blur_var t)
     @ '' brightness '' @ fixed 0 (gt_floor_min_brightness t) @ ''..'' @ fixed 0 (gt_floor_max_brightness t)
     @ '' (between floor and pass = RISK: ask the user)'' @ [char_of (10::nat)]"

fun verdict_mark :: "verdict \<Rightarrow> string" where
  "verdict_mark PASSED = ''PASS''"
| "verdict_mark SOFT = ''RISK''"
| "verdict_mark BELOW_FLOOR = ''FAIL''"

definition photo_mark :: "face_profile \<Rightarrow> string" where
  "photo_mark p =
     (let m = verdict_mark (fp_gate_verdict p)
      in if fp_gate_reason p \<noteq> OK then m @ '': '' @ gate_reason_value (fp_gate_reason p) else m)"

definition photo_line :: "string \<Rightarrow> face_profile \<Rightarrow> string" where
  "photo_line name p =
     (let m = fp_metrics p
      in pad_right 30 name @ '' '' @ pad_right 22 (photo_mark p) @ '' ''
         @ ''faces='' @ show_int (fm_face_count m)
         @ '' frame='' @ show_int (fm_width m) @ ''x'' @ show_int (fm_height m)
         @ '' face_side='' @ fixed 0 (fm_face_side m) @ '' ''
         @ ''secondary='' @ fixed 2 (fm_secondary_face_ratio m) @ '' blur='' @ fixed 0 (fm_blur_var m) @ '' ''
         @ ''bright='' @ fixed 0 (fm_brightness m) @ '' yaw='' @ signed_fixed 0 (fm_yaw m))"

record photo_file =
  pf_name :: string
  pf_stem :: string
  pf_path :: string
  pf_bytes :: "bytes result"   \<comment> \<open>\<open>path.read_bytes()\<close>\<close>

fun check_photos ::
  "(bytes \<Rightarrow> string \<Rightarrow> string \<Rightarrow> face_profile result) \<Rightarrow> photo_file list \<Rightarrow> string list \<times> unit result" where
  "check_photos profile [] = ([], Inr ())"
| "check_photos profile (f # fs) =
     (case bind_res (pf_bytes f) (\<lambda>data. profile data (pf_stem f) (pf_path f)) of
        Inl e \<Rightarrow> ([], Inl e)
      | Inr p \<Rightarrow> (case check_photos profile fs of (ls, x) \<Rightarrow> (photo_line (pf_name f) p # ls, x)))"

definition gate_check ::
  "'i pil \<Rightarrow> (bytes \<Rightarrow> detected_face list result) \<Rightarrow> (rat \<Rightarrow> string) \<Rightarrow> settings \<Rightarrow> photo_file list
     \<Rightarrow> string list \<times> unit result" where   \<comment> \<open>\<open>main\<close>: what is printed, and how it ends\<close>
  "gate_check p analyze str s files =
     (let t = gate_from_settings s
      in case check_photos (build_face_profile p analyze t) files of
           (ls, x) \<Rightarrow> (gate_banner str t # ls, x))"

section \<open>What it prints\<close>

text \<open>The script judges by the thresholds the service judges by.\<close>

lemma gate_from_settings_eq: "gate_from_settings s = gate_thresholds_of s"
  by (simp add: gate_from_settings_def gate_thresholds_of_def)

lemma verdict_mark_inj [simp]: "verdict_mark a = verdict_mark b \<longleftrightarrow> a = b"
  by (cases a; cases b) simp_all

text \<open>One line per photo up to the first that cannot be read or is not an image.\<close>

lemma check_photos_lines:
  assumes "check_photos profile files = (ls, x)"
  shows "\<exists>shown rest. files = shown @ rest
    \<and> list_all2 (\<lambda>f l. \<exists>d p. pf_bytes f = Inr d \<and> profile d (pf_stem f) (pf_path f) = Inr p
         \<and> l = photo_line (pf_name f) p) shown ls
    \<and> (case x of Inr _ \<Rightarrow> rest = []
       | Inl e \<Rightarrow> rest \<noteq> [] \<and> bind_res (pf_bytes (hd rest)) (\<lambda>d. profile d (pf_stem (hd rest)) (pf_path (hd rest))) = Inl e)"
  using assms
proof (induction files arbitrary: ls x)
  case (Cons f fs)
  show ?case
  proof (cases "bind_res (pf_bytes f) (\<lambda>data. profile data (pf_stem f) (pf_path f))")
    case (Inl e)
    with Cons.prems have "ls = []" "x = Inl e" by simp_all
    with Inl show ?thesis by (intro exI [of _ "[]"] exI [of _ "f # fs"]) simp
  next
    case (Inr p)
    obtain ls' where c: "check_photos profile fs = (ls', x)" "ls = photo_line (pf_name f) p # ls'"
      using Cons.prems Inr by (auto split: prod.splits)
    from Cons.IH [OF c(1)] obtain shown rest where
      r: "fs = shown @ rest"
        "list_all2 (\<lambda>f l. \<exists>d p. pf_bytes f = Inr d \<and> profile d (pf_stem f) (pf_path f) = Inr p
           \<and> l = photo_line (pf_name f) p) shown ls'"
        "case x of Inr _ \<Rightarrow> rest = []
         | Inl e \<Rightarrow> rest \<noteq> [] \<and> bind_res (pf_bytes (hd rest)) (\<lambda>d. profile d (pf_stem (hd rest)) (pf_path (hd rest))) = Inl e"
      by blast
    moreover from Inr have "\<exists>d q. pf_bytes f = Inr d \<and> profile d (pf_stem f) (pf_path f) = Inr q
        \<and> photo_line (pf_name f) p = photo_line (pf_name f) q" by (auto simp: bind_res_Inr_iff)
    ultimately show ?thesis using c(2) by (intro exI [of _ "f # shown"] exI [of _ rest]) auto
  qed
qed simp

text \<open>A number is printed to within half a unit of its last place.\<close>

lemma half_even_near: "\<bar>of_int (half_even x) - x\<bar> \<le> 1 / 2"
  by (auto simp: half_even_def Let_def abs_if; linarith)

lemma fixed_examples:
  "fixed 2 (1 / 8) = ''0.12''" "fixed 0 (- 1 / 4) = ''-0''" "signed_fixed 0 (7 / 2) = ''+4''"
  "fixed 2 (1001 / 1000) = ''1.00''"
  by code_simp+

end
