(* ===== verification/Load_Test.thy ===== *)
theory Load_Test
  imports App Gate_Check
begin

text \<open>
  The load driver (\<open>scripts/load_test.py\<close>): its parser of the event stream, one session driven over the
  public API, and the report with its exit status. The API is a parameter with a state of its own
  (\<open>client\<close>): a post gives the body of a successful response or the exception of the transport or of
  \<open>raise_for_status\<close>, a stream gives its next line. The time limit of a session is the number of lines
  that arrive within it.
\<close>

section \<open>The event stream\<close>

definition partition_colon :: "string \<Rightarrow> string \<times> string" where
  \<comment> \<open>\<open>line.partition(":")\<close> and \<open>value.removeprefix(" ")\<close>\<close>
  "partition_colon line =
     (let value = drop 1 (dropWhile (\<lambda>c. c \<noteq> CHR '':'') line)
      in (takeWhile (\<lambda>c. c \<noteq> CHR '':'') line, if is_prefix '' '' value then tl value else value))"

type_synonym sse_state = "string \<times> string list"   \<comment> \<open>\<open>event\<close> and \<open>data\<close>\<close>

definition sse_line :: "wire \<Rightarrow> string \<Rightarrow> sse_state \<Rightarrow> (string \<times> json) option result \<times> sse_state" where
  \<comment> \<open>one turn of \<open>_sse_events\<close>: what it yields\<close>
  "sse_line w line st =
     (case st of (event, data) \<Rightarrow>
        if strip line = [] then
          (if event = [] then (Inr None, st)
           else case wi_loads w (join [char_of (10::nat)] data) of
                  Inl e \<Rightarrow> (Inl e, st) | Inr j \<Rightarrow> (Inr (Some (event, j)), ([], [])))
        else if is_prefix '':'' line then (Inr None, st)
        else (case partition_colon line of (field, value) \<Rightarrow>
                if field = ''event'' then (Inr None, (value, data))
                else if field = ''data'' then (Inr None, (event, data @ [value]))
                else (Inr None, st)))"

fun sse_events :: "wire \<Rightarrow> string list \<Rightarrow> sse_state \<Rightarrow> (string \<times> json) list \<times> py_exn option" where
  \<comment> \<open>all that is yielded of a finished stream, and what it raised\<close>
  "sse_events w [] st = ([], None)"
| "sse_events w (line # lines) st =
     (case sse_line w line st of
        (Inl e, _) \<Rightarrow> ([], Some e)
      | (Inr None, st') \<Rightarrow> sse_events w lines st'
      | (Inr (Some x), st') \<Rightarrow> (case sse_events w lines st' of (xs, e) \<Rightarrow> (x # xs, e)))"

section \<open>One session\<close>

fun json_truth :: "json \<Rightarrow> bool" where   \<comment> \<open>the truth value of a parsed JSON value\<close>
  "json_truth JNull = False"
| "json_truth (JBool b) = b"
| "json_truth (JInt i) = (i \<noteq> 0)"
| "json_truth (JFloat x) = (x \<noteq> 0)"
| "json_truth (JStr s) = (s \<noteq> [])"
| "json_truth (JArr js) = (js \<noteq> [])"
| "json_truth (JObj d) = (d \<noteq> [])"

record 's client =
  cl_post :: "string \<Rightarrow> json \<Rightarrow> 's \<Rightarrow> bytes result \<times> 's"
  cl_line :: "'s \<Rightarrow> string option result \<times> 's"   \<comment> \<open>of the open stream\<close>
  cl_clock :: "'s \<Rightarrow> rat"
  cl_caught :: "py_exn \<Rightarrow> bool"                  \<comment> \<open>\<open>TimeoutError\<close> or \<open>httpx.HTTPError\<close>\<close>
  cl_describe :: "py_exn \<Rightarrow> string"              \<comment> \<open>the type and the text of an exception\<close>
  cl_str :: "json \<Rightarrow> string"                     \<comment> \<open>\<open>str\<close>\<close>

record outcome =
  oc_key :: string
  oc_status :: string
  oc_seconds :: rat
  oc_detail :: string

definition start_payload :: "string \<Rightarrow> string \<Rightarrow> int \<Rightarrow> json" where
  "start_payload face_key session_key budget =
     JObj [(''face_key'', JStr face_key), (''use_case'', JStr ''avatar''), (''budget_limit'', JInt budget),
           (''idem_key'', JStr (session_key @ ''-start''))]"

definition approve_payload_of :: "string \<Rightarrow> json" where
  "approve_payload_of session_key =
     JObj [(''session_key'', JStr session_key), (''approved'', JBool True),
           (''idem_key'', JStr (session_key @ ''-approve''))]"

definition input_payload :: "string \<Rightarrow> nat \<Rightarrow> json \<Rightarrow> string \<Rightarrow> json" where
  "input_payload session_key n slot value =
     JObj [(''session_key'', JStr session_key), (''slot'', slot), (''value'', JStr value),
           (''idem_key'', JStr (session_key @ ''-input-'' @ show_nat n))]"

definition first_option :: "'s client \<Rightarrow> json option \<Rightarrow> string" where
  "first_option c raw =
     (case raw of Some (JArr (x # _)) \<Rightarrow> cl_str c x | _ \<Rightarrow> ''a plain studio scene'')"

definition react ::
  "'s client \<Rightarrow> string \<Rightarrow> string \<Rightarrow> json \<Rightarrow> nat \<Rightarrow> 's \<Rightarrow> ((string \<times> string) option \<times> nat) result \<times> 's" where
  \<comment> \<open>the body of the loop: an outcome, or the number of answers given so far\<close>
  "react c k event payload n s =
     (if event = ''need_input'' then
        (case json_item ''slot'' payload of
           Inl e \<Rightarrow> (Inl e, s)
         | Inr slot \<Rightarrow>
             if slot = JStr ''approve'' then
               (case cl_post c (''/v1/sessions/'' @ k @ ''/approve'') (approve_payload_of k) s of
                  (Inl e, s') \<Rightarrow> (Inl e, s') | (Inr _, s') \<Rightarrow> (Inr (None, n), s'))
             else
               (case json_lookup ''options'' payload of
                  Inl e \<Rightarrow> (Inl e, s)
                | Inr raw \<Rightarrow>
                    (case cl_post c (''/v1/sessions/'' @ k @ ''/input'')
                            (input_payload k (n + 1) slot (first_option c raw)) s of
                       (Inl e, s') \<Rightarrow> (Inl e, s') | (Inr _, s') \<Rightarrow> (Inr (None, n + 1), s'))))
      else if event = ''done'' then (Inr (Some (''done'', []), n), s)
      else if event = ''failed'' then
        (case json_lookup ''reason'' payload of
           Inl e \<Rightarrow> (Inl e, s)
         | Inr reason \<Rightarrow> (Inr (Some (''failed'', case reason of None \<Rightarrow> [] | Some j \<Rightarrow> cl_str c j), n), s))
      else (Inr (None, n), s))"

fun follow ::
  "wire \<Rightarrow> 's client \<Rightarrow> string \<Rightarrow> nat \<Rightarrow> sse_state \<Rightarrow> nat \<Rightarrow> 's \<Rightarrow> (string \<times> string) result \<times> 's" where
  "follow w c k 0 st n s = (Inl (OtherError ''TimeoutError''), s)"
| "follow w c k (Suc lines) st n s =
     (case cl_line c s of
        (Inl e, s1) \<Rightarrow> (Inl e, s1)
      | (Inr None, s1) \<Rightarrow> (Inr (''error'', ''stream ended without a terminal event''), s1)
      | (Inr (Some line), s1) \<Rightarrow>
          (case sse_line w line st of
             (Inl e, _) \<Rightarrow> (Inl e, s1)
           | (Inr None, st') \<Rightarrow> follow w c k lines st' n s1
           | (Inr (Some (event, payload)), st') \<Rightarrow>
               (case react c k event payload n s1 of
                  (Inl e, s2) \<Rightarrow> (Inl e, s2)
                | (Inr (Some out, _), s2) \<Rightarrow> (Inr out, s2)
                | (Inr (None, n'), s2) \<Rightarrow> follow w c k lines st' n' s2)))"

definition session_steps ::
  "wire \<Rightarrow> 's client \<Rightarrow> string \<Rightarrow> string \<Rightarrow> string \<Rightarrow> int \<Rightarrow> nat \<Rightarrow> 's \<Rightarrow> (string \<times> string) result \<times> 's" where
  "session_steps w c face_key k photo_b64 budget lines s0 =
     (case cl_post c (''/v1/faces/'' @ face_key)
             (JObj [(''image_b64'', JStr photo_b64), (''idem_key'', JStr (face_key @ ''-ingest''))]) s0 of
        (Inl e, s1) \<Rightarrow> (Inl e, s1)
      | (Inr body, s1) \<Rightarrow>
          (case bind_res (wi_loads w body) (\<lambda>j. bind_res (json_item ''accepted'' j) (\<lambda>a. Inr (j, a))) of
             Inl e \<Rightarrow> (Inl e, s1)
           | Inr (j, accepted) \<Rightarrow>
               if \<not> json_truth accepted then
                 (bind_res (json_item ''gate_reason'' j) (\<lambda>g. Inr (''error'', ''photo rejected: '' @ cl_str c g)), s1)
               else
                 (case cl_post c (''/v1/sessions/'' @ k) (start_payload face_key k budget) s1 of
                    (Inl e, s2) \<Rightarrow> (Inl e, s2)
                  | (Inr _, s2) \<Rightarrow> follow w c k lines ([], []) 0 s2)))"

definition drive_session ::
  "wire \<Rightarrow> 's client \<Rightarrow> string \<Rightarrow> nat \<Rightarrow> string \<Rightarrow> int \<Rightarrow> nat \<Rightarrow> 's \<Rightarrow> outcome result \<times> 's" where
  "drive_session w c run_id n photo_b64 budget lines s =
     (let face_key = ''load-'' @ run_id @ ''-face-'' @ show_nat n;
          session_key = ''load-'' @ run_id @ ''-sess-'' @ show_nat n;
          finish = (\<lambda>status detail s'. \<lparr>oc_key = session_key, oc_status = status,
                      oc_seconds = cl_clock c s' - cl_clock c s, oc_detail = detail\<rparr>)
      in case session_steps w c face_key session_key photo_b64 budget lines s of
           (Inr (status, detail), s') \<Rightarrow> (Inr (finish status detail s'), s')
         | (Inl e, s') \<Rightarrow>
             if cl_caught c e then (Inr (finish ''error'' (cl_describe c e) s'), s') else (Inl e, s'))"

section \<open>The run and its report\<close>

definition count_status :: "outcome list \<Rightarrow> (string, nat) dict" where   \<comment> \<open>\<open>by_status\<close>\<close>
  "count_status outs =
     fold (\<lambda>x d. dict_set (oc_status x) ((case dict_get d (oc_status x) of None \<Rightarrow> 0 | Some n \<Rightarrow> n) + 1) d) outs []"

definition median :: "rat list \<Rightarrow> rat" where   \<comment> \<open>of a sorted, nonempty list\<close>
  "median xs =
     (let n = length xs in if odd n then xs ! (n div 2) else (xs ! (n div 2 - 1) + xs ! (n div 2)) / 2)"

definition p95 :: "rat list \<Rightarrow> rat" where   \<comment> \<open>\<open>durations[max(0, int(len(durations) * 0.95) - 1)]\<close>\<close>
  "p95 xs = xs ! nat (max 0 (int (95 * length xs div 100) - 1))"

definition outcomes_text :: "(string, nat) dict \<Rightarrow> string" where
  "outcomes_text d =
     ''outcomes: {'' @ join '', '' (map (\<lambda>(k, n). py_repr k @ '': '' @ show_nat n) d) @ ''}''"

definition report ::
  "nat \<Rightarrow> nat \<Rightarrow> rat \<Rightarrow> outcome list \<Rightarrow> (string list \<times> string list \<times> int) result" where
  \<comment> \<open>the end of \<open>run\<close>: what it prints, its lines on stderr, its exit status\<close>
  "report sessions concurrency wall outs =
     (let by_status = count_status outs; durations = sort (map oc_seconds outs)
      in if durations = [] then Inl (OtherError ''StatisticsError'')
         else if wall = 0 then Inl (OtherError ''ZeroDivisionError'')
         else Inr
           ([[char_of (10::nat)] @ ''sessions='' @ show_nat sessions @ '' concurrency='' @ show_nat concurrency
               @ '' wall='' @ fixed 2 wall @ ''s'',
             outcomes_text by_status,
             ''latency: p50='' @ fixed 3 (median durations) @ ''s p95='' @ fixed 3 (p95 durations) @ ''s max=''
               @ fixed 3 (last durations) @ ''s'',
             ''throughput: '' @ fixed 2 (of_nat sessions / wall) @ '' sessions/s''],
            map (\<lambda>x. ''  '' @ oc_key x @ '': '' @ oc_status x @ '' '' @ oc_detail x)
              (filter (\<lambda>x. oc_status x \<noteq> ''done'') outs),
            if (case dict_get by_status ''done'' of None \<Rightarrow> 0 | Some n \<Rightarrow> n) = sessions then 0 else 1))"

definition load_run ::
  "int \<Rightarrow> string \<Rightarrow> nat \<Rightarrow> nat \<Rightarrow> rat \<Rightarrow> outcome list result \<Rightarrow> (string list \<times> string list \<times> int) result" where
  \<comment> \<open>\<open>run\<close>: the answer of \<open>/readyz\<close>, then what \<open>gather\<close> collected of the sessions\<close>
  "load_run ready_status ready_text sessions concurrency wall gathered =
     (if ready_status \<noteq> 200 then
        Inr ([], [''target is not ready: '' @ show_int ready_status @ '' '' @ ready_text], 2)
      else bind_res gathered (report sessions concurrency wall))"

section \<open>What it finds out\<close>

text \<open>The parser reads back what an event stream frames, as the format documents it: the id, the event's
name, its data, a blank line.\<close>

definition sse_frame :: "wire \<Rightarrow> ('i \<Rightarrow> string) \<Rightarrow> 'i frame \<Rightarrow> string list" where
  "sse_frame w show_id f =
     [''id: '' @ show_id (fr_id f), ''event: '' @ fr_event f, ''data: '' @ dump_event w (fr_data f), []]"

lemma strip_nonspace: "\<not> is_space c \<Longrightarrow> strip (c # s) \<noteq> []"
  by (auto simp: strip_def lstrip_def rstrip_def dropWhile_eq_Nil_conv)

lemma sse_line_field [simplified, simp]:
  "sse_line w (''id: '' @ x) (ev, data) = (Inr None, (ev, data))"
  "sse_line w (''event: '' @ x) (ev, data) = (Inr None, (x, data))"
  "sse_line w (''data: '' @ x) (ev, data) = (Inr None, (ev, data @ [x]))"
  by (simp_all add: sse_line_def partition_colon_def strip_nonspace is_space_def code_def)

lemma sse_line_blank [simp]:
  "ev \<noteq> [] \<Longrightarrow> wi_loads w x = Inr j \<Longrightarrow> sse_line w [] (ev, [x]) = (Inr (Some (ev, j)), ([], []))"
  by (simp add: sse_line_def strip_Nil)

lemma event_type_nonempty [simp]: "event_type e \<noteq> []"
  by (cases e rule: event_type.cases) simp_all

lemma sse_frame_read:
  assumes "wire_ok w"
  shows "sse_events w (sse_frame w show_id (frame_of x) @ lines) ([], [])
    = (case sse_events w lines ([], []) of (xs, e) \<Rightarrow> ((event_type (snd x), event_json w (snd x)) # xs, e))"
  using assms
  by (simp add: sse_frame_def frame_of_def dump_event_def dump_text_def wire_ok_def)

lemma sse_round_trip:
  assumes "wire_ok w"
  shows "sse_events w (concat (map (sse_frame w show_id \<circ> frame_of) xs)) ([], [])
    = (map (\<lambda>x. (event_type (snd x), event_json w (snd x))) xs, None)"
  by (induction xs) (simp_all add: sse_frame_read [OF assms])

text \<open>The driver does not speak the contract: its request to start a session names a use case and is
refused, so no session it drives is ever done.\<close>

lemma driver_start_refused: "read_start_request w (start_payload face_key k budget) = invalid"
  unfolding start_payload_def by (rule unknown_key_refused [of "''use_case''" "JStr ''avatar''"]) simp_all

lemma driver_never_done:
  assumes "\<And>face k s. \<exists>e s'. cl_post c (''/v1/sessions/'' @ k) (start_payload face k budget) s = (Inl e, s')"
    and "drive_session w c run_id n photo_b64 budget lines s = (Inr out, s')"
  shows "oc_status out = ''error''"
proof -
  have steps: "status = ''error''"
    if "session_steps w c face k photo_b64 budget lines s = (Inr (status, detail), s')" for face k status detail s'
    using that assms(1) [of k face]
    by (auto simp: session_steps_def bind_res_def split: prod.splits sum.splits if_splits) (metis Inl_Inr_False Pair_inject)+
  from assms(2) show ?thesis
    by (auto simp: drive_session_def Let_def dest: steps split: prod.splits sum.splits if_splits)
qed

lemma count_status_aux:
  "(case dict_get (fold (\<lambda>x d. dict_set (oc_status x) ((case dict_get d (oc_status x) of None \<Rightarrow> 0 | Some n \<Rightarrow> n) + 1) d)
      outs d) st of None \<Rightarrow> 0 | Some n \<Rightarrow> n)
    = (case dict_get d st of None \<Rightarrow> 0 | Some n \<Rightarrow> n) + length (filter (\<lambda>x. oc_status x = st) outs)"
  by (induction outs arbitrary: d) (simp_all add: dict_simps)

lemma count_status:
  "(case dict_get (count_status outs) st of None \<Rightarrow> 0 | Some n \<Rightarrow> n) = length (filter (\<lambda>x. oc_status x = st) outs)"
  using count_status_aux [where d = "[]"] by (simp add: count_status_def)

text \<open>The exit status is 0 exactly when every session was done; a run of no session crashes.\<close>

lemma report_status:
  assumes "report (length outs) concurrency wall outs = Inr (printed, complaints, status)"
  shows "status = 0 \<longleftrightarrow> (\<forall>x\<in>set outs. oc_status x = ''done'')"
    and "length complaints = length (filter (\<lambda>x. oc_status x \<noteq> ''done'') outs)"
proof -
  have all: "length (filter P xs) = length xs \<longleftrightarrow> (\<forall>x\<in>set xs. P x)" for P and xs :: "outcome list"
    using filter_id_conv [of P xs] by (metis (no_types) filter_is_subset length_filter_less nat_neq_iff)
  from assms show "status = 0 \<longleftrightarrow> (\<forall>x\<in>set outs. oc_status x = ''done'')"
    by (auto simp: report_def Let_def count_status all split: if_splits)
  from assms show "length complaints = length (filter (\<lambda>x. oc_status x \<noteq> ''done'') outs)"
    by (auto simp: report_def Let_def split: if_splits)
qed

lemma report_no_session: "report 0 concurrency wall [] = Inl (OtherError ''StatisticsError'')"
  by (simp add: report_def)

lemma p95_in_range: "xs \<noteq> [] \<Longrightarrow> p95 xs \<in> set xs"
  unfolding p95_def by (rule nth_mem) (cases "length xs", auto)

text \<open>Data of an event without a name is not dropped but put before the data of the next one.\<close>

lemma nameless_data_leaks:
  "sse_events w [''data: 1'', [], ''event: stage'', ''data: 2'', []] ([], [])
    = (case wi_loads w [CHR ''1'', char_of (10::nat), CHR ''2''] of Inl e \<Rightarrow> ([], Some e) | Inr j \<Rightarrow> ([(''stage'', j)], None))"
  by (simp add: sse_line_def strip_nonspace strip_Nil is_space_def code_def partition_colon_def split: sum.split)

end
