(* ===== verification/Replay.thy ===== *)
theory Replay
  imports App
begin

text \<open>
  Retried requests over time. What other requests, the runs of all replicas, deadlines, cancellations
  and crashes do between two requests is the relation \<open>app_step\<close>; no step of it loses an idempotency
  record, so an accepted response stays what it was for everybody who asks under the same key. (A
  record expires after \<open>session_ttl_seconds\<close>; time is the subject of \<open>Expiry\<close>.)
\<close>

section \<open>The application between two requests\<close>

definition records_of :: "runner \<Rightarrow> string \<rightharpoonup> bytes" where "records_of r = ms_idem (w_store (rn_world r))"

definition keeps_records :: "runner \<Rightarrow> runner \<Rightarrow> bool" where
  "keeps_records r r' \<longleftrightarrow> map_le (records_of r) (records_of r')"

fun stopped_cleanly :: "http_request \<Rightarrow> runner \<Rightarrow> bool" where
  \<comment> \<open>work that a timeout or a cancellation stops midway has lost no record\<close>
  "stopped_cleanly (Ingest_Photo k raw (Some v)) r = map_le (records_of r) (ms_idem (w_store v))"
| "stopped_cleanly (Cancel_Session k v) r = map_le (records_of r) (ms_idem (w_store v))"
| "stopped_cleanly q r = True"

inductive app_step :: "wire \<Rightarrow> (py_exn \<Rightarrow> bool) \<Rightarrow> 'i container \<Rightarrow> runner \<Rightarrow> runner \<Rightarrow> bool" for w lost c where
  app_serve: "stopped_cleanly q r \<Longrightarrow> app_step w lost c r (snd (serve w lost (c\<lparr>ct_replica := i\<rparr>) q r))"
| app_begin: "app_step w lost c r (enter_run u r)"
| app_advance: "app_step w lost c r (advance (ct_services c) u r)"
| app_deadline: "map_le (records_of r) (ms_idem (w_store v)) \<Longrightarrow> app_step w lost c r (stop_at_deadline u v r)"
| app_leave: "app_step w lost c r (leave u r)"
| app_narrate: "app_step w lost c r (narrate u r)"
| app_stop: "map_le (records_of r) (ms_idem (w_store v)) \<Longrightarrow> app_step w lost c r (stop_task u v r)"
| app_crash: "app_step w lost c r (crash_replica i r)"

section \<open>No step loses a record\<close>

lemma keeps_records_refl [simp]: "keeps_records r r"
  by (simp add: keeps_records_def)

lemma keeps_records_trans: "keeps_records r r1 \<Longrightarrow> keeps_records r1 r2 \<Longrightarrow> keeps_records r r2"
  unfolding keeps_records_def by (rule map_le_trans)

lemma keeps_records_get:
  "keeps_records r r' \<Longrightarrow> rn_idem_get j r = Some p \<Longrightarrow> rn_idem_get j r' = Some p"
  by (auto simp: keeps_records_def records_of_def rn_idem_get_def idem_get_def map_le_def dom_def)

lemma keeps_recordsI: "(\<And>j. rn_idem_get j r' = rn_idem_get j r) \<Longrightarrow> keeps_records r r'"
  by (simp add: keeps_records_def records_of_def rn_idem_get_def idem_get_def map_le_def)

lemma records_put: "keeps_records r (snd (rn_idem_put k v r))"
  using idem_put_grows by (auto simp: keeps_records_def records_of_def rn_idem_put_def with_store_def split: prod.split)
    (metis snd_conv)

lemma records_run_once:
  assumes "\<And>x r'. op r = (x, r') \<Longrightarrow> keeps_records r r'" and "run_once rn_idem_get rn_idem_put k op r = (x, r')"
  shows "keeps_records r r'"
proof -
  have put: "keeps_records r r2" if "op r = (Inr v, r1)" "rn_idem_put k v r1 = (b, r2)" for v r1 b r2
    using keeps_records_trans [OF assms(1) [OF that(1)]] records_put [of r1 k v] that(2) by simp
  show ?thesis
    using assms put by (auto simp: run_once_def split: option.splits prod.splits sum.splits if_splits)
qed

lemma records_idempotent:
  assumes "\<And>x r'. op r = (x, r') \<Longrightarrow> keeps_records r r'"
  shows "keeps_records r (snd (idempotent codec scope k op r))"
proof -
  have "keeps_records r r'" if "serialized codec op r = (x, r')" for x r'
    using that assms by (auto simp: serialized_def split: prod.splits sum.splits)
  then show ?thesis
    by (auto simp: idempotent_def split: prod.split sum.split intro: records_run_once)
qed

named_theorems record_effects \<open>what the operations do to the records\<close>

lemma spawn_records [record_effects]: "records_of (snd (spawn i k p t r)) = records_of r"
  by (simp add: records_of_def spawn_def acquire_lock_def with_store_def)

lemma run_op_records [record_effects]:
  "records_of (set_phase t ph r) = records_of r" "records_of (reap i k t r) = records_of r"
  "records_of (save_thread k st n r) = records_of r" "records_of (release_run k t r) = records_of r"
  "records_of (publish_to k e r) = records_of r" "records_of (crash_replica i r) = records_of r"
  "records_of (r\<lparr>rn_world := w\<rparr>) = ms_idem (w_store w)"
  by (simp_all add: records_of_def set_phase_def reap_def save_thread_def release_run_def with_store_def
      release_lock_def publish_to_def publish_def crash_replica_def)

lemma mark_records [record_effects]: "records_of (mark_session k st reason fc r) = records_of r"
  by (auto simp: mark_session_def records_of_def publish_to_def publish_def with_store_def Let_def
      split: option.split)

lemma tell_records [record_effects]: "records_of (tell k e r) = records_of r"
  by (cases e; simp add: record_effects)
     (simp add: emit_telemetry_def records_of_def split: option.split)

lemma stop_task_records:
  assumes "map_le (records_of r) (ms_idem (w_store v))"
  shows "map_le (records_of r) (records_of (stop_task u v r))"
  using assms by (simp add: stop_task_def record_effects split: phase.split)

lemma cancel_run_records:
  assumes "map_le (records_of r) (ms_idem (w_store v))"
  shows "map_le (records_of r) (records_of (cancel_run i k v r))"
  using stop_task_records [OF assms] by (simp add: cancel_run_def record_effects split: option.split)

lemma run_step_records:
  "records_of (enter_run u r) = records_of r" "records_of (leave u r) = records_of r"
  "records_of (narrate u r) = records_of r"
  "map_le (records_of r) (ms_idem (w_store v)) \<Longrightarrow> map_le (records_of r) (records_of (stop_at_deadline u v r))"
  by (simp_all add: enter_run_def leave_def narrate_def stop_at_deadline_def record_effects split: phase.split)

context graph_ports
begin

lemma advance_records: "map_le (records_of r) (records_of (advance svc u r))"
proof (cases "ru_phase u")
  case (Running n st v)
  obtain x w where x: "run_node svc n st v (rn_world r) = (x, w)" by fastforce
  from node_frame(2) [OF x] have "map_le (records_of r) (ms_idem (w_store w))" by (simp add: records_of_def)
  with Running x show ?thesis
    by (simp add: advance_def record_effects split: sum.split node_result.split option.split)
qed (simp_all add: advance_def)

end

lemma respond_state [simp]: "snd (respond lost status f p) = snd p"
  by (simp add: respond_def split: prod.split sum.split)

lemma with_body_records:
  "(\<And>body. keeps_records r (snd (handle body))) \<Longrightarrow> keeps_records r (snd (with_body w read raw handle r))"
  by (simp add: with_body_def split: sum.split)

lemma records_same: "records_of r' = records_of r \<Longrightarrow> keeps_records r r'"
  by (simp add: keeps_records_def)

lemma start_op_records: "start_op c k body t r = (x, r') \<Longrightarrow> keeps_records r r'"
  using spawn_records [of "ct_replica c" k _ t r]
  by (auto simp: start_op_def start_run_def Let_def intro!: records_same split: if_splits sum.splits prod.splits)
     (metis snd_conv)+

lemma resume_op_records: "resume_op c k g v n t r = (x, r') \<Longrightarrow> keeps_records r r'"
  using spawn_records [of "ct_replica c" k _ t r]
  by (auto simp: resume_op_def resume_run_def intro!: records_same split: if_splits sum.splits prod.splits)
     (metis snd_conv)+

lemma ingest_op_records:
  assumes "ingest_op c k photo late r = (x, r')" and "stopped_cleanly (Ingest_Photo k raw late) r"
  shows "keeps_records r r'"
proof (cases late)
  case None
  with assms(1) ingest_op_effect(1) show ?thesis by (metis keeps_recordsI)
next
  case (Some v)
  with assms show ?thesis by (auto simp: ingest_op_def keeps_records_def record_effects)
qed

lemma serve_records:
  assumes "stopped_cleanly q r"
  shows "keeps_records r (snd (serve w lost c q r))"
proof (cases q)
  case (Ingest_Photo k raw late)
  have "keeps_records r (snd (ingest_photo c k body late r))" for body
    using assms Ingest_Photo
    by (auto simp: ingest_photo_def split: option.split intro!: records_idempotent elim: ingest_op_records)
  with Ingest_Photo show ?thesis by (simp add: with_body_records)
next
  case (Start_Session k raw t)
  have "keeps_records r (snd (start_session c k body t r))" for body
    unfolding start_session_def by (rule records_idempotent, erule start_op_records)
  with Start_Session show ?thesis by (simp add: with_body_records)
next
  case (Submit_Input k raw t)
  have "keeps_records r (snd (submit_input c k body t r))" for body
    by (auto simp: submit_input_def intro!: records_idempotent elim: resume_op_records)
  with Submit_Input show ?thesis by (simp add: with_body_records)
next
  case (Approve_Plan k raw t)
  have "keeps_records r (snd (approve_plan c k body t r))" for body
    by (auto simp: approve_plan_def intro!: records_idempotent elim: resume_op_records)
  with Approve_Plan show ?thesis by (simp add: with_body_records)
next
  case (Cancel_Session k v)
  with assms cancel_run_records show ?thesis
    by (auto simp: cancel_session_def keeps_records_def split: sum.split)
qed (simp_all split: prod.split)

section \<open>What is retried\<close>

fun record_key :: "wire \<Rightarrow> settings \<Rightarrow> http_request \<Rightarrow> string option" where
  \<comment> \<open>the record a request comes down to, once its body is read and found in order\<close>
  "record_key w s (Ingest_Photo k raw late) =
     (case read_body w read_ingest_request raw of
        Inl _ \<Rightarrow> None
      | Inr body \<Rightarrow>
          (case b64decode (iq_image_b64 body) of
             None \<Rightarrow> None
           | Some photo \<Rightarrow>
               if cf_max_photo_bytes s < int (length photo) \<or> photo = [] then None
               else Some (http_key ''ingest'' (iq_idem_key body))))"
| "record_key w s (Start_Session k raw t) =
     (case read_body w read_start_request raw of
        Inl _ \<Rightarrow> None | Inr body \<Rightarrow> Some (http_key ''start'' (sq_idem_key body)))"
| "record_key w s (Submit_Input k raw t) =
     (case read_body w read_input_request raw of
        Inl _ \<Rightarrow> None
      | Inr body \<Rightarrow> if nq_session_key body \<noteq> k then None else Some (http_key ''input'' (nq_idem_key body)))"
| "record_key w s (Approve_Plan k raw t) =
     (case read_body w read_approve_request raw of
        Inl _ \<Rightarrow> None
      | Inr body \<Rightarrow> if aq_session_key body \<noteq> k then None else Some (http_key ''approve'' (aq_idem_key body)))"
| "record_key w s q = None"

fun accepted :: "reply_body \<Rightarrow> bool" where   \<comment> \<open>what is asked was done, or had been done before\<close>
  "accepted (Ingested x) = True"
| "accepted (Started x) = True"
| "accepted (Acked x) = True"
| "accepted b = False"

lemma respond_accepted:
  assumes "respond lost status f p = (resp, r')" and "accepted (re_body resp)"
  obtains x where "p = (Inr x, r')" "resp = \<lparr>re_status = status, re_body = f x\<rparr>"
  using assms by (auto simp: respond_def error_response_def split: prod.splits sum.splits py_exn.splits if_splits)

text \<open>An accepted request leaves its response under its key.\<close>

lemma idempotent_stores:
  assumes "idempotent codec scope k op r = (Inr x, r')"
  shows "\<exists>p. rn_idem_get (http_key scope k) r' = Some p \<and> snd codec p = Inr x"
  using assms by (cases rule: idempotent_cases) auto

lemma idempotent_recalls:
  "rn_idem_get (http_key scope k) r = Some p \<Longrightarrow> idempotent codec scope k op r = (snd codec p, r)"
  by (simp add: idempotent_def runner_idem.run_once_replay)

definition stored_answer :: "'i container \<Rightarrow> string \<Rightarrow> bytes \<Rightarrow> response \<Rightarrow> bool" where
  \<comment> \<open>the response that record \<open>j\<close> stands for\<close>
  "stored_answer c j p resp \<longleftrightarrow>
     (\<exists>k x. j = http_key ''ingest'' k \<and> snd (ct_ingest_codec c) p = Inr x \<and> resp = \<lparr>re_status = 200, re_body = Ingested x\<rparr>)
     \<or> (\<exists>k x. j = http_key ''start'' k \<and> snd (ct_start_codec c) p = Inr x \<and> resp = \<lparr>re_status = 202, re_body = Started x\<rparr>)
     \<or> (\<exists>s k x. s \<in> {''input'', ''approve''} \<and> j = http_key s k \<and> snd (ct_ack_codec c) p = Inr x
           \<and> resp = \<lparr>re_status = 202, re_body = Acked x\<rparr>)"

text \<open>A request with a key, past the reading of its body, is an idempotent handler under that key.\<close>

lemma key_cases:
  assumes "record_key w (ct_settings c) q = Some j"
  obtains (ingest) k op where "j = http_key ''ingest'' k"
      "\<And>lost r. serve w lost c q r = respond lost 200 Ingested (idempotent (ct_ingest_codec c) ''ingest'' k op r)"
  | (start) k op where "j = http_key ''start'' k"
      "\<And>lost r. serve w lost c q r = respond lost 202 Started (idempotent (ct_start_codec c) ''start'' k op r)"
  | (answer) s k op where "s \<in> {''input'', ''approve''}" "j = http_key s k"
      "\<And>lost r. serve w lost c q r = respond lost 202 Acked (idempotent (ct_ack_codec c) s k op r)"
proof (cases q)
  case (Ingest_Photo f raw late)
  with assms obtain body photo where "read_body w read_ingest_request raw = Inr body"
    "b64decode (iq_image_b64 body) = Some photo" "\<not> cf_max_photo_bytes (ct_settings c) < int (length photo)"
    "photo \<noteq> []" "j = http_key ''ingest'' (iq_idem_key body)"
    by (auto split: sum.splits option.splits if_splits)
  with Ingest_Photo show ?thesis by (intro that(1)) (simp_all add: with_body_def ingest_photo_def)
next
  case (Start_Session k raw t)
  with assms obtain body where "read_body w read_start_request raw = Inr body"
    "j = http_key ''start'' (sq_idem_key body)" by (auto split: sum.splits)
  with Start_Session show ?thesis by (intro that(2)) (simp_all add: with_body_def start_session_def)
next
  case (Submit_Input k raw t)
  with assms obtain body where "read_body w read_input_request raw = Inr body" "nq_session_key body = k"
    "j = http_key ''input'' (nq_idem_key body)"
    by (auto split: sum.splits if_splits)
  with Submit_Input show ?thesis by (intro that(3)) (simp_all add: with_body_def submit_input_def)
next
  case (Approve_Plan k raw t)
  with assms obtain body where "read_body w read_approve_request raw = Inr body" "aq_session_key body = k"
    "j = http_key ''approve'' (aq_idem_key body)"
    by (auto split: sum.splits if_splits)
  with Approve_Plan show ?thesis by (intro that(3)) (simp_all add: with_body_def approve_plan_def)
qed (use assms in simp_all)

lemma accepted_stored:
  assumes "serve w lost c q r = (resp, r')" and "accepted (re_body resp)"
    and "record_key w (ct_settings c) q = Some j"
  shows "\<exists>p. rn_idem_get j r' = Some p \<and> stored_answer c j p resp"
  using assms(3)
proof (cases rule: key_cases)
  case (ingest k op)
  from respond_accepted [OF assms(1) [unfolded ingest(2)] assms(2)] obtain x where x: "idempotent (ct_ingest_codec c) ''ingest'' k op r = (Inr x, r')"
    "resp = \<lparr>re_status = 200, re_body = Ingested x\<rparr>" .
  from idempotent_stores [OF x(1)] obtain p where "rn_idem_get j r' = Some p" "stored_answer c j p resp"
    using x(2) ingest(1) by (auto simp: stored_answer_def)
  then show ?thesis by blast
next
  case (start k op)
  from respond_accepted [OF assms(1) [unfolded start(2)] assms(2)] obtain x where x: "idempotent (ct_start_codec c) ''start'' k op r = (Inr x, r')"
    "resp = \<lparr>re_status = 202, re_body = Started x\<rparr>" .
  from idempotent_stores [OF x(1)] obtain p where "rn_idem_get j r' = Some p" "stored_answer c j p resp"
    using x(2) start(1) by (auto simp: stored_answer_def)
  then show ?thesis by blast
next
  case (answer s k op)
  from respond_accepted [OF assms(1) [unfolded answer(3)] assms(2)] obtain x where x: "idempotent (ct_ack_codec c) s k op r = (Inr x, r')"
    "resp = \<lparr>re_status = 202, re_body = Acked x\<rparr>" .
  from idempotent_stores [OF x(1)] obtain p where "rn_idem_get j r' = Some p" "stored_answer c j p resp"
    using x(2) answer(1,2) by (auto simp: stored_answer_def)
  then show ?thesis by blast
qed

lemma key_scope:
  "s \<in> set scopes \<Longrightarrow> s' \<in> set scopes \<Longrightarrow> http_key s k = http_key s' k' \<longleftrightarrow> s = s' \<and> k = k'"
  using http_key_inj by blast

lemma stored_replayed:
  assumes "rn_idem_get j r = Some p" and "stored_answer c j p resp"
    and "record_key w (ct_settings c) q = Some j"
  shows "serve w lost c q r = (resp, r)"
  using assms(3)
proof (cases rule: key_cases)
  case (ingest k op)
  with assms(1,2) show ?thesis
    by (auto simp: stored_answer_def key_scope scopes_def idempotent_recalls respond_def)
next
  case (start k op)
  with assms(1,2) show ?thesis
    by (auto simp: stored_answer_def key_scope scopes_def idempotent_recalls respond_def)
next
  case (answer s k op)
  with assms(1,2) show ?thesis
    by (auto simp: stored_answer_def key_scope scopes_def idempotent_recalls respond_def)
qed

text \<open>Nothing that happens in between loses the record.\<close>

context graph_ports
begin

lemma app_step_records:
  assumes "app_step w lost c r r'" and "ct_services c = svc"
  shows "keeps_records r r'"
  using assms(1)
proof cases
  case (app_serve q i)
  then show ?thesis by (simp add: serve_records)
next
  case (app_advance u)
  then show ?thesis using advance_records assms(2) by (auto simp: keeps_records_def)
qed (simp_all add: keeps_records_def run_step_records stop_task_records record_effects)

lemma app_steps_records:
  assumes "(app_step w lost c)\<^sup>*\<^sup>* r r'" and "ct_services c = svc"
  shows "keeps_records r r'"
  using assms(1)
proof (induction rule: rtranclp_induct)
  case (step r1 r2)
  then show ?case using app_step_records [OF _ assms(2)] keeps_records_trans by blast
qed simp

end

end
