(* ===== verification/Lifecycle.thy ===== *)
theory Lifecycle
  imports App
begin

text \<open>
  The whole life of a run: admitted by a request, begun, taken through the graph node by node, released
  and narrated. Composes \<open>spawn\<close> and the phases of \<open>Runner\<close> with \<open>graph_run\<close> and the handlers.
\<close>

section \<open>From the queue to the narration\<close>

context graph_ports
begin

lemma graph_run_locks: "graph_run svc n st v w = (res, w') \<Longrightarrow> ms_locks (w_store w') = ms_locks (w_store w)"
  by (induction rule: graph_run_induct) (auto dest: node_locks_eq)

end

lemma told_facts:
  assumes "locks_of r (run_lock_key (ru_key u)) = Some (ru_token u)"
  shows "locks_of (told u e r) (run_lock_key (ru_key u)) = None"
    and "\<forall>x\<in>set (rn_runs (told u e r)). ru_token x \<noteq> ru_token u"
    and "rn_threads (told u (ending_of res) r) = rn_threads r"
    and "get_session k (w_store (rn_world (told u (ending_of res) r))) = get_session k (w_store (rn_world r))"
    and "w_streams (rn_world (told u (ending_of res) r)) (ru_key u) = w_streams (rn_world r) (ru_key u) @ last_words res"
  using assms
  by (simp_all add: told_def run_effects)
     (cases res; simp add: publish_to_def publish_def emit_telemetry_def split: option.split)+

definition comes_to_rest ::
  "'i services \<Rightarrow> nat \<Rightarrow> string \<Rightarrow> string \<Rightarrow> graph_outcome \<Rightarrow> world \<Rightarrow> runner \<Rightarrow> bool" where
  \<comment> \<open>after \<open>b\<close> turns of its own, with nothing in between, and from then on, the task of session \<open>k\<close> is over:
     its lock is free, its task gone, its checkpoint that of the graph's outcome, its session what the graph
     left, its stream what the graph wrote and the runner's own last event\<close>
  "comes_to_rest svc b k tok res w r \<longleftrightarrow>
     (\<forall>m \<ge> b. let r' = (own_turn svc tok ^^ m) r
        in locks_of r' (run_lock_key k) = None \<and> (\<forall>x\<in>set (rn_runs r'). ru_token x \<noteq> tok)
           \<and> rn_threads r' k = Some \<lparr>th_state = fst (checkpoint_of res), th_next = snd (checkpoint_of res)\<rparr>
           \<and> get_session k (w_store (rn_world r')) = get_session k (w_store w)
           \<and> w_streams (rn_world r') k = w_streams w k @ last_words res)"

lemma comes_to_rest_mono: "comes_to_rest svc b k tok res w r \<Longrightarrow> b \<le> b' \<Longrightarrow> comes_to_rest svc b' k tok res w r"
  unfolding comes_to_rest_def by (meson order_trans)

lemma queued_to_end:
  assumes u: "own_run tok r = Some u" "ru_phase u = Queued p"
    and e: "entry (ru_key u) p (rn_threads r (ru_key u)) = Running n st v"
    and g: "graph_run svc n st v (rn_world r) = (res, w')"
    and l: "ms_locks (w_store w') (run_lock_key (ru_key u)) = Some tok"
  shows "comes_to_rest svc (graph_measure n st + 4) (ru_key u) tok res w' r"
proof -
  have tok: "ru_token u = tok" using own_run_in [OF u(1)] by simp
  let ?r1 = "set_phase tok (Running n st v) r" and ?u1 = "u\<lparr>ru_phase := Running n st v\<rparr>"
  have r1: "own_turn svc tok r = ?r1" using u e tok by (simp add: own_turn_def enter_run_def)
  have u1: "own_run tok ?r1 = Some ?u1" using u(1) by simp
  from run_to_end [OF g u1] obtain m where m: "m \<le> Suc (graph_measure n st)"
    "(own_turn svc tok ^^ m) ?r1 = after_graph ?u1 res w' ?r1" by auto
  let ?r2 = "after_graph ?u1 res w' ?r1" and ?u2 = "u\<lparr>ru_phase := Leaving (ending_of res)\<rparr>"
  let ?r3 = "told ?u2 (ending_of res) ?r2"
  have "own_run tok ?r2 = Some ?u2" unfolding after_graph_def using u(1) tok by simp
  from own_turns_play_out [OF this, of "ending_of res" svc] have "(own_turn svc tok ^^ 2) ?r2 = ?r3" by simp
  with m(2) r1 have steps: "(own_turn svc tok ^^ (2 + m + 1)) r = ?r3" by (simp only: funpow_add) simp
  have over: "own_run tok ?r3 = None" by (rule own_run_told) (simp add: tok)
  have stays: "(own_turn svc tok ^^ M) r = ?r3" if "graph_measure n st + 4 \<le> M" for M
  proof -
    from that m(1) have "M = (M - (2 + m + 1)) + (2 + m + 1)" by simp
    then have "(own_turn svc tok ^^ M) r = (own_turn svc tok ^^ (M - (2 + m + 1))) ((own_turn svc tok ^^ (2 + m + 1)) r)"
      by (metis funpow_add comp_apply)
    then show ?thesis unfolding steps own_turn_over [OF over] .
  qed
  have "locks_of ?r2 (run_lock_key (ru_key ?u2)) = Some (ru_token ?u2)"
    using l by (simp add: after_graph_def run_effects tok)
  note facts = told_facts [OF this]
  have "rn_world ?r2 = w'" "rn_threads ?r2 (ru_key u)
      = Some \<lparr>th_state = fst (checkpoint_of res), th_next = snd (checkpoint_of res)\<rparr>"
    by (simp_all add: after_graph_def save_thread_def)
  with facts show ?thesis unfolding comes_to_rest_def Let_def using stays tok by simp
qed

lemma find_appended:
  "t \<notin> ru_token ` set us \<Longrightarrow> List.find (\<lambda>u. ru_token u = t) (us @ [u]) = (if ru_token u = t then Some u else None)"
  by (induction us) auto

text \<open>The same for a run that was just admitted.\<close>

lemma admitted_to_end:
  assumes "graph_ports h svc" and "spawn i k p t r = (True, r1)" and "fresh_token t r"
    and same: "rn_runs r0 = rn_runs r1" "rn_threads r0 = rn_threads r1" "locks_of r0 = locks_of r1"
    and e: "entry k p (rn_threads r k) = Running n st v"
    and g: "graph_run svc n st v (rn_world r0) = (res, w')"
  shows "comes_to_rest svc (graph_measure n st + 4) k t res w' r0"
proof -
  let ?u = "\<lparr>ru_replica = i, ru_key = k, ru_token = t, ru_phase = Queued p\<rparr>"
  from spawn_in_flight [OF assms(2)]
  have runs: "rn_runs r0 = rn_runs r @ [?u]" and th: "rn_threads r0 = rn_threads r"
    and lock: "locks_of r0 (run_lock_key k) = Some t" by (simp_all add: same) (simp add: locks_of_def)
  have u: "own_run t r0 = Some ?u"
    using assms(3) by (simp add: own_run_def runs find_appended fresh_token_def)
  have "ms_locks (w_store w') (run_lock_key k) = Some t"
    using graph_ports.graph_run_locks [OF assms(1) g] lock by (simp add: locks_of_def)
  with queued_to_end [OF u, of p n st v svc res w'] e g th show ?thesis by simp
qed

section \<open>Sessions that are started\<close>

lemma start_first:
  assumes "codecs_ok c" and "start_session c k body t r = (Inr y, r0)"
    and "rn_idem_get (http_key ''start'' (sq_idem_key body)) r = None"
  obtains r1 where "start_run (ct_replica c) k (sq_face_key body) (case sq_brief body of None \<Rightarrow> [] | Some b \<Rightarrow> b)
      (sq_budget_limit body) t r = (True, r1)"
    and "r0 = snd (rn_idem_put (http_key ''start'' (sq_idem_key body)) (fst (ct_start_codec c) y) r1)"
proof -
  have codec: "snd (ct_start_codec c) (fst (ct_start_codec c) z) = Inr z" for z
    using assms(1) by (simp add: codecs_ok_def)
  from assms(2) have "idempotent (ct_start_codec c) ''start'' (sq_idem_key body) (start_op c k body t) r = (Inr y, r0)"
    by (simp add: start_session_def)
  then show ?thesis
  proof (cases rule: idempotent_cases)
    case (first z r1 payload replayed)
    from start_op_accepted [OF first(2)] have st: "start_run (ct_replica c) k (sq_face_key body)
      (case sq_brief body of None \<Rightarrow> [] | Some b \<Rightarrow> b) (sq_budget_limit body) t r = (True, r1)" by blast
    then have "rn_idem_get (http_key ''start'' (sq_idem_key body)) r1 = None"
      using assms(3) spawn_idem unfolding start_run_def by (metis snd_conv)
    from idempotent_first [where codec = "ct_start_codec c" and op = "start_op c k body t", OF first(1,2) this codec]
      assms(2) have "z = y \<and> r0 = snd (rn_idem_put (http_key ''start'' (sq_idem_key body)) (fst (ct_start_codec c) y) r1)"
      by (auto simp: start_session_def)
    with st show ?thesis by (intro that) simp_all
  qed (use assms(3) in auto)
qed

lemma rn_idem_put_runs [simp]:
  "rn_runs (snd (rn_idem_put j v r)) = rn_runs r" "rn_threads (snd (rn_idem_put j v r)) = rn_threads r"
  by (simp_all add: rn_idem_put_def with_store_def split: prod.split)

lemma started_to_end:
  assumes "graph_ports h (ct_services c)" and "codecs_ok c" and "start_session c k body t r = (Inr y, r0)"
    and "rn_idem_get (http_key ''start'' (sq_idem_key body)) r = None" and "rn_threads r k = None"
    and "fresh_token t r"
    and "first_run (ct_services c) k (sq_face_key body) (case sq_brief body of None \<Rightarrow> [] | Some b \<Rightarrow> b)
      (to_micro (sq_budget_limit body)) (rn_world r0) = (res, w')"
  shows "comes_to_rest (ct_services c) 18 k t res w' r0"
proof -
  let ?brief = "case sq_brief body of None \<Rightarrow> [] | Some b \<Rightarrow> b" and ?limit = "to_micro (sq_budget_limit body)"
  let ?st = "initial_state k (sq_face_key body) ?brief ?limit"
  from start_first [OF assms(2,3,4)] obtain r1 where r1: "start_run (ct_replica c) k (sq_face_key body) ?brief
      (sq_budget_limit body) t r = (True, r1)"
    and r0: "r0 = snd (rn_idem_put (http_key ''start'' (sq_idem_key body)) (fst (ct_start_codec c) y) r1)" .
  have e: "entry k (Fresh (sq_face_key body) ?brief ?limit) (rn_threads r k) = Running Analyze ?st None"
    using assms(5) by simp
  have "comes_to_rest (ct_services c) (graph_measure Analyze ?st + 4) k t res w' r0"
    using admitted_to_end [OF assms(1) r1 [unfolded start_run_def] assms(6) _ _ _ e assms(7) [unfolded first_run_def]]
    by (simp add: r0 record_keeps)
  moreover have "graph_measure Analyze ?st + 4 \<le> 18"
    by (simp add: graph_measure_def reasks_of_def initial_state_def max_reasks_def)
  ultimately show ?thesis by (rule comes_to_rest_mono)
qed

end
