(* ===== verification/Process_Theorems.thy ===== *)
theory Process_Theorems
  imports Graph_Samples Load_Test Replay Lifecycle
begin

text \<open>
  The properties of the process: the session runner under every interleaving of its replicas, the
  HTTP surface and the event stream. Each is followed by a concrete instance.
\<close>

section \<open>A concrete process\<close>

definition sample_payload :: payload where "sample_payload = Fresh ''f1'' ''on a beach'' 1000000"

definition started_runner :: runner where   \<comment> \<open>an idle process that has admitted one start\<close>
  "started_runner = snd (spawn 0 ''s1'' sample_payload ''t1'' (idle_runner ready_world))"

lemma idle_facts [simp]:
  "rn_runs (idle_runner w) = []" "rn_world (idle_runner w) = w" "rn_tasks (idle_runner w) = (\<lambda>_. Map.empty)"
  "rn_threads (idle_runner w) = Map.empty" "locks_of (idle_runner w) = ms_locks (w_store w)"
  by (simp_all add: idle_runner_def locks_of_def)

lemma ready_unlocked [simp]: "ms_locks (w_store ready_world) = Map.empty"
  by (simp add: ready_world_def empty_store_def put_face_def)

lemma sample_deploy: "deployed sample_externals sample_settings sample_services"
  by (auto simp: deployed_def sample_services_def)

lemma started_runs:
  "rn_runs started_runner = [\<lparr>ru_replica = 0, ru_key = ''s1'', ru_token = ''t1'',
     ru_phase = Queued sample_payload\<rparr>]"
  "locks_of started_runner = [run_lock_key ''s1'' \<mapsto> ''t1'']"
  using spawn_effects(2) [of "idle_runner ready_world" "''s1''" 0 sample_payload "''t1''"]
  by (simp_all add: started_runner_def)

lemma started_step: "runner_step sample_services (idle_runner ready_world) started_runner"
  unfolding started_runner_def by (rule step_spawn) (simp add: fresh_token_def)

definition running_runner :: runner where   \<comment> \<open>and the task has begun\<close>
  "running_runner = enter_run (hd (rn_runs started_runner)) started_runner"

lemma running_runs:
  "rn_runs running_runner = [\<lparr>ru_replica = 0, ru_key = ''s1'', ru_token = ''t1'',
     ru_phase = Running Analyze (initial_state ''s1'' ''f1'' ''on a beach'' 1000000) None\<rparr>]"
  "rn_tasks running_runner 0 ''s1'' = Some ''t1''"
proof -
  have "rn_threads started_runner ''s1'' = None" "rn_tasks started_runner 0 ''s1'' = Some ''t1''"
    by (simp_all add: started_runner_def spawn_def acquire_lock_def with_store_def)
  then show "rn_runs running_runner = [\<lparr>ru_replica = 0, ru_key = ''s1'', ru_token = ''t1'',
     ru_phase = Running Analyze (initial_state ''s1'' ''f1'' ''on a beach'' 1000000) None\<rparr>]"
    "rn_tasks running_runner 0 ''s1'' = Some ''t1''"
    by (simp_all add: running_runner_def started_runs enter_run_def sample_payload_def set_phase_def)
qed

lemma running_reachable: "(runner_step sample_services)\<^sup>*\<^sup>* (idle_runner ready_world) running_runner"
proof -
  have "hd (rn_runs started_runner) \<in> set (rn_runs started_runner)" by (simp add: started_runs)
  then have "runner_step sample_services started_runner running_runner"
    unfolding running_runner_def by (rule step_begin)
  with started_step show ?thesis by (meson rtranclp.rtrancl_into_rtrancl rtranclp.rtrancl_refl)
qed

lemma ready_no_records: "rn_idem_get j (idle_runner ready_world) = None"
  by (simp add: rn_idem_get_def idem_get_def ready_world_def empty_store_def put_face_def)

lemma ready_start:
  "\<exists>y r'. start_session sample_container ''s1'' sample_body ''t1'' (idle_runner ready_world) = (Inr y, r')"
proof -
  let ?r = "idle_runner ready_world"
  have s: "get_session ''s1'' (w_store ready_world) = None"
    by (simp add: ready_world_def get_session_def empty_store_def put_face_def)
  have f: "check_face sample_body ?r = Inr ()"
    by (simp add: check_face_def sample_body_def ready_world_def sample_face_def)
  have l: "locks_of ?r (run_lock_key ''s1'') = None" by simp
  obtain r1 where "start_run 0 ''s1'' ''f1'' ''on a beach'' 1 ''t1'' ?r = (True, r1)"
    using spawn_effects(2) [OF l] unfolding start_run_def by (metis prod.collapse)
  then obtain y where o: "start_op sample_container ''s1'' sample_body ''t1'' ?r = (Inr y, r1)"
    using s f by (simp add: start_op_def sample_body_def sample_container_def Let_def)
  have "rn_idem_get j r1 = None" for j
    using start_op_accepted [OF o] spawn_idem [of j] ready_no_records unfolding start_run_def by (metis snd_conv)
  with idempotent_first [where op = "start_op sample_container ''s1'' sample_body ''t1''", OF ready_no_records o _ sample_codecs(1)]
  show ?thesis unfolding start_session_def by blast
qed

section \<open>One run at a time\<close>

text \<open>C15: A session is driven by one run at a time. In every state all replicas can reach together, by
any interleaving of starts, answers, task starts, graph steps, timeouts, cancels, releases, narrations,
shutdowns and crashes of a replica, two runs of the same session that are both inside their graph are
the same run.\<close>

theorem one_run_per_session:
  assumes "deployed ex s svc" and "(runner_step svc)\<^sup>*\<^sup>* (idle_runner w) r"
    and "u \<in> set (rn_runs r)" and "v \<in> set (rn_runs r)" and "ru_key u = ru_key v"
    and "holds_lock (ru_phase u)" and "holds_lock (ru_phase v)"
  shows "u = v"
proof -
  from assms(1) obtain h where h: "graph_ports h svc" using deployed_ports by blast
  from single_exclusive [OF graph_ports.reachable_single [OF h assms(2)] assms(3-7)] show ?thesis .
qed

theorem one_run_per_session_witness:
  "\<exists>u. rn_runs started_runner = [u] \<and> holds_lock (ru_phase u)
    \<and> (\<forall>v\<in>set (rn_runs started_runner). ru_key v = ru_key u \<longrightarrow> holds_lock (ru_phase v) \<longrightarrow> u = v)"
proof -
  have r: "(runner_step sample_services)\<^sup>*\<^sup>* (idle_runner ready_world) started_runner"
    using started_step by blast
  from one_run_per_session [OF sample_deploy r] show ?thesis by (simp add: started_runs)
qed

text \<open>C16: Admission. As long as no task is ended before its first step, while it gives back its lock or
by the death of its process, a start or an answer for a session is admitted exactly when no run of that
session is inside its graph: a run that ended, timed out, failed or was cancelled never blocks the next
one, and a refused request changes nothing.\<close>

theorem admitted_iff_not_in_flight:
  assumes "deployed ex s svc" and "(careful_step svc)\<^sup>*\<^sup>* (idle_runner w) r" and "ms_locks (w_store w) = Map.empty"
  shows "(fst (spawn i k p t r) \<longleftrightarrow> (\<forall>u\<in>set (rn_runs r). ru_key u = k \<longrightarrow> \<not> holds_lock (ru_phase u)))
    \<and> (\<not> fst (spawn i k p t r) \<longrightarrow> snd (spawn i k p t r) = r)"
proof -
  from assms(1) obtain h where h: "graph_ports h svc" using deployed_ports by blast
  from graph_ports.careful_reachable [OF h assms(2,3)] have "single r" "orderly r" by blast+
  then show ?thesis using spawn_admits spawn_refused by blast
qed

theorem admitted_iff_not_in_flight_witness:
  "\<not> fst (spawn 1 ''s1'' (Resume (Reply ''yes'')) ''t2'' started_runner)
   \<and> fst (spawn 1 ''s2'' sample_payload ''t2'' started_runner)"
proof -
  have "careful_step sample_services (idle_runner ready_world) started_runner"
    using started_step by (simp add: careful_step_def cancels_unguarded_def find_task_def crash_leaks_def)
  then have r: "(careful_step sample_services)\<^sup>*\<^sup>* (idle_runner ready_world) started_runner" by blast
  from admitted_iff_not_in_flight [OF sample_deploy r] show ?thesis by (simp add: started_runs)
qed

text \<open>C17: A started session runs to its first stop. The run that the first start of a session creates,
left to take its own turns, is the graph's own run on the brief, the face and the budget of the request:
after 18 turns and from then on the lock is free, the task gone, the checkpoint is the one the graph
computes, waiting in \<open>ask\<close> or \<open>approve\<close> or at the end, the session is what the graph stored and the
stream what it published, followed by the question when there is one, or by an internal error when a
node raised.\<close>

theorem started_session_runs_to_its_first_stop:
  assumes "deployed ex s (ct_services c)" and "codecs_ok c" and "start_session c k body t r = (Inr y, r0)"
    and "rn_idem_get (http_key ''start'' (sq_idem_key body)) r = None" and "rn_threads r k = None"
    and "fresh_token t r"
    and "first_run (ct_services c) k (sq_face_key body) (case sq_brief body of None \<Rightarrow> [] | Some b \<Rightarrow> b)
      (to_micro (sq_budget_limit body)) (rn_world r0) = (res, w')"
  shows "comes_to_rest (ct_services c) 18 k t res w' r0
    \<and> (\<forall>n st q. res = Paused n st q \<longrightarrow> n \<in> {Ask, Approve})"
proof -
  from assms(1) obtain h where "graph_ports h (ct_services c)" using deployed_ports by blast
  from started_to_end [OF this assms(2-7)] first_pause assms(7) show ?thesis by blast
qed

theorem started_session_runs_to_its_first_stop_witness:
  "\<exists>y r0 res w'. start_session sample_container ''s1'' sample_body ''t1'' (idle_runner ready_world) = (Inr y, r0)
    \<and> first_run sample_services ''s1'' ''f1'' ''on a beach'' 1000000 (rn_world r0) = (res, w')
    \<and> comes_to_rest sample_services 18 ''s1'' ''t1'' res w' r0"
proof -
  obtain y r0 where s: "start_session sample_container ''s1'' sample_body ''t1'' (idle_runner ready_world) = (Inr y, r0)"
    using ready_start by blast
  have c: "ct_services sample_container = sample_services" by (simp add: sample_container_def)
  have ok: "codecs_ok sample_container" by (simp add: codecs_ok_def sample_codecs)
  have b: "sq_face_key sample_body = ''f1''" "sq_brief sample_body = Some ''on a beach''"
    "to_micro (sq_budget_limit sample_body) = 1000000"
    by (simp_all add: sample_body_def to_micro_def to_micro_with_def micro_per_usd_def)
  obtain res w' where g: "first_run sample_services ''s1'' ''f1'' ''on a beach'' 1000000 (rn_world r0) = (res, w')"
    by fastforce
  have "rn_threads (idle_runner ready_world) ''s1'' = None" "fresh_token ''t1'' (idle_runner ready_world)"
    by (simp_all add: fresh_token_def)
  from started_session_runs_to_its_first_stop [OF sample_deploy [folded c] ok s ready_no_records this, of res w'] g c b s
  show ?thesis by auto
qed

section \<open>How a run ends\<close>

text \<open>C18: The wall clock. A run that exceeds it inside any node is over three steps later, whatever
that node had done: its session is stored as failed, its stream has one more event that says so with the
session's own iterations, generations and cost, one telemetry record carries the reason and the code,
the run lock is free and the checkpoint is the node that was interrupted.\<close>

theorem deadline_ends_the_run:
  assumes "deployed ex s svc" and "(runner_step svc)\<^sup>*\<^sup>* (idle_runner w0) r"
    and "u \<in> set (rn_runs r)" and "ru_phase u = Running n st v" and "partial_run (ru_key u) (rn_world r) w"
    and "get_session (ru_key u) (w_store w) = Some x" and "ss_session_key x = ru_key u"
  shows "\<exists>r'. (runner_step svc ^^ 3) r r'
    \<and> get_session (ru_key u) (w_store (rn_world r')) = Some (x\<lparr>ss_fsm_state := FAILED\<rparr>)
    \<and> w_streams (rn_world r') (ru_key u) = w_streams w (ru_key u)
        @ [FailedEvent WALL_CLOCK wall_clock_reason None (length (ss_iterations x)) (generations_spent x) (cost_spent x)]
    \<and> rn_telemetry r' = rn_telemetry r
        @ [session_terminal (x\<lparr>ss_fsm_state := FAILED\<rparr>) (Some wall_clock_reason) (Some ''wall_clock'')]
    \<and> locks_of r' (run_lock_key (ru_key u)) = None
    \<and> (\<forall>y\<in>set (rn_runs r'). ru_token y \<noteq> ru_token u)
    \<and> rn_threads r' (ru_key u) = Some \<lparr>th_state = st, th_next = Some n\<rparr>"
proof -
  from assms(1) obtain h where h: "graph_ports h svc" using deployed_ports by blast
  from deadline_to_end [OF graph_ports.reachable_single [OF h assms(2)] assms(3-7)] show ?thesis .
qed

theorem deadline_ends_the_run_witness:
  "\<exists>r'. (runner_step sample_services ^^ 3) running_runner r' \<and> locks_of r' (run_lock_key ''s1'') = None
    \<and> w_streams (rn_world r') ''s1'' = w_streams (rn_world running_runner) ''s1''
        @ [FailedEvent WALL_CLOCK wall_clock_reason None 0 0 0]"
proof -
  let ?w = "(rn_world running_runner)\<lparr>w_store := put_session (new_session ''s1'' ''f1'' 1) (w_store (rn_world running_runner))\<rparr>"
  have k: "ss_session_key (new_session ''s1'' ''f1'' 1) = ''s1''" by (simp add: new_session_def)
  have p: "partial_run ''s1'' (rn_world running_runner) ?w" by (simp add: partial_run_def k)
  have x: "get_session ''s1'' (w_store ?w) = Some (new_session ''s1'' ''f1'' 1)"
    by (simp add: get_session_def put_session_def k)
  from deadline_ends_the_run [OF sample_deploy running_reachable, of "hd (rn_runs running_runner)"] p x k
  show ?thesis
    by (fastforce simp: running_runs new_session_def generations_spent_def cost_spent_def)
qed

text \<open>C19: Cancel. Cancelling a session on the replica that runs it, while its task is inside its graph,
ends the run and frees the lock: afterwards no run of the session is inside its graph and the next start
is not blocked. The session, when its record exists by then, is stored as cancelled, its stream has one
more event that says so with the session's own iterations, generations and cost, and one telemetry record
carries the reason and the code. (A task that has not begun, or that is giving back its lock, is outside
the handler that releases it: \<open>cancel_unguarded_leaks\<close>.)\<close>

theorem cancel_frees_the_session:
  assumes "deployed ex s svc" and "(runner_step svc)\<^sup>*\<^sup>* (idle_runner w0) r"
    and "find_task i k r = Some u" and "ru_phase u = Running n st v" and "ru_key u = k"
    and "partial_run k (rn_world r) w"
  shows "locks_of (cancel_run i k w r) (run_lock_key k) = None
    \<and> (\<forall>x\<in>set (rn_runs (cancel_run i k w r)). ru_key x = k \<longrightarrow> \<not> holds_lock (ru_phase x))
    \<and> fst (spawn j k p t (cancel_run i k w r))
    \<and> (\<forall>x. get_session k (w_store w) = Some x \<longrightarrow> ss_session_key x = k \<longrightarrow>
         get_session k (w_store (rn_world (cancel_run i k w r))) = Some (x\<lparr>ss_fsm_state := CANCELLED\<rparr>)
         \<and> w_streams (rn_world (cancel_run i k w r)) k = w_streams w k
             @ [FailedEvent CODE_CANCELLED cancelled_reason None (length (ss_iterations x)) (generations_spent x)
                  (cost_spent x)]
         \<and> rn_telemetry (cancel_run i k w r) = rn_telemetry r
             @ [session_terminal (x\<lparr>ss_fsm_state := CANCELLED\<rparr>) (Some cancelled_reason) (Some ''cancelled'')])"
proof -
  from assms(1) obtain h where h: "graph_ports h svc" using deployed_ports by blast
  from cancel_stops [OF graph_ports.reachable_single [OF h assms(2)] assms(3-6)] spawn_effects(2) [of "cancel_run i k w r"]
    cancel_told [OF assms(3-5), of w]
  show ?thesis by blast
qed

theorem cancel_frees_the_session_witness:
  "\<exists>w r'. r' = cancel_run 0 ''s1'' w running_runner \<and> fst (spawn 0 ''s1'' sample_payload ''t2'' r')
    \<and> get_session ''s1'' (w_store (rn_world r')) = Some ((new_session ''s1'' ''f1'' 1)\<lparr>ss_fsm_state := CANCELLED\<rparr>)"
proof -
  let ?w = "(rn_world running_runner)\<lparr>w_store := put_session (new_session ''s1'' ''f1'' 1) (w_store (rn_world running_runner))\<rparr>"
  have k: "ss_session_key (new_session ''s1'' ''f1'' 1) = ''s1''" by (simp add: new_session_def)
  have f: "find_task 0 ''s1'' running_runner = Some \<lparr>ru_replica = 0, ru_key = ''s1'', ru_token = ''t1'',
     ru_phase = Running Analyze (initial_state ''s1'' ''f1'' ''on a beach'' 1000000) None\<rparr>"
    by (simp add: find_task_def running_runs)
  have p: "partial_run ''s1'' (rn_world running_runner) ?w" by (simp add: partial_run_def k)
  have x: "get_session ''s1'' (w_store ?w) = Some (new_session ''s1'' ''f1'' 1)"
    by (simp add: get_session_def put_session_def k)
  from cancel_frees_the_session [OF sample_deploy running_reachable f _ _ p, of _ _ _ 0 sample_payload "''t2''"] x k
  show ?thesis by auto
qed

text \<open>C20: Sensitive fields are not logged. Whatever the caller binds, the context adds and structlog's own
processors put into an event, a line that is written renders an event in which every value under a
sensitive name that is reached through mappings alone, at any depth, has been replaced. (The scrubber does
not look inside lists: \<open>lists_not_scrubbed\<close>.)\<close>

theorem log_lines_are_scrubbed:
  assumes "configure_logging lib s = Inr c" and "log_line c method event = Some line"
  shows "\<exists>e. line = (if cf_log_json s then lo_json_renderer lib else lo_console_renderer lib) e
    \<and> (\<forall>key v. reaches e key v \<longrightarrow> lower key \<in> set sensitive_keys \<longrightarrow> v = redacted)"
  using configured_line [OF assms] scrub_clean by metis

definition sample_structlog :: structlog where   \<comment> \<open>an exception's text arrives under a sensitive name\<close>
  "sample_structlog =
     \<lparr>lo_merge_contextvars = (\<lambda>_ e. e), lo_add_log_level = (\<lambda>m e. e @ [(''level'', Log_Text m)]),
      lo_time_stamper = (\<lambda>_ e. e), lo_stack_info = (\<lambda>_ e. e),
      lo_format_exc_info = (\<lambda>_ e. e @ [(''exception'', Log_Dict [(''Prompt'', Log_Text ''secret'')])]),
      lo_json_renderer = (\<lambda>e. if reaches e ''Prompt'' redacted then ''clean'' else ''leak''),
      lo_console_renderer = (\<lambda>e. ''console'')\<rparr>"

theorem log_lines_are_scrubbed_witness:
  "\<exists>c. configure_logging sample_structlog (default_settings\<lparr>cf_log_json := True\<rparr>) = Inr c
    \<and> (\<exists>line e. log_line c ''error'' [] = Some line \<and> line = lo_json_renderer sample_structlog e
         \<and> (\<forall>v. reaches e ''Prompt'' v \<longrightarrow> v = redacted))"
proof -
  let ?s = "default_settings\<lparr>cf_log_json := True\<rparr>"
  obtain c where c: "configure_logging sample_structlog ?s = Inr c"
    using configure_logging_total [of ?s sample_structlog] by (auto simp: default_settings_def)
  then obtain line where "log_line c ''error'' [] = Some line"
    by (auto simp: configure_logging_def log_line_def default_settings_def level_names_def method_levels_def)
  moreover have "lower ''Prompt'' \<in> set sensitive_keys" by code_simp
  ultimately show ?thesis using log_lines_are_scrubbed [OF c, of "''error''" "[]" line] c by fastforce
qed

section \<open>HTTP\<close>

definition waiting_runner :: runner where   \<comment> \<open>session \<open>s1\<close> has asked its question\<close>
  "waiting_runner = (idle_runner (ready_world\<lparr>w_store := put_session
      ((new_session ''s1'' ''f1'' 1)\<lparr>ss_fsm_state := NEED_INPUT\<rparr>) (w_store ready_world)\<rparr>))
     \<lparr>rn_threads := [''s1'' \<mapsto> \<lparr>th_state = sample_start, th_next = Some Ask\<rparr>]\<rparr>"

definition sample_answer :: input_request where
  "sample_answer = \<lparr>nq_session_key = ''s1'', nq_slot = ''scene'', nq_value = ''a beach'', nq_idem_key = ''i2''\<rparr>"

lemma waiting_no_records: "rn_idem_get j waiting_runner = None"
  by (simp add: waiting_runner_def idle_runner_def rn_idem_get_def idem_get_def ready_world_def empty_store_def
      put_face_def put_session_def)

lemma waiting_answer: "\<exists>a r'. submit_input sample_container ''s1'' sample_answer ''t1'' waiting_runner = (Inr a, r')"
proof -
  let ?op = "\<lambda>r. resume_op sample_container ''s1'' (awaiting NEED_INPUT ''input'' ''s1'' r)
      (Reply ''a beach'') PLANNING ''t1'' r"
  have l: "locks_of waiting_runner (run_lock_key ''s1'') = None"
    by (simp add: waiting_runner_def idle_runner_def locks_of_def ready_world_def empty_store_def put_face_def
        put_session_def)
  obtain r1 where sp: "resume_run 0 ''s1'' (Reply ''a beach'') ''t1'' waiting_runner = (True, r1)"
    using spawn_effects(2) [OF l] unfolding resume_run_def by (metis prod.collapse)
  have "get_session ''s1'' (w_store (rn_world waiting_runner))
      = Some ((new_session ''s1'' ''f1'' 1)\<lparr>ss_fsm_state := NEED_INPUT\<rparr>)"
    by (simp add: waiting_runner_def idle_runner_def new_session_def)
  with sp have o: "?op waiting_runner = (Inr (ack ''s1'' PLANNING), r1)"
    by (simp add: resume_op_def awaiting_def session_or_404_def sample_container_def)
  have "rn_idem_get j r1 = None" for j
    using sp spawn_idem [of j 0 "''s1''" _ "''t1''" waiting_runner] waiting_no_records
    unfolding resume_run_def by (metis snd_conv)
  with idempotent_first [where op = ?op, OF waiting_no_records o _ sample_codecs(2)]
  show ?thesis by (simp add: submit_input_def sample_answer_def)
qed

text \<open>C21: Retries. Once a mutating request was accepted, every later request that comes down to the same
idempotency record gets the same response and changes nothing: whichever replica serves it, whatever else
it asks for, and whatever happened in between, other requests, runs going on, deadlines, cancellations
and crashes (the TTL of the record apart). No second run, no second session, no second answer.\<close>

theorem accepted_requests_are_replayed:
  assumes "deployed ex s (ct_services c)"
    and "serve w lost (c\<lparr>ct_replica := i\<rparr>) q r = (resp, r1)" and "accepted (re_body resp)"
    and "record_key w (ct_settings c) q = Some j" and "(app_step w lost c)\<^sup>*\<^sup>* r1 r2"
    and "record_key w (ct_settings c) q' = Some j"
  shows "serve w lost (c\<lparr>ct_replica := i'\<rparr>) q' r2 = (resp, r2)"
proof -
  from assms(1) obtain h where ports: "graph_ports h (ct_services c)" by (elim deployed_ports)
  have keys: "record_key w (ct_settings (c\<lparr>ct_replica := i\<rparr>)) q = Some j" for i using assms(4) by simp
  from accepted_stored [OF assms(2,3) keys] obtain p where p: "rn_idem_get j r1 = Some p"
    "stored_answer (c\<lparr>ct_replica := i\<rparr>) j p resp" by blast
  from graph_ports.app_steps_records [OF ports assms(5) refl] p(1) have p2: "rn_idem_get j r2 = Some p"
    by (rule keeps_records_get)
  have "stored_answer (c\<lparr>ct_replica := i'\<rparr>) j p resp" using p(2) by (simp add: stored_answer_def)
  from stored_replayed [OF p2 this] assms(6) show ?thesis by simp
qed

definition start_text :: "string \<Rightarrow> bytes" where   \<comment> \<open>the body of a start with the given brief\<close>
  "start_text brief = wi_dumps sample_wire
     (JObj [(''face_key'', JStr ''f1''), (''brief'', JStr brief), (''budget_limit'', JInt 1),
            (''idem_key'', JStr ''i1'')])"

lemma start_text_read:
  "read_body sample_wire read_start_request (start_text brief) = Inr (sample_body\<lparr>sq_brief := Some brief\<rparr>)"
  by (simp add: read_body_def start_text_def sample_wire_def or_invalid_def read_start_request_def
      read_simps read_opt_def sample_body_def) (simp add: optional_def)

theorem accepted_requests_are_replayed_witness:
  "\<exists>resp r1 r2. serve sample_wire (\<lambda>_. False) sample_container (Start_Session ''s1'' (start_text ''on a beach'') ''t1'')
        (idle_runner ready_world) = (resp, r1)
    \<and> r2 = crash_replica 0 (enter_run (hd (rn_runs r1)) r1) \<and> re_status resp = 202
    \<and> serve sample_wire (\<lambda>_. False) (sample_container\<lparr>ct_replica := 7\<rparr>)
        (Start_Session ''s2'' (start_text ''in the snow'') ''t2'') r2 = (resp, r2)"
proof -
  let ?q = "Start_Session ''s1'' (start_text ''on a beach'') ''t1''"
  let ?q' = "Start_Session ''s2'' (start_text ''in the snow'') ''t2''"
  have c: "sample_container\<lparr>ct_replica := 0\<rparr> = sample_container" by (simp add: sample_container_def)
  have d: "deployed sample_externals sample_settings (ct_services sample_container)"
    using sample_deploy by (simp add: sample_container_def)
  obtain y r1 where s: "start_session sample_container ''s1'' sample_body ''t1'' (idle_runner ready_world) = (Inr y, r1)"
    using ready_start by blast
  have "sample_body\<lparr>sq_brief := Some ''on a beach''\<rparr> = sample_body" by (simp add: sample_body_def)
  with s have r: "serve sample_wire (\<lambda>_. False) (sample_container\<lparr>ct_replica := 0\<rparr>) ?q (idle_runner ready_world)
      = (\<lparr>re_status = 202, re_body = Started y\<rparr>, r1)"
    by (simp add: c with_body_def start_text_read respond_def)
  let ?r2 = "crash_replica 0 (enter_run (hd (rn_runs r1)) r1)"
  have steps: "(app_step sample_wire (\<lambda>_. False) sample_container)\<^sup>*\<^sup>* r1 ?r2"
    by (meson app_begin app_crash converse_rtranclp_into_rtranclp r_into_rtranclp)
  have k: "record_key sample_wire (ct_settings sample_container) ?q = Some (http_key ''start'' ''i1'')"
    "record_key sample_wire (ct_settings sample_container) ?q' = Some (http_key ''start'' ''i1'')"
    by (simp_all add: start_text_read sample_body_def)
  from accepted_requests_are_replayed [OF d r _ k(1) steps k(2), of 7] r c show ?thesis by auto
qed

text \<open>C22: A refused request leaves no trace. Whatever is asked of whichever endpoint, with whatever body, as
long as the store and the storage answer: a response with an error status means that nothing changed, no
run, no lock, no session, no idempotency record, so the same request is executed again once what blocked
it is gone. The one exception is an ingest: its photo may already have replaced the stored one, and one
that timed out, at any of its awaits, may also have replaced the profile and the crop of that face, and
nothing else.\<close>

theorem refused_requests_leave_no_trace:
  assumes "codecs_ok c" and "serve w lost c q r = (resp, r')" and "400 \<le> re_status resp"
    and "\<And>k raw v body photo. q = Ingest_Photo k raw (Some v) \<Longrightarrow> read_body w read_ingest_request raw = Inr body
      \<Longrightarrow> b64decode (iq_image_b64 body) = Some photo \<Longrightarrow> v \<in> set (ingest_stages c k photo (rn_world r))"
  shows "r' = r \<or> (\<exists>k raw late body photo. q = Ingest_Photo k raw late
    \<and> read_body w read_ingest_request raw = Inr body \<and> b64decode (iq_image_b64 body) = Some photo
    \<and> face_only k r r'
    \<and> (late = None \<longrightarrow>
         r' = r\<lparr>rn_world := (rn_world r)\<lparr>w_objects := (w_objects (rn_world r))(photo_ref k \<mapsto> photo)\<rparr>\<rparr>))"
  by (rule refused_clean [OF assms])

definition other_face_body :: bytes where   \<comment> \<open>a start on a face that was never ingested\<close>
  "other_face_body = wi_dumps sample_wire
     (JObj [(''face_key'', JStr ''f2''), (''brief'', JStr ''on a beach''), (''budget_limit'', JInt 1),
            (''idem_key'', JStr ''i1'')])"

theorem refused_requests_leave_no_trace_witness:
  "\<exists>resp. serve sample_wire (\<lambda>_. False) sample_container (Start_Session ''s1'' other_face_body ''t1'')
      (idle_runner ready_world) = (resp, idle_runner ready_world) \<and> re_status resp = 404"
proof -
  let ?q = "Start_Session ''s1'' other_face_body ''t1''"
  let ?b = "sample_body\<lparr>sq_face_key := ''f2''\<rparr>"
  have f: "get_face ''f2'' (w_store ready_world) = None" "w_objects ready_world (photo_ref ''f2'') = None"
    by (simp_all add: ready_world_def get_face_def put_face_def empty_store_def sample_face_def photo_ref_def)
  have s: "get_session ''s1'' (w_store ready_world) = None"
    by (simp add: ready_world_def get_session_def empty_store_def put_face_def)
  have ok: "codecs_ok sample_container" by (simp add: codecs_ok_def sample_codecs)
  have b: "read_body sample_wire read_start_request other_face_body = Inr ?b"
    by (simp add: read_body_def other_face_body_def sample_wire_def or_invalid_def read_start_request_def
        read_simps read_opt_def sample_body_def) (simp add: optional_def)
  obtain m where "start_op sample_container ''s1'' ?b ''t1'' (idle_runner ready_world)
      = (Inl (http 404 m), idle_runner ready_world)"
    using f s by (simp add: start_op_def check_face_def)
  from idempotent_rejects [where op = "start_op sample_container ''s1'' ?b ''t1''", OF ready_no_records this] b
  obtain resp r' where r: "serve sample_wire (\<lambda>_. False) sample_container ?q (idle_runner ready_world) = (resp, r')"
    "re_status resp = 404"
    by (auto simp: start_session_def respond_def error_response_def http_def with_body_def)
  from refused_requests_leave_no_trace [OF ok r(1)] r show ?thesis by auto
qed

text \<open>C23: An accepted answer goes to the question that was asked: the session was waiting for input, one
run is created, and when it begins it executes the pending node of the session's checkpoint, in the
saved state, with the text of the answer. Left to take its own turns it then comes to rest exactly as the
graph's own run from there does, within the measure of the graph.\<close>

theorem answer_reaches_the_pending_node:
  assumes "submit_input c k body t r = (Inr a, r')" and "rn_idem_get (http_key ''input'' (nq_idem_key body)) r = None"
    and "\<And>y. snd (ct_ack_codec c) (fst (ct_ack_codec c) y) = Inr y"
    and "rn_threads r k = Some th" and "th_next th = Some n" and "deployed ex s0 (ct_services c)"
    and "fresh_token t r"
  shows "a = ack k PLANNING \<and> (\<exists>s. get_session k (w_store (rn_world r)) = Some s \<and> ss_fsm_state s = NEED_INPUT)
    \<and> (\<exists>u. rn_runs r' = rn_runs r @ [u] \<and> ru_key u = k \<and> ru_token u = t
         \<and> enter_run u r' = set_phase t (Running n (th_state th) (Some (Reply (nq_value body)))) r')
    \<and> (\<forall>res w'. graph_run (ct_services c) n (th_state th) (Some (Reply (nq_value body))) (rn_world r') = (res, w')
         \<longrightarrow> comes_to_rest (ct_services c) (graph_measure n (th_state th) + 4) k t res w' r')"
proof -
  let ?op = "\<lambda>r. resume_op c k (awaiting NEED_INPUT ''input'' k r) (Reply (nq_value body)) PLANNING t r"
  from assms(1) have i: "idempotent (ct_ack_codec c) ''input'' (nq_idem_key body) ?op r = (Inr a, r')"
    by (simp add: submit_input_def split: if_splits)
  then show ?thesis
  proof (cases rule: idempotent_cases)
    case (first y r1 payload replayed)
    from resume_op_accepted [OF first(2)] awaiting_Inr obtain s where
      s: "get_session k (w_store (rn_world r)) = Some s" "ss_fsm_state s = NEED_INPUT"
      and sp: "spawn (ct_replica c) k (Resume (Reply (nq_value body))) t r = (True, r1)" and y: "y = ack k PLANNING"
      unfolding resume_run_def by metis
    have "rn_idem_get (http_key ''input'' (nq_idem_key body)) r1 = None"
      using spawn_idem [of _ "ct_replica c" k _ t r] sp assms(2) by (metis snd_conv)
    from idempotent_first [where op = ?op, OF assms(2) first(2) this assms(3)] i
    have eq: "a = y" "rn_runs r' = rn_runs r1" "rn_threads r' = rn_threads r1" "locks_of r' = locks_of r1"
      by (auto simp: rn_idem_put_def idem_put_def with_store_def locks_of_def split: prod.splits)
    from assms(6) obtain h where "graph_ports h (ct_services c)" using deployed_ports by blast
    from admitted_to_end [OF this sp assms(7) eq(2-4)] spawn_in_flight [OF sp] s y assms(4,5) eq(1-3)
    show ?thesis by (simp add: enter_run_def)
  qed (use assms(2) in simp_all)
qed

theorem answer_reaches_the_pending_node_witness:
  "\<exists>a r'. submit_input sample_container ''s1'' sample_answer ''t1'' waiting_runner = (Inr a, r')
    \<and> (\<exists>u. rn_runs r' = [u] \<and> enter_run u r' = set_phase ''t1'' (Running Ask sample_start (Some (Reply ''a beach''))) r')"
proof -
  obtain a r' where s: "submit_input sample_container ''s1'' sample_answer ''t1'' waiting_runner = (Inr a, r')"
    using waiting_answer by blast
  have d: "deployed sample_externals sample_settings (ct_services sample_container)"
    using sample_deploy by (simp add: sample_container_def)
  have th: "rn_threads waiting_runner ''s1'' = Some \<lparr>th_state = sample_start, th_next = Some Ask\<rparr>"
    and none: "rn_runs waiting_runner = []"
    by (simp_all add: waiting_runner_def idle_runner_def)
  have "fresh_token ''t1'' waiting_runner"
    by (simp add: fresh_token_def none) (simp add: waiting_runner_def idle_runner_def ready_world_def empty_store_def
        put_face_def put_session_def)
  from answer_reaches_the_pending_node [OF s waiting_no_records sample_codecs(2) th _ d this, of Ask] s none show ?thesis
    by (fastforce simp: sample_answer_def)
qed

text \<open>C24: The run lock is a lease. With time passing without bound, processes dying at any moment and every
lock expiring after its TTL: a run that has driven its graph for at most the wall clock and spent less
than the grace around it still holds the lock of its session, so no two such runs drive one session, and
a late run never takes the lock of another with it; and whatever happened to the holder, the lock can be
taken again after the wall clock and the grace at the latest. (That a run is in time is a hypothesis:
\<open>asyncio.timeout\<close> bounds the driving only, and a run that is late may have lost its lock.)\<close>

theorem run_lock_is_a_lease:
  assumes "(lease_step wall_clock)\<^sup>*\<^sup>* (new_lease now t) l" and "\<And>k. t (lock_key (run_lock_key k)) = None"
  shows "(\<forall>h\<in>set (le_holders l). in_time wall_clock h
      \<longrightarrow> live (le_now l) (le_redis l) (lock_key (run_lock_key (ho_key h))) = Some (ho_token h))
    \<and> (\<forall>g\<in>set (le_holders l). \<forall>h\<in>set (le_holders l).
         in_time wall_clock g \<longrightarrow> in_time wall_clock h \<longrightarrow> ho_key g = ho_key h \<longrightarrow> g = h)
    \<and> fst (timed_acquire (le_now l + run_lock_ttl wall_clock) ttl (run_lock_key k) tok (le_redis l))"
proof -
  from lease_reachable [OF assms] have inv: "lease_inv wall_clock l" .
  then have "live (le_now l + run_lock_ttl wall_clock) (le_redis l) (lock_key (run_lock_key k)) = None"
    by (fastforce simp: lease_inv_def live_def split: option.splits)
  with inv holder_live lease_exclusive [OF inv] show ?thesis
    by (auto simp: lease_inv_def list_all_iff timed_acquire_def set_nx_ex_def)
qed

theorem run_lock_is_a_lease_witness:
  "\<exists>l h. (lease_step 900)\<^sup>*\<^sup>* (new_lease 0 Map.empty) l \<and> le_holders l = [h] \<and> ho_key h = ''s1'' \<and> le_now l = 1
    \<and> live 1 (le_redis l) (lock_key (run_lock_key ''s1'')) = Some ''t1''
    \<and> fst (timed_acquire 961 960 (run_lock_key ''s1'') ''t2'' (le_redis l))"
proof -
  let ?start = "take_lease 900 ''s1'' ''t1'' (new_lease 0 Map.empty)"
  let ?l = "?start\<lparr>le_now := Suc (le_now ?start), le_holders := map wait_second (le_holders ?start)\<rparr>"
  have "lease_step 900 (new_lease 0 Map.empty) ?start"
    by (rule lease_step.take) (simp add: new_token_def new_lease_def)
  with lease_step.tick [of 900 ?start] have r: "(lease_step 900)\<^sup>*\<^sup>* (new_lease 0 Map.empty) ?l"
    by (meson rtranclp.rtrancl_into_rtrancl rtranclp.rtrancl_refl)
  have l: "le_holders ?l = [\<lparr>ho_key = ''s1'', ho_token = ''t1'', ho_since = 0, ho_stage = Waiting,
      ho_driven = 0, ho_idle = 1\<rparr>]" "le_now ?l = 1"
    by (simp_all add: take_lease_def new_lease_def timed_acquire_def set_nx_ex_def set_ex_def wait_second_def)
  from run_lock_is_a_lease [OF r] have
    "live 1 (le_redis ?l) (lock_key (run_lock_key ''s1'')) = Some ''t1''"
    "fst (timed_acquire 961 960 (run_lock_key ''s1'') ''t2'' (le_redis ?l))"
    unfolding l by (simp_all add: in_time_def run_lock_ttl_def run_lock_grace_seconds_def)
  with r l show ?thesis by (intro exI [of _ ?l]) simp
qed

text \<open>C25: What ingest answers, start keeps to. After a photo was ingested, a session on its face starts
if and only if the response said \<open>accepted\<close>: then the run is in flight, otherwise the start is a 422
that changes nothing. The stored photo is the one that was sent.\<close>

theorem ingest_decides_start:
  assumes "codecs_ok c" and "ingest_photo c face body None r = (Inr y, r')"
    and "rn_idem_get (http_key ''ingest'' (iq_idem_key body)) r = None"
    and "sq_face_key q = face" and "get_session k (w_store (rn_world r)) = None"
    and "locks_of r (run_lock_key k) = None" and "rn_idem_get (http_key ''start'' (sq_idem_key q)) r = None"
  shows "(if ir_accepted y then \<exists>a r2. start_session c k q t r' = (Inr a, r2) \<and> sr_session_key a = k
            \<and> (\<exists>u\<in>set (rn_runs r2). ru_key u = k \<and> ru_token u = t)
          else \<exists>d. start_session c k q t r' = (Inl (http 422 d), r'))
    \<and> w_objects (rn_world r') (photo_ref face) = b64decode (iq_image_b64 body)"
proof -
  from ingest_leaves [OF assms(1-3), of k "sq_idem_key q"] obtain f photo where
    f: "get_face face (w_store (rn_world r')) = Some f" "y = ingest_response_of face f"
    and p: "b64decode (iq_image_b64 body) = Some photo" "w_objects (rn_world r') (photo_ref face) = Some photo"
    and keeps: "get_session k (w_store (rn_world r')) = get_session k (w_store (rn_world r))"
      "locks_of r' = locks_of r"
      "rn_idem_get (http_key ''start'' (sq_idem_key q)) r' = rn_idem_get (http_key ''start'' (sq_idem_key q)) r" .
  have "if fp_gate_verdict f \<noteq> BELOW_FLOOR \<and> fp_embedding f \<noteq> []
      then \<exists>a r2. start_session c k q t r' = (Inr a, r2) \<and> sr_session_key a = k
        \<and> (\<exists>u\<in>set (rn_runs r2). ru_key u = k \<and> ru_token u = t)
      else \<exists>d. start_session c k q t r' = (Inl (http 422 d), r')"
    by (rule start_on_face [OF assms(1)]) (use f(1) keeps assms(4-7) in simp_all)
  with f(2) p show ?thesis by (simp add: ingest_response_of_def)
qed

definition sharp_pil :: "nat pil" where   \<comment> \<open>every photo is a sharp chessboard\<close>
  "sharp_pil = sample_pil\<lparr>pil_luma :=
     (\<lambda>_. [[0, 255, 0, 255], [255, 0, 255, 0], [0, 255, 0, 255], [255, 0, 255, 0]])\<rparr>"

definition sharp_container :: "nat container" where
  "sharp_container = sample_container
     \<lparr>ct_services := sample_services\<lparr>sv_pil := sharp_pil, sv_detect := fake_analyze sharp_pil\<rparr>\<rparr>"

definition sharp_body :: ingest_request where
  "sharp_body = \<lparr>iq_image_b64 = b64encode ''raw'', iq_idem_key = ''i9''\<rparr>"

lemma sharp_photo:
  "case ingest sharp_pil (fake_analyze sharp_pil) (gate_thresholds_of sample_settings) ''raw'' ''f9'' (photo_ref ''f9'') of
     Inl _ \<Rightarrow> False | Inr i \<Rightarrow> fp_gate_verdict (fi_profile i) \<noteq> BELOW_FLOOR \<and> fp_embedding (fi_profile i) \<noteq> []"
  by code_simp

lemma sharp_ingested:
  "\<exists>y r'. ingest_photo sharp_container ''f9'' sharp_body None (idle_runner ready_world) = (Inr y, r') \<and> ir_accepted y"
proof -
  let ?r = "idle_runner ready_world"
  obtain i where i: "ingest sharp_pil (fake_analyze sharp_pil) (gate_thresholds_of sample_settings) ''raw'' ''f9''
      (photo_ref ''f9'') = Inr i" "fp_gate_verdict (fi_profile i) \<noteq> BELOW_FLOOR" "fp_embedding (fi_profile i) \<noteq> []"
    using sharp_photo by (auto split: sum.splits)
  have g: "sv_gate sample_services = gate_thresholds_of sample_settings"
    by (simp add: sample_services_def fake_services_def)
  have "\<exists>r1. ingest_op sharp_container ''f9'' ''raw'' None ?r = (Inr (ingest_response_of ''f9'' (fi_profile i)), r1)"
    using i(1) by (cases "fi_face_crop i") (simp_all add: ingest_op_def on_world_def ingest_steps_def obind_def
        storage_put_def lift_res_def ret_def op_put_face_def sharp_container_def Let_def g)
  then obtain r1 where
    o: "ingest_op sharp_container ''f9'' ''raw'' None ?r = (Inr (ingest_response_of ''f9'' (fi_profile i)), r1)" by blast
  have none: "rn_idem_get (http_key ''ingest'' ''i9'') r1 = None"
    using ingest_op_effect(1) [OF o] ready_no_records by simp
  have m: "\<not> cf_max_photo_bytes (ct_settings sharp_container) < int (length ''raw'')"
    by (simp add: sharp_container_def sample_container_def sample_settings_def default_settings_def)
  from idempotent_first [where codec = "ct_ingest_codec sharp_container"
      and op = "ingest_op sharp_container ''f9'' ''raw'' None", OF ready_no_records o none] m i(2,3) show ?thesis
    by (simp add: ingest_photo_def sharp_body_def b64_roundtrip sample_codecs sharp_container_def ingest_response_of_def)
qed

theorem ingest_decides_start_witness:
  "\<exists>y r' a r2. ingest_photo sharp_container ''f9'' sharp_body None (idle_runner ready_world) = (Inr y, r')
    \<and> start_session sharp_container ''s9'' (sample_body\<lparr>sq_face_key := ''f9''\<rparr>) ''t9'' r' = (Inr a, r2)
    \<and> w_objects (rn_world r') (photo_ref ''f9'') = Some ''raw''"
proof -
  obtain y r' where i: "ingest_photo sharp_container ''f9'' sharp_body None (idle_runner ready_world) = (Inr y, r')"
    "ir_accepted y" using sharp_ingested by blast
  have ok: "codecs_ok sharp_container" using sample_codecs by (simp add: codecs_ok_def sharp_container_def)
  have s: "get_session ''s9'' (w_store (rn_world (idle_runner ready_world))) = None"
    by (simp add: idle_runner_def ready_world_def get_session_def empty_store_def put_face_def)
  have l: "locks_of (idle_runner ready_world) (run_lock_key ''s9'') = None"
    by (simp add: locks_of_def idle_runner_def ready_world_def empty_store_def put_face_def)
  from ingest_decides_start [OF ok i(1) ready_no_records, of "sample_body\<lparr>sq_face_key := ''f9''\<rparr>" "''s9''" "''t9''"]
    s l ready_no_records i show ?thesis
    by (auto simp: sharp_body_def b64_roundtrip)
qed

section \<open>The event stream\<close>

text \<open>C26: Reconnecting. On the in-memory bus a client that reconnects with the id of the last event it saw
gets exactly what it missed and what was published meanwhile, in order: nothing lost, nothing twice. On
Redis Streams, whatever was published in between and whatever \<open>MAXLEN\<close> trimmed or the TTL of the stream
removed, it never gets an event twice or out of order, only a newest part of what it missed; and it gets
all of it as long as the stream did not expire and what it missed fits in \<open>maxlen\<close>.\<close>

theorem reconnect_resumes_after_the_last_seen:
  assumes "bus_after k None mb = mseen @ [(j, d)] @ mrest"
    and "history now (seen @ [(i, e)] @ rest) (rb (stream_key k))" and "sorted (now # map fst ps)" and "ttl \<noteq> Some 0"
    and "publish_all ttl k ps rb = (new, rb')"
  shows "bus_after k (Some j) (snd (bus_publish_all k es mb)) = mrest @ fst (bus_publish_all k es mb)
    \<and> map snd (fst (bus_publish_all k es mb)) = es
    \<and> (\<exists>n. redis_tail later k (Some i) rb' = drop n (rest @ new)) \<and> map snd new = map (\<lambda>(ms, trim, x). x) ps
    \<and> (undisturbed ttl maxlen k ps later rb \<longrightarrow> length rest + length ps \<le> maxlen
        \<longrightarrow> length rest \<le> length (xs_entries (rb (stream_key k)))
        \<longrightarrow> redis_tail later k (Some i) rb' = rest @ new)"
  using memory_bus.reconnect_all [OF _ assms(1)] memory_bus.append_all_spec [where s = mb and k = k and es = es] history_all [OF assms(2-5)]
    redis_reconnect [OF assms(2-5)]
  unfolding bus_publish_all_eq by blast

theorem reconnect_resumes_after_the_last_seen_witness:
  "bus_after ''s1'' (Some 1) (snd (bus_publish_all ''s1'' [DoneEvent 1 0] (\<lambda>_. [StageEvent PLANNING, StageEvent GENERATING])))
     = [(2, StageEvent GENERATING), (3, DoneEvent 1 0)]
   \<and> redis_tail 20 ''s1'' (Some (7, 0)) (snd (publish_all (Some 100) ''s1'' [(9, 1, DoneEvent 1 0)]
       (\<lambda>_. \<lparr>xs_entries = [((7, 0), StageEvent PLANNING), ((8, 0), StageEvent GENERATING)], xs_last = (8, 0),
             xs_expires = Some 108\<rparr>)))
     = [((8, 0), StageEvent GENERATING), ((9, 0), DoneEvent 1 0)]"
proof -
  let ?b = "\<lambda>_::string. [StageEvent PLANNING, StageEvent GENERATING]"
  let ?rb = "\<lambda>_::string. \<lparr>xs_entries = [((7, 0), StageEvent PLANNING), ((8, 0), StageEvent GENERATING)], xs_last = (8, 0),
    xs_expires = Some 108\<rparr>"
  have b: "bus_after ''s1'' None ?b = [] @ [(1, StageEvent PLANNING)] @ [(2, StageEvent GENERATING)]"
    by (simp add: bus_after_def with_ids_def)
  have h: "history 8 ([] @ [((7, 0), StageEvent PLANNING)] @ [((8, 0), StageEvent GENERATING)]) (?rb (stream_key ''s1''))"
    by (auto simp: history_def intro: exI [of _ 0])
  obtain new rb' where p: "publish_all (Some 100) ''s1'' [(9, 1, DoneEvent 1 0)] ?rb = (new, rb')" by fastforce
  have new: "new = [((9, 0), DoneEvent 1 0)]"
    using p by (auto simp: redis_publish_def stream_at_def xadd_def next_id_def Let_def)
  have u: "undisturbed (Some 100) 2 ''s1'' [(9, 1, DoneEvent 1 0)] 20 ?rb"
    by (simp add: redis_publish_def stream_at_def xadd_def next_id_def Let_def may_trim_def expire_def)
  from reconnect_resumes_after_the_last_seen [OF b h _ _ p, of "[DoneEvent 1 0]" 20 2] u p new show ?thesis
    by (simp add: bus_publish_def)
qed

section \<open>The wire\<close>

text \<open>C27: What is written reads back. Every session, face profile and event the program stores or sends,
and every response it keeps for replay, is read back as it was.\<close>

theorem records_survive_the_wire:
  assumes "wire_ok w" and "distinct (map fst (ss_slots s))" and "contract_codecs w = (ci, cs, ca)"
  shows "load_text w read_session (dump_text w session_json s) = Inr s
    \<and> load_text w read_face (dump_text w face_json f) = Inr f \<and> load_event w (dump_event w e) = Inr e
    \<and> snd ci (fst ci ri) = Inr ri \<and> snd cs (fst cs rs) = Inr rs \<and> snd ca (fst ca ra) = Inr ra"
  using session_survives [OF assms(1,2)] face_survives [OF assms(1)] event_survives [OF assms(1)]
    contract_survives [OF assms(1,3)]
  by auto

theorem records_survive_the_wire_witness:
  "load_event sample_wire (dump_event sample_wire (FailedEvent WALL_CLOCK ''late'' None 2 1 (1 / 3)))
      = Inr (FailedEvent WALL_CLOCK ''late'' None 2 1 (1 / 3))
    \<and> load_text sample_wire read_session (dump_text sample_wire session_json (new_session ''s1'' ''f1'' 1))
      = Inr (new_session ''s1'' ''f1'' 1)"
proof -
  obtain ci cs ca where c: "contract_codecs sample_wire = (ci, cs, ca)" by (metis prod.exhaust_sel)
  have d: "distinct (map fst (ss_slots (new_session ''s1'' ''f1'' 1)))" by (simp add: new_session_def)
  from records_survive_the_wire [OF sample_wire_ok d c] show ?thesis by blast
qed

end
