(* ===== verification/Service_Theorems.thy ===== *)
theory Service_Theorems
  imports Samples Estimator Config Preset_Matcher Expiry Throttle Object_Storage Log_Scrub Gate_Check Graph_Samples
begin

text \<open>
  The properties of the services: stores, budget, idempotency, connectors, the preset library, the
  gate, prompts, prices, storage and backpressure. Each is followed by a concrete instance.
\<close>

section \<open>State and money\<close>

text \<open>C28: The Redis store is a refinement of the in-memory store. Any trace of port calls over time,
locks, idempotency records, profiles, sessions and the two Lua budget scripts included, each with its
TTL, succeeds and gets replies the in-memory store gives if it may lose records; and exactly its replies
as long as nothing can have expired. Neither a script nor a decode of the stored JSON raises.\<close>

theorem redis_store_refines_memory_store:
  assumes "wire_ok w" and "list_all (\<lambda>(i, ttl, x). 0 < ttl \<and> storable x) xs"
    and "codec_rel (redis_codec w) (live now t) s" and "sorted (now # map fst xs)"
  shows "\<exists>ys t' s'. timed_commands (redis_codec w) xs t = Inr (ys, t') \<and> forgetful s (zip (commands_of xs) ys) s'
    \<and> codec_rel (redis_codec w) (live (last (now # map fst xs)) t') s'
    \<and> (\<forall>T\<ge>now. fresh_until T t \<longrightarrow> list_all (\<lambda>(i, ttl, x). i \<le> T \<and> T < i + ttl) xs
         \<longrightarrow> ys = fst (mem_commands (commands_of xs) s))"
proof -
  let ?c = "redis_codec w"
  have ok: "trace_ok ?c xs" by (rule redis_trace_ok [OF assms(1,2)])
  obtain ys t' s' where r: "timed_commands ?c xs t = Inr (ys, t')" "forgetful s (zip (commands_of xs) ys) s'"
    "codec_rel ?c (live (last (now # map fst xs)) t') s'"
    using timed_refines_forgetful [OF assms(3,4) ok] by blast
  moreover have "ys = fst (mem_commands (commands_of xs) s)"
    if "now \<le> T" "fresh_until T t" "list_all (\<lambda>(i, ttl, x). i \<le> T \<and> T < i + ttl) xs" for T
  proof -
    have "codec_rel ?c (live T t) s" using assms(3) live_fresh [OF that(2,1)] by simp
    from timed_within_horizon [OF this that(2) ok that(3)] r(1) show ?thesis by auto
  qed
  ultimately show ?thesis by blast
qed

theorem redis_store_refines_memory_store_witness:
  "\<exists>t' s'. timed_commands (redis_codec sample_wire)
      [(0, 60, Acquire_Lock ''k'' ''t''), (30, 60, Acquire_Lock ''k'' ''u''), (60, 60, Acquire_Lock ''k'' ''u''),
       (61, 60, Budget_Reserve ''s1'' 700 1000), (62, 60, Put_Session sample_session), (63, 60, Get_Session ''s1'')] Map.empty
    = Inr ([Bool_Reply True, Bool_Reply False, Bool_Reply True, Bool_Reply True, No_Reply,
            Session_Reply (Some sample_session)], t')
    \<and> codec_rel (redis_codec sample_wire) (live 63 t') s'"
proof -
  let ?xs = "[(0, 60, Acquire_Lock ''k'' ''t''), (30, 60, Acquire_Lock ''k'' ''u''), (60, 60, Acquire_Lock ''k'' ''u''),
       (61, 60, Budget_Reserve ''s1'' 700 1000), (62, 60, Put_Session sample_session), (63, 60, Get_Session ''s1'')]
     :: timed_trace"
  have s: "ss_session_key sample_session = ''s1''" "distinct (map fst (ss_slots sample_session))"
    by (simp_all add: sample_session_def new_session_def)
  have ok: "list_all (\<lambda>(i, ttl, x). 0 < ttl \<and> storable x) ?xs" using s by (simp add: storable_def)
  have rel: "codec_rel (redis_codec sample_wire) (live 0 Map.empty) empty_store" using rel_empty by simp
  have reads: "sc_load_session (redis_codec sample_wire) (sc_dump_session (redis_codec sample_wire) sample_session)
      = Inr sample_session"
    using session_survives [OF sample_wire_ok s(2)] by (simp add: redis_codec_def)
  have replies: "\<exists>t'. timed_commands (redis_codec sample_wire) ?xs Map.empty
    = Inr ([Bool_Reply True, Bool_Reply False, Bool_Reply True, Bool_Reply True, No_Reply,
            Session_Reply (Some sample_session)], t')"
    by (simp add: timed_acquire_def set_nx_ex_def timed_reserve_def lua_number_def redis_get_session_def s(1))
      (simp add: set_ex_def live_def reads)
  from redis_store_refines_memory_store [OF sample_wire_ok ok rel] replies show ?thesis by fastforce
qed

text \<open>C29: The budget under concurrency. Whatever number of paid calls of one session reserve, settle and
cancel in whatever interleaving, the counter is exactly what was settled plus what is held. A reservation
is granted only when the counter with its estimate is within the limit. The counter passes the limit only
when calls are settled above their own reservations, and by no more than those excesses: reserving
cannot overspend, settling can.\<close>

theorem budget_bounds_concurrent_spend:
  assumes "(paid_step m)\<^sup>*\<^sup>* (fresh_ledger s) l"
    and "budget_used (me_session_key m) s = 0" and "0 \<le> me_limit_micro m"
  shows "budget_used (me_session_key m) (ld_store l)
      = ld_settled l + sum_list (map rv_estimate_micro (ld_open l))
    \<and> (\<forall>kind est r s'. meter_reserve m kind est (ld_store l) = (Inr (Some r), s')
         \<longrightarrow> budget_used (me_session_key m) s' = budget_used (me_session_key m) (ld_store l) + rv_estimate_micro r
           \<and> budget_used (me_session_key m) s' \<le> me_limit_micro m)
    \<and> budget_used (me_session_key m) (ld_store l) \<le> me_limit_micro m + ld_over l"
proof -
  have "budget_used (me_session_key m) s' = budget_used (me_session_key m) (ld_store l) + rv_estimate_micro r
      \<and> budget_used (me_session_key m) s' \<le> me_limit_micro m"
    if "meter_reserve m kind est (ld_store l) = (Inr (Some r), s')" for kind est r s'
    using that by (cases rule: meter_reserve_cases) simp_all
  moreover have "budget_used (me_session_key m) (ld_store l) = ld_settled l + sum_list (map rv_estimate_micro (ld_open l))"
    "budget_used (me_session_key m) (ld_store l) \<le> me_limit_micro m + ld_over l"
    using paid_steps_inv [OF assms(1) fresh_ledger_inv [OF assms(2,3)]] by (simp_all add: ledger_inv_def)
  ultimately show ?thesis by blast
qed

theorem budget_bounds_concurrent_spend_witness:
  "\<exists>s'. meter_reserve sample_meter SLOT_FILL (Some (from_micro 2000)) empty_store
      = (Inr (Some (mk_reservation ''s1'' (from_micro 2000))), s') \<and> budget_used ''s1'' s' = 2000"
proof -
  let ?r = "mk_reservation ''s1'' (from_micro 2000)"
  have lim: "me_session_key sample_meter = ''s1''" "me_limit_micro sample_meter = 1000000"
    by (simp_all add: sample_meter_def meter_of_def to_micro_def to_micro_with_def micro_per_usd_def)
  then obtain s' where r: "meter_reserve sample_meter SLOT_FILL (Some (from_micro 2000)) empty_store
      = (Inr (Some ?r), s')"
    by (simp add: meter_reserve_def budget_reserve_def budget_used_def empty_store_def)
  then have "(paid_step sample_meter)\<^sup>*\<^sup>* (fresh_ledger empty_store)
      \<lparr>ld_store = s', ld_open = [?r], ld_settled = 0, ld_over = 0\<rparr>"
    unfolding fresh_ledger_def using paid_step.reserve [OF r] by (simp add: from_micro_eq) blast
  from budget_bounds_concurrent_spend [OF this] r show ?thesis
    by (simp add: lim) (simp add: budget_used_def empty_store_def)
qed

text \<open>C30: One result under concurrency. Whatever number of callers run under one idempotency key, in
whatever interleaving with each other and the rest of the process, all that return, return the same
result, it is the stored record, and at most one of them returned a result of its own. Callers that found
no record may execute at the same time, but all but one discard what they computed: a caller that lost
the race finds the record, and once there is one it stays and whoever comes later is given it without
executing.\<close>

theorem concurrent_callers_agree:
  assumes "(call_step k)\<^sup>*\<^sup>* (s0, replicate n Idle) (s, cs)"
  shows "fresh_count cs \<le> 1 \<and> (\<forall>c\<in>set cs. \<forall>v. returned c = Some v \<longrightarrow> idem_get k s = Some v)
    \<and> (\<forall>c\<in>set cs. \<forall>d\<in>set cs. returned c \<noteq> None \<longrightarrow> returned d \<noteq> None \<longrightarrow> returned c = returned d)
    \<and> (Lost \<in> set cs \<longrightarrow> idem_get k s \<noteq> None)
    \<and> (\<forall>v s' cs'. idem_get k s = Some v \<longrightarrow> call_step k (s, cs) (s', cs')
         \<longrightarrow> idem_get k s' = Some v \<and> (\<forall>i<length cs. cs ! i = Idle \<longrightarrow> cs' ! i \<in> {Idle, Returned v True}))"
proof -
  from call_steps_inv [OF assms callers_start] have i: "callers_inv k (s, cs)" .
  then have "fresh_count cs \<le> 1" "Lost \<in> set cs \<longrightarrow> idem_get k s \<noteq> None" by (auto simp: callers_inv_def split: if_splits)
  moreover have "\<forall>c\<in>set cs. \<forall>v. returned c = Some v \<longrightarrow> idem_get k s = Some v"
    using i by (auto simp: callers_inv_def)
  moreover from this have "\<forall>c\<in>set cs. \<forall>d\<in>set cs. returned c \<noteq> None \<longrightarrow> returned d \<noteq> None \<longrightarrow> returned c = returned d"
    by (metis option.exhaust)
  ultimately show ?thesis using call_step_recorded by blast
qed

theorem concurrent_callers_agree_witness:
  "\<exists>s'. (call_step ''k'')\<^sup>*\<^sup>* (empty_store, [Idle, Idle]) (s', [Returned ''a'' False, Working])
    \<and> idem_get ''k'' s' = Some ''a''"
proof -
  have n: "idem_get ''k'' empty_store = None" by (simp add: idem_get_def empty_store_def)
  obtain s' where p: "idem_put ''k'' ''a'' empty_store = (True, s')"
    by (simp add: idem_put_def empty_store_def)
  have "call_step ''k'' (empty_store, [Idle, Idle]) (empty_store, [Working, Idle])"
    using call_step.miss [of 0 "[Idle, Idle]", OF _ _ n] by simp
  moreover have "call_step ''k'' (empty_store, [Working, Idle]) (empty_store, [Working, Working])"
    using call_step.miss [of 1 "[Working, Idle]", OF _ _ n] by simp
  moreover have "call_step ''k'' (empty_store, [Working, Working]) (empty_store, [Computed ''a'', Working])"
    using call_step.computed [of 0 "[Working, Working]" "''k''" empty_store "''a''"] by simp
  moreover have "call_step ''k'' (empty_store, [Computed ''a'', Working]) (s', [Returned ''a'' False, Working])"
    using call_step.stored [of 0 "[Computed ''a'', Working]", OF _ _ p] by simp
  ultimately have r: "(call_step ''k'')\<^sup>*\<^sup>* (empty_store, [Idle, Idle]) (s', [Returned ''a'' False, Working])"
    by (meson converse_rtranclp_into_rtranclp rtranclp.rtrancl_refl)
  have "replicate 2 Idle = [Idle, Idle]" by (simp add: numeral_2_eq_2)
  with r have "(call_step ''k'')\<^sup>*\<^sup>* (empty_store, replicate 2 Idle) (s', [Returned ''a'' False, Working])" by simp
  from concurrent_callers_agree [OF this] r show ?thesis by auto
qed

section \<open>Connectors\<close>

text \<open>C31: A frame is what the provider sent. When the image generator delivers a frame, the request had a
reference photo and a legal detail level; within the attempts, and after transient failures only, one try
was answered, and the frame is byte for byte the strict Base64 decoding of the data URL of the first
image of that answer: whole groups of the alphabet, not empty. Its id is the id of the answer, not empty,
its usage the usage the answer reports. A refusal that reports a usage carries the usage of its answer,
so that what was billed is settled; and an answer whose first image is the data URL of some bytes is read
as those bytes.\<close>

theorem generated_frame_comes_from_the_answer:
  assumes "or_generate model tries post py_str sent rq = out"
  shows "(\<forall>g. out = Generated g \<longrightarrow>
      gq_reference_images rq \<noteq> [] \<and> gen_face_media_resolution (gq_params rq) \<in> set detail_levels
      \<and> (\<exists>i<max 1 tries. \<exists>body url encoded.
           (\<forall>j<i. \<exists>e. read_answer (post sent j (generator_payload model rq)) = Inl e \<and> is_transient e)
           \<and> read_answer (post sent i (generator_payload model rq)) = Inr body
           \<and> image_url body = Inr (JStr url) \<and> encoded = after_marker ''base64,'' url
           \<and> b64decode encoded = Some (gi_image_bytes g) \<and> gi_image_bytes g \<noteq> []
           \<and> length encoded mod 4 = 0 \<and> set encoded \<subseteq> set b64_alphabet \<union> {CHR ''=''}
           \<and> gi_provider_request_id g = request_id py_str body \<and> request_id py_str body \<noteq> []
           \<and> parse_usage body = Inr (gi_usage g)))
    \<and> (\<forall>m u. out = Refused m u \<longrightarrow>
      (\<exists>i<max 1 tries. \<exists>body. read_answer (post sent i (generator_payload model rq)) = Inr body
         \<and> parse_usage body = Inr u \<and> (\<forall>img. extract_image body = Inr img \<longrightarrow> request_id py_str body = [])))
    \<and> (\<forall>body img. img \<noteq> [] \<longrightarrow> image_url body = Inr (JStr (data_url img)) \<longrightarrow> extract_image body = Inr img)"
proof (intro conjI allI impI)
  fix g assume g: "out = Generated g"
  then have "out \<noteq> Gen_Failed m" for m by simp
  from or_generate_answer [OF assms this] obtain i body where i: "gq_reference_images rq \<noteq> []"
    "gen_face_media_resolution (gq_params rq) \<in> set detail_levels" "i < max 1 tries"
    "read_answer (post sent i (generator_payload model rq)) = Inr body"
    "\<forall>j<i. \<exists>e. read_answer (post sent j (generator_payload model rq)) = Inl e \<and> is_transient e"
    "read_generation py_str body = Generated g" using g by metis
  from i(6) obtain url where u: "image_url body = Inr (JStr url)"
    "b64decode (after_marker ''base64,'' url) = Some (gi_image_bytes g)" "gi_image_bytes g \<noteq> []"
    "gi_provider_request_id g = request_id py_str body" "request_id py_str body \<noteq> []"
    "parse_usage body = Inr (gi_usage g)" by (rule read_generation_GeneratedE)
  show "gq_reference_images rq \<noteq> []" "gen_face_media_resolution (gq_params rq) \<in> set detail_levels" by (fact i(1,2))+
  let ?encoded = "after_marker ''base64,'' url"
  have "(\<forall>j<i. \<exists>e. read_answer (post sent j (generator_payload model rq)) = Inl e \<and> is_transient e)
           \<and> read_answer (post sent i (generator_payload model rq)) = Inr body
           \<and> image_url body = Inr (JStr url) \<and> ?encoded = ?encoded
           \<and> b64decode ?encoded = Some (gi_image_bytes g) \<and> gi_image_bytes g \<noteq> []
           \<and> length ?encoded mod 4 = 0 \<and> set ?encoded \<subseteq> set b64_alphabet \<union> {CHR ''=''}
           \<and> gi_provider_request_id g = request_id py_str body \<and> request_id py_str body \<noteq> []
           \<and> parse_usage body = Inr (gi_usage g)"
    by (intro conjI refl i(4,5) u b64decode_strict [OF u(2), THEN conjunct1] b64decode_strict [OF u(2), THEN conjunct2])
  then show "\<exists>i<max 1 tries. \<exists>body url encoded.
           (\<forall>j<i. \<exists>e. read_answer (post sent j (generator_payload model rq)) = Inl e \<and> is_transient e)
           \<and> read_answer (post sent i (generator_payload model rq)) = Inr body
           \<and> image_url body = Inr (JStr url) \<and> encoded = after_marker ''base64,'' url
           \<and> b64decode encoded = Some (gi_image_bytes g) \<and> gi_image_bytes g \<noteq> []
           \<and> length encoded mod 4 = 0 \<and> set encoded \<subseteq> set b64_alphabet \<union> {CHR ''=''}
           \<and> gi_provider_request_id g = request_id py_str body \<and> request_id py_str body \<noteq> []
           \<and> parse_usage body = Inr (gi_usage g)"
    by (intro exI [of _ i] conjI [OF i(3)] exI [of _ body] exI [of _ url] exI [of _ ?encoded])
next
  fix m u assume r: "out = Refused m u"
  then have "out \<noteq> Gen_Failed m" for m by simp
  from or_generate_answer [OF assms this] obtain i body where "i < max 1 tries"
    "read_answer (post sent i (generator_payload model rq)) = Inr body" "read_generation py_str body = Refused m u"
    using r by metis
  with read_generation_Refused show "\<exists>i<max 1 tries. \<exists>body. read_answer (post sent i (generator_payload model rq)) = Inr body
         \<and> parse_usage body = Inr u \<and> (\<forall>img. extract_image body = Inr img \<longrightarrow> request_id py_str body = [])" by blast
qed (rule extract_data_url)

definition completion :: "string \<Rightarrow> bytes \<Rightarrow> json" where   \<comment> \<open>an answer with one image\<close>
  "completion rid img =
     JObj [(''id'', JStr rid), (''choices'', JArr [JObj [(''message'',
        JObj [(''images'', JArr [image_part img None])])]])]"

definition flaky_endpoint :: "gen_request list \<Rightarrow> nat \<Rightarrow> json \<Rightarrow> http_answer" where   \<comment> \<open>down at first\<close>
  "flaky_endpoint sent i payload =
     (if i = 0 then Unreached ''down'' else Answered 200 (Inr (completion ''r1'' [CHR 0x89, CHR 0x50])) [])"

definition sample_request :: gen_request where
  "sample_request = \<lparr>gq_prompt = ''edit'', gq_params = (pr_generation sample_preset)\<lparr>gen_face_media_resolution := ''high''\<rparr>,
     gq_reference_images = [''photo''], gq_face_crop = None\<rparr>"

theorem generated_frame_comes_from_the_answer_witness:
  "\<exists>g. or_generate ''gen'' 3 flaky_endpoint (\<lambda>_. []) [] sample_request = Generated g
    \<and> gi_image_bytes g = [CHR 0x89, CHR 0x50] \<and> gi_provider_request_id g \<noteq> []"
proof -
  have url: "image_url (completion ''r1'' [CHR 0x89, CHR 0x50]) = Inr (JStr (data_url [CHR 0x89, CHR 0x50]))"
    by (simp add: completion_def image_url_def image_part_def json_item_def json_first_def)
  have body: "parse_usage (completion ''r1'' x) = Inr None" "request_id py_str (completion ''r1'' x) = ''r1''" for py_str x
    by (simp_all add: completion_def parse_usage_def json_lookup_def request_id_def)
  have "extract_image (completion ''r1'' [CHR 0x89, CHR 0x50]) = Inr [CHR 0x89, CHR 0x50]"
    using generated_frame_comes_from_the_answer [OF refl] url by blast
  then have g: "or_generate ''gen'' 3 flaky_endpoint (\<lambda>_. []) [] sample_request
      = Generated \<lparr>gi_image_bytes = [CHR 0x89, CHR 0x50], gi_provider_request_id = ''r1'', gi_usage = None\<rparr>"
    by (simp add: or_generate_def sample_request_def detail_levels_def flaky_endpoint_def read_answer_def numeral_3_eq_3
        read_generation_def body)
  with generated_frame_comes_from_the_answer [OF g] show ?thesis by simp
qed

text \<open>C32: Bounded retries. A chat request puts the same payload on the wire at most as often as there are
attempts, again only after a transient failure, and returns what the last answer says; a transient
error is reported only when the attempts are used up.\<close>

theorem retries_are_bounded:
  assumes "with_transient_retry n (post_once c p) w = (x, w')"
  shows "\<exists>k. k < max 1 n \<and> w' = w\<lparr>w_llm_log := w_llm_log w @ replicate (Suc k) p\<rparr>
    \<and> x = read_answer (ll_post c (w_llm_log w @ replicate k p) p)
    \<and> (\<forall>j<k. \<exists>e. read_answer (ll_post c (w_llm_log w @ replicate j p) p) = Inl e \<and> is_transient e)
    \<and> (\<forall>e. x = Inl e \<longrightarrow> is_transient e \<longrightarrow> Suc k = max 1 n)"
  by (rule retry_spec [OF assms])

theorem retries_are_bounded_witness:
  "\<exists>x w'. with_transient_retry 2 (post_once sample_llm JNull) sample_world = (x, w')
    \<and> length (w_llm_log w') \<le> 2"
proof -
  obtain x w' where r: "with_transient_retry 2 (post_once sample_llm JNull) sample_world = (x, w')" by fastforce
  from retries_are_bounded [OF r] obtain k where k: "k < max 1 2"
    "w' = sample_world\<lparr>w_llm_log := w_llm_log sample_world @ replicate (Suc k) JNull\<rparr>" by blast
  have "w_llm_log sample_world = []" by (simp add: sample_world_def)
  with k have "length (w_llm_log w') \<le> 2" by simp
  with r show ?thesis by blast
qed

text \<open>C33: The user's own words. A free-form slot the user was asked for carries the answer verbatim,
whatever the model returned for it.\<close>

theorem answer_is_kept_verbatim:
  assumes "preset_wf p" and "dict_get (pr_slots p) n = Some s" and "sl_enum s = None" and "sl_ask s"
    and "or_fill c p (Some ans) fm m w = (Inr f, w')"
  shows "dict_get (sf_slots f) n = Some ans"
  by (rule or_fill_verbatim [OF assms])

theorem answer_is_kept_verbatim_witness:
  "\<exists>f w'. or_fill sample_llm sample_preset (Some ''a beach'') None None sample_world = (Inr f, w')
    \<and> dict_get (sf_slots f) ''scene'' = Some ''a beach''"
proof -
  have wf: "preset_wf sample_preset" by code_simp
  have "(case default_fill sample_preset (Some ''a beach'') of Inr _ \<Rightarrow> True | Inl _ \<Rightarrow> False)" by code_simp
  then obtain z where z: "default_fill sample_preset (Some ''a beach'') = Inr z" by (auto split: sum.splits)
  obtain y w' where r: "or_fill sample_llm sample_preset (Some ''a beach'') None None sample_world = (y, w')" by fastforce
  then obtain f where f: "y = Inr f" unfolding or_fill_def z by (auto elim!: paid_call_total)
  obtain sl where "dict_get (pr_slots sample_preset) ''scene'' = Some sl" "sl_enum sl = None" "sl_ask sl"
    by (simp add: sample_preset_def sample_slots_def)
  from answer_is_kept_verbatim [OF wf this r [unfolded f]] r f show ?thesis by blast
qed

section \<open>Presets, photos, prompts\<close>

text \<open>C34: What the preset library guarantees once it is loaded: it is not empty, keys are the ids of the
presets and distinct, every preset passed validation, only the fallback carries the reserved token,
and with the packaged library every request resolves to some preset.\<close>

theorem loaded_library_is_sound:
  assumes "load_library fs s = Inr l"
  shows "lib_by_id l \<noteq> [] \<and> dict_ok (lib_by_id l)
    \<and> (\<forall>(k, p)\<in>set (lib_by_id l). k = pr_id p \<and> validate_preset p = Inr p
         \<and> (reserved_use_case \<in> set (pr_use_case p) \<longleftrightarrow> pr_id p = fallback_id))
    \<and> (cf_preset_source s = Source_package \<longrightarrow> resolve l u \<noteq> None)"
  using load_library_ok [OF assms] reserved_only_fallback
  by (auto simp: library_ok_def preset_ok_def resolve_None_iff)

definition sample_files :: file_system where
  "sample_files =
     \<lparr>fs_is_dir = (\<lambda>_. True), fs_package_root = (\<lambda>p. p), fs_dist_version = (\<lambda>_. None),
      fs_module_version = (\<lambda>_. ''9.0.0''), fs_resolve = (\<lambda>p. p), fs_examples_dir = ''examples'',
      fs_yaml_files = (\<lambda>_. [(''default.yaml'', Inr (sample_preset\<lparr>pr_id := ''default'', pr_use_case := [''default'']\<rparr>)),
                           (''portrait.yaml'', Inr sample_preset)])\<rparr>"

definition packaged :: settings where
  "packaged = default_settings\<lparr>cf_preset_source := Source_package\<rparr>"

theorem loaded_library_is_sound_witness:
  "\<exists>l. load_library sample_files packaged = Inr l \<and> resolve l ''portrait'' \<noteq> None"
proof -
  have "(case load_library sample_files packaged of Inr l \<Rightarrow> True | Inl e \<Rightarrow> False)" by code_simp
  then obtain l where l: "load_library sample_files packaged = Inr l" by (auto split: sum.splits)
  have "cf_preset_source packaged = Source_package" by (simp add: packaged_def)
  with loaded_library_is_sound [OF l, of "''portrait''"] l show ?thesis by blast
qed

text \<open>C35: The sharpness measure. What the shifted sums compute is the variance of the four-neighbour
Laplacian over the interior pixels, zero for a plane without interior; it is never negative, zero exactly
when the Laplacian is the same everywhere, and does not depend on the brightness of the photo.\<close>

theorem sharpness_is_the_laplacian_variance:
  assumes "rect r c g"
  shows "laplacian_variance g = (if r < 3 \<or> c < 3 then 0
      else variance (concat (map (\<lambda>i. map (neighbour_laplacian g i) [1..<c - 1]) [1..<r - 1])))
    \<and> 0 \<le> laplacian_variance g
    \<and> (laplacian_variance g = 0 \<longleftrightarrow> r < 3 \<or> c < 3
        \<or> (\<exists>a. \<forall>i\<in>{1..<r - 1}. \<forall>j\<in>{1..<c - 1}. neighbour_laplacian g i j = a))
    \<and> laplacian_variance (map (map (\<lambda>x. x + b)) g) = laplacian_variance g"
  using laplacian_variance_reference [OF assms] laplacian_variance_zero [OF assms] variance_nonneg
    laplacian_variance_brightness [OF assms]
  by (simp add: interior_def laplacian_variance_def)

theorem sharpness_is_the_laplacian_variance_witness:
  "laplacian_variance [[0, 1, 0, 7], [2, 9, 3, 1], [0, 4, 0, 2]] = 144"
  using sharpness_is_the_laplacian_variance [of 3 4 "[[0, 1, 0, 7], [2, 9, 3, 1], [0, 4, 0, 2]]"]
  by (simp add: rect_def neighbour_laplacian_def variance_def mean_def upt_rec numeral_eq_Suc)

text \<open>C36: The quality gate. It rejects exactly when a hard failure is found and passes exactly when
neither a hard failure nor a risk is; and it is monotone: a photo that is sharper, closer, larger or
better centred than another never gets a lower verdict.\<close>

theorem gate_is_monotone:
  assumes "metrics_better m m'"
  shows "gr_verdict (gate_evaluate t m) \<le> gr_verdict (gate_evaluate t m')
    \<and> (gr_verdict (gate_evaluate t m) = BELOW_FLOOR \<longleftrightarrow> hard_failure t m \<noteq> None)
    \<and> (gr_verdict (gate_evaluate t m) = PASSED \<longleftrightarrow> hard_failure t m = None \<and> gate_risk t m = None)"
  using hard_failure_better [OF assms, of t] gate_risk_better [OF assms, of t] gate_verdict_simps [of t m]
    gate_verdict_simps [of t m']
  by (cases "gr_verdict (gate_evaluate t m)"; cases "gr_verdict (gate_evaluate t m')")
     (auto simp: less_eq_verdict_def)

theorem gate_is_monotone_witness:
  "gr_verdict (gate_evaluate default_gate sample_metrics)
     \<le> gr_verdict (gate_evaluate default_gate (sample_metrics\<lparr>fm_blur_var := 200, fm_face_side := 400\<rparr>))"
  using gate_is_monotone [of sample_metrics "sample_metrics\<lparr>fm_blur_var := 200, fm_face_side := 400\<rparr>" default_gate]
  by (simp add: metrics_better_def sample_metrics_def)

text \<open>C37: Every edit prompt that is assembled protects the person: it contains the preset's identity
instruction, names the person among the things to keep, carries no text the injection guards match in
its change, its body or its keep list, and its keep list is never empty.\<close>

theorem edit_prompt_locks_identity:
  assumes "assemble_edit_prompt p body change (edit_lock_items ph pre app tgt txt) locks lighting = Inr b"
  shows "contains (pr_identity_instruction p) (bp_text b)
    \<and> contains (locked_block (edit_lock_items ph pre app tgt txt)) (bp_text b)
    \<and> generic_person_lock \<in> set (edit_lock_items ph pre app tgt txt)
    \<and> \<not> is_injection body \<and> \<not> is_injection (strip change)
    \<and> (\<forall>x\<in>set (edit_lock_items ph pre app tgt txt). \<not> is_injection x)"
proof -
  obtain rest where head: "edit_lock_items ph pre app tgt txt = generic_person_lock # rest"
    using edit_lock_items_head by blast
  then have "edit_lock_items ph pre app tgt txt \<noteq> []" by simp
  with assms have b: "b = mk_prompt p
      ([pr_identity_instruction p, locked_block (edit_lock_items ph pre app tgt txt),
        only_change_prefix @ rstrip_char CHR ''.'' (strip change) @ ''.'', strip body, texture_block lighting]
       @ lock_clause locks @ [exclusion p])"
    and safe: "\<not> is_injection body" "\<not> is_injection (strip change)"
    by (simp_all only: assemble_edit_Inr if_False simp_thms)
  have parts: "contains (pr_identity_instruction p) (bp_text b)"
    "contains (locked_block (edit_lock_items ph pre app tgt txt)) (bp_text b)"
    unfolding b by (rule mk_prompt_part; simp)+
  with safe head edit_lock_items_safe show ?thesis by (metis list.set_intros(1))
qed

theorem edit_prompt_locks_identity_witness:
  "\<exists>b. assemble_edit_prompt sample_preset ''a red scarf'' ''add a scarf''
      (edit_lock_items None [] [] [''scarf''] ''add a scarf'') [] None = Inr b
    \<and> contains ''Keep the person.'' (bp_text b)"
proof -
  have "harmless ''a red scarf''" "harmless ''add a scarf''" "strip ''add a scarf'' = ''add a scarf''"
    by code_simp+
  then obtain b where b: "assemble_edit_prompt sample_preset ''a red scarf'' ''add a scarf''
      (edit_lock_items None [] [] [''scarf''] ''add a scarf'') [] None = Inr b"
    by (simp only: assemble_edit_Inr harmless_safe simp_thms)
  from edit_prompt_locks_identity [OF b] b show ?thesis by (auto simp: sample_preset_def)
qed

text \<open>C38: What a forecast promises. With the built-in prices every preset with a legal detail level and
every non-negative budget gets an estimate. When the overhead and the enhance steps fit in the budget, the
number of frames it promises can be paid, the reservations of that many frames, the enhance steps
included, and the overhead together fit, and one more frame would not. When not even those fit, it
promises exactly the enhance steps, which the budget does not fund.\<close>

theorem estimate_is_total_and_affordable:
  assumes "known_detail p" and "0 \<le> b"
  shows "(\<exists>cost. estimate_cost p b (pricing_default g l) g n e = Inr cost)
    \<and> (\<forall>ra. estimate_rates p b (pricing_default g l) g e = Inr ra \<longrightarrow>
        (let fixed = of_int e * ra_per_enhance_reserve ra + ra_llm_overhead_cost ra;
             total = \<lambda>frames. of_int (frames - e) * ra_per_intermediate_reserve ra + fixed
         in (fixed \<le> b \<longrightarrow> e \<le> ra_affordable ra \<and> total (ra_affordable ra) \<le> b \<and> b < total (ra_affordable ra + 1))
          \<and> (b < fixed \<longrightarrow> ra_affordable ra = e \<and> b < total (ra_affordable ra))))"
proof (intro conjI allI impI)
  show "\<exists>cost. estimate_cost p b (pricing_default g l) g n e = Inr cost" by (rule default_estimate [OF assms])
  fix ra assume "estimate_rates p b (pricing_default g l) g e = Inr ra"
  then obtain ic ir ec er ov k where pp: "price_pair p (pricing_default g l) g ''1K'' = Inr (ic, ir)"
    and k: "if 0 < b - ov - of_int e * er then truncate_div (b - ov - of_int e * er) ir = Inr k else k = 0"
    and eq: "ra = \<lparr>ra_per_intermediate_cost = ic, ra_per_enhance_cost = ec,
           ra_per_intermediate_reserve = ir, ra_per_enhance_reserve = er,
           ra_llm_overhead_cost = ov, ra_affordable = k + e\<rparr>"
    by (rule estimate_rates_cases)
  have pos: "0 < ir" using default_price_pair [OF assms(1), of "''1K''" g l] pp by auto
  have "0 \<le> k \<and> of_int k * ir \<le> b - ov - of_int e * er \<and> b - ov - of_int e * er < of_int (k + 1) * ir"
    if "0 \<le> b - ov - of_int e * er"
  proof (cases "0 < b - ov - of_int e * er")
    case True
    with k truncate_div_bounds [OF _ pos True] show ?thesis by simp
  next
    case False
    with k that pos show ?thesis by simp
  qed
  moreover have "k = 0" if "b - ov - of_int e * er < 0" using k that by (simp split: if_splits)
  ultimately show "let fixed = of_int e * ra_per_enhance_reserve ra + ra_llm_overhead_cost ra;
             total = \<lambda>frames. of_int (frames - e) * ra_per_intermediate_reserve ra + fixed
         in (fixed \<le> b \<longrightarrow> e \<le> ra_affordable ra \<and> total (ra_affordable ra) \<le> b \<and> b < total (ra_affordable ra + 1))
          \<and> (b < fixed \<longrightarrow> ra_affordable ra = e \<and> b < total (ra_affordable ra))"
    by (auto simp: eq Let_def)
qed

theorem estimate_is_total_and_affordable_witness:
  "\<exists>cost. estimate_cost sample_preset 1 (pricing_default ''gen'' ''lite'') ''gen'' 3 1 = Inr cost"
proof -
  have "known_detail sample_preset" by (simp add: known_detail_def sample_preset_def sample_generation_def)
  from estimate_is_total_and_affordable [OF this, of 1] show ?thesis by simp
qed

section \<open>Storage and backpressure\<close>

text \<open>C39: The local object storage keeps the contract of the port. For a set of plain keys none of which
names a folder of another, in a directory with room for them, any sequence of puts is acknowledged, a key
then reads back the last value put there and a key never put reads as before. A put of a plain key
succeeds exactly when no file is on its way and no folder in its place. Whatever the key and the
directory, a put changes nothing outside the root but missing folders on the way to it, a key that
resolves to the root itself apart, which leaves its temporary file beside the root; and files other than
its own and its temporary one keep their bytes, its own too when the put fails.\<close>

theorem local_storage_keeps_the_contract:
  assumes "\<forall>i\<in>apart_keys K. has_room (root_dir @ split_slash i) fs" and "fst ` set ps \<subseteq> apart_keys K"
    and "j \<in> apart_keys K" and "i \<in> plain_keys" and "local_put root_dir k d fs2 = (x, fs2')"
  shows "fst (local_put_all root_dir ps fs) = map (\<lambda>(i, _). Inr i) ps
    \<and> local_get root_dir j (snd (local_put_all root_dir ps fs))
      = (case map_of (rev ps) j of Some d \<Rightarrow> Inr d | None \<Rightarrow> local_get root_dir j fs)
    \<and> (fst (local_put root_dir i d fs2) = Inr i \<longleftrightarrow> has_room (root_dir @ split_slash i) fs2)
    \<and> (\<forall>y. fs2' y \<noteq> fs2 y \<longrightarrow> (\<exists>q. y = root_dir @ q)
         \<or> fs2 y = None \<and> fs2' y = Some Folder \<and> (\<exists>n. y = take n root_dir)
         \<or> resolve_path root_dir k = root_dir \<and> y = tmp_of root_dir)
    \<and> (\<forall>y b. fs2 y = Some (Blob b) \<longrightarrow> fs2' y = Some (Blob b)
         \<or> local_path root_dir k = Inr y \<and> x = Inr k \<and> fs2' y = Some (Blob d)
         \<or> (\<exists>p. local_path root_dir k = Inr p \<and> y = tmp_of p))"
  using local_directory.put_all_spec [OF assms(1,2)] assms(3) plain_put_iff [OF assms(4)]
    local_put_confined [OF assms(5)] local_put_atomic [OF assms(5)]
  unfolding local_put_all_eq by blast

theorem local_storage_keeps_the_contract_witness:
  "local_get [''data''] ''faces/a/photo''
     (snd (local_put_all [''data''] [(''faces/a/photo'', ''old''), (''faces/b/photo'', ''b''), (''faces/a/photo'', ''new'')]
        Map.empty)) = Inr ''new''"
proof -
  let ?K = "{''faces/a/photo'', ''faces/b/photo''}"
  have k: "apart_keys ?K = ?K"
  proof -
    have "split_slash ''faces/a/photo'' = [''faces'', ''a'', ''photo'']"
      "split_slash ''faces/b/photo'' = [''faces'', ''b'', ''photo'']" by (simp_all add: split_slash_def)
    moreover have "take n [''faces'', ''a'', ''photo''] \<noteq> [''faces'', ''b'', ''photo'']"
      "take n [''faces'', ''b'', ''photo''] \<noteq> [''faces'', ''a'', ''photo'']" for n
      by (cases n; simp add: take_Cons' split: if_splits)+
    ultimately show ?thesis by (auto simp: apart_keys_def plain_keys_def plain_component_def)
  qed
  have room: "\<forall>i\<in>apart_keys ?K. has_room ([''data''] @ split_slash i) Map.empty"
    by (simp add: has_room_def blocked_iff)
  have "fst ` set [(''faces/a/photo'', ''old''), (''faces/b/photo'', ''b''), (''faces/a/photo'', ''new'')] \<subseteq> apart_keys ?K"
    "''faces/a/photo'' \<in> apart_keys ?K" unfolding k by simp_all
  note keys = this
  obtain x fs' where p: "local_put [''data''] ''k'' [] Map.empty = (x, fs')" by fastforce
  from local_storage_keeps_the_contract [OF room keys apart_plain [OF keys(2), THEN conjunct1] p]
  have "local_get [''data''] ''faces/a/photo''
     (snd (local_put_all [''data''] [(''faces/a/photo'', ''old''), (''faces/b/photo'', ''b''), (''faces/a/photo'', ''new'')]
        Map.empty))
    = (case map_of (rev [(''faces/a/photo'', ''old''), (''faces/b/photo'', ''b''), (''faces/a/photo'', ''new'')])
          ''faces/a/photo'' of Some d \<Rightarrow> Inr d | None \<Rightarrow> local_get [''data''] ''faces/a/photo'' Map.empty)" by blast
  then show ?thesis by simp
qed

text \<open>C40: Backpressure. In every state any number of callers can bring the throttle to, at most the limit
of calls are inside the generator, every slot is free or taken, and nobody waits while a slot is free.\<close>

theorem throttle_admits_at_most_the_limit:
  assumes "throttle_step\<^sup>*\<^sup>* t0 t" and "new_throttle m = Inr t0"
  shows "int (length (tr_active t)) \<le> m \<and> tr_value t + int (length (tr_active t)) = m
    \<and> (tr_waiting t \<noteq> [] \<longrightarrow> int (length (tr_active t)) = m)"
  using throttle_reachable [OF assms] by (auto simp: throttle_inv_def)

theorem throttle_admits_at_most_the_limit_witness:
  "\<exists>t0. new_throttle 1 = Inr t0 \<and> tr_active (enter 2 (enter 1 t0)) = [1] \<and> tr_waiting (enter 2 (enter 1 t0)) = [2]
    \<and> int (length (tr_active (enter 2 (enter 1 t0)))) \<le> 1"
proof -
  obtain t0 where t: "new_throttle 1 = Inr t0" "t0 = \<lparr>tr_value = 1, tr_waiting = [], tr_active = [], tr_done = []\<rparr>"
    by (simp add: new_throttle_def)
  have r: "throttle_step\<^sup>*\<^sup>* t0 (enter 2 (enter 1 t0))"
    by (meson step_enter converse_rtranclp_into_rtranclp rtranclp.rtrancl_refl)
  from throttle_admits_at_most_the_limit [OF r t(1)] t show ?thesis by (simp add: enter_def)
qed

end
