(* ===== verification/Spec2Isabelle.thy ===== *)
theory Spec2Isabelle
  imports Session_Theorems Process_Theorems Service_Theorems
begin

text \<open>
  Shoot-Craft AI Agent: a photo-editing agent. A client ingests a reference photo of a face, starts a
  session with a free-text brief and a dollar budget, answers at most a few questions, approves a plan,
  and receives one edited image that still shows the same person, or a reason why not. This library
  models the Python service under \<open>src/src\<close> and proves what it promises.

  \<^bold>\<open>How the parts interact.\<close> A request enters at \<open>api/routes.py\<close> and, under an idempotency key, asks
  the \<open>SessionRunner\<close> of \<open>api/deps.py\<close> for a run. The runner takes the run lock of the session in the
  state store and executes the session graph (\<open>graph/\<close>) in a background task, one node at a time with
  a checkpoint after each, until it ends, pauses for an answer, crashes or runs out of time. The nodes
  read and write the session record, call the four LLM ports through the budget meter, and hand an
  approved plan to the generation loop, which drives the image generator step by step, checks the
  identity of every frame and keeps the best. Everything is narrated on the event stream of the
  session, which the API relays as server-sent events.

  \<^bold>\<open>The theories\<close>, in the order of the code's layers:

  \<^item> \<open>Prelude\<close>: results and errors (\<open>py_exn + 'a\<close>), Python's string, list and dict operations, the
    shared lemmas. \<open>Money\<close> (\<open>utils/money.py\<close>), \<open>Regex\<close> (the regular expressions the code compiles, with
    their matching relation), \<open>Sha256\<close> (the prompt hash), \<open>Schemas\<close> (\<open>schemas/\<close>).
  \<^item> \<open>Pricing\<close>, \<open>Estimator\<close>, \<open>Store\<close> (both state stores and the Lua scripts), \<open>Store_Refinement\<close> (Redis
    implements the in-memory store), \<open>Expiry\<close> (the same with the TTL of every key, and the run lock as a
    lease), \<open>Budget\<close>, \<open>Idempotency\<close>, \<open>Quality_Gate\<close>, \<open>Facecheck\<close>, \<open>Images\<close>
    (\<open>utils/images.py\<close>, \<open>services/vision.py\<close>), \<open>Config\<close>, \<open>Preset_Matcher\<close>, \<open>Object_Storage\<close> (the
    local directory and the S3 bucket), \<open>Throttle\<close>, \<open>Log_Scrub\<close>, \<open>Log_Pipeline\<close> (\<open>configure_logging\<close>):
    one service each. \<open>Gate_Check\<close>, \<open>Load_Test\<close>: the scripts of these names.
  \<^item> \<open>World\<close>: the state the nodes share (store, streams, objects, logs of the requests sent to the two
    providers) and operations \<open>'a op = world \<Rightarrow> 'a result \<times> world\<close>; \<open>Prompt_Builder\<close>; \<open>Fallbacks\<close> (the
    deterministic services); \<open>Llm_Client\<close> (transport, retry, paid calls) and \<open>Llm_Ports\<close> (the five LLM
    connectors and the image connector).
  \<^item> \<open>Generation_Loop\<close> (the definitions), \<open>Loop_Attempt\<close>, \<open>Loop_Chain\<close>, \<open>Loop_Run\<close> (attempt, chain of steps,
    whole run): \<open>services/generation_loop.py\<close>.
  \<^item> \<open>Graph_Nodes\<close> (state, routing, every node), \<open>Graph_Run\<close> (the drive and its termination),
    \<open>Graph_Laws\<close>, \<open>Graph_Session\<close>, \<open>Graph_Flow\<close>, \<open>Graph_Ledger\<close>: \<open>graph/\<close>. \<open>Wiring\<close>: the two container
    configurations of \<open>build_container\<close>, the fake connectors and the face engine.
  \<^item> \<open>Lock_Frame\<close>, \<open>Runner\<close>, \<open>Runner_Safety\<close>: the session runner and \<open>services/telemetry.py\<close>;
    \<open>Event_Bus\<close>: both buses and \<open>api/sse.py\<close>; \<open>Http_Api\<close>: \<open>schemas/contract.py\<close> and \<open>api/routes.py\<close>;
    \<open>Wire\<close>: every model of \<open>schemas/\<close> as JSON, dumped and validated;
    \<open>Deployment\<close>: whole sessions of a deployed process; \<open>App\<close>: \<open>build_container\<close>, \<open>api/app.py\<close>,
    \<open>main.py\<close> and the download script; \<open>Replay\<close>: retried requests, whatever happens between them;
    \<open>Lifecycle\<close>: the life of a run, from the request that starts it to its last event.
  \<^item> \<open>Samples\<close>, \<open>Graph_Samples\<close>: concrete inputs. \<open>Session_Theorems\<close>, \<open>Process_Theorems\<close>,
    \<open>Service_Theorems\<close> and this theory: the properties, each followed by an instance of it.

  \<^bold>\<open>Correspondence.\<close> Definitions keep the names of the functions and classes they model, fields a
  two-letter prefix. A \<open>raise\<close> is an \<open>Inl\<close> with the exception, and every early return is a branch.
  Floats and \<open>Decimal\<close> are rationals, with the code's roundings written out; Python's integers are
  \<open>int\<close>; text is its UTF-8 bytes; a dict is an association list in insertion order. The \<open>async\<close> methods
  are functions on the state they act on; where their interleaving matters it is a step relation:
  \<open>paid_step\<close> (budget), \<open>call_step\<close> (idempotency), \<open>throttle_step\<close>, \<open>lease_step\<close> (run locks, with time), \<open>app_step\<close> (requests and
  runs between two requests), and \<open>runner_step\<close>, whose states hold the runs of all replicas over one store; a replica may shut down or
  crash there. \<open>own_turn\<close> is the part of it that one task does by itself. A whole session is \<open>graph_session\<close>: a first run and
  one run per answer, each from the checkpoint the last one left, also after a crash, with what the runner
  publishes in between. Interfaces are locales, interpreted on the model's own
  definitions: \<open>budget_store\<close>, \<open>lock_store\<close> and \<open>idem_store\<close> (both stores, the world, the runner),
  \<open>writer_port\<close> and \<open>loop_services\<close> (both prompt writers), \<open>planner_contract\<close> and
  \<open>slot_filler_contract\<close> (both planners and fillers), \<open>graph_ports\<close> (both wirings), \<open>event_bus\<close> (both
  buses), \<open>object_store\<close> (the world's map and the local directory; a bucket that keeps what it acknowledges
  satisfies it too).

  \<^bold>\<open>What is shown.\<close> Of a generation run: C1 to C6 below. Of a session: nothing is generated without
  approval, it asks at most four questions, how its stream closes, its counter covers its record, what it
  proposes and how it refuses (C7 to C14, \<open>Session_Theorems\<close>). Of the process: one run per session
  under every interleaving, who is admitted, a started run is the graph's own and comes to rest, deadline, cancel, scrubbed log
  lines, retries of any request on any replica, refused requests, ingest before start, the lease of the run lock, reconnecting clients, the wire (C15
  to C27, \<open>Process_Theorems\<close>). Of the services: the
  Redis refinement over time, concurrent budget and idempotency, what the image generator delivers, retries, preset library,
  gate, prompts, forecast, local storage, throttle (C28 to C40, \<open>Service_Theorems\<close>).

  \<^bold>\<open>Termination.\<close> No fuel is used. The graph runs by a measure (twice the re-asks left plus the rank of
  the node), because the only back edge is the bounded re-ask; the attempts of a step and the retries
  of a request recurse on their own counters.

  \<^bold>\<open>Parameters.\<close> Code outside \<open>src/\<close> is an argument: the chat and image endpoints with the JSON codec,
  pillow, numpy's norm and dot product, InsightFace, the file system and YAML parser of the preset
  library, JSON text and decimals in it (\<open>wire\<close>), structlog's processors, the S3 client. Of LangGraph the model uses: merged state, a checkpoint per thread
  before each node, re-execution of the pending node on resume. Redis assigns increasing stream ids and
  runs scripts atomically. \<open>uuid4\<close> tokens are fresh.

  \<^bold>\<open>Time.\<close> The world has no clock, so its keys never expire; \<open>Expiry\<close> adds instants and TTLs to the
  Redis store alone, and shows that within the TTLs the two agree. Nothing in the code bounds how long a
  run holds its lock outside \<open>asyncio.timeout\<close>; that it stays within the grace is the hypothesis
  \<open>in_time\<close> of the lease. The streams of Redis have instants of their own, a cap and a TTL (\<open>Event_Bus\<close>).

  \<^bold>\<open>Not modelled.\<close> Failures of the store, the bus and the storage in the middle of a node or a handler
  (\<open>unrecorded_start_blocks\<close> states what one of them leads to), full disks, log lines other than the outcome event, the texts that pydantic, boto and
  Python itself give their exceptions, the
  matching of paths to handlers by FastAPI, symbolic links, modules that only re-export, docstrings and protocols without behaviour. Lua's numbers are taken as
  exact and printed in full, which they are below \<open>10 ^ 14\<close> micro-dollars. A node that is stopped midway (deadline,
  cancel) may leave any world that keeps the locks and the other sessions (\<open>partial_run\<close>).
\<close>

section \<open>The generation loop\<close>

text \<open>C1: A delivered frame is one the loop recorded: the \<open>result\<close> event of a drive names an
iteration of the stored session, with that iteration's measured similarity and reference, and its
band under the session's frozen thresholds is never below the identity floor.\<close>

theorem delivered_frame_above_floor:
  assumes "keyed w" and "get_session k (w_store w) = Some s" and "ss_thresholds s = Some t"
    and "best_from t k s"
    and "drive (with_or_writer c env) k p crop addendum w = (Inr (ResultEvent best n g cost meta), w')"
  shows "\<exists>s' it. get_session k (w_store w') = Some s' \<and> it \<in> set (ss_iterations s')
    \<and> it_similarity it = Some (br_similarity best) \<and> br_iteration_n best = it_n it
    \<and> br_result_ref best = result_ref k (it_n it)
    \<and> br_verdict best = band (br_similarity best) t \<and> br_verdict best \<noteq> BELOW_FLOOR"
proof -
  from or_loop.drive_spec [OF assms(1,5)] assms(2-4) obtain s' h crop' ref b where
    p: "run_post h t k crop' ref b s w (ResultEvent best n g cost meta) s' w'" by auto
  then have "best_from t k s'" "ss_best_result s' = Some best" "get_session k (w_store w') = Some s'"
    using assms(4) by (auto simp: run_post_def reports_def)
  then show ?thesis by (fastforce simp: best_from_def delivers_def best_of_def)
qed

theorem delivered_frame_above_floor_witness:
  "\<exists>w' s' it. drive (with_or_writer sample_llm sample_env) ''s1'' sample_preset None [] sample_world
      = (Inr sample_result, w')
    \<and> get_session ''s1'' (w_store w') = Some s' \<and> it \<in> set (ss_iterations s')
    \<and> it_similarity it = Some (br_similarity sample_best)"
proof -
  obtain w' where d: "drive (with_or_writer sample_llm sample_env) ''s1'' sample_preset None [] sample_world
      = (Inr sample_result, w')" using sample_drive by blast
  have "best_from sample_thresholds ''s1'' sample_session" by (rule sample_best_from)
  from delivered_frame_above_floor [OF sample_keyed sample_session_stored sample_session_thresholds this
      d [unfolded sample_result_def]] d
  show ?thesis by blast
qed

text \<open>C2: Money. Over a whole run of the loop the session's budget counter moves by exactly the
costs recorded: the writer calls appended to the session's ledger and the iterations appended to it,
in micro-dollars, none of them negative.\<close>

theorem run_spends_what_it_records:
  assumes "keyed w" and "get_session k (w_store w) = Some s" and "0 \<le> used k w"
    and "money_ok env" and "llm_honest c (meter_of (le_pricing env) k (ss_budget_limit s))"
    and "drive (with_or_writer c env) k p crop addendum w = (Inr e, w')"
  shows "\<exists>s' calls its. get_session k (w_store w') = Some s'
    \<and> ss_llm_calls s' = ss_llm_calls s @ calls \<and> ss_iterations s' = ss_iterations s @ its
    \<and> list_all (\<lambda>p. 0 < pc_cost p) calls \<and> list_all (\<lambda>it. 0 \<le> it_cost it) its
    \<and> used k w' = used k w + micro_calls calls + micro_iterations its"
proof -
  have h: "money_ok (with_or_writer c env)
      \<and> llm_honest c (meter_of (le_pricing (with_or_writer c env)) k (ss_budget_limit s))"
    using assms(4,5) by (simp add: money_ok_def bills_ok_def)
  from or_loop.drive_spec [OF assms(1,6)] assms(2) h obtain t s' ref b where
    "run_post True t k crop ref b s w e s' w'" by auto
  then obtain its reqs wa where g: "grows True t k crop s w its reqs (s'\<lparr>ss_fsm_state := GENERATING\<rparr>) wa"
    and u: "used k w' = used k wa" and st: "get_session k (w_store w') = Some s'"
    by (auto simp: run_post_def)
  from g obtain calls where
    "ss_llm_calls s' = ss_llm_calls s @ calls" "ss_iterations s' = ss_iterations s @ its"
    "list_all (\<lambda>p. 0 < pc_cost p) calls" "list_all (\<lambda>it. 0 \<le> it_cost it) its"
    "used k wa = used k w + micro_calls calls + micro_iterations its"
    using assms(3) by (auto simp: grows_def)
  with u st show ?thesis by auto
qed

theorem run_spends_what_it_records_witness:
  "\<exists>w' s' its. drive (with_or_writer sample_llm sample_env) ''s1'' sample_preset None [] sample_world
      = (Inr sample_result, w')
    \<and> get_session ''s1'' (w_store w') = Some s' \<and> ss_iterations s' = sample_iteration # its"
proof -
  obtain w' where d: "drive (with_or_writer sample_llm sample_env) ''s1'' sample_preset None [] sample_world
      = (Inr sample_result, w')" using sample_drive by blast
  from run_spends_what_it_records [OF sample_keyed sample_session_stored sample_used sample_money sample_honest d]
  show ?thesis using d by (auto simp: sample_session_def)
qed

text \<open>C3: A run is bounded: it sends at most (steps of the plan) times (attempts per step) requests
to the image provider, records exactly one iteration per request, and numbers them on from the
ones the session already had.\<close>

theorem run_is_bounded:
  assumes "keyed w" and "get_session k (w_store w) = Some s" and "ss_thresholds s = Some t"
    and "drive (with_or_writer c env) k p crop addendum w = (Inr e, w')"
  shows "\<exists>s' its reqs. get_session k (w_store w') = Some s' \<and> ss_iterations s' = ss_iterations s @ its
    \<and> w_gen_log w' = w_gen_log w @ reqs \<and> length reqs = length its
    \<and> length reqs \<le> length (plan_step_list s p) * nat (step_max_attempts env t)
    \<and> map it_n its = [Suc (length (ss_iterations s))..<Suc (length (ss_iterations s) + length its)]
    \<and> map it_prompt_text its = map (\<lambda>r. Some (gq_prompt r)) reqs"
proof -
  have m: "step_max_attempts (with_or_writer c env) t = step_max_attempts env t"
    by (simp add: step_max_attempts_def)
  from or_loop.drive_spec [OF assms(1,4)] assms(2,3) obtain s' h ref where
    "run_post h t k crop ref (length (plan_step_list s p) * nat (step_max_attempts env t)) s w e s' w'"
    by (auto simp: m)
  then obtain its reqs wa where g: "grows h t k crop s w its reqs (s'\<lparr>ss_fsm_state := GENERATING\<rparr>) wa"
    and u: "w_gen_log w' = w_gen_log wa" "get_session k (w_store w') = Some s'"
      "length its \<le> length (plan_step_list s p) * nat (step_max_attempts env t)"
    by (auto simp: run_post_def)
  from g have a: "list_all2 (answers crop) its reqs" by (simp add: grows_def)
  then have "map it_prompt_text its = map (\<lambda>r. Some (gq_prompt r)) reqs"
    by (induction rule: list_all2_induct) (simp_all add: answers_def)
  with g u list_all2_lengthD [OF a] show ?thesis
    by (intro exI [of _ s'] exI [of _ its] exI [of _ reqs]) (simp add: grows_def del: upt_Suc)
qed

theorem run_is_bounded_witness:
  "\<exists>w' reqs. drive (with_or_writer sample_llm sample_env) ''s1'' sample_preset None [] sample_world
      = (Inr sample_result, w') \<and> w_gen_log w' = reqs \<and> length reqs \<le> 6"
proof -
  obtain w' where d: "drive (with_or_writer sample_llm sample_env) ''s1'' sample_preset None [] sample_world
      = (Inr sample_result, w')" using sample_drive by blast
  from run_is_bounded [OF sample_keyed sample_session_stored sample_session_thresholds d] d
  show ?thesis by (auto simp: sample_attempt_bound sample_gen_log)
qed

text \<open>C4: The stream of a run ends in exactly one terminal event, published last: the event the
drive returns. It reports the stored session: a \<open>result\<close> exactly when a best frame is recorded and
the session is done, a \<open>failed\<close> otherwise, with the session's own iteration count, charged
generations and cost.\<close>

theorem run_ends_in_one_terminal_event:
  assumes "keyed w" and "drive (with_or_writer c env) k p crop addendum w = (Inr e, w')"
  shows "\<exists>s' es. get_session k (w_store w') = Some s' \<and> reports e s' \<and> is_terminal e
    \<and> w_streams w' k = w_streams w k @ es @ [e] \<and> (\<forall>x\<in>set es. \<not> is_terminal x)"
  using or_loop.drive_spec [OF assms] reports_terminal terminal_ends by (fastforce simp: run_post_def)

theorem run_ends_in_one_terminal_event_witness:
  "\<exists>w' es. drive (with_or_writer sample_llm sample_env) ''s1'' sample_preset None [] sample_world
      = (Inr sample_result, w') \<and> w_streams w' ''s1'' = es @ [sample_result]"
proof -
  obtain w' where d: "drive (with_or_writer sample_llm sample_env) ''s1'' sample_preset None [] sample_world
      = (Inr sample_result, w')" using sample_drive by blast
  from run_ends_in_one_terminal_event [OF sample_keyed d] d show ?thesis
    by (auto simp: sample_world_def)
qed

text \<open>C5: Identity anchoring. Every request the loop sends carries exactly one image to edit and
the face crop the run was started with, unchanged through the chain of steps; the first request
edits the stored reference photo itself.\<close>

theorem requests_are_anchored:
  assumes "keyed w" and "get_session k (w_store w) = Some s" and "get_face (ss_face_key s) (w_store w) = Some f"
    and "drive (with_or_writer c env) k p crop addendum w = (Inr e, w')"
  shows "\<exists>reqs. w_gen_log w' = w_gen_log w @ reqs
    \<and> (\<forall>r\<in>set reqs. gq_face_crop r = crop \<and> length (gq_reference_images r) = 1)
    \<and> (reqs \<noteq> [] \<longrightarrow> Some (gq_reference_images (hd reqs)) = map_option (\<lambda>r. [r]) (w_objects w (fp_photo_ref f)))"
proof -
  from or_loop.drive_spec [OF assms(1,4)] assms(2,3) obtain t s' h b where
    "run_post h t k crop (w_objects w (fp_photo_ref f)) b s w e s' w'" by auto
  then obtain its reqs wa where g: "grows h t k crop s w its reqs (s'\<lparr>ss_fsm_state := GENERATING\<rparr>) wa"
    and u: "w_gen_log w' = w_gen_log wa"
      "reqs \<noteq> [] \<longrightarrow> Some (gq_reference_images (hd reqs)) = map_option (\<lambda>r. [r]) (w_objects w (fp_photo_ref f))"
    by (auto simp: run_post_def)
  from g have "list_all2 (answers crop) its reqs" by (simp add: grows_def)
  then have "\<forall>r\<in>set reqs. gq_face_crop r = crop \<and> length (gq_reference_images r) = 1"
    by (auto simp: list_all2_conv_all_nth in_set_conv_nth answers_def)
  with g u show ?thesis by (auto simp: grows_def)
qed

theorem requests_are_anchored_witness:
  "\<exists>w' reqs. drive (with_or_writer sample_llm sample_env) ''s1'' sample_preset None [] sample_world
      = (Inr sample_result, w') \<and> w_gen_log w' = reqs
    \<and> (\<forall>r\<in>set reqs. gq_face_crop r = None \<and> length (gq_reference_images r) = 1)"
proof -
  obtain w' where d: "drive (with_or_writer sample_llm sample_env) ''s1'' sample_preset None [] sample_world
      = (Inr sample_result, w')" using sample_drive by blast
  from requests_are_anchored [OF sample_keyed sample_session_stored _ d, of sample_face] d
  show ?thesis by (auto simp: sample_face_key sample_gen_log)
qed

text \<open>C6: Execute once. A run under an idempotency key leaves a record with which every later run
under that key returns the same terminal event and changes nothing: no request to any provider, no
event published, nothing stored.\<close>

theorem run_executes_once:
  assumes "loop_run env k p key crop addendum w = (Inr e, w')"
  shows "loop_run env k' p' key crop' addendum' w' = (Inr e, w') \<and> is_terminal e"
proof -
  from loop_run_result [OF assms] obtain payload where p: "w_idem_get key w' = Some payload"
    "le_load env payload = Inr e" "is_terminal e" by blast
  have "fst (loop_run env k' p' key crop' addendum' w') = Inr e"
    using p by (simp add: loop_run_def obind_def world_idem.run_once_replay)
  with loop_run_replay [OF p(1)] p(3) show ?thesis by (metis prod.collapse)
qed

theorem run_executes_once_witness:
  "\<exists>w'. loop_run sample_codec_env ''s1'' sample_preset ''key'' None [] sample_world = (Inr sample_result, w')
    \<and> loop_run sample_codec_env ''s2'' sample_preset ''key'' None [] w' = (Inr sample_result, w')"
proof -
  obtain w' where r: "loop_run sample_codec_env ''s1'' sample_preset ''key'' None [] sample_world
      = (Inr sample_result, w')" using sample_loop_run by blast
  from run_executes_once [OF this] r show ?thesis by blast
qed

end
